(* ===== verification/Prelude.thy ===== *)
theory Prelude
  imports Main "HOL-Library.Word" "HOL-Library.Multiset" "HOL-Library.Monad_Syntax"
begin

text \<open>
  Shared vocabulary of the development: names for the fixed-width integers of
  \<^verbatim>\<open>src/server/shared/Define.h\<close>, the error-sum bind that threads C++ exceptions, the
  little-endian byte view of integers, memory copies into a byte array, and the generic
  facts on lists, sums and words that the component theories share. Facts that several
  proofs need are collected in the \<open>named_theorems\<close> below.
\<close>

section \<open>Collections\<close>

named_theorems heap_simps \<open>reads and writes of the session and connection stores\<close>
named_theorems queue_simps \<open>the operations of the locked queue, for evaluating them\<close>

section \<open>Machine integers\<close>

unbundle bit_operations_syntax

type_synonym u8 = "8 word"
type_synonym u16 = "16 word"
type_synonym u32 = "32 word"
type_synonym u64 = "64 word"

text \<open>
  \<^verbatim>\<open>int32\<close> values are kept as the same 32 bits; \<open>sint\<close> reads them as two's complement.
\<close>

type_synonym i32 = "32 word"

text \<open>\<^verbatim>\<open>size_t\<close> sums wrap at 64 bits; positions are natural numbers.\<close>

definition size_add :: "nat \<Rightarrow> nat \<Rightarrow> nat" where
  "size_add a b = (a + b) mod 2 ^ 64"

lemma size_add_small [simp]: "a + b < 2 ^ 64 \<Longrightarrow> size_add a b = a + b"
  by (simp add: size_add_def)

lemma size_add_le: "size_add a b \<le> a + b"
  by (simp add: size_add_def)

section \<open>Exceptions as sums\<close>

fun bind_sum :: "'e + 'a \<Rightarrow> ('a \<Rightarrow> 'e + 'b) \<Rightarrow> 'e + 'b" where
  "bind_sum (Inl e) f = Inl e"
| "bind_sum (Inr x) f = f x"

lemma bind_sum_Inr_iff: "bind_sum m f = Inr y \<longleftrightarrow> (\<exists>x. m = Inr x \<and> f x = Inr y)"
  by (cases m) auto

lemma bind_sum_assoc: "bind_sum (bind_sum m f) g = bind_sum m (\<lambda>x. bind_sum (f x) g)"
  by (cases m) auto

text \<open>
  An exception that nobody catches ends the process; from there on the model has no state,
  which is \<open>None\<close> in the components that keep no error value of their own.
\<close>

fun uncaught :: "'e + 'a \<Rightarrow> 'a option" where
  "uncaught (Inl e) = None"
| "uncaught (Inr x) = Some x"

lemma uncaught_eq_Some [simp]: "uncaught m = Some x \<longleftrightarrow> m = Inr x"
  by (cases m) auto

section \<open>Bytes of an integer\<close>

fun le_enc :: "nat \<Rightarrow> nat \<Rightarrow> u8 list" where
  "le_enc 0 x = []"
| "le_enc (Suc n) x = word_of_nat (x mod 256) # le_enc n (x div 256)"

fun le_dec :: "u8 list \<Rightarrow> nat" where
  "le_dec [] = 0"
| "le_dec (b # bs) = unat b + 256 * le_dec bs"

lemma length_le_enc [simp]: "length (le_enc n x) = n"
  by (induction n arbitrary: x) auto

lemma le_enc_numeral:
  "le_enc (numeral k) x = word_of_nat (x mod 256) # le_enc (pred_numeral k) (x div 256)"
  by (simp only: numeral_eq_Suc [of k] le_enc.simps)

lemma le_enc_4:
  "le_enc 4 x = [word_of_nat (x mod 256), word_of_nat (x div 256 mod 256),
     word_of_nat (x div 256 div 256 mod 256), word_of_nat (x div 256 div 256 div 256 mod 256)]"
  by (simp add: le_enc_numeral numeral_3_eq_3)

lemma unat_byte_of_nat: "x < 256 \<Longrightarrow> unat (word_of_nat x :: u8) = x"
  by (simp add: unat_of_nat)

lemma unat_byte_less [simp]: "unat (b :: u8) < 256"
  using unsigned_less [of b] by simp

lemma unat_u32_less [simp]: "unat (w :: u32) < 4294967296"
  using unsigned_less [of w] by simp

lemma le_dec_enc: "le_dec (le_enc n x) = x mod 256 ^ n"
proof (induction n arbitrary: x)
  case 0
  then show ?case by simp
next
  case (Suc n)
  have "x mod 256 + 256 * (x div 256 mod 256 ^ n) = x mod (256 * 256 ^ n)"
    by (simp add: mod_mult2_eq)
  then show ?case by (simp add: Suc unat_byte_of_nat)
qed

lemma le_dec_bound: "le_dec bs < 256 ^ length bs"
proof (induction bs)
  case Nil
  then show ?case by simp
next
  case (Cons b bs)
  have step: "x + 256 * y < 256 * k" if "x < 256" "y < k" for x y k :: nat
    using that by linarith
  have "unat b + 256 * le_dec bs < 256 * 256 ^ length bs"
    by (rule step) (simp, rule Cons.IH)
  then show ?case by simp
qed

lemma le_enc_dec: "le_enc (length bs) (le_dec bs) = bs"
proof (induction bs)
  case Nil
  then show ?case by simp
next
  case (Cons b bs)
  have b: "unat b < 256" by simp
  then have "(unat b + 256 * le_dec bs) mod 256 = unat b"
    and "(unat b + 256 * le_dec bs) div 256 = le_dec bs"
    by simp_all
  with Cons show ?case by simp
qed

lemma le_dec_append: "le_dec (xs @ ys) = le_dec xs + 256 ^ length xs * le_dec ys"
  by (induction xs) (auto simp: algebra_simps)

section \<open>Memory copies\<close>

text \<open>\<^verbatim>\<open>memcpy(dst + pos, src, n)\<close> into an array that is long enough.\<close>

definition overwrite :: "nat \<Rightarrow> 'a list \<Rightarrow> 'a list \<Rightarrow> 'a list" where
  "overwrite pos src dst = take pos dst @ src @ drop (pos + length src) dst"

lemma length_overwrite [simp]:
  "pos + length src \<le> length dst \<Longrightarrow> length (overwrite pos src dst) = length dst"
  by (simp add: overwrite_def)

lemma overwrite_read:
  "pos \<le> length dst \<Longrightarrow> take (length src) (drop pos (overwrite pos src dst)) = src"
  by (simp add: overwrite_def)

lemma overwrite_end: "overwrite (length dst) src dst = dst @ src"
  by (simp add: overwrite_def)

lemma overwrite_append:
  "length old = length src \<Longrightarrow> overwrite (length pre) src (pre @ old @ post) = pre @ src @ post"
  by (simp add: overwrite_def)

section \<open>All results of a partial operation\<close>

text \<open>What an operation that may not return, or that may fail, promises for when it returns.\<close>

definition all_results :: "('a \<Rightarrow> bool) \<Rightarrow> 'a option \<Rightarrow> bool" where
  "all_results P m \<longleftrightarrow> (\<forall>x. m = Some x \<longrightarrow> P x)"

lemma all_results_intros:
  "P x \<Longrightarrow> all_results P (Some x)"
  "all_results P None"
  "(\<And>z. n = Some z \<Longrightarrow> all_results P (f z)) \<Longrightarrow> all_results P (n \<bind> f)"
  "(b \<Longrightarrow> all_results P m) \<Longrightarrow> (\<not> b \<Longrightarrow> all_results P m') \<Longrightarrow> all_results P (if b then m else m')"
  "(\<And>u v. p = (u, v) \<Longrightarrow> all_results P (h u v)) \<Longrightarrow> all_results P (case p of (u, v) \<Rightarrow> h u v)"
  "(opt = None \<Longrightarrow> all_results P m) \<Longrightarrow> (\<And>z. opt = Some z \<Longrightarrow> all_results P (k z)) \<Longrightarrow>
     all_results P (case opt of None \<Rightarrow> m | Some z \<Rightarrow> k z)"
  by (auto simp: all_results_def bind_eq_Some_conv split: prod.splits option.splits)

lemma all_resultsD: "all_results P m \<Longrightarrow> m = Some x \<Longrightarrow> P x"
  by (simp add: all_results_def)

end
