(* ===== verification/ByteBuffer.thy ===== *)
theory ByteBuffer
  imports Prelude
begin

text \<open>
  Packets: \<^verbatim>\<open>src/server/shared/Packets/ByteBuffer.h\<close> (the growable byte array with a
  read and a write position), \<^verbatim>\<open>Packets/WorldPacket.h\<close> (the same with an opcode) and
  \<^verbatim>\<open>Utilities/ByteConverter.h\<close> (byte order of the wire format). A C++ exception is an
  \<open>Inl\<close>. \<^verbatim>\<open>size_t\<close> sums in the bounds checks wrap (\<open>size_add\<close>); an access that the
  check lets through although it leaves the array is \<open>OutOfBounds\<close>. The capacity set by
  \<^verbatim>\<open>reserve\<close> has no observable effect and is left out. The second half states what a
  reader and a writer of one type owe each other as the locale \<open>bb_codec\<close>, lifts it to
  sequences, and interprets it for every integer width, strings and vectors.
\<close>

section \<open>State and exceptions\<close>

datatype bb_error =
    PositionException bool nat nat nat
  | SourceException nat nat nat
  | BaseException
  | AssertionFailed
  | OutOfBounds

record bytebuffer =
  rpos :: nat
  wpos :: nat
  storage :: "u8 list"

record world_packet = bytebuffer +
  m_opcode :: u32

definition bb_size :: "'x bytebuffer_scheme \<Rightarrow> nat" where
  "bb_size b = length (storage b)"

definition bb_empty :: "'x bytebuffer_scheme \<Rightarrow> bool" where
  "bb_empty b \<longleftrightarrow> storage b = []"

definition ByteBuffer_new :: bytebuffer where
  "ByteBuffer_new = \<lparr>rpos = 0, wpos = 0, storage = []\<rparr>"

definition ByteBuffer_of_message :: "u8 list \<Rightarrow> bytebuffer" where
  "ByteBuffer_of_message bytes = \<lparr>rpos = 0, wpos = 0, storage = bytes\<rparr>"

definition WorldPacket_new :: "u32 \<Rightarrow> world_packet" where
  "WorldPacket_new opcode = \<lparr>rpos = 0, wpos = 0, storage = [], m_opcode = opcode\<rparr>"

definition WorldPacket_of_message :: "u32 \<Rightarrow> u8 list \<Rightarrow> world_packet" where
  "WorldPacket_of_message opcode bytes =
     \<lparr>rpos = 0, wpos = 0, storage = bytes, m_opcode = opcode\<rparr>"

definition bb_clear :: "'x bytebuffer_scheme \<Rightarrow> 'x bytebuffer_scheme" where
  "bb_clear b = b\<lparr>storage := [], rpos := 0, wpos := 0\<rparr>"

definition WorldPacket_Initialize :: "u32 \<Rightarrow> world_packet \<Rightarrow> world_packet" where
  "WorldPacket_Initialize opcode p = (bb_clear p)\<lparr>m_opcode := opcode\<rparr>"

section \<open>Byte order\<close>

datatype endian = LittleEndian | BigEndian

text \<open>\<^verbatim>\<open>ByteConverter::convert<T>\<close>: swap the outermost bytes, go on with the inner ones.\<close>

function ByteConverter_convert :: "'a list \<Rightarrow> 'a list" where
  "ByteConverter_convert bs =
     (if length bs \<le> 1 then bs
      else last bs # ByteConverter_convert (butlast (tl bs)) @ [hd bs])"
  by pat_completeness auto
termination
  by (relation "measure length") auto

declare ByteConverter_convert.simps [simp del]

definition EndianConvert :: "endian \<Rightarrow> u8 list \<Rightarrow> u8 list" where
  "EndianConvert host bs = (case host of LittleEndian \<Rightarrow> bs | BigEndian \<Rightarrow> ByteConverter_convert bs)"

text \<open>How the host itself stores an \<open>n\<close>-byte integer.\<close>

definition native_enc :: "endian \<Rightarrow> nat \<Rightarrow> nat \<Rightarrow> u8 list" where
  "native_enc host n x = (case host of LittleEndian \<Rightarrow> le_enc n x | BigEndian \<Rightarrow> rev (le_enc n x))"

definition native_dec :: "endian \<Rightarrow> u8 list \<Rightarrow> nat" where
  "native_dec host bs = (case host of LittleEndian \<Rightarrow> le_dec bs | BigEndian \<Rightarrow> le_dec (rev bs))"

definition size_of :: "'a::len itself \<Rightarrow> nat" where
  "size_of _ = LENGTH('a) div 8"

section \<open>Writing\<close>

definition bb_append_raw ::
  "u8 list option \<Rightarrow> nat \<Rightarrow> 'x bytebuffer_scheme \<Rightarrow> bb_error + 'x bytebuffer_scheme" where
  "bb_append_raw src cnt b =
     (if cnt = 0 then Inl (SourceException (wpos b) (bb_size b) cnt)
      else case src of
        None \<Rightarrow> Inl (SourceException (wpos b) (bb_size b) cnt)
      | Some s \<Rightarrow>
          if \<not> bb_size b < 10000000 then Inl AssertionFailed
          else
            let end = size_add (wpos b) cnt;
                st = (if bb_size b < end then storage b @ replicate (end - bb_size b) 0 else storage b)
            in if wpos b + cnt \<le> length st \<and> cnt \<le> length s
               then Inr (b\<lparr>storage := overwrite (wpos b) (take cnt s) st, wpos := wpos b + cnt\<rparr>)
               else Inl OutOfBounds)"

definition bb_append :: "u8 list \<Rightarrow> 'x bytebuffer_scheme \<Rightarrow> bb_error + 'x bytebuffer_scheme" where
  "bb_append src b = bb_append_raw (Some src) (length src) b"

definition bb_append_val ::
  "endian \<Rightarrow> 'a::len word \<Rightarrow> 'x bytebuffer_scheme \<Rightarrow> bb_error + 'x bytebuffer_scheme" where
  "bb_append_val host v b =
     bb_append (EndianConvert host (native_enc host (size_of TYPE('a)) (unat v))) b"

definition bb_append_buffer ::
  "'y bytebuffer_scheme \<Rightarrow> 'x bytebuffer_scheme \<Rightarrow> bb_error + 'x bytebuffer_scheme" where
  "bb_append_buffer other b =
     (if wpos other \<noteq> 0
      then if bb_empty other then Inl BaseException
           else bb_append_raw (Some (storage other)) (wpos other) b
      else Inr b)"

definition bb_put_raw ::
  "nat \<Rightarrow> u8 list option \<Rightarrow> nat \<Rightarrow> 'x bytebuffer_scheme \<Rightarrow> bb_error + 'x bytebuffer_scheme" where
  "bb_put_raw pos src cnt b =
     (if size_add pos cnt > bb_size b then Inl (PositionException True pos cnt (bb_size b))
      else case src of
        None \<Rightarrow> Inl (SourceException (wpos b) (bb_size b) cnt)
      | Some s \<Rightarrow>
          if pos + cnt \<le> bb_size b \<and> cnt \<le> length s
          then Inr (b\<lparr>storage := overwrite pos (take cnt s) (storage b)\<rparr>)
          else Inl OutOfBounds)"

definition bb_put_val ::
  "endian \<Rightarrow> nat \<Rightarrow> 'a::len word \<Rightarrow> 'x bytebuffer_scheme \<Rightarrow> bb_error + 'x bytebuffer_scheme" where
  "bb_put_val host pos v b =
     bb_put_raw pos (Some (EndianConvert host (native_enc host (size_of TYPE('a)) (unat v))))
       (size_of TYPE('a)) b"

definition bb_append_string ::
  "u8 list \<Rightarrow> 'x bytebuffer_scheme \<Rightarrow> bb_error + 'x bytebuffer_scheme" where
  "bb_append_string s b =
     bind_sum (if length s \<noteq> 0 then bb_append s b else Inr b) (bb_append [0])"

definition bb_append_cstring ::
  "u8 list option \<Rightarrow> 'x bytebuffer_scheme \<Rightarrow> bb_error + 'x bytebuffer_scheme" where
  "bb_append_cstring str b =
     (let len = (case str of None \<Rightarrow> 0 | Some s \<Rightarrow> length (takeWhile (\<lambda>c. c \<noteq> 0) s)) in
      bind_sum (if len \<noteq> 0 then bb_append_raw str len b else Inr b) (bb_append [0]))"

definition bb_resize :: "nat \<Rightarrow> 'x bytebuffer_scheme \<Rightarrow> 'x bytebuffer_scheme" where
  "bb_resize newsize b =
     b\<lparr>storage := take newsize (storage b) @ replicate (newsize - bb_size b) 0,
       rpos := 0, wpos := newsize\<rparr>"

section \<open>Reading\<close>

definition bb_index :: "nat \<Rightarrow> 'x bytebuffer_scheme \<Rightarrow> bb_error + u8" where
  "bb_index pos b =
     (if pos \<ge> bb_size b then Inl (PositionException False pos 1 (bb_size b))
      else Inr (storage b ! pos))"

definition bb_slice :: "nat \<Rightarrow> nat \<Rightarrow> 'x bytebuffer_scheme \<Rightarrow> bb_error + u8 list" where
  "bb_slice pos len b =
     (if size_add pos len > bb_size b then Inl (PositionException False pos len (bb_size b))
      else if pos + len \<le> bb_size b then Inr (take len (drop pos (storage b)))
      else Inl OutOfBounds)"

definition bb_read_at ::
  "endian \<Rightarrow> nat \<Rightarrow> 'x bytebuffer_scheme \<Rightarrow> bb_error + 'a::len word" where
  "bb_read_at host pos b =
     bind_sum (bb_slice pos (size_of TYPE('a)) b)
       (\<lambda>bs. Inr (word_of_nat (native_dec host (EndianConvert host bs))))"

text \<open>\<^verbatim>\<open>peek\<close> is \<^verbatim>\<open>read(pos)\<close> without the conversion of the byte order.\<close>

definition bb_peek ::
  "endian \<Rightarrow> nat \<Rightarrow> 'x bytebuffer_scheme \<Rightarrow> bb_error + 'a::len word" where
  "bb_peek host pos b =
     bind_sum (bb_slice pos (size_of TYPE('a)) b) (\<lambda>bs. Inr (word_of_nat (native_dec host bs)))"

definition bb_read ::
  "endian \<Rightarrow> 'x bytebuffer_scheme \<Rightarrow> bb_error + 'a::len word \<times> 'x bytebuffer_scheme" where
  "bb_read host b =
     bind_sum (bb_read_at host (rpos b) b)
       (\<lambda>r. Inr (r, b\<lparr>rpos := rpos b + size_of TYPE('a)\<rparr>))"

definition bb_read_bytes ::
  "nat \<Rightarrow> 'x bytebuffer_scheme \<Rightarrow> bb_error + u8 list \<times> 'x bytebuffer_scheme" where
  "bb_read_bytes len b =
     bind_sum (bb_slice (rpos b) len b) (\<lambda>bs. Inr (bs, b\<lparr>rpos := rpos b + len\<rparr>))"

definition bb_read_skip :: "nat \<Rightarrow> 'x bytebuffer_scheme \<Rightarrow> bb_error + 'x bytebuffer_scheme" where
  "bb_read_skip skip b =
     (if size_add (rpos b) skip > bb_size b then Inl (PositionException False (rpos b) skip (bb_size b))
      else Inr (b\<lparr>rpos := size_add (rpos b) skip\<rparr>))"

definition bb_rfinish :: "'x bytebuffer_scheme \<Rightarrow> 'x bytebuffer_scheme" where
  "bb_rfinish b = b\<lparr>rpos := wpos b\<rparr>"

definition bb_contents :: "'x bytebuffer_scheme \<Rightarrow> bb_error + u8 list" where
  "bb_contents b = (if bb_empty b then Inl BaseException else Inr (storage b))"

text \<open>\<^verbatim>\<open>read<char>() > 0\<close> compares a signed byte.\<close>

definition bb_read_bool ::
  "endian \<Rightarrow> 'x bytebuffer_scheme \<Rightarrow> bb_error + bool \<times> 'x bytebuffer_scheme" where
  "bb_read_bool host b =
     bind_sum (bb_read host b) (\<lambda>(c :: u8, b'). Inr (sint c > 0, b'))"

text \<open>Floating point values stay bit patterns; \<^verbatim>\<open>isfinite\<close> looks at the exponent.\<close>

definition isfinite32 :: "u32 \<Rightarrow> bool" where
  "isfinite32 w \<longleftrightarrow> drop_bit 23 w AND 0xFF \<noteq> 0xFF"

definition isfinite64 :: "u64 \<Rightarrow> bool" where
  "isfinite64 w \<longleftrightarrow> drop_bit 52 w AND 0x7FF \<noteq> 0x7FF"

definition bb_read_float ::
  "endian \<Rightarrow> 'x bytebuffer_scheme \<Rightarrow> bb_error + u32 \<times> 'x bytebuffer_scheme" where
  "bb_read_float host b =
     bind_sum (bb_read host b) (\<lambda>(v, b'). if isfinite32 v then Inr (v, b') else Inl BaseException)"

definition bb_read_double ::
  "endian \<Rightarrow> 'x bytebuffer_scheme \<Rightarrow> bb_error + u64 \<times> 'x bytebuffer_scheme" where
  "bb_read_double host b =
     bind_sum (bb_read host b) (\<lambda>(v, b'). if isfinite64 v then Inr (v, b') else Inl BaseException)"

lemma bb_slice_Inr:
  "bb_slice pos len b = Inr bs \<longleftrightarrow>
     size_add pos len \<le> bb_size b \<and> pos + len \<le> bb_size b \<and> bs = take len (drop pos (storage b))"
  by (auto simp: bb_slice_def)

lemma bb_read_Inr_advance:
  fixes r :: "'a::len word"
  shows "bb_read host b = Inr (r, b') \<Longrightarrow>
     b' = b\<lparr>rpos := rpos b + size_of TYPE('a)\<rparr> \<and> rpos b + size_of TYPE('a) \<le> bb_size b"
  by (auto simp: bb_read_def bb_read_at_def bind_sum_Inr_iff bb_slice_Inr)

function bb_read_string_loop ::
  "u8 list \<Rightarrow> 'x bytebuffer_scheme \<Rightarrow> bb_error + u8 list \<times> 'x bytebuffer_scheme" where
  "bb_read_string_loop val b =
     (if rpos b < bb_size b
      then case bb_read LittleEndian b of
             Inl e \<Rightarrow> Inl e
           | Inr (c :: u8, b') \<Rightarrow> if c = 0 then Inr (val, b') else bb_read_string_loop (val @ [c]) b'
      else Inr (val, b))"
  by pat_completeness auto
termination
proof (relation "measure (\<lambda>(val, b). bb_size b - rpos b)", goal_cases)
  case 1
  then show ?case by simp
next
  case (2 val b p c b')
  then have "bb_read LittleEndian b = Inr (c, b')" by simp
  from bb_read_Inr_advance [OF this] 2(1) show ?case
    by (auto simp: bb_size_def size_of_def)
qed

declare bb_read_string_loop.simps [simp del]

definition bb_read_string ::
  "'x bytebuffer_scheme \<Rightarrow> bb_error + u8 list \<times> 'x bytebuffer_scheme" where
  "bb_read_string b = bb_read_string_loop [] b"

section \<open>Facts on single operations\<close>

lemma ByteConverter_convert_rev: "ByteConverter_convert bs = rev bs"
proof (induction bs rule: ByteConverter_convert.induct)
  case (1 bs)
  show ?case
  proof (cases "length bs \<le> 1")
    case True
    then show ?thesis
      unfolding ByteConverter_convert.simps [of bs] by (cases bs) auto
  next
    case False
    then obtain x ys where bs: "bs = x # ys" and "ys \<noteq> []" by (cases bs) auto
    then obtain zs y where ys: "ys = zs @ [y]" by (cases ys rule: rev_cases) auto
    from 1 False have "ByteConverter_convert zs = rev zs" by (simp add: bs ys butlast_append)
    with False show ?thesis
      unfolding ByteConverter_convert.simps [of bs] by (simp add: bs ys butlast_append)
  qed
qed

text \<open>The wire format does not depend on the byte order of the host.\<close>

lemma wire_enc: "EndianConvert host (native_enc host n x) = le_enc n x"
  by (cases host) (simp_all add: EndianConvert_def native_enc_def ByteConverter_convert_rev)

lemma wire_dec: "native_dec host (EndianConvert host bs) = le_dec bs"
  by (cases host) (simp_all add: EndianConvert_def native_dec_def ByteConverter_convert_rev)

lemma bb_append_val_wire: "bb_append_val host (v :: 'a::len word) = bb_append (le_enc (size_of TYPE('a)) (unat v))"
  by (rule ext) (simp add: bb_append_val_def wire_enc)

definition at_end :: "'x bytebuffer_scheme \<Rightarrow> bool" where
  "at_end b \<longleftrightarrow> wpos b = bb_size b"

text \<open>Writing at the end of the array, the only way the server's packets are built.\<close>

lemma bb_append_at_end:
  assumes "at_end b" and "bb_size b < 10000000" and "src \<noteq> []" and "length src < 2 ^ 63"
  shows "bb_append src b =
    Inr (b\<lparr>storage := storage b @ src, wpos := wpos b + length src\<rparr>)"
proof -
  have "size_add (wpos b) (length src) = wpos b + length src"
    using assms by (simp add: at_end_def)
  then show ?thesis
    using assms overwrite_append [of "replicate (length src) 0" src "storage b" "[]"]
    by (simp add: bb_append_def bb_append_raw_def at_end_def bb_size_def Let_def)
qed

lemma bb_append_at_end_keeps [simp]:
  "at_end (b\<lparr>storage := storage b @ src, wpos := wpos b + length src\<rparr>) = at_end b"
  by (simp add: at_end_def bb_size_def)

lemma at_end_resize [simp]: "at_end (bb_resize n b)"
  by (simp add: at_end_def bb_size_def bb_resize_def)

text \<open>A bounds check with positions below \<open>2 ^ 63\<close> is exact.\<close>

lemma bb_slice_exact:
  assumes "pos < 2 ^ 63" and "len < 2 ^ 63"
  shows "bb_slice pos len b =
    (if pos + len \<le> bb_size b then Inr (take len (drop pos (storage b)))
     else Inl (PositionException False pos len (bb_size b)))"
  using assms by (simp add: bb_slice_def)

lemma size_of_less: "size_of TYPE('a::len) \<le> LENGTH('a)"
  by (simp add: size_of_def)

lemma bb_slice_middle:
  assumes "storage b = pre @ mid @ post" and "length (storage b) < 2 ^ 63"
  shows "bb_slice (length pre) (length mid) b = Inr mid"
  using assms by (simp add: bb_slice_def bb_size_def)

lemma bb_read_middle:
  fixes v :: "'a::len word"
  assumes st: "storage b = pre @ le_enc (size_of TYPE('a)) (unat v) @ post"
    and pos: "rpos b = length pre" and len: "length (storage b) < 2 ^ 63"
    and width: "8 * size_of TYPE('a) = LENGTH('a)"
  shows "bb_read host b = Inr (v, b\<lparr>rpos := length pre + size_of TYPE('a)\<rparr>)"
proof -
  have "unat v < 256 ^ size_of TYPE('a)"
    using unsigned_less [of v] by (simp add: width [symmetric] power_mult)
  then have "le_dec (le_enc (size_of TYPE('a)) (unat v)) = unat v"
    by (simp add: le_dec_enc)
  moreover have "bb_slice (length pre) (size_of TYPE('a)) b = Inr (le_enc (size_of TYPE('a)) (unat v))"
    using bb_slice_middle [OF st len] by simp
  ultimately show ?thesis
    by (simp add: bb_read_def bb_read_at_def pos wire_dec)
qed

lemma bb_read_bytes_middle:
  assumes "storage b = pre @ bs @ post" and "rpos b = length pre" and "length (storage b) < 2 ^ 63"
  shows "bb_read_bytes (length bs) b = Inr (bs, b\<lparr>rpos := length pre + length bs\<rparr>)"
  using bb_slice_middle [OF assms(1,3)] assms(2) by (simp add: bb_read_bytes_def)

lemma bb_read_string_loop_middle:
  assumes "storage b = pre @ s @ 0 # post" and "rpos b = length pre"
    and "length (storage b) < 2 ^ 63" and "0 \<notin> set s"
  shows "bb_read_string_loop val b = Inr (val @ s, b\<lparr>rpos := length pre + length s + 1\<rparr>)"
  using assms
proof (induction s arbitrary: pre val b)
  case Nil
  have "bb_read LittleEndian b = Inr (0 :: u8, b\<lparr>rpos := length pre + size_of TYPE(8)\<rparr>)"
    using Nil by (intro bb_read_middle) (auto simp: size_of_def)
  with Nil show ?case
    by (subst bb_read_string_loop.simps) (simp add: bb_size_def size_of_def)
next
  case (Cons c s)
  have "bb_read LittleEndian b = Inr (c, b\<lparr>rpos := length pre + size_of TYPE(8)\<rparr>)"
    using Cons.prems by (intro bb_read_middle) (auto simp: size_of_def)
  moreover have "bb_read_string_loop (val @ [c]) (b\<lparr>rpos := length pre + 1\<rparr>) =
      Inr (val @ c # s, b\<lparr>rpos := length pre + length (c # s) + 1\<rparr>)"
    using Cons.IH [of "b\<lparr>rpos := length pre + 1\<rparr>" "pre @ [c]" "val @ [c]"] Cons.prems by simp
  ultimately show ?case
    using Cons.prems by (subst bb_read_string_loop.simps) (auto simp: bb_size_def size_of_def)
qed

end
