(* ===== verification/ByteCodec.thy ===== *)
theory ByteCodec
  imports ByteBuffer
begin

text \<open>
  Sequences, maps, packed GUIDs and packed dates of
  \<^verbatim>\<open>src/server/shared/Packets/ByteBuffer.h\<close>, and the contract between the writer and
  the reader of one type as the locale \<open>bb_codec\<close>: what the writer appends is what the
  reader, standing at those bytes, returns. Inside the locale the contract is lifted to
  counted sequences; it is interpreted for all integer widths, strings and vectors.
\<close>

section \<open>Sequences and maps\<close>

text \<open>
  \<^verbatim>\<open>operator<<(vector)\<close> and \<^verbatim>\<open>operator<<(list)\<close> write a 32-bit count and the
  elements; \<^verbatim>\<open>operator>>\<close> reads the count and loops with \<^verbatim>\<open>while (vsize--)\<close>.
\<close>

fun put_all ::
  "('v \<Rightarrow> 'b \<Rightarrow> bb_error + 'b) \<Rightarrow> 'v list \<Rightarrow> 'b \<Rightarrow> bb_error + 'b" where
  "put_all put [] b = Inr b"
| "put_all put (x # xs) b = bind_sum (put x b) (put_all put xs)"

fun get_n ::
  "('b \<Rightarrow> bb_error + 'v \<times> 'b) \<Rightarrow> nat \<Rightarrow> 'v list \<Rightarrow> 'b \<Rightarrow> bb_error + 'v list \<times> 'b" where
  "get_n get 0 acc b = Inr (acc, b)"
| "get_n get (Suc n) acc b = bind_sum (get b) (\<lambda>(t, b'). get_n get n (acc @ [t]) b')"

definition bb_put_vector ::
  "endian \<Rightarrow> ('v \<Rightarrow> 'x bytebuffer_scheme \<Rightarrow> bb_error + 'x bytebuffer_scheme) \<Rightarrow> 'v list
    \<Rightarrow> 'x bytebuffer_scheme \<Rightarrow> bb_error + 'x bytebuffer_scheme" where
  "bb_put_vector host put v b =
     bind_sum (bb_append_val host (word_of_nat (length v) :: u32) b) (put_all put v)"

definition bb_get_vector ::
  "endian \<Rightarrow> ('x bytebuffer_scheme \<Rightarrow> bb_error + 'v \<times> 'x bytebuffer_scheme)
    \<Rightarrow> 'x bytebuffer_scheme \<Rightarrow> bb_error + 'v list \<times> 'x bytebuffer_scheme" where
  "bb_get_vector host get b =
     bind_sum (bb_read host b) (\<lambda>(vsize :: u32, b'). get_n get (unat vsize) [] b')"

text \<open>
  A \<^verbatim>\<open>std::map\<close> is written in key order and read back entry by entry with
  \<^verbatim>\<open>insert\<close>, which keeps an entry that is already there.
\<close>

fun map_insert_all :: "('k \<times> 'v) list \<Rightarrow> ('k \<rightharpoonup> 'v) \<Rightarrow> ('k \<rightharpoonup> 'v)" where
  "map_insert_all [] m = m"
| "map_insert_all ((k, v) # kvs) m =
     map_insert_all kvs (case m k of None \<Rightarrow> m(k \<mapsto> v) | Some _ \<Rightarrow> m)"

definition bb_put_pair ::
  "('k \<Rightarrow> 'b \<Rightarrow> bb_error + 'b) \<Rightarrow> ('v \<Rightarrow> 'b \<Rightarrow> bb_error + 'b) \<Rightarrow> 'k \<times> 'v \<Rightarrow> 'b \<Rightarrow> bb_error + 'b" where
  "bb_put_pair putk putv kv b = bind_sum (putk (fst kv) b) (putv (snd kv))"

definition bb_get_pair ::
  "('b \<Rightarrow> bb_error + 'k \<times> 'b) \<Rightarrow> ('b \<Rightarrow> bb_error + 'v \<times> 'b) \<Rightarrow> 'b \<Rightarrow> bb_error + ('k \<times> 'v) \<times> 'b" where
  "bb_get_pair getk getv b =
     bind_sum (getk b) (\<lambda>(k, b1). bind_sum (getv b1) (\<lambda>(v, b2). Inr ((k, v), b2)))"

definition bb_put_map ::
  "endian \<Rightarrow> ('k \<Rightarrow> 'x bytebuffer_scheme \<Rightarrow> bb_error + 'x bytebuffer_scheme)
    \<Rightarrow> ('v \<Rightarrow> 'x bytebuffer_scheme \<Rightarrow> bb_error + 'x bytebuffer_scheme) \<Rightarrow> ('k \<times> 'v) list
    \<Rightarrow> 'x bytebuffer_scheme \<Rightarrow> bb_error + 'x bytebuffer_scheme" where
  "bb_put_map host putk putv m = bb_put_vector host (bb_put_pair putk putv) m"

definition bb_get_map ::
  "endian \<Rightarrow> ('x bytebuffer_scheme \<Rightarrow> bb_error + 'k \<times> 'x bytebuffer_scheme)
    \<Rightarrow> ('x bytebuffer_scheme \<Rightarrow> bb_error + 'v \<times> 'x bytebuffer_scheme)
    \<Rightarrow> 'x bytebuffer_scheme \<Rightarrow> bb_error + ('k \<rightharpoonup> 'v) \<times> 'x bytebuffer_scheme" where
  "bb_get_map host getk getv b =
     bind_sum (bb_get_vector host (bb_get_pair getk getv) b)
       (\<lambda>(kvs, b'). Inr (map_insert_all kvs Map.empty, b'))"

section \<open>Packed GUIDs\<close>

text \<open>
  \<^verbatim>\<open>appendPackGUID\<close> writes a mask byte and the non-zero bytes of a 64-bit GUID. The
  loop ends because every round drops the lowest byte of what is left.
\<close>

lemma unat_drop_byte: "unat (drop_bit 8 (g :: u64)) = unat g div 256"
  unfolding drop_bit_eq_div by (simp add: unat_div_distrib)

lemma drop_byte_less: "(g :: u64) \<noteq> 0 \<Longrightarrow> unat (drop_bit 8 g) < unat g"
  unfolding unat_drop_byte by (simp add: unat_gt_0)

function pack_guid_loop :: "nat \<Rightarrow> u64 \<Rightarrow> u8 \<Rightarrow> u8 list \<Rightarrow> u8 \<times> u8 list" where
  "pack_guid_loop i guid gmask bs =
     (if guid = 0 then (gmask, bs)
      else if guid AND 0xFF \<noteq> 0
        then pack_guid_loop (Suc i) (drop_bit 8 guid) (gmask OR push_bit i 1) (bs @ [ucast (guid AND 0xFF)])
        else pack_guid_loop (Suc i) (drop_bit 8 guid) gmask bs)"
  by pat_completeness auto
termination
  by (relation "measure (\<lambda>(i, guid, gmask, bs). unat guid)") (auto simp: drop_byte_less)

declare pack_guid_loop.simps [simp del]

definition packGUID :: "u64 \<Rightarrow> u8 list" where
  "packGUID guid = (let (gmask, bs) = pack_guid_loop 0 guid 0 [] in gmask # bs)"

definition bb_appendPackGUID ::
  "u64 \<Rightarrow> 'x bytebuffer_scheme \<Rightarrow> bb_error + 'x bytebuffer_scheme" where
  "bb_appendPackGUID guid b = bb_append (packGUID guid) b"

fun read_guid_loop ::
  "endian \<Rightarrow> nat list \<Rightarrow> u8 \<Rightarrow> u64 \<Rightarrow> 'x bytebuffer_scheme \<Rightarrow> bb_error + u64 \<times> 'x bytebuffer_scheme" where
  "read_guid_loop host [] guidmark guid b = Inr (guid, b)"
| "read_guid_loop host (i # is) guidmark guid b =
     (if guidmark AND push_bit i 1 \<noteq> 0
      then if rpos b + 1 > bb_size b then Inl (PositionException False (rpos b) 1 (bb_size b))
           else bind_sum (bb_read host b)
                  (\<lambda>(byte :: u8, b'). read_guid_loop host is guidmark (guid OR push_bit (i * 8) (ucast byte)) b')
      else read_guid_loop host is guidmark guid b)"

definition bb_readPackGUID ::
  "endian \<Rightarrow> 'x bytebuffer_scheme \<Rightarrow> bb_error + u64 \<times> 'x bytebuffer_scheme" where
  "bb_readPackGUID host b =
     (if rpos b + 1 > bb_size b then Inl (PositionException False (rpos b) 1 (bb_size b))
      else bind_sum (bb_read host b) (\<lambda>(guidmark, b'). read_guid_loop host [0..<8] guidmark 0 b'))"

section \<open>Packed dates\<close>

text \<open>
  The calendar (\<^verbatim>\<open>localtime_r\<close>, \<^verbatim>\<open>mktime\<close>) belongs to the C library; what the code
  itself does is the packing of the broken-down time into 32 bits. The fields are
  \<^verbatim>\<open>int\<close>s, kept as 32-bit words as the shifts see them.
\<close>

record tm =
  tm_min :: i32
  tm_hour :: i32
  tm_mday :: i32
  tm_mon :: i32
  tm_year :: i32
  tm_wday :: i32

definition pack_tm :: "tm \<Rightarrow> u32" where
  "pack_tm lt = push_bit 24 (tm_year lt - 100) OR push_bit 20 (tm_mon lt) OR push_bit 14 (tm_mday lt - 1)
     OR push_bit 11 (tm_wday lt) OR push_bit 6 (tm_hour lt) OR tm_min lt"

definition unpack_tm :: "u32 \<Rightarrow> tm" where
  "unpack_tm packedDate =
     \<lparr>tm_min = packedDate AND 0x3F,
      tm_hour = drop_bit 6 packedDate AND 0x1F,
      tm_mday = (drop_bit 14 packedDate AND 0x3F) + 1,
      tm_mon = drop_bit 20 packedDate AND 0xF,
      tm_year = (drop_bit 24 packedDate AND 0x1F) + 100,
      tm_wday = 0\<rparr>"

definition bb_AppendPackedTime ::
  "endian \<Rightarrow> ('t \<Rightarrow> tm) \<Rightarrow> 't \<Rightarrow> 'x bytebuffer_scheme \<Rightarrow> bb_error + 'x bytebuffer_scheme" where
  "bb_AppendPackedTime host localtime t b = bb_append_val host (pack_tm (localtime t)) b"

definition bb_ReadPackedTime ::
  "endian \<Rightarrow> (tm \<Rightarrow> u32) \<Rightarrow> 'x bytebuffer_scheme \<Rightarrow> bb_error + u32 \<times> 'x bytebuffer_scheme" where
  "bb_ReadPackedTime host mktime_tz b =
     bind_sum (bb_read host b) (\<lambda>(packedDate, b'). Inr (mktime_tz (unpack_tm packedDate), b'))"

section \<open>Positions, and coordinates in one word\<close>

definition bb_set_rpos :: "nat \<Rightarrow> 'x bytebuffer_scheme \<Rightarrow> nat \<times> 'x bytebuffer_scheme" where
  "bb_set_rpos r b = (r, b\<lparr>rpos := r\<rparr>)"

definition bb_set_wpos :: "nat \<Rightarrow> 'x bytebuffer_scheme \<Rightarrow> nat \<times> 'x bytebuffer_scheme" where
  "bb_set_wpos w b = (w, b\<lparr>wpos := w\<rparr>)"

definition bb_read_skip_string :: "'x bytebuffer_scheme \<Rightarrow> bb_error + 'x bytebuffer_scheme" where
  "bb_read_skip_string b = bind_sum (bb_read_string b) (\<lambda>(temp, b). Inr b)"

text \<open>
  \<open>quarter\<close> is \<^verbatim>\<open>(int)(x / 0.25f)\<close> on the bits of a \<^verbatim>\<open>float\<close>; a number that
  is too large for an \<^verbatim>\<open>int\<close> is undefined.
\<close>

definition packXYZ :: "i32 \<Rightarrow> i32 \<Rightarrow> i32 \<Rightarrow> u32" where
  "packXYZ x y z = (x AND 0x7FF) OR push_bit 11 (y AND 0x7FF) OR push_bit 22 (z AND 0x3FF)"

definition bb_appendPackXYZ ::
  "endian \<Rightarrow> (u32 \<Rightarrow> i32 option) \<Rightarrow> u32 \<Rightarrow> u32 \<Rightarrow> u32 \<Rightarrow> 'x bytebuffer_scheme \<Rightarrow>
   bb_error + 'x bytebuffer_scheme" where
  "bb_appendPackXYZ host quarter x y z b =
     (case (quarter x, quarter y, quarter z) of
        (Some x, Some y, Some z) \<Rightarrow> bb_append_val host (packXYZ x y z) b
      | _ \<Rightarrow> Inl OutOfBounds)"

text \<open>The three coordinates do not mix: each is read back in its bits, and with its sign if it fits them.\<close>

lemma packXYZ_fields:
  "take_bit 11 (packXYZ x y z) = take_bit 11 x"
  "take_bit 11 (drop_bit 11 (packXYZ x y z)) = take_bit 11 y"
  "drop_bit 22 (packXYZ x y z) = take_bit 10 z"
proof -
  have masks: "(w :: u32) AND 0x7FF = take_bit 11 w" "w AND 0x3FF = take_bit 10 w" for w
    by (simp_all add: take_bit_eq_mask mask_numeral)
  show "take_bit 11 (packXYZ x y z) = take_bit 11 x"
    by (rule bit_word_eqI) (auto simp: packXYZ_def masks bit_simps)
  show "take_bit 11 (drop_bit 11 (packXYZ x y z)) = take_bit 11 y"
    by (rule bit_word_eqI) (auto simp: packXYZ_def masks bit_simps)
  show "drop_bit 22 (packXYZ x y z) = take_bit 10 z"
    by (rule bit_word_eqI) (auto simp: packXYZ_def masks bit_simps dest: bit_imp_le_length)
qed

lemma packXYZ_signed:
  assumes "- 1024 \<le> sint x" "sint x < 1024" "- 1024 \<le> sint y" "sint y < 1024" "- 512 \<le> sint z" "sint z < 512"
  shows "signed_take_bit 10 (uint (packXYZ x y z)) = sint x"
    "signed_take_bit 10 (uint (drop_bit 11 (packXYZ x y z))) = sint y"
    "signed_take_bit 9 (uint (drop_bit 22 (packXYZ x y z))) = sint z"
proof -
  have restored: "signed_take_bit n (uint w) = sint (v :: i32)"
    if "take_bit (Suc n) w = take_bit (Suc n) v" "- (2 ^ n) \<le> sint v" "sint v < 2 ^ n" "n < 31" for n and w :: u32 and v
  proof -
    have "take_bit (Suc n) (uint w) = take_bit (Suc n) (uint v)"
      using that(1) by (metis unsigned_take_bit_eq)
    also have "... = take_bit (Suc n) (sint v)"
      using that(4) by (simp add: sint_uint signed_take_bit_take_bit take_bit_signed_take_bit)
    finally have "signed_take_bit n (uint w) = signed_take_bit n (sint v)"
      by (simp add: signed_take_bit_eq_iff_take_bit_eq)
    also have "... = sint v" using that(2,3) by (simp add: signed_take_bit_int_eq_self)
    finally show ?thesis .
  qed
  show "signed_take_bit 10 (uint (packXYZ x y z)) = sint x"
    using packXYZ_fields(1) assms by (intro restored) simp_all
  show "signed_take_bit 10 (uint (drop_bit 11 (packXYZ x y z))) = sint y"
    using packXYZ_fields(2) assms by (intro restored) simp_all
  show "signed_take_bit 9 (uint (drop_bit 22 (packXYZ x y z))) = sint z"
    using packXYZ_fields(3) assms by (intro restored) (simp_all add: take_bit_take_bit)
qed

section \<open>The contract of a writer and its reader\<close>

text \<open>
  \<open>enc v\<close> are the bytes of a value \<open>v\<close> of the domain \<open>ok\<close>. The writer is
  used at the end of a buffer that stays within the asserted 10,000,000 bytes; the reader
  stands in front of the bytes, whatever surrounds them.
\<close>

locale bb_codec =
  fixes put :: "'v \<Rightarrow> 'x bytebuffer_scheme \<Rightarrow> bb_error + 'x bytebuffer_scheme"
    and get :: "'x bytebuffer_scheme \<Rightarrow> bb_error + 'v \<times> 'x bytebuffer_scheme"
    and enc :: "'v \<Rightarrow> u8 list"
    and ok :: "'v \<Rightarrow> bool"
  assumes put_enc: "ok v \<Longrightarrow> at_end b \<Longrightarrow> bb_size b + length (enc v) \<le> 10000000 \<Longrightarrow>
      put v b = Inr (b\<lparr>storage := storage b @ enc v, wpos := wpos b + length (enc v)\<rparr>)"
    and get_enc: "ok v \<Longrightarrow> storage b = pre @ enc v @ post \<Longrightarrow> rpos b = length pre \<Longrightarrow>
      length (storage b) < 2 ^ 63 \<Longrightarrow> get b = Inr (v, b\<lparr>rpos := length pre + length (enc v)\<rparr>)"
begin

lemma put_then_get:
  assumes "ok v" and "at_end b" and "bb_size b + length (enc v) \<le> 10000000" and "put v b = Inr b'"
  shows "get (b'\<lparr>rpos := bb_size b\<rparr>) = Inr (v, b'\<lparr>rpos := bb_size b'\<rparr>)"
proof -
  have b': "b' = b\<lparr>storage := storage b @ enc v, wpos := wpos b + length (enc v)\<rparr>"
    using put_enc [OF assms(1-3)] assms(4) by simp
  have "get (b'\<lparr>rpos := bb_size b\<rparr>) = Inr (v, b'\<lparr>rpos := bb_size b\<rparr>\<lparr>rpos := length (storage b) + length (enc v)\<rparr>)"
    using assms(1,3) by (intro get_enc [where post = "[]"]) (auto simp: b' bb_size_def)
  then show ?thesis by (simp add: b' bb_size_def)
qed

lemma put_all_enc:
  "list_all ok vs \<Longrightarrow> at_end b \<Longrightarrow> bb_size b + length (concat (map enc vs)) \<le> 10000000 \<Longrightarrow>
   put_all put vs b = Inr (b\<lparr>storage := storage b @ concat (map enc vs),
     wpos := wpos b + length (concat (map enc vs))\<rparr>)"
proof (induction vs arbitrary: b)
  case Nil
  then show ?case by simp
next
  case (Cons v vs)
  let ?b = "b\<lparr>storage := storage b @ enc v, wpos := wpos b + length (enc v)\<rparr>"
  from Cons.prems have "put v b = Inr ?b" by (intro put_enc) auto
  moreover have "put_all put vs ?b = Inr (?b\<lparr>storage := storage ?b @ concat (map enc vs),
      wpos := wpos ?b + length (concat (map enc vs))\<rparr>)"
    using Cons.prems by (intro Cons.IH) (auto simp: bb_size_def at_end_def)
  ultimately show ?case by simp
qed

lemma get_n_enc:
  "list_all ok vs \<Longrightarrow> storage b = pre @ concat (map enc vs) @ post \<Longrightarrow> rpos b = length pre \<Longrightarrow>
   length (storage b) < 2 ^ 63 \<Longrightarrow>
   get_n get (length vs) acc b =
     Inr (acc @ vs, b\<lparr>rpos := length pre + length (concat (map enc vs))\<rparr>)"
proof (induction vs arbitrary: acc b pre)
  case Nil
  then show ?case by simp
next
  case (Cons v vs)
  let ?b = "b\<lparr>rpos := length pre + length (enc v)\<rparr>"
  from Cons.prems have "get b = Inr (v, ?b)"
    by (intro get_enc [where post = "concat (map enc vs) @ post"]) auto
  moreover from Cons.prems have "get_n get (length vs) (acc @ [v]) ?b =
      Inr ((acc @ [v]) @ vs, ?b\<lparr>rpos := length (pre @ enc v) + length (concat (map enc vs))\<rparr>)"
    by (intro Cons.IH) auto
  ultimately show ?case by (simp add: add.assoc)
qed

lemma vector_codec:
  "bb_codec (bb_put_vector host put) (bb_get_vector host get)
     (\<lambda>vs. le_enc 4 (length vs) @ concat (map enc vs)) (\<lambda>vs. list_all ok vs \<and> length vs < 2 ^ 32)"
proof (unfold_locales, goal_cases)
  case (1 vs b)
  let ?b = "b\<lparr>storage := storage b @ le_enc 4 (length vs), wpos := wpos b + 4\<rparr>"
  have "bb_append_val host (word_of_nat (length vs) :: u32) b = Inr ?b"
    using 1 bb_append_at_end [of b "le_enc 4 (length vs)"]
    by (simp add: bb_append_val_wire size_of_def unat_of_nat flip: length_greater_0_conv)
  moreover have "put_all put vs ?b = Inr (?b\<lparr>storage := storage ?b @ concat (map enc vs),
      wpos := wpos ?b + length (concat (map enc vs))\<rparr>)"
    using 1 by (intro put_all_enc) (auto simp: bb_size_def at_end_def)
  ultimately show ?case by (simp add: bb_put_vector_def add.assoc)
next
  case (2 vs b pre post)
  let ?b = "b\<lparr>rpos := length pre + 4\<rparr>"
  have "bb_read host b = Inr (word_of_nat (length vs) :: u32, b\<lparr>rpos := length pre + size_of TYPE(32)\<rparr>)"
    using 2 by (intro bb_read_middle [where post = "concat (map enc vs) @ post"])
      (auto simp: size_of_def unat_of_nat)
  moreover have "get_n get (length vs) [] ?b = Inr ([] @ vs,
      ?b\<lparr>rpos := length (pre @ le_enc 4 (length vs)) + length (concat (map enc vs))\<rparr>)"
    using 2 by (intro get_n_enc [where post = post]) auto
  ultimately show ?case
    using 2 by (simp add: bb_get_vector_def size_of_def unat_of_nat add.assoc)
qed

end

text \<open>Every fixed-width integer type keeps the contract.\<close>

lemma word_codec:
  assumes "8 * size_of TYPE('a::len) = LENGTH('a)"
  shows "bb_codec (bb_append_val host :: 'a word \<Rightarrow> _) (bb_read host)
    (\<lambda>v. le_enc (size_of TYPE('a)) (unat v)) (\<lambda>_. True)"
proof (unfold_locales, goal_cases)
  case (1 v b)
  have "0 < size_of TYPE('a)" using assms by (cases "size_of TYPE('a)") simp_all
  then have "le_enc (size_of TYPE('a)) (unat v) \<noteq> []" by (simp flip: length_greater_0_conv)
  with 1 \<open>0 < size_of TYPE('a)\<close> show ?case by (simp add: bb_append_val_wire bb_append_at_end)
next
  case (2 v b pre post)
  then show ?case using assms by (simp add: bb_read_middle)
qed

interpretation codec8: bb_codec "bb_append_val host :: u8 \<Rightarrow> _" "bb_read host"
  "\<lambda>v. le_enc (size_of TYPE(8)) (unat v)" "\<lambda>_. True" for host
  by (rule word_codec) (simp add: size_of_def)

interpretation codec16: bb_codec "bb_append_val host :: u16 \<Rightarrow> _" "bb_read host"
  "\<lambda>v. le_enc (size_of TYPE(16)) (unat v)" "\<lambda>_. True" for host
  by (rule word_codec) (simp add: size_of_def)

interpretation codec32: bb_codec "bb_append_val host :: u32 \<Rightarrow> _" "bb_read host"
  "\<lambda>v. le_enc (size_of TYPE(32)) (unat v)" "\<lambda>_. True" for host
  by (rule word_codec) (simp add: size_of_def)

interpretation codec64: bb_codec "bb_append_val host :: u64 \<Rightarrow> _" "bb_read host"
  "\<lambda>v. le_enc (size_of TYPE(64)) (unat v)" "\<lambda>_. True" for host
  by (rule word_codec) (simp add: size_of_def)

text \<open>Strings without a NUL are terminated by one and found again.\<close>

interpretation codec_string: bb_codec bb_append_string bb_read_string
  "\<lambda>s. s @ [0]" "\<lambda>s. 0 \<notin> set s"
proof (unfold_locales, goal_cases)
  case (1 s b)
  show ?case
  proof (cases "s = []")
    case True
    with 1 show ?thesis by (simp add: bb_append_string_def bb_append_at_end)
  next
    case False
    let ?b = "b\<lparr>storage := storage b @ s, wpos := wpos b + length s\<rparr>"
    have "bb_append s b = Inr ?b"
      using 1 False by (intro bb_append_at_end) auto
    moreover have "bb_append [0] ?b = Inr (?b\<lparr>storage := storage ?b @ [0], wpos := wpos ?b + 1\<rparr>)"
      using 1 bb_append_at_end [of ?b "[0]"] by (auto simp: bb_size_def)
    ultimately show ?thesis using False by (simp add: bb_append_string_def)
  qed
next
  case (2 s b pre post)
  then show ?case
    using bb_read_string_loop_middle [of b pre s post "[]"] by (simp add: bb_read_string_def)
qed

interpretation codec_vec32: bb_codec
  "bb_put_vector host (bb_append_val host :: u32 \<Rightarrow> _)" "bb_get_vector host (bb_read host)"
  "\<lambda>vs. le_enc 4 (length vs) @ concat (map (\<lambda>v. le_enc (size_of TYPE(32)) (unat v)) vs)"
  "\<lambda>vs. list_all (\<lambda>_. True) vs \<and> length vs < 2 ^ 32" for host
  by (rule codec32.vector_codec)

interpretation codec_strings: bb_codec
  "bb_put_vector host bb_append_string" "bb_get_vector host bb_read_string"
  "\<lambda>vs. le_enc 4 (length vs) @ concat (map (\<lambda>s. s @ [0]) vs)"
  "\<lambda>vs. list_all (\<lambda>s. 0 \<notin> set s) vs \<and> length vs < 2 ^ 32" for host
  by (rule codec_string.vector_codec)

section \<open>Packed GUIDs: mask and bytes\<close>

fun mask_of :: "nat \<Rightarrow> u8 list \<Rightarrow> u8" where
  "mask_of i [] = 0"
| "mask_of i (d # ds) = (if d \<noteq> 0 then push_bit i 1 else 0) OR mask_of (Suc i) ds"

fun shifted :: "nat \<Rightarrow> u8 list \<Rightarrow> u64" where
  "shifted i [] = 0"
| "shifted i (d # ds) = push_bit (i * 8) (ucast d) OR shifted (Suc i) ds"

lemma mask_of_zeros [simp]: "mask_of i (replicate k 0) = 0"
  by (induction k arbitrary: i) auto

lemma le_enc_zero [simp]: "le_enc k 0 = replicate k 0"
  by (induction k) auto

lemma low_byte_take: "(g :: u64) AND 0xFF = take_bit 8 g"
  by (simp add: take_bit_eq_mask mask_numeral)

lemma unat_low_byte: "unat ((g :: u64) AND 0xFF) = unat g mod 256"
  unfolding low_byte_take take_bit_eq_mod by (simp add: unat_mod_distrib)

lemma low_byte: "(ucast ((g :: u64) AND 0xFF) :: u8) = word_of_nat (unat g mod 256)"
  by (metis unat_low_byte of_nat_unat)

lemma low_byte_zero_iff: "(g :: u64) AND 0xFF = 0 \<longleftrightarrow> (word_of_nat (unat g mod 256) :: u8) = 0"
proof -
  have "(word_of_nat (unat g mod 256) :: u8) = 0 \<longleftrightarrow> unat g mod 256 = 0"
    by (simp add: unat_of_nat flip: unat_eq_0)
  then show ?thesis by (simp add: unat_low_byte flip: unat_eq_0)
qed

lemma pack_guid_loop_spec:
  "unat g < 256 ^ k \<Longrightarrow> pack_guid_loop i g m acc =
     (m OR mask_of i (le_enc k (unat g)), acc @ filter (\<lambda>d. d \<noteq> 0) (le_enc k (unat g)))"
proof (induction k arbitrary: i g m acc)
  case 0
  then have "g = 0" by (simp add: unat_eq_0)
  then show ?case by (simp add: pack_guid_loop.simps)
next
  case (Suc k)
  show ?case
  proof (cases "g = 0")
    case True
    then show ?thesis by (simp add: pack_guid_loop.simps)
  next
    case False
    from Suc.prems have "unat (drop_bit 8 g) < 256 ^ k"
      by (simp add: unat_drop_byte less_mult_imp_div_less mult.commute)
    note IH = Suc.IH [OF this, unfolded unat_drop_byte]
    show ?thesis
      using False low_byte_zero_iff [of g]
      by (subst pack_guid_loop.simps) (simp add: IH low_byte or.assoc)
  qed
qed

lemma packGUID_spec: "packGUID g = mask_of 0 (le_enc 8 (unat g)) # filter (\<lambda>d. d \<noteq> 0) (le_enc 8 (unat g))"
proof -
  have "unat g < 256 ^ 8" using unsigned_less [of g] by simp
  from pack_guid_loop_spec [OF this, of 0 0 "[]"] show ?thesis by (simp add: packGUID_def)
qed

text \<open>The local array \<^verbatim>\<open>packGUID[8+1]\<close> is never overrun.\<close>

lemma length_packGUID: "length (packGUID g) \<le> 9"
  using length_filter_le [of "\<lambda>d. d \<noteq> 0" "le_enc 8 (unat g)"] by (simp add: packGUID_spec)

lemma bit_flag: "bit (2 ^ i :: u8) j \<longleftrightarrow> i = j \<and> j < 8"
  by (auto simp: bit_exp_iff possible_bit_def)

lemma bit_mask_of:
  "bit (mask_of i ds) j \<longleftrightarrow> j < 8 \<and> i \<le> j \<and> j - i < length ds \<and> ds ! (j - i) \<noteq> 0"
proof (induction ds arbitrary: i)
  case Nil
  then show ?case by simp
next
  case (Cons d ds)
  have "j < 8 \<and> Suc i \<le> j \<and> j - Suc i < length ds \<and> ds ! (j - Suc i) \<noteq> 0 \<or> (d \<noteq> 0 \<and> i = j \<and> j < 8) \<longleftrightarrow>
      j < 8 \<and> i \<le> j \<and> j - i < length (d # ds) \<and> (d # ds) ! (j - i) \<noteq> 0"
    by (cases "i = j") (auto simp: nth_Cons' Suc_le_eq)
  then show ?case
    using Cons.IH [of "Suc i"] bit_flag [of i j] by (auto simp: bit_or_iff)
qed

lemma mask_test: "i < 8 \<Longrightarrow> (m :: u8) AND push_bit i 1 \<noteq> 0 \<longleftrightarrow> bit m i"
proof -
  assume "i < 8"
  then have "(2 ^ i :: u8) \<noteq> 0" using bit_flag [of i i] by auto
  moreover have "m AND 2 ^ i = (if bit m i then 2 ^ i else 0)"
    by (rule bit_word_eqI) (auto simp: bit_and_iff bit_flag)
  ultimately show ?thesis by simp
qed


lemma read_guid_loop_spec:
  assumes "length ds = 8 - i" and "i \<le> 8"
    and "\<forall>j. i \<le> j \<and> j < 8 \<longrightarrow> bit m j = (ds ! (j - i) \<noteq> 0)"
    and "storage b = pre @ filter (\<lambda>d. d \<noteq> 0) ds @ post" and "rpos b = length pre"
    and "length (storage b) < 2 ^ 63"
  shows "read_guid_loop host [i..<8] m g b =
    Inr (g OR shifted i ds, b\<lparr>rpos := length pre + length (filter (\<lambda>d. d \<noteq> 0) ds)\<rparr>)"
  using assms
proof (induction ds arbitrary: i g b pre)
  case Nil
  then show ?case by simp
next
  case (Cons d ds)
  from Cons.prems(1) have i: "i < 8" by simp
  then have upt: "[i..<8] = i # [Suc i..<8]" by (simp add: upt_conv_Cons)
  from Cons.prems(3) i have bi: "bit m i = (d \<noteq> 0)" by auto
  have rest: "\<forall>j. Suc i \<le> j \<and> j < 8 \<longrightarrow> bit m j = (ds ! (j - Suc i) \<noteq> 0)"
    using Cons.prems(3) by (auto simp: nth_Cons' Suc_le_eq dest: spec [where x = "_ :: nat"])
  show ?case
  proof (cases "d = 0")
    case True
    have "read_guid_loop host [Suc i..<8] m g b =
        Inr (g OR shifted (Suc i) ds, b\<lparr>rpos := length pre + length (filter (\<lambda>d. d \<noteq> 0) ds)\<rparr>)"
      using Cons.prems True i rest by (intro Cons.IH) auto
    then show ?thesis using True bi i by (simp add: upt mask_test [simplified])
  next
    case False
    let ?g = "g OR push_bit (i * 8) (ucast d)" and ?b = "b\<lparr>rpos := length pre + 1\<rparr>"
    have "bb_read host b = Inr (d, b\<lparr>rpos := length pre + size_of TYPE(8)\<rparr>)"
      using Cons.prems False by (intro bb_read_middle [where post = "filter (\<lambda>d. d \<noteq> 0) ds @ post"])
        (auto simp: size_of_def)
    moreover have "read_guid_loop host [Suc i..<8] m ?g ?b =
        Inr (?g OR shifted (Suc i) ds, ?b\<lparr>rpos := length (pre @ [d]) + length (filter (\<lambda>d. d \<noteq> 0) ds)\<rparr>)"
      using Cons.prems False i rest by (intro Cons.IH) auto
    ultimately show ?thesis
      using False bi i Cons.prems(4,5)
      by (simp add: upt mask_test [simplified] bb_size_def size_of_def or.assoc)
  qed
qed

lemma shifted_byte:
  "push_bit (i * 8) (ucast (word_of_nat (x mod 256) :: u8)) OR push_bit (Suc i * 8) (word_of_nat (x div 256))
     = (push_bit (i * 8) (word_of_nat x) :: u64)"
proof (rule bit_word_eqI)
  fix n assume "n < LENGTH(64)"
  have "bit (x mod 256) k \<longleftrightarrow> k < 8 \<and> bit x k" "bit (x div 256) k \<longleftrightarrow> bit x (8 + k)" for k
    using bit_take_bit_iff [of 8 x k] bit_drop_bit_eq [of 8 x]
    by (simp_all add: take_bit_eq_mod drop_bit_eq_div)
  moreover have shift: "n - i * 8 < 8 \<or> 8 + (n - (8 + i * 8)) = n - i * 8" by arith
  ultimately show "bit (push_bit (i * 8) (ucast (word_of_nat (x mod 256) :: u8)) OR
        push_bit (Suc i * 8) (word_of_nat (x div 256)) :: u64) n =
      bit (push_bit (i * 8) (word_of_nat x) :: u64) n"
    using \<open>n < LENGTH(64)\<close> shift by (auto simp: bit_simps)
qed

lemma shifted_le_enc: "x < 256 ^ k \<Longrightarrow> shifted i (le_enc k x) = push_bit (i * 8) (word_of_nat x)"
proof (induction k arbitrary: i x)
  case 0
  then show ?case by simp
next
  case (Suc k)
  then have "x div 256 < 256 ^ k" by (simp add: less_mult_imp_div_less mult.commute)
  from Suc.IH [OF this, of "Suc i"] shifted_byte [of i x] show ?case by simp
qed

lemma packGUID_read:
  assumes "storage b = pre @ packGUID g @ post" and "rpos b = length pre" and "length (storage b) < 2 ^ 63"
  shows "bb_readPackGUID host b = Inr (g, b\<lparr>rpos := length pre + length (packGUID g)\<rparr>)"
proof -
  let ?ds = "le_enc 8 (unat g)" and ?b = "b\<lparr>rpos := length pre + 1\<rparr>"
  have g: "unat g < 256 ^ 8" using unsigned_less [of g] by simp
  have "bb_read host b = Inr (mask_of 0 ?ds, b\<lparr>rpos := length pre + size_of TYPE(8)\<rparr>)"
    using assms by (intro bb_read_middle [where post = "filter (\<lambda>d. d \<noteq> 0) ?ds @ post"])
      (auto simp: size_of_def packGUID_spec)
  moreover have "read_guid_loop host [0..<8] (mask_of 0 ?ds) 0 ?b =
      Inr (0 OR shifted 0 ?ds, ?b\<lparr>rpos := length (pre @ [mask_of 0 ?ds]) + length (filter (\<lambda>d. d \<noteq> 0) ?ds)\<rparr>)"
    using assms by (intro read_guid_loop_spec [where post = post]) (auto simp: packGUID_spec bit_mask_of)
  ultimately show ?thesis
    using assms g by (simp add: bb_readPackGUID_def size_of_def bb_size_def packGUID_spec
        shifted_le_enc [OF g] del: upt_rec_numeral)
qed

interpretation codec_guid: bb_codec bb_appendPackGUID "bb_readPackGUID host" packGUID "\<lambda>_. True" for host
proof (unfold_locales, goal_cases)
  case (1 g b)
  then show ?case
    using length_packGUID [of g] by (simp add: bb_appendPackGUID_def bb_append_at_end packGUID_spec)
next
  case (2 g b pre post)
  then show ?case by (simp add: packGUID_read)
qed

section \<open>Packed dates: the fields survive\<close>

definition tm_fits :: "tm \<Rightarrow> bool" where
  "tm_fits t \<longleftrightarrow> tm_min t < 60 \<and> tm_hour t < 24 \<and> 1 \<le> tm_mday t \<and> tm_mday t \<le> 31 \<and> tm_mon t < 12
     \<and> 100 \<le> tm_year t \<and> tm_year t < 132 \<and> tm_wday t < 7"

lemma small_bits: "unat (w :: u32) < 2 ^ k \<Longrightarrow> bit w n \<Longrightarrow> n < k"
proof -
  assume w: "unat w < 2 ^ k" "bit w n"
  from w(2) have "bit (unat w) n" by (simp add: bit_unsigned_iff bit_imp_le_length)
  moreover from w(1) have "take_bit k (unat w) = unat w" by (rule take_bit_nat_eq_self)
  ultimately show "n < k" by (metis bit_take_bit_iff)
qed

lemma and_fields:
  "(x :: u32) AND 0x3F = take_bit 6 x" "x AND 0x1F = take_bit 5 x" "x AND 0xF = take_bit 4 x"
  by (simp_all add: take_bit_eq_mask mask_numeral)

lemma packed_fields:
  fixes y mo d wd h mi :: u32
  defines "p \<equiv> push_bit 24 y OR push_bit 20 mo OR push_bit 14 d OR push_bit 11 wd OR push_bit 6 h OR mi"
  assumes lt: "unat mi < 2 ^ 6" "unat h < 2 ^ 5" "unat wd < 2 ^ 3" "unat d < 2 ^ 6"
      "unat mo < 2 ^ 4" "unat y < 2 ^ 5"
  shows "take_bit 6 p = mi" and "take_bit 5 (drop_bit 6 p) = h" and "take_bit 6 (drop_bit 14 p) = d"
    and "take_bit 4 (drop_bit 20 p) = mo" and "take_bit 5 (drop_bit 24 p) = y"
proof -
  note fits = lt [THEN small_bits]
  have no: "6 \<le> n \<Longrightarrow> \<not> bit mi n" "5 \<le> n \<Longrightarrow> \<not> bit h n" "3 \<le> n \<Longrightarrow> \<not> bit wd n" "6 \<le> n \<Longrightarrow> \<not> bit d n"
    "4 \<le> n \<Longrightarrow> \<not> bit mo n" "5 \<le> n \<Longrightarrow> \<not> bit y n" for n
    using lt [THEN small_bits, of n] by auto
  have P: "bit p n \<longleftrightarrow> n < 32 \<and> (24 \<le> n \<and> bit y (n - 24) \<or> 20 \<le> n \<and> bit mo (n - 20) \<or> 14 \<le> n \<and> bit d (n - 14)
      \<or> 11 \<le> n \<and> bit wd (n - 11) \<or> 6 \<le> n \<and> bit h (n - 6) \<or> bit mi n)" for n
    by (auto simp: p_def bit_simps dest: bit_imp_le_length)
  show "take_bit 6 p = mi"
    by (rule bit_word_eqI) (auto simp: bit_take_bit_iff P no dest: fits)
  show "take_bit 5 (drop_bit 6 p) = h"
    by (rule bit_word_eqI) (auto simp: bit_take_bit_iff bit_drop_bit_eq P no dest: fits)
  show "take_bit 6 (drop_bit 14 p) = d"
    by (rule bit_word_eqI) (auto simp: bit_take_bit_iff bit_drop_bit_eq P no dest: fits)
  show "take_bit 4 (drop_bit 20 p) = mo"
    by (rule bit_word_eqI) (auto simp: bit_take_bit_iff bit_drop_bit_eq P no dest: fits)
  show "take_bit 5 (drop_bit 24 p) = y"
    by (rule bit_word_eqI) (auto simp: bit_take_bit_iff bit_drop_bit_eq P no dest: fits)
qed

lemma unpack_pack_tm:
  assumes "tm_fits t"
  shows "unpack_tm (pack_tm t) = t\<lparr>tm_wday := 0\<rparr>"
proof -
  have lt: "unat (tm_min t) < 2 ^ 6" "unat (tm_hour t) < 2 ^ 5" "unat (tm_wday t) < 2 ^ 3"
      "unat (tm_mday t - 1) < 2 ^ 6" "unat (tm_mon t) < 2 ^ 4" "unat (tm_year t - 100) < 2 ^ 5"
    using assms by (auto simp: tm_fits_def word_less_nat_alt word_le_nat_alt unat_sub_if_size word_size)
  note fields = packed_fields [OF lt, folded pack_tm_def]
  show ?thesis unfolding unpack_tm_def and_fields fields by simp
qed

section \<open>Properties\<close>

lemma bb_append_val_host: "bb_append_val host = bb_append_val host'"
  by (simp add: fun_eq_iff bb_append_val_wire)

text \<open>
  A vector of 32-bit values written at the end of a buffer by a host of either byte order is
  read back unchanged by a host of either byte order, and the reader ends where the writer did.
\<close>

theorem vector_roundtrip:
  assumes "at_end b" and "bb_size b + 4 + 4 * length vs \<le> 10000000"
    and "bb_put_vector host (bb_append_val host) (vs :: u32 list) b = Inr b'"
  shows "bb_get_vector host' (bb_read host') (b'\<lparr>rpos := bb_size b\<rparr>) = Inr (vs, b'\<lparr>rpos := bb_size b'\<rparr>)"
proof -
  have len: "length (concat (map (\<lambda>v :: u32. le_enc (size_of TYPE(32)) (unat v)) vs)) = 4 * length vs"
    by (induction vs) (simp_all add: size_of_def)
  have "bb_put_vector host' (bb_append_val host') vs b = Inr b'"
    using assms(3) unfolding bb_put_vector_def
    by (simp only: bb_append_val_host [of host' host])
  with assms len show ?thesis
    by (intro codec_vec32.put_then_get) (auto simp: list_all_iff)
qed

theorem vector_roundtrip_witness:
  "bb_get_vector BigEndian (bb_read BigEndian)
     (\<lparr>rpos = 0, wpos = 8, storage = [1, 0, 0, 0, 0x78, 0x56, 0x34, 0x12]\<rparr>) =
   Inr ([0x12345678 :: u32], \<lparr>rpos = 8, wpos = 8, storage = [1, 0, 0, 0, 0x78, 0x56, 0x34, 0x12]\<rparr>)"
proof -
  have p: "bb_put_vector LittleEndian (bb_append_val LittleEndian) [0x12345678 :: u32] ByteBuffer_new =
      Inr \<lparr>rpos = 0, wpos = 8, storage = [1, 0, 0, 0, 0x78, 0x56, 0x34, 0x12]\<rparr>"
    using codec_vec32.put_enc [of "[0x12345678]" ByteBuffer_new]
    by (simp add: at_end_def ByteBuffer_new_def size_of_def bb_size_def le_enc_numeral numeral_3_eq_3)
  show ?thesis
    using vector_roundtrip [OF _ _ p, of BigEndian]
    by (simp add: at_end_def ByteBuffer_new_def bb_size_def)
qed

text \<open>
  A string without NUL bytes written at the end of a buffer is read back unchanged.
\<close>

theorem string_roundtrip:
  assumes "0 \<notin> set s" and "at_end b" and "bb_size b + length s + 1 \<le> 10000000"
    and "bb_append_string s b = Inr b'"
  shows "bb_read_string (b'\<lparr>rpos := bb_size b\<rparr>) = Inr (s, b'\<lparr>rpos := bb_size b'\<rparr>)"
  using assms by (intro codec_string.put_then_get) auto

theorem string_roundtrip_witness:
  "bb_read_string \<lparr>rpos = 0, wpos = 3, storage = [97, 98, 0]\<rparr> =
     Inr ([97, 98], \<lparr>rpos = 3, wpos = 3, storage = [97, 98, 0]\<rparr>)"
proof -
  have p: "bb_append_string [97, 98] ByteBuffer_new = Inr \<lparr>rpos = 0, wpos = 3, storage = [97, 98, 0]\<rparr>"
    by (simp add: bb_append_string_def bb_append_def bb_append_raw_def ByteBuffer_new_def bb_size_def
        overwrite_def)
  show ?thesis
    using string_roundtrip [OF _ _ _ p] by (simp add: at_end_def ByteBuffer_new_def bb_size_def)
qed

text \<open>
  A packed GUID takes at most nine bytes, the size of the local array it is built in, and
  reading it back yields the GUID, for all 64-bit values.
\<close>

theorem guid_roundtrip:
  assumes "at_end b" and "bb_size b + 9 \<le> 10000000"
  shows "\<exists>b'. bb_appendPackGUID g b = Inr b' \<and> bb_size b' \<le> bb_size b + 9 \<and>
    bb_readPackGUID host (b'\<lparr>rpos := bb_size b\<rparr>) = Inr (g, b'\<lparr>rpos := bb_size b'\<rparr>)"
proof -
  let ?b = "b\<lparr>storage := storage b @ packGUID g, wpos := wpos b + length (packGUID g)\<rparr>"
  have le: "bb_size b + length (packGUID g) \<le> 10000000"
    using assms(2) length_packGUID [of g] by linarith
  have p: "bb_appendPackGUID g b = Inr ?b"
    using le assms(1) by (intro codec_guid.put_enc) auto
  with codec_guid.put_then_get [OF _ assms(1) le p] show ?thesis
    using length_packGUID [of g] by (auto simp: bb_size_def)
qed

theorem guid_roundtrip_witness:
  "\<exists>b'. bb_appendPackGUID 0xF000000000000A00 ByteBuffer_new = Inr b' \<and> bb_size b' \<le> 9 \<and>
    bb_readPackGUID LittleEndian (b'\<lparr>rpos := 0\<rparr>) = Inr (0xF000000000000A00, b'\<lparr>rpos := bb_size b'\<rparr>)"
  using guid_roundtrip [where b = ByteBuffer_new and g = "0xF000000000000A00" and host = LittleEndian]
  by (simp add: at_end_def ByteBuffer_new_def bb_size_def)

text \<open>
  The packed 32-bit date keeps minute, hour, day, month and year of every date from 2000 to
  2031; the weekday is written but not read.
\<close>

theorem packed_time_roundtrip:
  assumes "tm_fits (localtime t)" and "at_end b" and "bb_size b + 4 \<le> 10000000"
    and "bb_AppendPackedTime host localtime t b = Inr b'"
  shows "bb_ReadPackedTime host mk (b'\<lparr>rpos := bb_size b\<rparr>) =
    Inr (mk ((localtime t)\<lparr>tm_wday := 0\<rparr>), b'\<lparr>rpos := bb_size b'\<rparr>)"
proof -
  have "bb_read host (b'\<lparr>rpos := bb_size b\<rparr>) = Inr (pack_tm (localtime t), b'\<lparr>rpos := bb_size b'\<rparr>)"
    using assms(2-4) by (intro codec32.put_then_get) (auto simp: bb_AppendPackedTime_def size_of_def)
  then show ?thesis
    by (simp add: bb_ReadPackedTime_def unpack_pack_tm [OF assms(1)])
qed

theorem packed_time_roundtrip_witness:
  "bb_ReadPackedTime LittleEndian tm_hour
     \<lparr>rpos = 0, wpos = 4, storage = le_enc 4 (unat (pack_tm \<lparr>tm_min = 59, tm_hour = 23, tm_mday = 31, tm_mon = 11, tm_year = 124, tm_wday = 2\<rparr>))\<rparr>
   = Inr (23, \<lparr>rpos = 4, wpos = 4, storage = le_enc 4 (unat (pack_tm \<lparr>tm_min = 59, tm_hour = 23, tm_mday = 31, tm_mon = 11, tm_year = 124, tm_wday = 2\<rparr>))\<rparr>)"
  (is "_ \<lparr>rpos = 0, wpos = 4, storage = ?s\<rparr> = _")
proof -
  let ?lt = "\<lambda>_ :: unit. \<lparr>tm_min = 59, tm_hour = 23, tm_mday = 31, tm_mon = 11, tm_year = 124, tm_wday = 2\<rparr>"
  have fits: "tm_fits (?lt ())" by (simp add: tm_fits_def)
  have "bb_append (le_enc 4 (unat (pack_tm (?lt ())))) ByteBuffer_new = Inr \<lparr>rpos = 0, wpos = 4, storage = ?s\<rparr>"
    using bb_append_at_end [of ByteBuffer_new ?s]
    by (simp add: at_end_def ByteBuffer_new_def bb_size_def flip: length_greater_0_conv)
  then have p: "bb_AppendPackedTime LittleEndian ?lt () ByteBuffer_new = Inr \<lparr>rpos = 0, wpos = 4, storage = ?s\<rparr>"
    by (simp add: bb_AppendPackedTime_def bb_append_val_wire size_of_def)
  show ?thesis
    using packed_time_roundtrip [of ?lt "()", OF fits _ _ p, of tm_hour]
    by (simp add: at_end_def ByteBuffer_new_def bb_size_def)
qed

text \<open>
  With positions below \<open>2 ^ 63\<close> a read of \<open>len\<close> bytes succeeds exactly when they
  are there, returns them and advances the read position; otherwise it raises the position
  exception and leaves the buffer alone. It never touches memory outside the array.
\<close>

theorem read_bytes_exact:
  assumes "rpos b < 2 ^ 63" and "len < 2 ^ 63"
  shows "bb_read_bytes len b =
    (if rpos b + len \<le> bb_size b
     then Inr (take len (drop (rpos b) (storage b)), b\<lparr>rpos := rpos b + len\<rparr>)
     else Inl (PositionException False (rpos b) len (bb_size b)))"
  using bb_slice_exact [OF assms, of b] by (simp add: bb_read_bytes_def)

theorem read_bytes_exact_witness:
  "bb_read_bytes 5 \<lparr>rpos = 1, wpos = 4, storage = [1, 2, 3, 4]\<rparr> = Inl (PositionException False 1 5 4)"
  using read_bytes_exact [of "\<lparr>rpos = 1, wpos = 4, storage = [1, 2, 3, 4]\<rparr>" 5] by (simp add: bb_size_def)

text \<open>
  The bounds check of \<^verbatim>\<open>read(pos)\<close> adds in \<^verbatim>\<open>size_t\<close>: at position
  \<open>2 ^ 64 - 1\<close> the sum wraps to zero, the check passes for every buffer and the read
  leaves the array.
\<close>

theorem read_check_wraps:
  "(bb_read_at host (2 ^ 64 - 1) b :: bb_error + u8) = Inl OutOfBounds \<or> bb_size b \<ge> 2 ^ 64"
  by (auto simp: bb_read_at_def bb_slice_def size_of_def size_add_def)

end
