(* ===== verification/Queues.thy ===== *)
theory Queues
  imports Prelude
begin

text \<open>
  The two thread-safe queues: \<^verbatim>\<open>src/server/shared/Threading/LockedQueue.h\<close> (packets of a
  session, sessions to add to the world) and \<^verbatim>\<open>Threading/ProducerConsumerQueue.h\<close>
  (update requests of the rooms). Every operation runs under the queue's mutex, so it is one
  step on the queue's state. \<open>None\<close> is a call that does not return normally: it blocks, or
  it reads the front of an empty container. The locale \<open>fifo_queue\<close> states what both
  promise their clients, and is interpreted for both.
\<close>

section \<open>LockedQueue\<close>

record 'a locked_queue =
  lq_items :: "'a list"
  lq_canceled :: bool
  lq_locked :: bool

definition LockedQueue_new :: "'a locked_queue" where
  "LockedQueue_new = \<lparr>lq_items = [], lq_canceled = False, lq_locked = False\<rparr>"

definition LockedQueue_lock :: "'a locked_queue \<Rightarrow> 'a locked_queue option" where
  "LockedQueue_lock q = (if lq_locked q then None else Some (q\<lparr>lq_locked := True\<rparr>))"

definition LockedQueue_unlock :: "'a locked_queue \<Rightarrow> 'a locked_queue" where
  "LockedQueue_unlock q = q\<lparr>lq_locked := False\<rparr>"

definition LockedQueue_add :: "'a \<Rightarrow> 'a locked_queue \<Rightarrow> 'a locked_queue option" where
  "LockedQueue_add item q = do {
     q \<leftarrow> LockedQueue_lock q;
     let q = q\<lparr>lq_items := lq_items q @ [item]\<rparr>;
     Some (LockedQueue_unlock q)
   }"

definition LockedQueue_next :: "'a locked_queue \<Rightarrow> ('a option \<times> 'a locked_queue) option" where
  "LockedQueue_next q = do {
     q \<leftarrow> LockedQueue_lock q;
     case lq_items q of
       [] \<Rightarrow> Some (None, LockedQueue_unlock q)
     | result # rest \<Rightarrow> Some (Some result, LockedQueue_unlock (q\<lparr>lq_items := rest\<rparr>))
   }"

text \<open>\<^verbatim>\<open>next(result, check)\<close> leaves the element in the queue when the check refuses it.\<close>

definition LockedQueue_next_if ::
  "('a \<Rightarrow> bool) \<Rightarrow> 'a locked_queue \<Rightarrow> ('a option \<times> 'a locked_queue) option" where
  "LockedQueue_next_if Process q = do {
     q \<leftarrow> LockedQueue_lock q;
     case lq_items q of
       [] \<Rightarrow> Some (None, LockedQueue_unlock q)
     | result # rest \<Rightarrow>
         if \<not> Process result then Some (None, LockedQueue_unlock q)
         else Some (Some result, LockedQueue_unlock (q\<lparr>lq_items := rest\<rparr>))
   }"

definition LockedQueue_peek :: "bool \<Rightarrow> 'a locked_queue \<Rightarrow> ('a \<times> 'a locked_queue) option" where
  "LockedQueue_peek autoUnlock q = do {
     q \<leftarrow> LockedQueue_lock q;
     case lq_items q of
       [] \<Rightarrow> None
     | result # _ \<Rightarrow> Some (result, if autoUnlock then LockedQueue_unlock q else q)
   }"

definition LockedQueue_cancel :: "'a locked_queue \<Rightarrow> 'a locked_queue option" where
  "LockedQueue_cancel q = do {
     q \<leftarrow> LockedQueue_lock q;
     Some (LockedQueue_unlock (q\<lparr>lq_canceled := True\<rparr>))
   }"

definition LockedQueue_cancelled :: "'a locked_queue \<Rightarrow> (bool \<times> 'a locked_queue) option" where
  "LockedQueue_cancelled q = do {
     q \<leftarrow> LockedQueue_lock q;
     Some (lq_canceled q, LockedQueue_unlock q)
   }"

definition LockedQueue_pop_front :: "'a locked_queue \<Rightarrow> 'a locked_queue option" where
  "LockedQueue_pop_front q = do {
     q \<leftarrow> LockedQueue_lock q;
     case lq_items q of
       [] \<Rightarrow> None
     | _ # rest \<Rightarrow> Some (LockedQueue_unlock (q\<lparr>lq_items := rest\<rparr>))
   }"

definition LockedQueue_empty :: "'a locked_queue \<Rightarrow> (bool \<times> 'a locked_queue) option" where
  "LockedQueue_empty q = do {
     q \<leftarrow> LockedQueue_lock q;
     Some (lq_items q = [], LockedQueue_unlock q)
   }"

section \<open>ProducerConsumerQueue\<close>

declare LockedQueue_new_def [queue_simps] LockedQueue_lock_def [queue_simps]
  LockedQueue_unlock_def [queue_simps] LockedQueue_add_def [queue_simps]
  LockedQueue_next_def [queue_simps] LockedQueue_peek_def [queue_simps]
  LockedQueue_empty_def [queue_simps]

record 'a pc_queue =
  pq_items :: "'a list"
  pq_shutdown :: bool

definition PCQueue_new :: "'a pc_queue" where
  "PCQueue_new = \<lparr>pq_items = [], pq_shutdown = False\<rparr>"

definition PCQueue_Push :: "'a \<Rightarrow> 'a pc_queue \<Rightarrow> 'a pc_queue" where
  "PCQueue_Push value q = q\<lparr>pq_items := pq_items q @ [value]\<rparr>"

definition PCQueue_Empty :: "'a pc_queue \<Rightarrow> bool" where
  "PCQueue_Empty q \<longleftrightarrow> pq_items q = []"

text \<open>The result is \<open>None\<close> when \<^verbatim>\<open>Pop\<close> returns false and leaves its argument alone.\<close>

definition PCQueue_Pop :: "'a pc_queue \<Rightarrow> 'a option \<times> 'a pc_queue" where
  "PCQueue_Pop q =
     (if PCQueue_Empty q \<or> pq_shutdown q then (None, q)
      else (Some (hd (pq_items q)), q\<lparr>pq_items := tl (pq_items q)\<rparr>))"

text \<open>
  \<^verbatim>\<open>WaitAndPop\<close> blocks (outer \<open>None\<close>) until the queue has an element or is shut
  down; after a shutdown it returns without a value.
\<close>

definition PCQueue_WaitAndPop :: "'a pc_queue \<Rightarrow> ('a option \<times> 'a pc_queue) option" where
  "PCQueue_WaitAndPop q =
     (if PCQueue_Empty q \<and> \<not> pq_shutdown q then None
      else if PCQueue_Empty q \<or> pq_shutdown q then Some (None, q)
      else Some (Some (hd (pq_items q)), q\<lparr>pq_items := tl (pq_items q)\<rparr>))"

definition PCQueue_Cancel :: "'a pc_queue \<Rightarrow> 'a pc_queue" where
  "PCQueue_Cancel q = q\<lparr>pq_items := [], pq_shutdown := True\<rparr>"

section \<open>What a client relies on\<close>

fun push_list :: "('a \<Rightarrow> 'q \<Rightarrow> 'q option) \<Rightarrow> 'a list \<Rightarrow> 'q \<Rightarrow> 'q option" where
  "push_list push [] q = Some q"
| "push_list push (x # xs) q = do { q \<leftarrow> push x q; push_list push xs q }"

text \<open>
  The loop \<^verbatim>\<open>while (queue.next(x)) ...\<close> with at most \<open>n\<close> rounds; the flag says
  whether it stopped because the queue was empty.
\<close>

fun drain :: "('q \<Rightarrow> ('a option \<times> 'q) option) \<Rightarrow> nat \<Rightarrow> 'q \<Rightarrow> ('a list \<times> bool \<times> 'q) option" where
  "drain pop 0 q = Some ([], False, q)"
| "drain pop (Suc n) q = do {
     (r, q) \<leftarrow> pop q;
     case r of
       None \<Rightarrow> Some ([], True, q)
     | Some x \<Rightarrow> do { (xs, stopped, q) \<leftarrow> drain pop n q; Some (x # xs, stopped, q) }
   }"

locale fifo_queue =
  fixes push :: "'a \<Rightarrow> 'q \<Rightarrow> 'q option"
    and pop :: "'q \<Rightarrow> ('a option \<times> 'q) option"
    and items :: "'q \<Rightarrow> 'a list"
    and ready :: "'q \<Rightarrow> bool"
  assumes push_items: "ready q \<Longrightarrow> \<exists>q'. push x q = Some q' \<and> items q' = items q @ [x] \<and> ready q'"
    and pop_empty: "ready q \<Longrightarrow> items q = [] \<Longrightarrow> \<exists>q'. pop q = Some (None, q') \<and> items q' = [] \<and> ready q'"
    and pop_items: "ready q \<Longrightarrow> items q = x # xs \<Longrightarrow>
      \<exists>q'. pop q = Some (Some x, q') \<and> items q' = xs \<and> ready q'"
begin

lemma push_list_items:
  "ready q \<Longrightarrow> \<exists>q'. push_list push xs q = Some q' \<and> items q' = items q @ xs \<and> ready q'"
proof (induction xs arbitrary: q)
  case Nil
  then show ?case by simp
next
  case (Cons x xs)
  from push_items [OF Cons.prems, of x] obtain q1
    where q1: "push x q = Some q1" "items q1 = items q @ [x]" "ready q1" by blast
  from Cons.IH [OF q1(3)] show ?case by (auto simp: q1)
qed

lemma drain_items:
  "ready q \<Longrightarrow> length (items q) < n \<Longrightarrow>
   \<exists>q'. drain pop n q = Some (items q, True, q') \<and> items q' = [] \<and> ready q'"
proof (induction n arbitrary: q)
  case 0
  then show ?case by simp
next
  case (Suc n)
  show ?case
  proof (cases "items q")
    case Nil
    from pop_empty [OF Suc.prems(1) Nil] show ?thesis by (auto simp: Nil)
  next
    case (Cons x xs)
    from pop_items [OF Suc.prems(1) Cons] obtain q1
      where q1: "pop q = Some (Some x, q1)" "items q1 = xs" "ready q1" by blast
    with Suc.prems(2) Cons have "length (items q1) < n" by simp
    from Suc.IH [OF q1(3) this] show ?thesis by (auto simp: q1 Cons)
  qed
qed

lemma push_then_drain:
  assumes "ready q" and "items q = []" and "length xs < n"
  shows "\<exists>q1 q2. push_list push xs q = Some q1 \<and> drain pop n q1 = Some (xs, True, q2) \<and>
    items q2 = [] \<and> ready q2"
proof -
  obtain q1 where q1: "push_list push xs q = Some q1" "items q1 = xs" "ready q1"
    using push_list_items [OF assms(1), of xs] assms(2) by auto
  with drain_items [OF q1(3), of n] assms(3) show ?thesis by auto
qed

end

interpretation lq: fifo_queue LockedQueue_add LockedQueue_next lq_items "\<lambda>q. \<not> lq_locked q"
  by unfold_locales
    (auto simp: queue_simps)

interpretation pq: fifo_queue "\<lambda>x q. Some (PCQueue_Push x q)" "\<lambda>q. Some (PCQueue_Pop q)" pq_items
  "\<lambda>q. \<not> pq_shutdown q"
  by unfold_locales (auto simp: PCQueue_Push_def PCQueue_Pop_def PCQueue_Empty_def)

text \<open>
  First in, first out: what threads \<^verbatim>\<open>add\<close> to an unlocked queue comes out of the
  \<^verbatim>\<open>while (next(x))\<close> loop in the same order, the loop ends after one round more than there
  are elements, and the queue is empty and unlocked afterwards.
\<close>

theorem locked_queue_fifo:
  assumes "\<not> lq_locked q" and "lq_items q = []" and "length xs < n"
  shows "\<exists>q1 q2. push_list LockedQueue_add xs q = Some q1 \<and>
    drain LockedQueue_next n q1 = Some (xs, True, q2) \<and> lq_items q2 = [] \<and> \<not> lq_locked q2"
  using assms by (rule lq.push_then_drain)

theorem locked_queue_fifo_witness:
  "\<exists>q1 q2. push_list LockedQueue_add [3, 1, 2 :: nat] LockedQueue_new = Some q1 \<and>
    drain LockedQueue_next 4 q1 = Some ([3, 1, 2], True, q2) \<and> lq_items q2 = [] \<and> \<not> lq_locked q2"
  using locked_queue_fifo [of "LockedQueue_new :: nat locked_queue" "[3, 1, 2]" 4]
  by (simp add: LockedQueue_new_def)

text \<open>
  A peek without \<^verbatim>\<open>autoUnlock\<close> keeps the mutex, so every later operation blocks until
  the caller unlocks; with it the queue is as before.
\<close>

theorem peek_holds_lock:
  assumes "LockedQueue_peek autoUnlock q = Some (x, q')"
  shows "lq_items q' = lq_items q \<and> x = hd (lq_items q) \<and> lq_items q \<noteq> [] \<and>
    (if autoUnlock then q' = q else LockedQueue_next q' = None \<and> LockedQueue_add y q' = None \<and>
       LockedQueue_next (LockedQueue_unlock q') = LockedQueue_next q)"
  using assms
  by (cases q) (auto simp: queue_simps split: list.splits if_splits)

theorem peek_holds_lock_witness:
  "LockedQueue_next ((LockedQueue_new :: nat locked_queue)\<lparr>lq_items := [7], lq_locked := True\<rparr>) = None"
  using peek_holds_lock [of False "(LockedQueue_new :: nat locked_queue)\<lparr>lq_items := [7]\<rparr>" 7]
  by (simp add: queue_simps)

end
