(* ===== verification/Sockets.thy ===== *)
theory Sockets
  imports ByteBuffer
begin

text \<open>
  The framing layer: \<^verbatim>\<open>src/server/shared/Networking/MessageBuffer.h\<close>,
  \<^verbatim>\<open>Networking/Socket.h\<close>, \<^verbatim>\<open>Server/Protocol/ServerPktHeader.h\<close> and the packet
  headers of \<^verbatim>\<open>Server/WorldSocket.h\<close>. Boost.Asio is the environment: an asynchronous
  operation the code starts is recorded in the socket (\<open>sk_read\<close>, \<open>sk_write\<close>) and its
  completion is a call of the handler with what Asio documents: an error, or between one and
  the requested number of bytes. Where the template calls the virtual handlers of the derived
  class, the operation returns that it did (the flag in its result); the handlers are in the
  theory of the world.
\<close>

section \<open>MessageBuffer\<close>

record message_buffer =
  mb_wpos :: nat
  mb_storage :: "u8 list"

definition MessageBuffer_new :: message_buffer where
  "MessageBuffer_new = \<lparr>mb_wpos = 0, mb_storage = []\<rparr>"

definition MessageBuffer_Reset :: "message_buffer \<Rightarrow> message_buffer" where
  "MessageBuffer_Reset m = m\<lparr>mb_storage := [], mb_wpos := 0\<rparr>"

definition MessageBuffer_IsMessageReady :: "message_buffer \<Rightarrow> bool" where
  "MessageBuffer_IsMessageReady m \<longleftrightarrow> mb_wpos m = length (mb_storage m)"

definition MessageBuffer_GetMissingSize :: "message_buffer \<Rightarrow> nat" where
  "MessageBuffer_GetMissingSize m = length (mb_storage m) - mb_wpos m"

definition MessageBuffer_Grow :: "nat \<Rightarrow> message_buffer \<Rightarrow> message_buffer" where
  "MessageBuffer_Grow bytes m = m\<lparr>mb_storage := mb_storage m @ replicate bytes 0\<rparr>"

definition MessageBuffer_WriteCompleted :: "nat \<Rightarrow> message_buffer \<Rightarrow> message_buffer" where
  "MessageBuffer_WriteCompleted bytes m = m\<lparr>mb_wpos := mb_wpos m + bytes\<rparr>"

definition MessageBuffer_ResetWritePointer :: "message_buffer \<Rightarrow> message_buffer" where
  "MessageBuffer_ResetWritePointer m = m\<lparr>mb_wpos := 0\<rparr>"

definition MessageBuffer_Move :: "message_buffer \<Rightarrow> u8 list \<times> message_buffer" where
  "MessageBuffer_Move m = (mb_storage m, \<lparr>mb_wpos = 0, mb_storage = []\<rparr>)"

text \<open>What Asio does before it calls the handler: it stores the bytes at \<^verbatim>\<open>GetWritePointer\<close>.\<close>

definition mb_fill :: "u8 list \<Rightarrow> message_buffer \<Rightarrow> message_buffer" where
  "mb_fill bs m = m\<lparr>mb_storage := overwrite (mb_wpos m) bs (mb_storage m)\<rparr>"

section \<open>Headers\<close>

text \<open>The four 16-bit halves of a server header, and their bytes on the (little-endian) wire.\<close>

definition ServerPktHeader_words :: "u32 \<Rightarrow> u32 \<Rightarrow> u16 list" where
  "ServerPktHeader_words hsize cmd =
     [ucast (0xFFFF AND hsize), ucast (0xFFFF AND drop_bit 16 hsize),
      ucast (0xFFFF AND cmd), ucast (0xFFFF AND drop_bit 16 cmd)]"

definition ServerPktHeader_bytes :: "u32 \<Rightarrow> u32 \<Rightarrow> u8 list" where
  "ServerPktHeader_bytes hsize cmd = concat (map (\<lambda>h. le_enc 2 (unat h)) (ServerPktHeader_words hsize cmd))"

record client_header =
  ch_size :: u32
  ch_cmd :: u32

definition NUM_MSG_TYPES :: u32 where
  "NUM_MSG_TYPES = 0x12"

definition ClientPktHeader_IsValid :: "client_header \<Rightarrow> bool" where
  "ClientPktHeader_IsValid h \<longleftrightarrow> ch_size h \<ge> 4 \<and> ch_size h < 10240 \<and> ch_cmd h < NUM_MSG_TYPES"

text \<open>\<^verbatim>\<open>reinterpret_cast<ClientPktHeader*>(GetHeaderBuffer())\<close>, two packed 32-bit fields.\<close>

definition ClientPktHeader_of_bytes :: "u8 list \<Rightarrow> client_header" where
  "ClientPktHeader_of_bytes bs =
     \<lparr>ch_size = word_of_nat (le_dec (take 4 bs)), ch_cmd = word_of_nat (le_dec (take 4 (drop 4 bs)))\<rparr>"

definition ClientPktHeader_size :: nat where
  "ClientPktHeader_size = 8"

text \<open>
  \<^verbatim>\<open>header->size - sizeof(ClientPktHeader)\<close>: the subtraction is done in \<^verbatim>\<open>size_t\<close>.
\<close>

definition ClientPktHeader_body_size :: "client_header \<Rightarrow> nat" where
  "ClientPktHeader_body_size h =
     (unat (ch_size h) + 2 ^ 64 - ClientPktHeader_size) mod 2 ^ 64"

section \<open>Socket\<close>

datatype read_op = ReadHeader nat | ReadData nat

record socket =
  sk_closed :: bool
  sk_closing :: bool
  sk_header :: message_buffer
  sk_data :: message_buffer
  sk_read :: "read_op option"
  sk_writeQueue :: "(u8 list \<times> world_packet) list"
  sk_write :: "(u8 list \<times> world_packet) list"
  sk_sent :: "(u8 list \<times> world_packet) list"

definition Socket_new :: "nat \<Rightarrow> socket" where
  "Socket_new headerSize =
     \<lparr>sk_closed = False, sk_closing = False,
      sk_header = MessageBuffer_Grow headerSize MessageBuffer_new, sk_data = MessageBuffer_new,
      sk_read = None, sk_writeQueue = [], sk_write = [], sk_sent = []\<rparr>"

definition Socket_IsOpen :: "socket \<Rightarrow> bool" where
  "Socket_IsOpen s \<longleftrightarrow> \<not> sk_closed s"

definition Socket_CloseSocket :: "socket \<Rightarrow> socket" where
  "Socket_CloseSocket s = (if sk_closed s then s else s\<lparr>sk_closed := True\<rparr>)"

definition Socket_DelayedCloseSocket :: "socket \<Rightarrow> socket" where
  "Socket_DelayedCloseSocket s = s\<lparr>sk_closing := True\<rparr>"

definition READ_BLOCK_SIZE :: nat where
  "READ_BLOCK_SIZE = 4096"

definition Socket_AsyncReadMissingHeaderData :: "socket \<Rightarrow> socket" where
  "Socket_AsyncReadMissingHeaderData s =
     s\<lparr>sk_read := Some (ReadHeader (min READ_BLOCK_SIZE (MessageBuffer_GetMissingSize (sk_header s))))\<rparr>"

definition Socket_AsyncReadMissingData :: "socket \<Rightarrow> socket" where
  "Socket_AsyncReadMissingData s =
     s\<lparr>sk_read := Some (ReadData (min READ_BLOCK_SIZE (MessageBuffer_GetMissingSize (sk_data s))))\<rparr>"

definition Socket_AsyncReadHeader :: "socket \<Rightarrow> socket" where
  "Socket_AsyncReadHeader s =
     (if \<not> Socket_IsOpen s then s
      else Socket_AsyncReadMissingHeaderData
             (s\<lparr>sk_header := MessageBuffer_ResetWritePointer (sk_header s),
                sk_data := MessageBuffer_Reset (sk_data s)\<rparr>))"

text \<open>The flag: the handler is invoked at once, for a packet without a body.\<close>

definition Socket_AsyncReadData :: "nat \<Rightarrow> socket \<Rightarrow> socket \<times> bool" where
  "Socket_AsyncReadData sz s =
     (if \<not> Socket_IsOpen s then (s, False)
      else if sz = 0 then (s, True)
      else (Socket_AsyncReadMissingData (s\<lparr>sk_data := MessageBuffer_Grow sz (sk_data s)\<rparr>), False))"

text \<open>
  The read that blocks: \<open>bs\<close> are the bytes that came, at most \<open>sz\<close>, before the end or an error.
\<close>

definition Socket_ReadData :: "nat \<Rightarrow> u8 list \<Rightarrow> bool \<Rightarrow> socket \<Rightarrow> socket" where
  "Socket_ReadData sz bs error s =
     (if \<not> Socket_IsOpen s then s
      else
        let s = s\<lparr>sk_data := MessageBuffer_Grow sz (sk_data s)\<rparr>;
            s = s\<lparr>sk_data := MessageBuffer_WriteCompleted (length bs) (mb_fill bs (sk_data s))\<rparr>
        in if error \<or> \<not> MessageBuffer_IsMessageReady (sk_data s) then Socket_CloseSocket s else s)"

text \<open>The completion handlers; \<open>None\<close> is an error, \<open>Some bs\<close> the transferred bytes.\<close>

definition Socket_ReadHeaderHandlerInternal :: "u8 list option \<Rightarrow> socket \<Rightarrow> socket \<times> bool" where
  "Socket_ReadHeaderHandlerInternal transferred s =
     (case transferred of
        None \<Rightarrow> (Socket_CloseSocket (s\<lparr>sk_read := None\<rparr>), False)
      | Some bs \<Rightarrow>
          let s = s\<lparr>sk_read := None,
                    sk_header := MessageBuffer_WriteCompleted (length bs) (mb_fill bs (sk_header s))\<rparr>
          in if \<not> MessageBuffer_IsMessageReady (sk_header s)
             then (Socket_AsyncReadMissingHeaderData s, False)
             else (s, True))"

definition Socket_ReadDataHandlerInternal :: "u8 list option \<Rightarrow> socket \<Rightarrow> socket \<times> bool" where
  "Socket_ReadDataHandlerInternal transferred s =
     (case transferred of
        None \<Rightarrow> (Socket_CloseSocket (s\<lparr>sk_read := None\<rparr>), False)
      | Some bs \<Rightarrow>
          let s = s\<lparr>sk_read := None,
                    sk_data := MessageBuffer_WriteCompleted (length bs) (mb_fill bs (sk_data s))\<rparr>
          in if \<not> MessageBuffer_IsMessageReady (sk_data s)
             then (Socket_AsyncReadMissingData s, False)
             else (s, True))"

text \<open>
  Writing: \<open>sk_write\<close> holds the writes Asio is busy with, \<open>sk_sent\<close> those it has
  finished. The packet queue holds the header and the packet of \<^verbatim>\<open>WorldPacketBuffer\<close>.
\<close>

definition Socket_AsyncWrite_start :: "u8 list \<times> world_packet \<Rightarrow> socket \<Rightarrow> socket" where
  "Socket_AsyncWrite_start data s = s\<lparr>sk_write := sk_write s @ [data]\<rparr>"

definition WorldPacketBuffer_bytes :: "u8 list \<times> world_packet \<Rightarrow> u8 list" where
  "WorldPacketBuffer_bytes hp = fst hp @ (if bb_empty (snd hp) then [] else storage (snd hp))"

definition WorldSocket_AsyncWrite :: "world_packet \<Rightarrow> socket \<Rightarrow> socket" where
  "WorldSocket_AsyncWrite packet s =
     (if \<not> Socket_IsOpen s then s
      else
        let Opcode = m_opcode packet;
            header = ServerPktHeader_bytes (word_of_nat (bb_size packet) + 4 * 2) Opcode;
            needsWriteStart = (sk_writeQueue s = []);
            s = s\<lparr>sk_writeQueue := sk_writeQueue s @ [(header, packet)]\<rparr>
        in if needsWriteStart then Socket_AsyncWrite_start (hd (sk_writeQueue s)) s else s)"

text \<open>\<^verbatim>\<open>WriteHandler\<close>: \<open>front()\<close> and \<open>pop()\<close> of an empty queue are undefined.\<close>

definition Socket_WriteHandler :: "bool \<Rightarrow> socket \<Rightarrow> socket option" where
  "Socket_WriteHandler error s0 =
     (let s = (if error then s0\<lparr>sk_write := tl (sk_write s0)\<rparr>
               else s0\<lparr>sk_write := tl (sk_write s0), sk_sent := sk_sent s0 @ take 1 (sk_write s0)\<rparr>) in
      if \<not> error then
        (case sk_writeQueue s of
           [] \<Rightarrow> None
         | _ # rest \<Rightarrow>
             let s = s\<lparr>sk_writeQueue := rest\<rparr> in
             (case rest of
                data # _ \<Rightarrow> Some (Socket_AsyncWrite_start data s)
              | [] \<Rightarrow> if sk_closing s then Some (Socket_CloseSocket s) else Some s))
      else Some (Socket_CloseSocket s))"

text \<open>The destructor empties the queue. Every operation in progress holds the socket, so it only runs when there is none.\<close>

definition Socket_delete :: "socket \<Rightarrow> socket option" where
  "Socket_delete s =
     (if sk_write s = [] \<and> sk_read s = None then Some (s\<lparr>sk_writeQueue := []\<rparr>) else None)"

section \<open>Headers are read back as they were written\<close>

lemma le_enc_append: "le_enc (m + n) x = le_enc m x @ le_enc n (x div 256 ^ m)"
  by (induction m arbitrary: x) (simp_all add: div_mult2_eq)

lemma le_enc_mod: "le_enc m (x mod 256 ^ m) = le_enc m x"
proof -
  have "le_enc (length (le_enc m x)) (le_dec (le_enc m x)) = le_enc m x" by (rule le_enc_dec)
  then show ?thesis by (simp add: le_dec_enc)
qed

lemma unat_half: "unat (ucast (0xFFFF AND (w :: u32)) :: u16) = unat w mod 65536"
proof -
  have "0xFFFF AND w = take_bit 16 w" by (simp add: take_bit_eq_mask mask_numeral and.commute)
  then have "unat (ucast (0xFFFF AND w) :: u16) = unat (take_bit 16 w) mod 65536"
    by (simp add: unsigned_ucast_eq take_bit_eq_mod)
  also have "\<dots> = unat w mod 65536"
    unfolding take_bit_eq_mod by (simp add: unat_mod_distrib)
  finally show ?thesis .
qed

lemma two_halves:
  "le_enc 2 (unat (ucast (0xFFFF AND (w :: u32)) :: u16)) @
   le_enc 2 (unat (ucast (0xFFFF AND drop_bit 16 w) :: u16)) = le_enc 4 (unat w)"
proof -
  have "unat (drop_bit 16 w) = unat w div 65536"
    unfolding drop_bit_eq_div by (simp add: unat_div_distrib)
  then show ?thesis
    using le_enc_append [of 2 2 "unat w"] le_enc_mod [of 2 "unat w"] le_enc_mod [of 2 "unat w div 65536"]
    by (simp add: unat_half)
qed

lemma ServerPktHeader_bytes_le: "ServerPktHeader_bytes sz cmd = le_enc 4 (unat sz) @ le_enc 4 (unat cmd)"
  using two_halves [of sz] two_halves [of cmd]
  by (simp add: ServerPktHeader_bytes_def ServerPktHeader_words_def)

lemma le_dec_enc_u32 [simp]: "le_dec (le_enc 4 (unat (w :: u32))) = unat w"
  using unat_u32_less [of w] by (simp add: le_dec_enc)

lemma ClientPktHeader_of_ServerPktHeader:
  "ClientPktHeader_of_bytes (ServerPktHeader_bytes sz cmd) = \<lparr>ch_size = sz, ch_cmd = cmd\<rparr>"
  by (simp add: ServerPktHeader_bytes_le ClientPktHeader_of_bytes_def)

section \<open>Reassembly\<close>

text \<open>The environment delivers the bytes in chunks, one completion after the other.\<close>

fun feed :: "(u8 list option \<Rightarrow> socket \<Rightarrow> socket \<times> bool) \<Rightarrow> u8 list list \<Rightarrow> socket \<Rightarrow> socket \<times> bool" where
  "feed handler [] s = (s, False)"
| "feed handler (c # cs) s =
     (case handler (Some c) s of (s', ready) \<Rightarrow> if ready then (s', True) else feed handler cs s')"

lemma fill_append:
  assumes "mb_wpos m = length pre" and "mb_storage m = pre @ old" and "length c \<le> length old"
  shows "MessageBuffer_WriteCompleted (length c) (mb_fill c m) =
    \<lparr>mb_wpos = length (pre @ c), mb_storage = (pre @ c) @ drop (length c) old\<rparr>"
  using assms by (cases m) (simp add: MessageBuffer_WriteCompleted_def mb_fill_def overwrite_def)

lemma feed_data:
  assumes "sk_data s = \<lparr>mb_wpos = length pre, mb_storage = pre @ old\<rparr>"
    and "length (concat cs) = length old" and "\<forall>c \<in> set cs. c \<noteq> []" and "cs \<noteq> []"
  shows "\<exists>s'. feed Socket_ReadDataHandlerInternal cs s = (s', True) \<and>
    sk_data s' = \<lparr>mb_wpos = length (pre @ concat cs), mb_storage = pre @ concat cs\<rparr> \<and>
    sk_closed s' = sk_closed s \<and> sk_header s' = sk_header s \<and> sk_read s' = None"
  using assms
proof (induction cs arbitrary: s pre old)
  case Nil
  then show ?case by simp
next
  case (Cons c cs)
  let ?m = "\<lparr>mb_wpos = length (pre @ c), mb_storage = (pre @ c) @ drop (length c) old\<rparr>"
  have fill: "MessageBuffer_WriteCompleted (length c) (mb_fill c (sk_data s)) = ?m"
    using Cons.prems by (intro fill_append) auto
  show ?case
  proof (cases "cs = []")
    case True
    with Cons.prems fill show ?thesis
      by (simp add: Socket_ReadDataHandlerInternal_def MessageBuffer_IsMessageReady_def)
  next
    case False
    with Cons.prems have "concat cs \<noteq> []" by (cases cs) auto
    with Cons.prems have "length c < length old" by (cases "concat cs") auto
    let ?s = "Socket_AsyncReadMissingData (s\<lparr>sk_read := None, sk_data := ?m\<rparr>)"
    have step: "Socket_ReadDataHandlerInternal (Some c) s = (?s, False)"
      using fill \<open>length c < length old\<close>
      by (simp add: Socket_ReadDataHandlerInternal_def MessageBuffer_IsMessageReady_def)
    have "\<exists>s'. feed Socket_ReadDataHandlerInternal cs ?s = (s', True) \<and>
        sk_data s' = \<lparr>mb_wpos = length ((pre @ c) @ concat cs), mb_storage = (pre @ c) @ concat cs\<rparr> \<and>
        sk_closed s' = sk_closed ?s \<and> sk_header s' = sk_header ?s \<and> sk_read s' = None"
      using Cons.prems False by (intro Cons.IH [where old = "drop (length c) old"])
        (auto simp: Socket_AsyncReadMissingData_def)
    then show ?thesis by (auto simp: step Socket_AsyncReadMissingData_def)
  qed
qed

text \<open>Reading all at once and reading in any chunks leave the same buffer, and the connection open.\<close>

lemma read_data_as_chunks:
  assumes "Socket_IsOpen s" "sk_data s = MessageBuffer_new" "\<forall>c \<in> set cs. c \<noteq> []" "cs \<noteq> []"
    and "sz = length (concat cs)"
  shows "\<exists>s'. feed Socket_ReadDataHandlerInternal cs (fst (Socket_AsyncReadData sz s)) = (s', True) \<and>
    sk_data s' = sk_data (Socket_ReadData sz (concat cs) False s) \<and>
    Socket_IsOpen s' \<and> Socket_IsOpen (Socket_ReadData sz (concat cs) False s)"
proof -
  have "sz \<noteq> 0" using assms(3-5) by (cases cs) auto
  let ?s = "fst (Socket_AsyncReadData sz s)"
  have "sk_data ?s = \<lparr>mb_wpos = length [], mb_storage = [] @ replicate sz 0\<rparr>" "sk_closed ?s = sk_closed s"
    using assms(1,2) \<open>sz \<noteq> 0\<close>
    by (simp_all add: Socket_AsyncReadData_def Socket_AsyncReadMissingData_def MessageBuffer_Grow_def MessageBuffer_new_def)
  moreover have "length (concat cs) = length (replicate sz (0 :: u8))" using assms(5) by simp
  ultimately have "\<exists>s'. feed Socket_ReadDataHandlerInternal cs ?s = (s', True) \<and>
      sk_data s' = \<lparr>mb_wpos = length ([] @ concat cs), mb_storage = [] @ concat cs\<rparr> \<and> sk_closed s' = sk_closed s"
    using feed_data [of ?s "[]" "replicate sz 0" cs] assms(3,4) by metis
  then obtain s' where "feed Socket_ReadDataHandlerInternal cs ?s = (s', True)"
    "sk_data s' = \<lparr>mb_wpos = sz, mb_storage = concat cs\<rparr>" "sk_closed s' = sk_closed s"
    unfolding assms(5) by auto
  moreover have "sk_data (Socket_ReadData sz (concat cs) False s) = \<lparr>mb_wpos = sz, mb_storage = concat cs\<rparr> \<and>
      sk_closed (Socket_ReadData sz (concat cs) False s) = sk_closed s"
    using assms(1,2,5) by (simp add: Socket_ReadData_def MessageBuffer_Grow_def MessageBuffer_new_def mb_fill_def
        MessageBuffer_WriteCompleted_def MessageBuffer_IsMessageReady_def overwrite_def Let_def)
  ultimately show ?thesis using assms(1) by (auto simp: Socket_IsOpen_def)
qed

lemma feed_header:
  assumes "sk_header s = \<lparr>mb_wpos = length pre, mb_storage = pre @ old\<rparr>"
    and "length (concat cs) = length old" and "\<forall>c \<in> set cs. c \<noteq> []" and "cs \<noteq> []"
  shows "\<exists>s'. feed Socket_ReadHeaderHandlerInternal cs s = (s', True) \<and>
    sk_header s' = \<lparr>mb_wpos = length (pre @ concat cs), mb_storage = pre @ concat cs\<rparr> \<and>
    sk_closed s' = sk_closed s \<and> sk_data s' = sk_data s \<and> sk_read s' = None"
  using assms
proof (induction cs arbitrary: s pre old)
  case Nil
  then show ?case by simp
next
  case (Cons c cs)
  let ?m = "\<lparr>mb_wpos = length (pre @ c), mb_storage = (pre @ c) @ drop (length c) old\<rparr>"
  have fill: "MessageBuffer_WriteCompleted (length c) (mb_fill c (sk_header s)) = ?m"
    using Cons.prems by (intro fill_append) auto
  show ?case
  proof (cases "cs = []")
    case True
    with Cons.prems fill show ?thesis
      by (simp add: Socket_ReadHeaderHandlerInternal_def MessageBuffer_IsMessageReady_def)
  next
    case False
    with Cons.prems have "concat cs \<noteq> []" by (cases cs) auto
    with Cons.prems have "length c < length old" by (cases "concat cs") auto
    let ?s = "Socket_AsyncReadMissingHeaderData (s\<lparr>sk_read := None, sk_header := ?m\<rparr>)"
    have step: "Socket_ReadHeaderHandlerInternal (Some c) s = (?s, False)"
      using fill \<open>length c < length old\<close>
      by (simp add: Socket_ReadHeaderHandlerInternal_def MessageBuffer_IsMessageReady_def)
    have "\<exists>s'. feed Socket_ReadHeaderHandlerInternal cs ?s = (s', True) \<and>
        sk_header s' = \<lparr>mb_wpos = length ((pre @ c) @ concat cs), mb_storage = (pre @ c) @ concat cs\<rparr> \<and>
        sk_closed s' = sk_closed ?s \<and> sk_data s' = sk_data ?s \<and> sk_read s' = None"
      using Cons.prems False by (intro Cons.IH [where old = "drop (length c) old"])
        (auto simp: Socket_AsyncReadMissingHeaderData_def)
    then show ?thesis by (auto simp: step Socket_AsyncReadMissingHeaderData_def)
  qed
qed

section \<open>The write queue\<close>

definition frame_of :: "world_packet \<Rightarrow> u8 list \<times> world_packet" where
  "frame_of p = (ServerPktHeader_bytes (word_of_nat (bb_size p) + 4 * 2) (m_opcode p), p)"

text \<open>
  What can happen to the sending side of a connection, with the frames accepted so far.
\<close>

inductive write_reach :: "(u8 list \<times> world_packet) list \<Rightarrow> socket \<Rightarrow> bool" where
  start: "write_reach [] (Socket_new n)"
| send: "write_reach fs s \<Longrightarrow>
     write_reach (if Socket_IsOpen s then fs @ [frame_of p] else fs) (WorldSocket_AsyncWrite p s)"
| written: "write_reach fs s \<Longrightarrow> sk_write s \<noteq> [] \<Longrightarrow> Socket_WriteHandler err s = Some s' \<Longrightarrow> write_reach fs s'"
| close: "write_reach fs s \<Longrightarrow> write_reach fs (Socket_CloseSocket s)"
| delayed_close: "write_reach fs s \<Longrightarrow> write_reach fs (Socket_DelayedCloseSocket s)"

definition write_inv :: "(u8 list \<times> world_packet) list \<Rightarrow> socket \<Rightarrow> bool" where
  "write_inv fs s \<longleftrightarrow> sk_sent s @ sk_writeQueue s = fs \<and>
     (sk_write s = [] \<and> (sk_writeQueue s = [] \<or> sk_closed s) \<or>
      sk_write s = take 1 (sk_writeQueue s) \<and> sk_writeQueue s \<noteq> [])"

lemma write_reach_inv: "write_reach fs s \<Longrightarrow> write_inv fs s"
proof (induction rule: write_reach.induct)
  case (start n)
  then show ?case by (simp add: write_inv_def Socket_new_def)
next
  case (send fs s p)
  then show ?case
    by (cases "sk_writeQueue s")
      (auto simp: write_inv_def WorldSocket_AsyncWrite_def Socket_IsOpen_def frame_of_def
        Socket_AsyncWrite_start_def Let_def)
next
  case (written fs s err s')
  then show ?case
    by (cases "sk_writeQueue s")
      (auto simp: write_inv_def Socket_WriteHandler_def Socket_CloseSocket_def
        Socket_AsyncWrite_start_def Let_def split: if_splits list.splits)
next
  case (close fs s)
  then show ?case by (auto simp: write_inv_def Socket_CloseSocket_def)
next
  case (delayed_close fs s)
  then show ?case by (auto simp: write_inv_def Socket_DelayedCloseSocket_def)
qed

text \<open>What the destructor throws away was left over when the connection was closed; an open one has sent all.\<close>

lemma delete_loses_nothing:
  assumes "write_reach fs s" "Socket_delete s = Some s'"
  shows "sk_writeQueue s' = []" "sk_sent s' = sk_sent s" "\<not> sk_closed s \<Longrightarrow> sk_sent s' = fs"
  using write_reach_inv [OF assms(1)] assms(2) by (auto simp: Socket_delete_def write_inv_def split: if_splits)

section \<open>Properties\<close>



text \<open>
  The header check admits sizes from 4 although a header has 8 bytes: for sizes 4 to 7 the
  body length wraps to almost \<open>2 ^ 64\<close>; for all other valid headers it is the size minus 8
  and below 10232.
\<close>

theorem valid_header_body_size:
  assumes "ClientPktHeader_IsValid h"
  shows "if ch_size h < 8
    then ClientPktHeader_body_size h = 2 ^ 64 - (8 - unat (ch_size h)) \<and>
         2 ^ 64 - 4 \<le> ClientPktHeader_body_size h
    else ClientPktHeader_body_size h = unat (ch_size h) - 8 \<and> ClientPktHeader_body_size h < 10232"
  using assms
  by (auto simp: ClientPktHeader_body_size_def ClientPktHeader_IsValid_def ClientPktHeader_size_def
      word_less_nat_alt word_le_nat_alt mod_if)

theorem valid_header_body_size_witness:
  "ClientPktHeader_IsValid \<lparr>ch_size = 4, ch_cmd = 0\<rparr> \<and>
   ClientPktHeader_body_size \<lparr>ch_size = 4, ch_cmd = 0\<rparr> = 2 ^ 64 - 4 \<and>
   ClientPktHeader_body_size \<lparr>ch_size = 9, ch_cmd = 1\<rparr> < 10232 \<and>
   2 ^ 64 - 4 \<le> ClientPktHeader_body_size \<lparr>ch_size = 7, ch_cmd = 0\<rparr>"
  using valid_header_body_size [of "\<lparr>ch_size = 4, ch_cmd = 0\<rparr>"]
    valid_header_body_size [of "\<lparr>ch_size = 9, ch_cmd = 1\<rparr>"]
    valid_header_body_size [of "\<lparr>ch_size = 7, ch_cmd = 0\<rparr>"]
  by (simp add: ClientPktHeader_IsValid_def NUM_MSG_TYPES_def)

text \<open>
  C9. On every connection, at any time, at most one asynchronous write is outstanding; when it
  completes the queue is not empty, so \<^verbatim>\<open>front\<close> and \<^verbatim>\<open>pop\<close> are defined; and what
  was sent followed by what is queued are exactly the accepted packets, framed, in the order of
  the \<^verbatim>\<open>AsyncWrite\<close> calls.
\<close>

theorem write_queue_order:
  assumes "write_reach fs s"
  shows "length (sk_write s) \<le> 1 \<and> sk_sent s @ sk_writeQueue s = fs \<and>
    (sk_write s \<noteq> [] \<longrightarrow> sk_write s = [hd (sk_writeQueue s)] \<and> (\<exists>s'. Socket_WriteHandler err s = Some s'))"
  using write_reach_inv [OF assms]
  by (cases "sk_writeQueue s") (auto simp: write_inv_def Socket_WriteHandler_def Let_def split: list.splits)

theorem write_queue_order_witness:
  "let s = WorldSocket_AsyncWrite (WorldPacket_new 5) (WorldSocket_AsyncWrite (WorldPacket_new 3) (Socket_new 8)) in
   sk_sent s @ sk_writeQueue s = [frame_of (WorldPacket_new 3), frame_of (WorldPacket_new 5)] \<and>
   length (sk_write s) \<le> 1"
proof -
  let ?s1 = "WorldSocket_AsyncWrite (WorldPacket_new 3) (Socket_new 8)"
  have o: "Socket_IsOpen (Socket_new 8)" "Socket_IsOpen ?s1"
    by (simp_all add: Socket_new_def Socket_IsOpen_def WorldSocket_AsyncWrite_def Let_def
        Socket_AsyncWrite_start_def)
  have "write_reach [frame_of (WorldPacket_new 3)] ?s1"
    using write_reach.send [OF write_reach.start, of 8 "WorldPacket_new 3"] o by simp
  then have "write_reach [frame_of (WorldPacket_new 3), frame_of (WorldPacket_new 5)]
      (WorldSocket_AsyncWrite (WorldPacket_new 5) ?s1)"
    using write_reach.send [of "[frame_of (WorldPacket_new 3)]" ?s1 "WorldPacket_new 5"] o by simp
  from write_queue_order [OF this] show ?thesis by (simp add: Let_def)
qed

end
