(* ===== verification/Cards.thy ===== *)
theory Cards
  imports Prelude
begin

text \<open>
  Cards: the deck and the shuffle of \<^verbatim>\<open>src/server/game/Room/Room.cpp\<close>
  (\<^verbatim>\<open>shuffleCard\<close>) and the card arrays of
  \<^verbatim>\<open>src/server/game/AI/OutCardAI.cpp\<close>. A card array is a block of bytes in which the
  value 100 (\<^verbatim>\<open>CARD_TERMINATE\<close>) ends the cards; the loops of the source run to that
  value, so on a block without it they leave the block, which is \<open>None\<close> here.
\<close>

definition CARD_TERMINATE :: u8 where
  "CARD_TERMINATE = 100"

section \<open>Loops over a terminated array\<close>

function getCardsNumber_loop :: "u8 list \<Rightarrow> nat \<Rightarrow> nat option" where
  "getCardsNumber_loop cards number =
     (if number \<ge> length cards then None
      else if cards ! number \<noteq> CARD_TERMINATE then getCardsNumber_loop cards (Suc number)
      else Some number)"
  by pat_completeness auto
termination
  by (relation "measure (\<lambda>(cards, number). length cards - number)") auto

declare getCardsNumber_loop.simps [simp del]

definition getCardsNumber :: "u8 list \<Rightarrow> nat option" where
  "getCardsNumber cards = getCardsNumber_loop cards 0"

definition resetCards :: "u8 list" where
  "resetCards = map (\<lambda>i. CARD_TERMINATE) [0..<24]"

function find_card_loop :: "u8 list \<Rightarrow> u8 \<Rightarrow> nat \<Rightarrow> nat option" where
  "find_card_loop SelfCards cCard i =
     (if i \<ge> length SelfCards then None
      else if SelfCards ! i \<noteq> CARD_TERMINATE
        then if SelfCards ! i = cCard then Some i else find_card_loop SelfCards cCard (Suc i)
        else Some i)"
  by pat_completeness auto
termination
  by (relation "measure (\<lambda>(cs, c, i). length cs - i)") auto

declare find_card_loop.simps [simp del]

function shift_cards_loop :: "u8 list \<Rightarrow> nat \<Rightarrow> u8 list option" where
  "shift_cards_loop SelfCards i =
     (if i \<ge> length SelfCards then None
      else if SelfCards ! i \<noteq> CARD_TERMINATE
        then if Suc i \<ge> length SelfCards then None
             else shift_cards_loop (SelfCards[i := SelfCards ! Suc i]) (Suc i)
        else Some SelfCards)"
  by pat_completeness auto
termination
  by (relation "measure (\<lambda>(cs, i). length cs - i)") auto

declare shift_cards_loop.simps [simp del]

definition rearrangeCards :: "u8 list \<Rightarrow> u8 \<Rightarrow> u8 list option" where
  "rearrangeCards SelfCards cCard = do {
     i \<leftarrow> find_card_loop SelfCards cCard 0;
     shift_cards_loop SelfCards i
   }"

function updateCardsFace_loop :: "u8 list \<Rightarrow> u8 list \<Rightarrow> nat \<Rightarrow> u8 list option" where
  "updateCardsFace_loop pcSelfCard pcOutCard i =
     (if i \<ge> length pcOutCard then None
      else if pcOutCard ! i \<noteq> CARD_TERMINATE
        then case rearrangeCards pcSelfCard (pcOutCard ! i) of
               None \<Rightarrow> None
             | Some self \<Rightarrow> updateCardsFace_loop self pcOutCard (Suc i)
        else Some pcSelfCard)"
  by pat_completeness auto
termination
  by (relation "measure (\<lambda>(self, out, i). length out - i)") auto

declare updateCardsFace_loop.simps [simp del]

definition updateCardsFace :: "u8 list \<Rightarrow> u8 list \<Rightarrow> u8 list option" where
  "updateCardsFace pcSelfCard pcOutCard =
     (if pcOutCard = [] then None
      else if pcOutCard ! 0 = CARD_TERMINATE then Some pcSelfCard
      else updateCardsFace_loop pcSelfCard pcOutCard 0)"

section \<open>The deck and the shuffle\<close>

definition new_deck :: "u8 list" where
  "new_deck =
     concat (map (\<lambda>color. map (\<lambda>card. push_bit 4 (word_of_nat color) OR word_of_nat card) [0..<13]) [0..<4])
     @ [61, 62]"

definition swap_cards :: "nat \<Rightarrow> nat \<Rightarrow> 'a list \<Rightarrow> 'a list" where
  "swap_cards i j cs = (if i \<noteq> j then cs[i := cs ! j, j := cs ! i] else cs)"

text \<open>\<open>rnd i\<close> is the value of \<^verbatim>\<open>rand()\<close> in round \<open>i\<close>.\<close>

definition shuffleCard :: "(nat \<Rightarrow> nat) \<Rightarrow> u8 list" where
  "shuffleCard rnd = fold (\<lambda>iIdx cs. swap_cards iIdx (rnd iIdx mod 54) cs) [0..<54] new_deck"

section \<open>The cards of an array\<close>

definition hand_of :: "u8 list \<Rightarrow> u8 list" where
  "hand_of cards = takeWhile (\<lambda>c. c \<noteq> CARD_TERMINATE) cards"

definition terminated :: "u8 list \<Rightarrow> bool" where
  "terminated cards \<longleftrightarrow> CARD_TERMINATE \<in> set cards"

lemma hand_of_append: "CARD_TERMINATE \<notin> set xs \<Longrightarrow> hand_of (xs @ CARD_TERMINATE # ys) = xs"
  by (induction xs) (auto simp: hand_of_def)

lemma terminated_split:
  assumes "terminated cards"
  obtains rest where "cards = hand_of cards @ CARD_TERMINATE # rest"
proof -
  from assms obtain ys zs where *: "cards = ys @ CARD_TERMINATE # zs" "CARD_TERMINATE \<notin> set ys"
    unfolding terminated_def by (meson split_list_first)
  then have "hand_of cards = ys" by (simp add: hand_of_append)
  with *(1) show thesis by (intro that [of zs]) simp
qed

lemma hand_of_no_terminator: "CARD_TERMINATE \<notin> set (hand_of cards)"
  by (auto simp: hand_of_def dest: set_takeWhileD)

lemma getCardsNumber_loop_split:
  "CARD_TERMINATE \<notin> set xs \<Longrightarrow>
   getCardsNumber_loop (pre @ xs @ CARD_TERMINATE # ys) (length pre) = Some (length pre + length xs)"
proof (induction xs arbitrary: pre)
  case Nil
  then show ?case by (subst getCardsNumber_loop.simps) simp
next
  case (Cons x xs)
  from Cons.IH [of "pre @ [x]"] Cons.prems show ?case
    by (subst getCardsNumber_loop.simps) (auto simp: nth_append)
qed

lemma getCardsNumber_terminated: "terminated cards \<Longrightarrow> getCardsNumber cards = Some (length (hand_of cards))"
  using getCardsNumber_loop_split [of "hand_of cards" "[]"] hand_of_no_terminator [of cards]
  by (metis append_Nil getCardsNumber_def list.size(3) plus_nat.add_0 terminated_split)

lemma find_card_loop_split:
  "CARD_TERMINATE \<notin> set xs \<Longrightarrow> c \<noteq> CARD_TERMINATE \<Longrightarrow>
   find_card_loop (pre @ xs @ CARD_TERMINATE # ys) c (length pre) =
     Some (length pre + length (takeWhile (\<lambda>x. x \<noteq> c) xs))"
proof (induction xs arbitrary: pre)
  case Nil
  then show ?case by (subst find_card_loop.simps) simp
next
  case (Cons x xs)
  from Cons.IH [of "pre @ [x]"] Cons.prems show ?case
    by (subst find_card_loop.simps) (auto simp: nth_append)
qed

lemma shift_cards_loop_split:
  "CARD_TERMINATE \<notin> set xs \<Longrightarrow>
   shift_cards_loop (pre @ xs @ CARD_TERMINATE # ys) (length pre) =
     Some (pre @ tl xs @ (if xs = [] then [] else [CARD_TERMINATE]) @ CARD_TERMINATE # ys)"
proof (induction xs arbitrary: pre)
  case Nil
  then show ?case by (subst shift_cards_loop.simps) simp
next
  case (Cons x xs)
  let ?next = "hd (xs @ [CARD_TERMINATE])"
  have upd: "(pre @ (x # xs) @ CARD_TERMINATE # ys)[length pre := (pre @ (x # xs) @ CARD_TERMINATE # ys) ! Suc (length pre)]
      = (pre @ [?next]) @ xs @ CARD_TERMINATE # ys"
    by (cases xs) (simp_all add: nth_append list_update_append)
  have "shift_cards_loop (pre @ (x # xs) @ CARD_TERMINATE # ys) (length pre) =
      shift_cards_loop ((pre @ [?next]) @ xs @ CARD_TERMINATE # ys) (length (pre @ [?next]))"
    using Cons.prems upd by (subst shift_cards_loop.simps) (auto simp: nth_append)
  also have "\<dots> = Some ((pre @ [?next]) @ tl xs @ (if xs = [] then [] else [CARD_TERMINATE]) @ CARD_TERMINATE # ys)"
    using Cons.prems by (intro Cons.IH) simp
  finally show ?case by (cases xs) simp_all
qed

lemma remove1_takeWhile:
  "remove1 c xs = takeWhile (\<lambda>x. x \<noteq> c) xs @ tl (dropWhile (\<lambda>x. x \<noteq> c) xs)"
  by (induction xs) auto

lemma rearrangeCards_split:
  assumes "CARD_TERMINATE \<notin> set xs" and "c \<noteq> CARD_TERMINATE"
  shows "rearrangeCards (xs @ CARD_TERMINATE # ys) c =
    Some (remove1 c xs @ (if c \<in> set xs then [CARD_TERMINATE] else []) @ CARD_TERMINATE # ys)"
proof -
  let ?pre = "takeWhile (\<lambda>x. x \<noteq> c) xs" and ?suf = "dropWhile (\<lambda>x. x \<noteq> c) xs"
  have xs: "xs = ?pre @ ?suf" by simp
  have "CARD_TERMINATE \<notin> set ?suf" using assms(1) by (meson set_dropWhileD)
  from shift_cards_loop_split [OF this, of ?pre ys]
  have "shift_cards_loop (xs @ CARD_TERMINATE # ys) (length ?pre) =
      Some (?pre @ tl ?suf @ (if ?suf = [] then [] else [CARD_TERMINATE]) @ CARD_TERMINATE # ys)"
    by (metis append.assoc xs)
  moreover have "?suf = [] \<longleftrightarrow> c \<notin> set xs" by (auto simp: dropWhile_eq_Nil_conv)
  moreover have "find_card_loop (xs @ CARD_TERMINATE # ys) c 0 = Some (length ?pre)"
    using find_card_loop_split [OF assms, of "[]"] by simp
  ultimately show ?thesis by (simp add: rearrangeCards_def remove1_takeWhile)
qed

lemma rearrangeCards_hand:
  assumes "terminated cards" and "c \<noteq> CARD_TERMINATE"
  obtains cards' where "rearrangeCards cards c = Some cards'" "hand_of cards' = remove1 c (hand_of cards)"
    "terminated cards'" "length cards' = length cards"
proof -
  obtain ys where ys: "cards = hand_of cards @ CARD_TERMINATE # ys"
    using assms(1) by (rule terminated_split)
  let ?x = "remove1 c (hand_of cards)"
  let ?cards = "?x @ (if c \<in> set (hand_of cards) then [CARD_TERMINATE] else []) @ CARD_TERMINATE # ys"
  have "rearrangeCards cards c = Some ?cards"
    using rearrangeCards_split [OF hand_of_no_terminator assms(2), of cards ys] ys by simp
  moreover have no: "CARD_TERMINATE \<notin> set ?x"
    using hand_of_no_terminator [of cards] by (metis set_remove1_subset subsetD)
  moreover have "hand_of ?cards = ?x"
    using hand_of_append [OF no] by simp
  moreover have "length ?cards = length cards"
    using arg_cong [OF ys, of length] by (auto simp: length_remove1 dest: length_pos_if_in_set)
  moreover have "terminated ?cards" by (simp add: terminated_def)
  ultimately show thesis using that by blast
qed

lemma updateCardsFace_loop_hand:
  assumes "CARD_TERMINATE \<notin> set os" and "terminated cards"
  shows "\<exists>cards'. updateCardsFace_loop cards (pre @ os @ CARD_TERMINATE # post) (length pre) = Some cards' \<and>
    hand_of cards' = fold remove1 os (hand_of cards) \<and> terminated cards' \<and> length cards' = length cards"
  using assms
proof (induction os arbitrary: pre cards)
  case Nil
  then show ?case by (subst updateCardsFace_loop.simps) simp
next
  case (Cons c os)
  then have "c \<noteq> CARD_TERMINATE" by auto
  from rearrangeCards_hand [OF Cons.prems(2) this] obtain c1
    where c1: "rearrangeCards cards c = Some c1" "hand_of c1 = remove1 c (hand_of cards)"
      "terminated c1" "length c1 = length cards" .
  have "updateCardsFace_loop cards (pre @ (c # os) @ CARD_TERMINATE # post) (length pre) =
      updateCardsFace_loop c1 ((pre @ [c]) @ os @ CARD_TERMINATE # post) (length (pre @ [c]))"
    using \<open>c \<noteq> CARD_TERMINATE\<close> c1(1) by (subst updateCardsFace_loop.simps) (simp add: nth_append)
  with Cons.IH [of c1 "pre @ [c]"] Cons.prems(1) c1 show ?case by auto
qed

lemma updateCardsFace_hand:
  assumes "terminated out" and "terminated cards"
  obtains cards' where "updateCardsFace cards out = Some cards'"
    "hand_of cards' = fold remove1 (hand_of out) (hand_of cards)" "terminated cards'" "length cards' = length cards"
proof -
  obtain post where out: "out = hand_of out @ CARD_TERMINATE # post"
    using assms(1) by (rule terminated_split)
  have "updateCardsFace_loop cards out 0 =
      updateCardsFace_loop cards ([] @ hand_of out @ CARD_TERMINATE # post) (length [])"
    by (simp add: out [symmetric])
  then obtain c1 where c1: "updateCardsFace_loop cards out 0 = Some c1"
      "hand_of c1 = fold remove1 (hand_of out) (hand_of cards)" "terminated c1" "length c1 = length cards"
    using updateCardsFace_loop_hand [OF hand_of_no_terminator [of out] assms(2), of "[]" post] by metis
  have "out \<noteq> []" using assms(1) by (auto simp: terminated_def)
  show thesis
  proof (cases "out ! 0 = CARD_TERMINATE")
    case True
    with \<open>out \<noteq> []\<close> have "hand_of out = []" by (cases out) (simp_all add: hand_of_def)
    with True \<open>out \<noteq> []\<close> assms(2) show thesis
      by (intro that [of cards]) (simp_all add: updateCardsFace_def)
  next
    case False
    with \<open>out \<noteq> []\<close> c1 show thesis by (intro that [of c1]) (simp_all add: updateCardsFace_def)
  qed
qed

lemma mset_fold_remove1: "mset (fold remove1 os xs) = mset xs - mset os"
  by (induction os arbitrary: xs) (auto simp: diff_add_mset_swap)

section \<open>The shuffle permutes the deck\<close>

lemma length_swap [simp]: "length (swap_cards i j cs) = length cs"
  by (simp add: swap_cards_def)

lemma mset_swap_cards: "i < length cs \<Longrightarrow> j < length cs \<Longrightarrow> mset (swap_cards i j cs) = mset cs"
  by (auto simp: swap_cards_def mset_swap list_update_swap)

lemma mset_fold_swap:
  "\<forall>i \<in> set is. i < length cs \<Longrightarrow> (\<And>i. f i < length cs) \<Longrightarrow>
   mset (fold (\<lambda>i cs. swap_cards i (f i) cs) is cs) = mset cs \<and>
   length (fold (\<lambda>i cs. swap_cards i (f i) cs) is cs) = length cs"
  by (induction "is" arbitrary: cs) (auto simp: mset_swap_cards)

lemma length_new_deck: "length new_deck = 54"
  by (simp add: new_deck_def upt_rec)

lemma new_deck_eq: "new_deck = map word_of_nat ([0..<13] @ [16..<29] @ [32..<45] @ [48..<63])"
  by (simp add: new_deck_def upt_rec)

lemma distinct_new_deck: "distinct new_deck"
  by (simp add: new_deck_eq upt_rec)

lemma new_deck_below: "\<forall>c \<in> set new_deck. c < CARD_TERMINATE"
  by (simp add: new_deck_eq upt_rec CARD_TERMINATE_def)

lemma shuffle_invariant: "mset (shuffleCard rnd) = mset new_deck \<and> length (shuffleCard rnd) = 54"
  using mset_fold_swap [of "[0..<54]" new_deck "\<lambda>i. rnd i mod 54"]
  by (simp add: shuffleCard_def length_new_deck)

lemma unterminated_loop:
  assumes "CARD_TERMINATE \<notin> set out"
  shows "updateCardsFace_loop cards out i = None"
  using assms
proof (induction cards out i rule: updateCardsFace_loop.induct)
  case (1 cards out i)
  have "out ! i \<noteq> CARD_TERMINATE" if "i < length out"
    using that 1(2) by (metis nth_mem)
  with 1 show ?case
    by (subst updateCardsFace_loop.simps) (auto split: option.splits)
qed

lemma fold_remove1_perm:
  assumes "mset os = mset xs"
  shows "fold remove1 os xs = []"
proof -
  have "mset (fold remove1 os xs) = {#}" using assms by (simp add: mset_fold_remove1)
  then show ?thesis by simp
qed

section \<open>Properties\<close>

text \<open>
  C17. Whatever \<^verbatim>\<open>rand()\<close> yields, the shuffle returns the 54 cards of the
  deck in some order: no card is lost or doubled, and none is the array terminator.
\<close>

theorem shuffle_permutes:
  "mset (shuffleCard rnd) = mset new_deck \<and> length (shuffleCard rnd) = 54 \<and>
   distinct (shuffleCard rnd) \<and> (\<forall>c. c \<in># mset (shuffleCard rnd) \<longrightarrow> c < CARD_TERMINATE)"
  using shuffle_invariant [of rnd] distinct_new_deck new_deck_below
  by (metis mset_eq_imp_distinct_iff set_mset_mset)

theorem shuffle_permutes_witness:
  "shuffleCard (\<lambda>i. i) = new_deck \<and> distinct (shuffleCard (\<lambda>i. 53 * i))"
proof
  have "swap_cards i (i mod 54) cs = cs" if "i < 54" for i and cs :: "u8 list"
    using that by (simp add: swap_cards_def)
  then have "fold (\<lambda>i cs. swap_cards i (i mod 54) cs) is cs = cs" if "\<forall>i \<in> set is. i < 54"
    for "is" and cs :: "u8 list"
    using that by (induction "is" arbitrary: cs) auto
  then show "shuffleCard (\<lambda>i. i) = new_deck" by (simp add: shuffleCard_def)
  show "distinct (shuffleCard (\<lambda>i. 53 * i))" using shuffle_permutes [of "\<lambda>i. 53 * i"] by simp
qed

text \<open>
  C16. Playing cards takes exactly them from the hand: on terminated arrays
  \<^verbatim>\<open>updateCardsFace\<close> stays inside the hand's block, removes one copy of every played
  card that is in the hand and nothing else, ignores played cards that are not, and leaves the hand
  terminated in a block of the same size.
\<close>

theorem play_removes_cards:
  assumes "terminated out" and "terminated cards"
  shows "\<exists>cards'. updateCardsFace cards out = Some cards' \<and>
    mset (hand_of cards') = mset (hand_of cards) - mset (hand_of out) \<and>
    getCardsNumber cards' = Some (length (hand_of cards')) \<and> length cards' = length cards"
  using assms
  by (metis getCardsNumber_terminated mset_fold_remove1 updateCardsFace_hand)

theorem play_removes_cards_witness:
  "\<exists>cards'. updateCardsFace [5, 18, 5, 61, 100, 100] [18, 7, 5, 100] = Some cards' \<and>
    mset (hand_of cards') = {#5, 61#}"
  using play_removes_cards [of "[18, 7, 5, 100]" "[5, 18, 5, 61, 100, 100]"]
  by (auto simp: terminated_def CARD_TERMINATE_def hand_of_def)

text \<open>
  A played array without the terminator is read past its end: with no
  byte 100 among the received cards the loop leaves the array, whatever the hand is.
\<close>

theorem unterminated_play_overreads:
  assumes "CARD_TERMINATE \<notin> set out"
  shows "updateCardsFace cards out = None"
  using unterminated_loop [OF assms] assms by (cases out) (auto simp: updateCardsFace_def)

theorem unterminated_play_overreads_witness:
  "updateCardsFace [5, 18, 100] (replicate 24 61) = None"
  by (rule unterminated_play_overreads) (simp add: CARD_TERMINATE_def)

end
