(* ===== verification/Timers.thy ===== *)
theory Timers
  imports Prelude "HOL-Library.Signed_Division"
begin

text \<open>
  Timers: the clock arithmetic and the timer classes of
  \<^verbatim>\<open>src/server/shared/Utilities/Timer.h\<close>, and the sleep balance of
  \<^verbatim>\<open>WorldUpdateLoop\<close> in \<^verbatim>\<open>src/server/worldserver/Main.cpp\<close>, which is
  driven by it. \<^verbatim>\<open>time_t\<close> is a signed 64-bit integer and \<^verbatim>\<open>int32\<close>
  arithmetic between signed operands is partial: a result out of range is undefined behaviour
  and gives \<open>None\<close>. Mixed signed and unsigned 32-bit arithmetic wraps.
\<close>

section \<open>Signed arithmetic\<close>

definition time_t_of :: "int \<Rightarrow> int option" where
  "time_t_of x = (if - (2 ^ 63) \<le> x \<and> x < 2 ^ 63 then Some x else None)"

definition int32_of :: "int \<Rightarrow> i32 option" where
  "int32_of x = (if - (2 ^ 31) \<le> x \<and> x < 2 ^ 31 then Some (word_of_int x) else None)"

section \<open>Clock differences\<close>

definition getMSTimeDiff :: "u32 \<Rightarrow> u32 \<Rightarrow> u32" where
  "getMSTimeDiff oldMSTime newMSTime =
     (if oldMSTime > newMSTime then (0xFFFFFFFF - oldMSTime) + newMSTime
      else newMSTime - oldMSTime)"

text \<open>\<^verbatim>\<open>getMSTime\<close>: the milliseconds since its first call, in 32 bits.\<close>

definition getMSTime :: "int \<Rightarrow> int \<Rightarrow> u32" where
  "getMSTime ApplicationStartTime now = word_of_int (now - ApplicationStartTime)"

definition GetMSTimeDiffToNow :: "int \<Rightarrow> int \<Rightarrow> u32 \<Rightarrow> u32" where
  "GetMSTimeDiffToNow ApplicationStartTime now oldMSTime = getMSTimeDiff oldMSTime (getMSTime ApplicationStartTime now)"

section \<open>IntervalTimer\<close>

record interval_timer =
  it_interval :: int
  it_current :: int

definition IntervalTimer_new :: interval_timer where
  "IntervalTimer_new = \<lparr>it_interval = 0, it_current = 0\<rparr>"

definition IntervalTimer_Update :: "int \<Rightarrow> interval_timer \<Rightarrow> interval_timer option" where
  "IntervalTimer_Update diff t = do {
     c \<leftarrow> time_t_of (it_current t + diff);
     Some (t\<lparr>it_current := if c < 0 then 0 else c\<rparr>)
   }"

definition IntervalTimer_Passed :: "interval_timer \<Rightarrow> bool" where
  "IntervalTimer_Passed t \<longleftrightarrow> it_current t \<ge> it_interval t"

definition IntervalTimer_Reset :: "interval_timer \<Rightarrow> interval_timer option" where
  "IntervalTimer_Reset t =
     (if it_current t \<ge> it_interval t
      then if it_interval t = 0 then None
           else Some (t\<lparr>it_current := it_current t smod it_interval t\<rparr>)
      else Some t)"

definition IntervalTimer_SetCurrent :: "int \<Rightarrow> interval_timer \<Rightarrow> interval_timer" where
  "IntervalTimer_SetCurrent current t = t\<lparr>it_current := current\<rparr>"

definition IntervalTimer_SetInterval :: "int \<Rightarrow> interval_timer \<Rightarrow> interval_timer" where
  "IntervalTimer_SetInterval interval t = t\<lparr>it_interval := interval\<rparr>"

section \<open>TimeTracker and TimeTrackerSmall\<close>

definition TimeTracker_Update :: "int \<Rightarrow> int \<Rightarrow> int option" where
  "TimeTracker_Update diff expiry = time_t_of (expiry - diff)"

definition TimeTracker_Passed :: "int \<Rightarrow> bool" where
  "TimeTracker_Passed expiry \<longleftrightarrow> expiry \<le> 0"

definition TimeTrackerSmall_Update :: "i32 \<Rightarrow> i32 \<Rightarrow> i32 option" where
  "TimeTrackerSmall_Update diff expiry = int32_of (sint expiry - sint diff)"

definition TimeTrackerSmall_Passed :: "i32 \<Rightarrow> bool" where
  "TimeTrackerSmall_Passed expiry \<longleftrightarrow> sint expiry \<le> 0"

text \<open>\<^verbatim>\<open>Reset\<close> sets the time whatever it was; the small one takes an unsigned interval into a signed time.\<close>

definition TimeTracker_Reset :: "int \<Rightarrow> int \<Rightarrow> int" where
  "TimeTracker_Reset interval expiry = interval"

definition TimeTrackerSmall_Reset :: "u32 \<Rightarrow> i32 \<Rightarrow> i32" where
  "TimeTrackerSmall_Reset interval expiry = interval"

lemma tracker_passes_in_time:
  "TimeTracker_Update diff (TimeTracker_Reset interval expiry) = Some expiry' \<Longrightarrow>
     TimeTracker_Passed expiry' = (interval \<le> diff)"
  by (auto simp: TimeTracker_Update_def TimeTracker_Reset_def TimeTracker_Passed_def time_t_of_def split: if_splits)

lemma sint_by_half: "sint (w :: i32) = (if uint w < 2 ^ 31 then uint w else uint w - 2 ^ 32)"
proof -
  have w: "0 \<le> uint w" "uint w < 2 ^ 32" using uint_lt2p [of w] by simp_all
  have s: "sint w = (uint w + 2 ^ 31) mod 2 ^ 32 - 2 ^ 31"
    by (simp add: sint_uint signed_take_bit_eq_take_bit_shift take_bit_eq_mod)
  show ?thesis
  proof (cases "uint w < 2 ^ 31")
    case True
    then have "(uint w + 2 ^ 31) mod 2 ^ 32 = uint w + 2 ^ 31" using w by (intro mod_pos_pos_trivial) simp_all
    with s True show ?thesis by simp
  next
    case False
    have "(uint w + 2 ^ 31) mod 2 ^ 32 = (uint w - 2 ^ 31 + 2 ^ 32) mod 2 ^ 32"
      by (rule arg_cong [where f = "\<lambda>x. x mod 2 ^ 32"]) simp
    also have "... = (uint w - 2 ^ 31) mod 2 ^ 32" by (rule mod_add_self2)
    also have "... = uint w - 2 ^ 31" using w False by (intro mod_pos_pos_trivial) simp_all
    finally show ?thesis using s False by simp
  qed
qed

lemma small_tracker_passes_at_once:
  "TimeTrackerSmall_Passed (TimeTrackerSmall_Reset interval expiry) \<longleftrightarrow> interval = 0 \<or> 2 ^ 31 \<le> uint interval"
proof -
  have "uint interval < 2 ^ 32" "0 \<le> uint interval" "uint interval = 0 \<longleftrightarrow> interval = 0"
    using uint_lt2p [of interval] by (simp_all add: uint_0_iff)
  then show ?thesis
    unfolding TimeTrackerSmall_Passed_def TimeTrackerSmall_Reset_def sint_by_half by auto
qed

section \<open>PeriodicTimer\<close>

record periodic_timer =
  pt_period :: i32
  pt_expireTime :: i32

definition PeriodicTimer_Update :: "u32 \<Rightarrow> periodic_timer \<Rightarrow> bool \<times> periodic_timer" where
  "PeriodicTimer_Update diff t =
     (let t = t\<lparr>pt_expireTime := pt_expireTime t - diff\<rparr> in
      if sint (pt_expireTime t) > 0 then (False, t)
      else (True, t\<lparr>pt_expireTime := pt_expireTime t +
              (if sint (pt_period t) > sint diff then pt_period t else diff)\<rparr>))"

definition PeriodicTimer_SetPeriodic :: "i32 \<Rightarrow> i32 \<Rightarrow> periodic_timer \<Rightarrow> periodic_timer" where
  "PeriodicTimer_SetPeriodic period start_time t = t\<lparr>pt_expireTime := start_time, pt_period := period\<rparr>"

definition PeriodicTimer_TUpdate :: "i32 \<Rightarrow> periodic_timer \<Rightarrow> periodic_timer option" where
  "PeriodicTimer_TUpdate diff t = do {
     e \<leftarrow> int32_of (sint (pt_expireTime t) - sint diff);
     Some (t\<lparr>pt_expireTime := e\<rparr>)
   }"

definition PeriodicTimer_TPassed :: "periodic_timer \<Rightarrow> bool" where
  "PeriodicTimer_TPassed t \<longleftrightarrow> sint (pt_expireTime t) \<le> 0"

definition PeriodicTimer_TReset :: "i32 \<Rightarrow> i32 \<Rightarrow> periodic_timer \<Rightarrow> periodic_timer option" where
  "PeriodicTimer_TReset diff period t = do {
     e \<leftarrow> int32_of (sint (pt_expireTime t) + (if sint period > sint diff then sint period else sint diff));
     Some (t\<lparr>pt_expireTime := e\<rparr>)
   }"

section \<open>The sleep of the world loop\<close>

definition WORLD_SLEEP_CONST :: u32 where
  "WORLD_SLEEP_CONST = 50"

text \<open>
  One iteration of \<^verbatim>\<open>WorldUpdateLoop\<close> that found the clock at \<open>realCurrTime\<close>: the
  difference handed to \<^verbatim>\<open>World::Update\<close>, and the new previous time and sleep.
\<close>

record world_loop =
  wl_realPrevTime :: u32
  wl_prevSleepTime :: u32
  wl_counter :: u32

definition WorldUpdateLoop_step :: "u32 \<Rightarrow> world_loop \<Rightarrow> u32 \<times> world_loop" where
  "WorldUpdateLoop_step realCurrTime l =
     (let diff = getMSTimeDiff (wl_realPrevTime l) realCurrTime;
          prevSleepTime = wl_prevSleepTime l
      in (diff,
          \<lparr>wl_realPrevTime = realCurrTime,
           wl_prevSleepTime =
             (if diff \<le> WORLD_SLEEP_CONST + prevSleepTime then WORLD_SLEEP_CONST + prevSleepTime - diff
              else 0),
           wl_counter = wl_counter l + 1\<rparr>))"

text \<open>
  \<open>ticks\<close> runs the loop on the time each iteration's work takes: an iteration starts when the
  sleep before it is over.
\<close>

fun ticks :: "u32 list \<Rightarrow> world_loop \<Rightarrow> world_loop" where
  "ticks [] l = l"
| "ticks (t # ts) l =
     ticks ts (snd (WorldUpdateLoop_step (wl_realPrevTime l + wl_prevSleepTime l + t) l))"

section \<open>Lemmas\<close>

lemma unat_sub_le: "(b :: 'a::len word) \<le> a \<Longrightarrow> unat (a - b) = unat a - unat b"
  by (rule unat_sub)

lemma getMSTimeDiff_forward:
  assumes "unat old + unat d < 2 ^ 32"
  shows "getMSTimeDiff old (old + d) = d"
proof -
  have "unat (old + d) = unat old + unat d"
    using assms by (subst unat_plus_if') simp
  then have "\<not> old > old + d" by (simp add: word_less_nat_alt)
  then show ?thesis by (simp add: getMSTimeDiff_def)
qed

lemma getMSTimeDiff_wrapped:
  assumes "unat old + unat d \<ge> 2 ^ 32"
  shows "getMSTimeDiff old (old + d) = d - 1"
proof -
  have "unat (old + d) = unat old + unat d - 2 ^ 32"
    using assms by (subst unat_plus_if') simp
  also have "\<dots> < unat old" using assms unat_u32_less [of d] by (simp del: unat_u32_less)
  finally have "old > old + d" by (simp add: word_less_nat_alt)
  then show ?thesis by (simp add: getMSTimeDiff_def)
qed

lemma step_sleep:
  assumes "unat (wl_realPrevTime l) + unat (wl_prevSleepTime l) + unat t < 2 ^ 32"
    and "wl_prevSleepTime l \<le> WORLD_SLEEP_CONST"
  shows "wl_prevSleepTime (snd (WorldUpdateLoop_step (wl_realPrevTime l + wl_prevSleepTime l + t) l)) =
    (if t \<le> WORLD_SLEEP_CONST then WORLD_SLEEP_CONST - t else 0)"
proof -
  let ?p = "wl_prevSleepTime l"
  have sum: "unat (?p + t) = unat ?p + unat t"
    using assms(1) by (subst unat_plus_if') simp
  have "getMSTimeDiff (wl_realPrevTime l) (wl_realPrevTime l + (?p + t)) = ?p + t"
    using assms(1) by (intro getMSTimeDiff_forward) (simp add: sum add.assoc)
  moreover have p50: "unat ?p \<le> 50"
    using assms(2) by (simp add: WORLD_SLEEP_CONST_def word_le_nat_alt)
  then have "unat (50 + ?p) = 50 + unat ?p"
    by (subst unat_plus_if') simp
  then have "?p + t \<le> 50 + ?p \<longleftrightarrow> t \<le> 50"
    by (simp add: word_le_nat_alt sum)
  ultimately show ?thesis
    by (simp add: WorldUpdateLoop_step_def WORLD_SLEEP_CONST_def Let_def add.assoc)
qed

lemma step_time: "wl_realPrevTime (snd (WorldUpdateLoop_step now l)) = now"
  by (simp add: WorldUpdateLoop_step_def Let_def)

lemma step_balance:
  assumes "unat (wl_realPrevTime l) + unat (wl_prevSleepTime l) + 50 < 2 ^ 32"
    and "wl_prevSleepTime l \<le> WORLD_SLEEP_CONST" and "t \<le> WORLD_SLEEP_CONST"
  defines "l' \<equiv> snd (WorldUpdateLoop_step (wl_realPrevTime l + wl_prevSleepTime l + t) l)"
  shows "unat (wl_realPrevTime l') + unat (wl_prevSleepTime l') =
      unat (wl_realPrevTime l) + unat (wl_prevSleepTime l) + 50 \<and> wl_prevSleepTime l' \<le> WORLD_SLEEP_CONST"
proof -
  have t: "unat t \<le> 50" using assms(3) by (simp add: WORLD_SLEEP_CONST_def word_le_nat_alt)
  have sleep: "wl_prevSleepTime l' = 50 - t"
    using step_sleep [of l t] assms(1-3) t by (simp add: l'_def WORLD_SLEEP_CONST_def)
  have "unat (50 - t) = 50 - unat t"
    using assms(3) by (simp add: WORLD_SLEEP_CONST_def unat_sub)
  moreover have "unat (wl_realPrevTime l + wl_prevSleepTime l) =
      unat (wl_realPrevTime l) + unat (wl_prevSleepTime l)"
    using assms(1) by (subst unat_plus_if') simp
  then have "unat (wl_realPrevTime l + wl_prevSleepTime l + t) =
      unat (wl_realPrevTime l) + unat (wl_prevSleepTime l) + unat t"
    using assms(1) t by (subst unat_plus_if') simp
  ultimately show ?thesis
    using t sleep by (simp add: l'_def step_time WORLD_SLEEP_CONST_def word_le_nat_alt)
qed

lemma ticks_balance:
  "unat (wl_realPrevTime l) + unat (wl_prevSleepTime l) + 50 * length ts < 2 ^ 32 \<Longrightarrow>
   wl_prevSleepTime l \<le> WORLD_SLEEP_CONST \<Longrightarrow> \<forall>t \<in> set ts. t \<le> WORLD_SLEEP_CONST \<Longrightarrow>
   unat (wl_realPrevTime (ticks ts l)) + unat (wl_prevSleepTime (ticks ts l)) =
     unat (wl_realPrevTime l) + unat (wl_prevSleepTime l) + 50 * length ts"
proof (induction ts arbitrary: l)
  case (Cons t ts)
  let ?l = "snd (WorldUpdateLoop_step (wl_realPrevTime l + wl_prevSleepTime l + t) l)"
  have "unat (wl_realPrevTime l) + unat (wl_prevSleepTime l) + 50 < 2 ^ 32" and "t \<le> WORLD_SLEEP_CONST"
    using Cons.prems by simp_all
  from step_balance [OF this(1) Cons.prems(2) this(2)] Cons.IH [of ?l] Cons.prems show ?case
    by simp
qed simp

section \<open>Properties\<close>

text \<open>
  The clock difference is exact as long as the millisecond clock does not
  wrap between the two readings, and one millisecond short when it does.
\<close>

theorem clock_difference:
  "getMSTimeDiff old (old + d) = (if unat old + unat d < 2 ^ 32 then d else d - 1)"
  using getMSTimeDiff_forward [of old d] getMSTimeDiff_wrapped [of old d]
  by (simp add: not_less)



end
