(* ===== verification/GameState.thy ===== *)
theory GameState
  imports ByteBuffer Queues Sockets Timers
begin

text \<open>
  GameState: the objects of the running server. \<^verbatim>\<open>PlayerInfo\<close> and the members of
  \<^verbatim>\<open>Player\<close> are those of \<^verbatim>\<open>src/server/game/Player/Player.h\<close>,
  a session has the members of \<^verbatim>\<open>Server/WorldSession.h\<close>, a connection those of
  \<^verbatim>\<open>Server/WorldSocket.h\<close>, the configuration indices are those of
  \<^verbatim>\<open>World/World.h\<close>. Players, sessions and connections are shared through
  pointers and mutated by several components, so they live in a store from addresses to
  objects. Operations are functions \<open>world \<Rightarrow> world option\<close>; \<open>None\<close> is
  undefined behaviour (a null or dangling pointer, an access outside an array), an exception
  that nobody catches, a failed assertion, or a call that never returns.
\<close>

section \<open>PlayerInfo\<close>

record player_info =
  pi_id :: u32
  pi_icon_id :: u32
  pi_sex :: u32
  pi_gold :: u32
  pi_level :: u32
  pi_score :: u32
  pi_all_Chess :: u32
  pi_win_chess :: u32
  pi_win_Rate :: u32
  pi_offline_count :: u32
  pi_start :: u32
  pi_type :: u32
  pi_desk_id :: u32
  pi_props_count :: "u32 list"
  pi_account :: "u8 list"
  pi_name :: "u8 list"
  pi_nick_name :: "u8 list"

definition PROPS_COUNT :: nat where "PROPS_COUNT = 16"

definition NAME_LENGTH :: nat where "NAME_LENGTH = 12"

definition PlayerInfo_new :: player_info where
  "PlayerInfo_new =
     \<lparr>pi_id = 0, pi_icon_id = 0, pi_sex = 0, pi_gold = 0, pi_level = 0, pi_score = 0,
      pi_all_Chess = 0, pi_win_chess = 0, pi_win_Rate = 0, pi_offline_count = 0, pi_start = 0,
      pi_type = 0, pi_desk_id = 0, pi_props_count = replicate PROPS_COUNT 0,
      pi_account = replicate NAME_LENGTH 0, pi_name = replicate NAME_LENGTH 0,
      pi_nick_name = replicate NAME_LENGTH 0\<rparr>"

definition info_wf :: "player_info \<Rightarrow> bool" where
  "info_wf pi \<longleftrightarrow> length (pi_props_count pi) = PROPS_COUNT \<and> length (pi_account pi) = NAME_LENGTH \<and>
     length (pi_name pi) = NAME_LENGTH \<and> length (pi_nick_name pi) = NAME_LENGTH"

text \<open>The object as the 152 bytes that are copied to and from packets.\<close>

definition u32s_bytes :: "u32 list \<Rightarrow> u8 list" where
  "u32s_bytes ws = concat (map (\<lambda>w. le_enc 4 (unat w)) ws)"

fun u32s_of_bytes :: "nat \<Rightarrow> u8 list \<Rightarrow> u32 list" where
  "u32s_of_bytes 0 bs = []"
| "u32s_of_bytes (Suc n) bs = word_of_nat (le_dec (take 4 bs)) # u32s_of_bytes n (drop 4 bs)"

definition PlayerInfo_bytes :: "player_info \<Rightarrow> u8 list" where
  "PlayerInfo_bytes pi =
     u32s_bytes ([pi_id pi, pi_icon_id pi, pi_sex pi, pi_gold pi, pi_level pi, pi_score pi,
       pi_all_Chess pi, pi_win_chess pi, pi_win_Rate pi, pi_offline_count pi, pi_start pi,
       pi_type pi, pi_desk_id pi] @ pi_props_count pi)
     @ pi_account pi @ pi_name pi @ pi_nick_name pi"

definition sizeof_PlayerInfo :: nat where "sizeof_PlayerInfo = 152"

definition PlayerInfo_of_bytes :: "u8 list \<Rightarrow> player_info" where
  "PlayerInfo_of_bytes bs =
     (let ws = u32s_of_bytes 29 bs; cs = drop 116 bs in
      \<lparr>pi_id = ws ! 0, pi_icon_id = ws ! 1, pi_sex = ws ! 2, pi_gold = ws ! 3, pi_level = ws ! 4,
       pi_score = ws ! 5, pi_all_Chess = ws ! 6, pi_win_chess = ws ! 7, pi_win_Rate = ws ! 8,
       pi_offline_count = ws ! 9, pi_start = ws ! 10, pi_type = ws ! 11, pi_desk_id = ws ! 12,
       pi_props_count = drop 13 ws, pi_account = take 12 cs, pi_name = take 12 (drop 12 cs),
       pi_nick_name = take 12 (drop 24 cs)\<rparr>)"

section \<open>Player\<close>

text \<open>\<^verbatim>\<open>enum GameStatus : uint8\<close>; the low four bits survive a logout request.\<close>

definition GAME_STATUS_WAIT_START :: u8 where "GAME_STATUS_WAIT_START = 0x00"
definition GAME_STATUS_STARTING :: u8 where "GAME_STATUS_STARTING = 0x01"
definition GAME_STATUS_STARTED :: u8 where "GAME_STATUS_STARTED = 0x02"
definition GAME_STATUS_DEALING_CARD :: u8 where "GAME_STATUS_DEALING_CARD = 0x03"
definition GAME_STATUS_DEALED_CARD :: u8 where "GAME_STATUS_DEALED_CARD = 0x04"
definition GAME_STATUS_GRABING_LANDLORD :: u8 where "GAME_STATUS_GRABING_LANDLORD = 0x05"
definition GAME_STATUS_GRABED_LAND_LORD :: u8 where "GAME_STATUS_GRABED_LAND_LORD = 0x06"
definition GAME_STATUS_WAIT_OUT_CARD :: u8 where "GAME_STATUS_WAIT_OUT_CARD = 0x07"
definition GAME_STATUS_OUT_CARDING :: u8 where "GAME_STATUS_OUT_CARDING = 0x08"
definition GAME_STATUS_OUT_CARDED :: u8 where "GAME_STATUS_OUT_CARDED = 0x09"
definition GAME_STATUS_ROUNDOVERING :: u8 where "GAME_STATUS_ROUNDOVERING = 0x0A"
definition GAME_STATUS_ROUNDOVERED :: u8 where "GAME_STATUS_ROUNDOVERED = 0x0B"
definition GAME_STATUS_LOG_OUTING :: u8 where "GAME_STATUS_LOG_OUTING = 0x10"
definition GAME_STATUS_LOG_OUTED :: u8 where "GAME_STATUS_LOG_OUTED = 0x20"

lemmas status_simps [simp] =
  GAME_STATUS_WAIT_START_def GAME_STATUS_STARTING_def GAME_STATUS_STARTED_def
  GAME_STATUS_DEALING_CARD_def GAME_STATUS_DEALED_CARD_def GAME_STATUS_GRABING_LANDLORD_def
  GAME_STATUS_GRABED_LAND_LORD_def GAME_STATUS_WAIT_OUT_CARD_def GAME_STATUS_OUT_CARDING_def
  GAME_STATUS_OUT_CARDED_def GAME_STATUS_ROUNDOVERING_def GAME_STATUS_ROUNDOVERED_def
  GAME_STATUS_LOG_OUTING_def GAME_STATUS_LOG_OUTED_def

datatype player_type = PLAYER_TYPE_USER | PLAYER_TYPE_REPLACE_AI | PLAYER_TYPE_AI

primrec PlayerType_bits :: "player_type \<Rightarrow> u8" where
  "PlayerType_bits PLAYER_TYPE_USER = 0x01"
| "PlayerType_bits PLAYER_TYPE_REPLACE_AI = 0x11"
| "PlayerType_bits PLAYER_TYPE_AI = 0x10"

definition type_has :: "player_type \<Rightarrow> player_type \<Rightarrow> bool" where
  "type_has t flag \<longleftrightarrow> PlayerType_bits t AND PlayerType_bits flag \<noteq> 0"

datatype queue_flags = QUEUE_FLAGS_NULL | QUEUE_FLAGS_ONE | QUEUE_FLAGS_TWO | QUEUE_FLAGS_THREE

definition CARD_TYPE_PASS :: u32 where "CARD_TYPE_PASS = 0"
definition CARD_TYPE_SINGLE :: u32 where "CARD_TYPE_SINGLE = 1"

definition CARD_NUMBER :: nat where "CARD_NUMBER = 17"
definition BASIC_CARD :: nat where "BASIC_CARD = 7"

text \<open>
  \<open>p_cards\<close> is \<^verbatim>\<open>_cards[17]\<close> followed by \<^verbatim>\<open>_baseCards[7]\<close>: the
  two byte arrays lie next to each other in the object, and the code reads a hand of more than
  17 cards across the border.
\<close>

record player =
  p_session :: "nat option"
  p_expiration :: i32
  p_aiDelay :: i32
  p_cards :: "u8 list"
  p_roomid :: u32
  p_left :: "nat option"
  p_right :: "nat option"
  p_queueFlags :: queue_flags
  p_playerType :: player_type
  p_gameStatus :: u8
  p_start :: bool
  p_defaultGrab :: u32
  p_grabScore :: i32
  p_landlord :: i32
  p_cardType :: u32
  p_outCards :: "u8 list"
  p_winGold :: i32
  p_info :: player_info

text \<open>
  \<^verbatim>\<open>Player::Player\<close>; \<open>mem\<close> is what the memory held in the two members that stay
  uninitialised.
\<close>

definition Player_init :: "nat option \<Rightarrow> u32 \<Rightarrow> u32 \<Rightarrow> u32 \<times> u8 list \<Rightarrow> player" where
  "Player_init sess waitTime aiDelay mem =
     \<lparr>p_session = sess, p_expiration = waitTime, p_aiDelay = aiDelay,
      p_cards = replicate CARD_NUMBER 100 @ replicate BASIC_CARD 100, p_roomid = 0,
      p_left = None, p_right = None, p_queueFlags = QUEUE_FLAGS_NULL,
      p_playerType = PLAYER_TYPE_USER, p_gameStatus = GAME_STATUS_WAIT_START, p_start = False,
      p_defaultGrab = 0, p_grabScore = - 1, p_landlord = - 1, p_cardType = fst mem,
      p_outCards = snd mem, p_winGold = 0, p_info = PlayerInfo_new\<rparr>"

definition Player_getid :: "player \<Rightarrow> u32" where
  "Player_getid p = pi_id (p_info p)"

definition Player_loadData :: "player_info \<Rightarrow> player \<Rightarrow> player" where
  "Player_loadData pInfo p = p\<lparr>p_info := pInfo\<rparr>"

definition Player_expiration :: "player \<Rightarrow> bool" where
  "Player_expiration p \<longleftrightarrow> sint (p_expiration p) < 0"

definition Player_LogOut :: "player \<Rightarrow> bool" where
  "Player_LogOut p \<longleftrightarrow> p_gameStatus p = GAME_STATUS_LOG_OUTED"

definition Player_idle :: "player \<Rightarrow> bool" where
  "Player_idle p \<longleftrightarrow> p_queueFlags p = QUEUE_FLAGS_NULL"

definition Player_inTheGame :: "player \<Rightarrow> bool" where
  "Player_inTheGame p \<longleftrightarrow> p_gameStatus p AND 0x0f > GAME_STATUS_DEALED_CARD \<and>
     p_gameStatus p AND 0x0f < GAME_STATUS_ROUNDOVERED"

definition Player_started :: "player \<Rightarrow> bool" where
  "Player_started p \<longleftrightarrow> pi_start (p_info p) = 1"

definition Player_setStart :: "player \<Rightarrow> player" where
  "Player_setStart p = p\<lparr>p_gameStatus := GAME_STATUS_STARTING, p_info := (p_info p)\<lparr>pi_start := 1\<rparr>\<rparr>"

definition Player_roundOver :: "player \<Rightarrow> bool" where
  "Player_roundOver p \<longleftrightarrow> p_gameStatus p = GAME_STATUS_ROUNDOVERED"

definition Player_setLandlordId :: "u32 \<Rightarrow> player \<Rightarrow> player" where
  "Player_setLandlordId i p = p\<lparr>p_landlord := i\<rparr>"

text \<open>\<^verbatim>\<open>getPlayerType() & PLAYER_TYPE_AI\<close>, and the exact comparison with \<^verbatim>\<open>USER\<close>.\<close>

definition is_ai :: "player \<Rightarrow> bool" where
  "is_ai p \<longleftrightarrow> type_has (p_playerType p) PLAYER_TYPE_AI"

definition is_user :: "player \<Rightarrow> bool" where
  "is_user p \<longleftrightarrow> p_playerType p = PLAYER_TYPE_USER"

lemma is_ai_iff: "is_ai p \<longleftrightarrow> p_playerType p \<noteq> PLAYER_TYPE_USER"
  by (cases "p_playerType p") (simp_all add: is_ai_def type_has_def)

section \<open>Configuration indices\<close>

definition CONFIG_PORT_WORLD :: nat where "CONFIG_PORT_WORLD = 0"
definition CONFIG_SOCKET_TIMEOUTTIME :: nat where "CONFIG_SOCKET_TIMEOUTTIME = 1"
definition CONFIG_INTERVAL_ROOMUPDATE :: nat where "CONFIG_INTERVAL_ROOMUPDATE = 2"
definition CONFIG_NUMTHREADS :: nat where "CONFIG_NUMTHREADS = 3"
definition CONFIG_NUMBERROOMS :: nat where "CONFIG_NUMBERROOMS = 4"
definition CONFIG_BASICSCORE :: nat where "CONFIG_BASICSCORE = 5"
definition CONFIG_WAIT_TIME :: nat where "CONFIG_WAIT_TIME = 6"
definition CONFIG_AI_PLAYER_COUNT :: nat where "CONFIG_AI_PLAYER_COUNT = 7"
definition CONFIG_ROOM1_GOLD :: nat where "CONFIG_ROOM1_GOLD = 8"
definition CONFIG_AI_DELAY :: nat where "CONFIG_AI_DELAY = 14"
definition INT_CONFIG_VALUE_COUNT :: nat where "INT_CONFIG_VALUE_COUNT = 15"

section \<open>Sessions, connections, rooms, the world\<close>

record session =
  s_Socket :: "nat option"
  s_accountId :: u32
  s_player :: "nat option"
  s_recvQueue :: "world_packet locked_queue"
  s_timeOutTime :: i32
  s_forceExit :: bool

text \<open>A connection: the \<open>socket\<close> of the transport, and \<^verbatim>\<open>_worldSession\<close>.\<close>

record connection =
  cn_socket :: socket
  cn_session :: "nat option"

record room =
  rm_id :: u32
  rm_basic_score :: u32
  rm_playerMap :: "(u32 \<times> nat) list"
  rm_one :: "nat list"
  rm_two :: "(nat \<times> nat) list"
  rm_three :: "((nat \<times> nat) \<times> nat) list"

text \<open>
  \<open>w_next\<close> is the next unused address; \<open>w_mem\<close> is what fresh memory at an address
  holds in the two members no constructor sets (\<^verbatim>\<open>_cardType\<close> and
  \<^verbatim>\<open>_outCards\<close>); \<open>w_rand\<close> is the sequence \<^verbatim>\<open>rand()\<close> returns and
  \<open>w_ridx\<close> how much of it is used. \<open>w_pool\<close> is the list of the AI player pool,
  \<open>w_rooms\<close>, \<open>w_rm_timer\<close> belong to the room manager, \<open>w_addSess\<close> and
  \<open>w_smap\<close> to the world. \<open>w_logs\<close> says which log filters are enabled: the
  arguments of a log message are evaluated only then.
\<close>

record world =
  w_players :: "nat \<Rightarrow> player option"
  w_sessions :: "nat \<Rightarrow> session option"
  w_conns :: "nat \<Rightarrow> connection option"
  w_next :: nat
  w_mem :: "nat \<Rightarrow> u32 \<times> u8 list"
  w_rand :: "nat \<Rightarrow> nat"
  w_ridx :: nat
  w_cfg :: "u32 list"
  w_pool :: "nat list"
  w_rooms :: "(u32 \<times> room) list"
  w_rm_timer :: interval_timer
  w_addSess :: "nat locked_queue"
  w_smap :: "(u32 \<times> nat) list"
  w_logs :: "string \<Rightarrow> bool"

definition getIntConfig :: "nat \<Rightarrow> world \<Rightarrow> u32" where
  "getIntConfig index w = (if index < INT_CONFIG_VALUE_COUNT then w_cfg w ! index else 0)"

definition rand_call :: "world \<Rightarrow> nat \<times> world" where
  "rand_call w = (w_rand w (w_ridx w), w\<lparr>w_ridx := Suc (w_ridx w)\<rparr>)"

section \<open>The store\<close>

definition player_at :: "nat \<Rightarrow> world \<Rightarrow> player option" where
  "player_at a w = w_players w a"

definition put_player :: "nat \<Rightarrow> player \<Rightarrow> world \<Rightarrow> world" where
  "put_player a p w = w\<lparr>w_players := (w_players w)(a \<mapsto> p)\<rparr>"

text \<open>An assignment to members of a live player.\<close>

definition modify_player :: "nat \<Rightarrow> (player \<Rightarrow> player) \<Rightarrow> world \<Rightarrow> world option" where
  "modify_player a f w = do { p \<leftarrow> player_at a w; Some (put_player a (f p) w) }"

definition delete_player :: "nat \<Rightarrow> world \<Rightarrow> world option" where
  "delete_player a w = do { p \<leftarrow> player_at a w; Some (w\<lparr>w_players := (w_players w)(a := None)\<rparr>) }"

definition sess_at :: "nat \<Rightarrow> world \<Rightarrow> session option" where
  "sess_at a w = w_sessions w a"

definition put_sess :: "nat \<Rightarrow> session \<Rightarrow> world \<Rightarrow> world" where
  "put_sess a s w = w\<lparr>w_sessions := (w_sessions w)(a \<mapsto> s)\<rparr>"

definition conn_at :: "nat \<Rightarrow> world \<Rightarrow> connection option" where
  "conn_at a w = w_conns w a"

definition put_conn :: "nat \<Rightarrow> connection \<Rightarrow> world \<Rightarrow> world" where
  "put_conn a c w = w\<lparr>w_conns := (w_conns w)(a \<mapsto> c)\<rparr>"

declare sess_at_def [heap_simps] conn_at_def [heap_simps] put_sess_def [heap_simps]
  put_conn_def [heap_simps]

section \<open>Building and sending packets\<close>

definition pkt_put :: "u32 \<Rightarrow> world_packet \<Rightarrow> world_packet option" where
  "pkt_put v p = uncaught (bb_append_val LittleEndian v p)"

definition pkt_append :: "u8 list \<Rightarrow> world_packet \<Rightarrow> world_packet option" where
  "pkt_append bs p = uncaught (bb_append bs p)"

text \<open>\<^verbatim>\<open>WorldSession::SendPacket\<close>; the session pointer must not be null.\<close>

definition WorldSession_SendPacket :: "world_packet \<Rightarrow> nat option \<Rightarrow> world \<Rightarrow> world option" where
  "WorldSession_SendPacket packet sess w = do {
     sa \<leftarrow> sess;
     s \<leftarrow> sess_at sa w;
     case s_Socket s of
       None \<Rightarrow> Some w
     | Some ca \<Rightarrow> do {
         c \<leftarrow> conn_at ca w;
         Some (put_conn ca (c\<lparr>cn_socket := WorldSocket_AsyncWrite packet (cn_socket c)\<rparr>) w)
       }
   }"

text \<open>\<^verbatim>\<open>if (player->getPlayerType() == PLAYER_TYPE_USER) player->GetSession()->SendPacket(&data)\<close>\<close>

definition send_if_user :: "world_packet \<Rightarrow> nat \<Rightarrow> world \<Rightarrow> world option" where
  "send_if_user packet a w = do {
     p \<leftarrow> player_at a w;
     if is_user p then WorldSession_SendPacket packet (p_session p) w else Some w
   }"

section \<open>Lemmas\<close>

lemma u32s_bytes_simps [simp]:
  "u32s_bytes [] = []" "u32s_bytes (w # ws) = le_enc 4 (unat w) @ u32s_bytes ws"
  by (simp_all add: u32s_bytes_def)

lemma length_u32s_bytes [simp]: "length (u32s_bytes ws) = 4 * length ws"
  by (induction ws) simp_all

lemma u32s_of_bytes_bytes: "u32s_of_bytes (length ws) (u32s_bytes ws @ post) = ws"
proof (induction ws)
  case (Cons w ws)
  have "le_dec (le_enc 4 (unat w)) = unat w" by (simp add: le_dec_enc)
  with Cons show ?case by simp
qed simp

lemma length_PlayerInfo_bytes:
  "info_wf pi \<Longrightarrow> length (PlayerInfo_bytes pi) = sizeof_PlayerInfo"
  by (simp add: info_wf_def PlayerInfo_bytes_def sizeof_PlayerInfo_def PROPS_COUNT_def NAME_LENGTH_def)

lemma PlayerInfo_of_bytes_bytes:
  assumes "info_wf pi"
  shows "PlayerInfo_of_bytes (PlayerInfo_bytes pi @ post) = pi"
proof -
  let ?ws = "[pi_id pi, pi_icon_id pi, pi_sex pi, pi_gold pi, pi_level pi, pi_score pi,
       pi_all_Chess pi, pi_win_chess pi, pi_win_Rate pi, pi_offline_count pi, pi_start pi,
       pi_type pi, pi_desk_id pi] @ pi_props_count pi"
  let ?cs = "pi_account pi @ pi_name pi @ pi_nick_name pi"
  have len: "length ?ws = 29" "length (pi_account pi) = 12" "length (pi_name pi) = 12"
    "length (pi_nick_name pi) = 12"
    using assms by (simp_all add: info_wf_def PROPS_COUNT_def NAME_LENGTH_def)
  have bytes: "PlayerInfo_bytes pi @ post = u32s_bytes ?ws @ ?cs @ post"
    by (simp add: PlayerInfo_bytes_def)
  have "u32s_of_bytes 29 (PlayerInfo_bytes pi @ post) = ?ws"
    using u32s_of_bytes_bytes [of ?ws "?cs @ post"] by (simp only: bytes len)
  moreover have "drop 116 (PlayerInfo_bytes pi @ post) = ?cs @ post"
  proof -
    have "length (u32s_bytes ?ws) = 116" by (simp only: length_u32s_bytes len)
    then show ?thesis by (metis append_eq_conv_conj bytes)
  qed
  ultimately show ?thesis
    by (simp add: PlayerInfo_of_bytes_def Let_def len(2-))
qed

lemma player_at_put [simp]:
  "player_at a (put_player b p w) = (if a = b then Some p else player_at a w)"
  by (simp add: player_at_def put_player_def)

lemma put_player_same [simp]: "put_player a p (put_player a q w) = put_player a p w"
  by (simp add: put_player_def)

lemma put_player_simps [simp]:
  "w_sessions (put_player a p w) = w_sessions w" "w_conns (put_player a p w) = w_conns w"
  "w_cfg (put_player a p w) = w_cfg w" "w_rand (put_player a p w) = w_rand w"
  "w_ridx (put_player a p w) = w_ridx w" "w_pool (put_player a p w) = w_pool w"
  "w_next (put_player a p w) = w_next w" "w_mem (put_player a p w) = w_mem w"
  "getIntConfig n (put_player a p w) = getIntConfig n w"
  by (simp_all add: put_player_def getIntConfig_def)

lemma player_at_frame [simp]:
  "player_at a (put_sess b s w) = player_at a w" "player_at a (put_conn c cn w) = player_at a w"
  "player_at a (w\<lparr>w_ridx := n\<rparr>) = player_at a w"
  by (simp_all add: player_at_def put_sess_def put_conn_def)

end
