(* ===== verification/Scores.thy ===== *)
theory Scores
  imports GameState
begin

text \<open>
  Scores: what a finished round does to the player's record
  (\<^verbatim>\<open>UpdatePlayerData\<close>, \<^verbatim>\<open>UpdatePlayerLevel\<close>,
  \<^verbatim>\<open>calcDoubleScore\<close> of \<^verbatim>\<open>src/server/game/Player/Player.cpp\<close>). The
  floating-point values the code computes are non-negative quotients that are cut back to
  integers, so they are modelled exactly, as quotients rounded to nearest-even at 24 (float) or
  53 (double) bits; arithmetic in the operands' own precision is assumed.
\<close>

section \<open>Rounded quotients\<close>

fun ilog2 :: "nat \<Rightarrow> nat" where
  "ilog2 n = (if n < 2 then 0 else Suc (ilog2 (n div 2)))"

declare ilog2.simps [simp del]

definition round_ne :: "nat \<Rightarrow> nat \<Rightarrow> nat" where
  "round_ne a b =
     (let q = a div b; r = a mod b
      in if 2 * r < b then q else if 2 * r > b then Suc q else if even q then q else Suc q)"

text \<open>The integer part of \<open>a / b\<close> rounded to \<open>prec\<close> significant bits.\<close>

definition fl_trunc :: "nat \<Rightarrow> nat \<Rightarrow> nat \<Rightarrow> nat" where
  "fl_trunc prec a b =
     (if a < b then if a * 2 ^ (prec + 1) \<ge> (2 ^ (prec + 1) - 1) * b then 1 else 0
      else
        let e = ilog2 (a div b) in
        if e < prec then round_ne (a * 2 ^ (prec - 1 - e)) b div 2 ^ (prec - 1 - e)
        else round_ne a (b * 2 ^ (e - (prec - 1))) * 2 ^ (e - (prec - 1)))"

text \<open>An unsigned integer converted to floating point.\<close>

definition fl_of_nat :: "nat \<Rightarrow> nat \<Rightarrow> nat" where
  "fl_of_nat prec n = fl_trunc prec n 1"

section \<open>The operations\<close>

definition LevelTable :: "u32 list" where
  "LevelTable =
     [5000, 10000, 50000, 100000, 300000, 800000, 1500000,
      2000000, 5000000, 10000000, 15000000, 30000000, 50000000, 100000000]"

function level_loop :: "u32 \<Rightarrow> nat \<Rightarrow> nat option" where
  "level_loop score level =
     (if level \<ge> length LevelTable then None
      else if score \<ge> LevelTable ! level then level_loop score (Suc level)
      else Some level)"
  by pat_completeness auto
termination
  by (relation "measure (\<lambda>(s, l). length LevelTable - l)") auto

declare level_loop.simps [simp del]

definition Player_UpdatePlayerLevel :: "player \<Rightarrow> player option" where
  "Player_UpdatePlayerLevel p = do {
     level \<leftarrow> level_loop (pi_score (p_info p)) 0;
     Some (p\<lparr>p_info := (p_info p)\<lparr>pi_level := word_of_nat level\<rparr>\<rparr>)
   }"

definition Player_calcDoubleScore :: "player \<Rightarrow> u32" where
  "Player_calcDoubleScore p =
     (let props = pi_props_count (p_info p);
          doubleScore = 1;
          doubleScore = (if props ! 0 > 0 \<or> props ! 1 = - 1 then doubleScore * 2 else doubleScore);
          doubleScore = (if props ! 13 > 0 \<or> props ! 14 > 0 \<or> props ! 15 = - 1 then doubleScore * 2
                         else doubleScore)
      in doubleScore)"

text \<open>
  \<^verbatim>\<open>100 * win_chess / (float)all_Chess\<close> assigned to a \<^verbatim>\<open>uint32\<close>: undefined for a
  zero divisor and for a quotient that does not fit.
\<close>

definition win_rate :: "u32 \<Rightarrow> u32 \<Rightarrow> u32 option" where
  "win_rate win_chess all_Chess =
     (if all_Chess = 0 then None
      else
        let q = fl_trunc 24 (fl_of_nat 24 (unat (100 * win_chess))) (fl_of_nat 24 (unat all_Chess))
        in if q < 2 ^ 32 then Some (word_of_nat q) else None)"

text \<open>\<open>basic\<close> is \<^verbatim>\<open>sWorld->getIntConfig(CONFIG_BASICSCORE)\<close>.\<close>

definition Player_UpdatePlayerData :: "u32 \<Rightarrow> player \<Rightarrow> player option" where
  "Player_UpdatePlayerData basic p = do {
     let pi = p_info p;
     let pi = pi\<lparr>pi_gold := pi_gold pi + p_winGold p\<rparr>;
     let pi = (if pi_gold pi < 0 then pi\<lparr>pi_gold := 0\<rparr> else pi);
     let pi = pi\<lparr>pi_all_Chess := pi_all_Chess pi + 1\<rparr>;
     let pi = (if sint (p_winGold p) > 0 then pi\<lparr>pi_win_chess := pi_win_chess pi + 1\<rparr> else pi);
     rate \<leftarrow> win_rate (pi_win_chess pi) (pi_all_Chess pi);
     let pi = pi\<lparr>pi_win_Rate := rate\<rparr>;
     let doubleScore = Player_calcDoubleScore (p\<lparr>p_info := pi\<rparr>);
     let pi = pi\<lparr>pi_score := pi_score pi +
                  (if sint (p_winGold p) > 0 then (p_roomid p + 1) * basic * doubleScore else 0)\<rparr>;
     Player_UpdatePlayerLevel (p\<lparr>p_info := pi\<rparr>)
   }"

section \<open>Lemmas on rounding\<close>

lemma ilog2_bounds: "n > 0 \<Longrightarrow> 2 ^ ilog2 n \<le> n \<and> n < 2 ^ Suc (ilog2 n)"
proof (induction n rule: ilog2.induct)
  case (1 n)
  show ?case
  proof (cases "n < 2")
    case True
    with 1 show ?thesis by (subst (1 2) ilog2.simps) simp
  next
    case False
    then have "2 ^ ilog2 (n div 2) \<le> n div 2 \<and> n div 2 < 2 ^ Suc (ilog2 (n div 2))"
      by (intro 1) auto
    with False show ?thesis by (subst (1 2) ilog2.simps) auto
  qed
qed

lemma ilog2_less: "n > 0 \<Longrightarrow> n < 2 ^ k \<Longrightarrow> ilog2 n < k"
proof -
  assume "n > 0" "n < 2 ^ k"
  with ilog2_bounds [of n] have "2 ^ ilog2 n < (2::nat) ^ k" by linarith
  then show ?thesis by simp
qed

lemma round_ne_1 [simp]: "round_ne a (Suc 0) = a"
  by (simp add: round_ne_def)

lemma round_ne_cases: "round_ne a b = a div b \<or> round_ne a b = Suc (a div b) \<and> 2 * (a mod b) \<ge> b"
  by (auto simp: round_ne_def Let_def)

lemma fl_of_nat_exact: "n < 2 ^ prec \<Longrightarrow> fl_of_nat prec n = n"
proof (cases "n = 0")
  case True
  have "(1::nat) \<le> 2 ^ prec" by simp
  then have "\<not> 2 * 2 ^ prec \<le> Suc 0" by linarith
  with True show ?thesis by (simp add: fl_of_nat_def fl_trunc_def)
next
  case False
  assume "n < 2 ^ prec"
  with False ilog2_less [of n prec] show ?thesis by (simp add: fl_of_nat_def fl_trunc_def Let_def)
qed

text \<open>
  A quotient below \<open>2 ^ k\<close> whose divisor is below \<open>2 ^ (25 - k)\<close> is never rounded up to the
  next integer.
\<close>

lemma fl_trunc_exact:
  assumes "b > 0" and "a div b < 2 ^ k" and "b < 2 ^ (prec + 1 - k)" and "0 < k" and "k \<le> prec"
  shows "fl_trunc prec a b = a div b"
proof (cases "a < b")
  case True
  have "b < 2 ^ (prec + 1)"
    using assms(3,4) by (meson diff_le_self le_less_trans less_le_trans numeral_One
      one_le_numeral power_increasing order.strict_trans1 less_imp_le not_less)
  then have "a * 2 ^ (prec + 1) < (2 ^ (prec + 1) - 1) * b"
    using True
  proof -
    have "(2 ^ (prec + 1) - 1) * b = 2 ^ (prec + 1) * b - b" by (simp add: diff_mult_distrib)
    moreover have "a * 2 ^ (prec + 1) + 2 ^ (prec + 1) \<le> 2 ^ (prec + 1) * b"
      using True by (metis Suc_leI add.commute mult.commute mult_Suc mult_le_mono1)
    ultimately show ?thesis using \<open>b < 2 ^ (prec + 1)\<close> by linarith
  qed
  with True show ?thesis by (simp add: fl_trunc_def)
next
  case False
  let ?q = "a div b"
  have q: "?q > 0" using False assms(1) by (simp add: div_greater_zero_iff)
  let ?e = "ilog2 ?q"
  have e: "?e < k" using ilog2_less [OF q assms(2)] .
  define s where "s = prec - 1 - ?e"
  have s: "2 ^ (prec + 1 - k) \<le> (2::nat) ^ Suc s"
    using e assms(5) by (intro power_increasing) (auto simp: s_def)
  let ?N = "a * 2 ^ s"
  have up: "a + 1 \<le> (?q + 1) * b"
    using assms(1) by (metis Suc_eq_plus1 Suc_leI dividend_less_div_times mult.commute mult_Suc add.commute)
  have low: "?q * 2 ^ s \<le> ?N div b"
    using assms(1) mult_le_mono1 [OF div_times_less_eq_dividend, of a b "2 ^ s"]
    by (simp add: less_eq_div_iff_mult_less_eq ac_simps)
  have "round_ne ?N b < (?q + 1) * 2 ^ s"
  proof (rule ccontr)
    assume "\<not> round_ne ?N b < (?q + 1) * 2 ^ s"
    then have ge: "(?q + 1) * 2 ^ s \<le> round_ne ?N b" by simp
    have lt: "?N div b < (?q + 1) * 2 ^ s"
    proof -
      have "?N < (?q + 1) * 2 ^ s * b"
      proof -
        have "?N < (a + 1) * 2 ^ s" by simp
        also have "\<dots> \<le> (?q + 1) * b * 2 ^ s" by (rule mult_le_mono1 [OF up])
        finally show ?thesis by (simp only: ac_simps)
      qed
      then show ?thesis using assms(1) by (simp add: div_less_iff_less_mult)
    qed
    with ge round_ne_cases [of ?N b] have r: "Suc (?N div b) = (?q + 1) * 2 ^ s" "2 * (?N mod b) \<ge> b"
      by linarith+
    have "?N = (?N div b) * b + ?N mod b" by simp
    moreover have "(a + 1) * 2 ^ s \<le> (?q + 1) * 2 ^ s * b"
      using mult_le_mono1 [OF up, of "2 ^ s"] by (simp add: algebra_simps)
    ultimately have "?N + 2 ^ s \<le> Suc (?N div b) * b"
      by (simp add: r(1) algebra_simps)
    then have "?N mod b + 2 ^ s \<le> b"
      using mult_Suc [of "?N div b" b] div_mult_mod_eq [of ?N b] by linarith
    with r(2) have "2 ^ Suc s \<le> b" by simp
    with s assms(3) show False by linarith
  qed
  moreover have "?q * 2 ^ s \<le> round_ne ?N b"
    using low round_ne_cases [of ?N b] by linarith
  ultimately have "round_ne ?N b div 2 ^ s = ?q"
    by (intro div_nat_eqI) (simp_all only: Suc_eq_plus1 mult.commute)
  with False e assms(5) show ?thesis by (simp add: fl_trunc_def Let_def s_def)
qed

section \<open>Lemmas on levels\<close>

lemma level_loop_result:
  "level \<le> length LevelTable \<Longrightarrow> \<forall>l < level. LevelTable ! l \<le> score \<Longrightarrow>
   level_loop score level = Some r \<longleftrightarrow>
     level \<le> r \<and> r < length LevelTable \<and> (\<forall>l < r. LevelTable ! l \<le> score) \<and> score < LevelTable ! r"
proof (induction score level rule: level_loop.induct)
  case (1 score level)
  show ?case
  proof (cases "level < length LevelTable \<and> LevelTable ! level \<le> score")
    case True
    then have "level_loop score level = level_loop score (Suc level)"
      by (subst level_loop.simps) simp
    moreover have "\<forall>l < Suc level. LevelTable ! l \<le> score"
      using True 1(3) by (simp add: less_Suc_eq)
    moreover have "score < LevelTable ! r \<longrightarrow> r \<noteq> level" using True by auto
    ultimately show ?thesis
      using 1(1) True by (auto simp: Suc_le_eq)
  next
    case False
    then have "level_loop score level = (if level < length LevelTable then Some level else None)"
      by (subst level_loop.simps) auto
    moreover have "r = level" if "level \<le> r" "\<forall>l < r. LevelTable ! l \<le> score" "r < length LevelTable" for r
      using False that by (metis le_neq_implies_less less_le_trans less_imp_le)
    ultimately show ?thesis using False 1(2,3) by (auto simp: not_le)
  qed
qed

lemma level_loop_iff:
  "level_loop score 0 = Some r \<longleftrightarrow>
     r < length LevelTable \<and> (\<forall>l < r. LevelTable ! l \<le> score) \<and> score < LevelTable ! r"
  using level_loop_result [of 0 score r] by simp

lemma LevelTable_sorted: "sorted LevelTable \<and> length LevelTable = 14"
  by (simp add: LevelTable_def)

lemma level_loop_total:
  "level_loop score 0 = (if score < 100000000
     then Some (length (filter (\<lambda>t. t \<le> score) LevelTable)) else None)"
proof (cases "score < 100000000")
  case True
  let ?P = "\<lambda>i. score < LevelTable ! i"
  define r where "r = (LEAST i. ?P i)"
  have last: "?P 13" using True by (simp add: LevelTable_def)
  then have r: "?P r" "r \<le> 13" unfolding r_def by (auto intro: LeastI Least_le)
  have below: "\<forall>l < r. LevelTable ! l \<le> score"
    unfolding r_def using not_less_Least by fastforce
  have "level_loop score 0 = Some r"
    using r below by (simp add: level_loop_iff LevelTable_sorted)
  moreover have "filter (\<lambda>t. t \<le> score) LevelTable = take r LevelTable"
  proof -
    have len: "length LevelTable = 14" by (simp add: LevelTable_def)
    have "LevelTable = take r LevelTable @ drop r LevelTable" by simp
    moreover have "filter (\<lambda>t. t \<le> score) (take r LevelTable) = take r LevelTable"
      using below r len by (auto simp: filter_id_conv in_set_conv_nth)
    moreover have "filter (\<lambda>t. t \<le> score) (drop r LevelTable) = []"
    proof -
      have "LevelTable ! r \<le> t" if "t \<in> set (drop r LevelTable)" for t
      proof -
        from that obtain i where i: "t = LevelTable ! (r + i)" "r + i < 14"
          using len by (auto simp: in_set_conv_nth)
        then show ?thesis using LevelTable_sorted by (simp add: sorted_iff_nth_mono)
      qed
      then show ?thesis using r(1) by (auto simp: filter_empty_conv dest: leD order_less_le_trans)
    qed
    ultimately show ?thesis by (metis append_Nil2 filter_append)
  qed
  ultimately show ?thesis using True r by (simp add: LevelTable_sorted)
next
  case False
  have "level_loop score 0 \<noteq> Some r" for r
  proof
    assume "level_loop score 0 = Some r"
    then have r: "r < 14" "score < LevelTable ! r" by (simp_all add: level_loop_iff LevelTable_sorted)
    then have "LevelTable ! r \<le> LevelTable ! 13"
      using LevelTable_sorted by (simp add: sorted_iff_nth_mono)
    with r False show False by (simp add: LevelTable_def)
  qed
  with False show ?thesis by auto
qed

section \<open>Properties\<close>

lemma win_rate_small:
  assumes "win \<le> all" and "0 < all" and "unat all \<le> 167772"
  shows "win_rate win all = Some (word_of_nat (100 * unat win div unat all))"
proof -
  have win: "unat win \<le> unat all" using assms(1) by (simp add: word_le_nat_alt)
  have all: "unat all > 0" using assms(2) by (simp add: word_less_nat_alt)
  have "unat (100 * win) = 100 * unat win"
    using win assms(3) by (subst unat_mult_lem [THEN iffD1]) simp_all
  moreover have "100 * unat win < 2 ^ 24" "unat all < 2 ^ 24" using win assms(3) by simp_all
  moreover have q: "100 * unat win div unat all \<le> 100"
    using win all by (metis div_le_mono div_mult_self_is_m mult_le_mono2)
  moreover have "fl_trunc 24 (100 * unat win) (unat all) = 100 * unat win div unat all"
    using all q assms(3) by (intro fl_trunc_exact [where k = 7]) simp_all
  ultimately show ?thesis
    using assms(2) by (auto simp: win_rate_def fl_of_nat_exact Let_def)
qed



text \<open>
  The gold is never clamped: \<^verbatim>\<open>if (_playerInfo.gold < 0)\<close> tests an
  unsigned member and is dead code, so a loss larger than the gold leaves the wrapped sum.
\<close>

theorem gold_never_clamped:
  "Player_UpdatePlayerData basic p = Some p' \<Longrightarrow>
   pi_gold (p_info p') = pi_gold (p_info p) + p_winGold p"
  by (auto simp: Player_UpdatePlayerData_def Player_UpdatePlayerLevel_def Let_def bind_eq_Some_conv
      split: if_splits)

theorem gold_never_clamped_witness:
  "\<exists>p'. Player_UpdatePlayerData 5000 ((Player_init None 4000 2000 (0, []))\<lparr>p_winGold := - 200,
      p_info := PlayerInfo_new\<lparr>pi_gold := 150\<rparr>\<rparr>) = Some p' \<and> pi_gold (p_info p') = 4294967246"
proof -
  let ?p = "(Player_init None 4000 2000 (0, []))\<lparr>p_winGold := - 200,
      p_info := PlayerInfo_new\<lparr>pi_gold := 150\<rparr>\<rparr>"
  have "win_rate 0 1 = Some 0" by (subst win_rate_small) simp_all
  moreover have "level_loop 0 0 = Some 0" by (simp add: level_loop_iff LevelTable_def)
  ultimately have "\<exists>p'. Player_UpdatePlayerData 5000 ?p = Some p'"
    by (simp add: Player_UpdatePlayerData_def Player_UpdatePlayerLevel_def Player_init_def
        PlayerInfo_new_def Let_def)
  then obtain p' where p': "Player_UpdatePlayerData 5000 ?p = Some p'" by blast
  then show ?thesis using gold_never_clamped [OF p'] by (intro exI [of _ p']) simp
qed

text \<open>
  The level loop is bounded by its table only below the last entry: a score
  of 100000000 or more passes every entry, and \<^verbatim>\<open>LevelTable[level]\<close> is read past its
  end; below it the loop returns the number of entries reached.
\<close>

theorem level_table_bound:
  "Player_UpdatePlayerLevel p =
    (if pi_score (p_info p) < 100000000
     then Some (p\<lparr>p_info := (p_info p)\<lparr>pi_level :=
       word_of_nat (length (filter (\<lambda>t. t \<le> pi_score (p_info p)) LevelTable))\<rparr>\<rparr>)
     else None)"
  by (simp add: Player_UpdatePlayerLevel_def level_loop_total)

end
