(* ===== verification/Player.thy ===== *)
theory Player
  imports GameState Scores Cards
begin

text \<open>
  Player: \<^verbatim>\<open>src/server/game/Player/Player.cpp\<close>, the state machine of one player at a
  table, and \<^verbatim>\<open>OutCardAi::OutCard\<close> of \<^verbatim>\<open>AI/OutCardAI.cpp\<close>. Every
  \<^verbatim>\<open>check...\<close> step reads the status and the neighbours in the store and returns the
  changed world. The two methods that call themselves on a neighbour are partial functions: on
  a ring of neighbours the recursion could go on for ever, which is \<open>None\<close>.
\<close>

section \<open>Short-circuit tests on neighbours\<close>

definition ptr_test :: "nat option \<Rightarrow> (player \<Rightarrow> bool) \<Rightarrow> world \<Rightarrow> bool option" where
  "ptr_test ptr test w = do { a \<leftarrow> ptr; p \<leftarrow> player_at a w; Some (test p) }"

definition por :: "bool option \<Rightarrow> bool option \<Rightarrow> bool option" where
  "por a b = do { x \<leftarrow> a; if x then Some True else b }"

definition pand :: "bool option \<Rightarrow> bool option \<Rightarrow> bool option" where
  "pand a b = do { x \<leftarrow> a; if x then b else Some False }"

definition modify_ptr :: "nat option \<Rightarrow> (player \<Rightarrow> player) \<Rightarrow> world \<Rightarrow> world option" where
  "modify_ptr ptr f w = do { a \<leftarrow> ptr; modify_player a f w }"

text \<open>\<^verbatim>\<open>if (p != nullptr && p->getPlayerType() == PLAYER_TYPE_USER) p->GetSession()->SendPacket(&data)\<close>\<close>

definition send_neighbour :: "world_packet \<Rightarrow> nat option \<Rightarrow> world \<Rightarrow> world option" where
  "send_neighbour data ptr w = (case ptr of None \<Rightarrow> Some w | Some a \<Rightarrow> send_if_user data a w)"

section \<open>Packets\<close>

definition SMSG_DESK_TWO :: u32 where "SMSG_DESK_TWO = 0x01"
definition SMSG_DESK_THREE :: u32 where "SMSG_DESK_THREE = 0x02"
definition CMSG_WAIT_START :: u32 where "CMSG_WAIT_START = 0x03"
definition SMSG_CARD_DEAL :: u32 where "SMSG_CARD_DEAL = 0x04"
definition CMSG_GRAD_LANDLORD :: u32 where "CMSG_GRAD_LANDLORD = 0x05"
definition CMSG_CARD_OUT :: u32 where "CMSG_CARD_OUT = 0x08"
definition CMSG_ROUND_OVER :: u32 where "CMSG_ROUND_OVER = 0x0A"
definition CMSG_LOG_OUT :: u32 where "CMSG_LOG_OUT = 0x10"

text \<open>\<^verbatim>\<open>WorldPacket data(opcode, ...); data.resize(8);\<close>, the start of every packet here.\<close>

definition pkt_start :: "u32 \<Rightarrow> world_packet" where
  "pkt_start opcode = bb_resize 8 (WorldPacket_new opcode)"

section \<open>Logging out\<close>

definition logout_packet :: "u32 \<Rightarrow> u32 \<Rightarrow> world_packet option" where
  "logout_packet i logoutStatus = do {
     data \<leftarrow> pkt_put i (pkt_start CMSG_LOG_OUT);
     pkt_put logoutStatus data
   }"

definition leaving_status :: "player \<Rightarrow> u32" where
  "leaving_status p =
     (let preGameStatus = p_gameStatus p AND 0x0f in
      if preGameStatus > GAME_STATUS_DEALING_CARD \<and> preGameStatus < GAME_STATUS_ROUNDOVERING then 4 else 2)"

text \<open>The branch of a player who leaves during a game: a computer takes over the seat.\<close>

definition leave_in_game :: "nat \<Rightarrow> world \<Rightarrow> world option" where
  "leave_in_game this w = do {
     p \<leftarrow> player_at this w;
     user \<leftarrow> por (ptr_test (p_left p) is_user w) (ptr_test (p_right p) is_user w);
     w \<leftarrow> (if user then modify_player this (\<lambda>p. p\<lparr>p_gameStatus := 0x0f AND p_gameStatus p\<rparr>) w
           else do {
             w \<leftarrow> modify_ptr (p_left p) (\<lambda>q. q\<lparr>p_gameStatus := GAME_STATUS_LOG_OUTING\<rparr>) w;
             w \<leftarrow> modify_ptr (p_right p) (\<lambda>q. q\<lparr>p_gameStatus := GAME_STATUS_LOG_OUTING\<rparr>) w;
             modify_player this (\<lambda>p. p\<lparr>p_gameStatus := GAME_STATUS_LOG_OUTED\<rparr>) w
           });
     modify_player this (\<lambda>p. p\<lparr>p_playerType := PLAYER_TYPE_REPLACE_AI\<rparr>) w
   }"

definition drop_session :: "nat \<Rightarrow> world \<Rightarrow> world option" where
  "drop_session this w = do {
     p \<leftarrow> player_at this w;
     w \<leftarrow> (case p_session p of
             None \<Rightarrow> Some w
           | Some sa \<Rightarrow> do { s \<leftarrow> sess_at sa w; Some (put_sess sa (s\<lparr>s_player := None\<rparr>) w) });
     modify_player this (\<lambda>p. p\<lparr>p_session := None\<rparr>) w
   }"

partial_function (option) Player_checkOutPlayer :: "nat \<Rightarrow> world \<Rightarrow> world option" where
  "Player_checkOutPlayer this w = do {
     p \<leftarrow> player_at this w;
     if p_gameStatus p AND 0xf0 \<noteq> GAME_STATUS_LOG_OUTING then Some w
     else do {
       data \<leftarrow> logout_packet (Player_getid p) (leaving_status p);
       w \<leftarrow> send_if_user data this w;
       w \<leftarrow> send_neighbour data (p_left p) w;
       w \<leftarrow> send_neighbour data (p_right p) w;
       w \<leftarrow> (if leaving_status p = 4 then leave_in_game this w
             else do {
               w \<leftarrow> (case p_left p of
                       None \<Rightarrow> Some w
                     | Some l \<Rightarrow> do {
                         w \<leftarrow> modify_player l (\<lambda>q. q\<lparr>p_right := None\<rparr>) w;
                         lp \<leftarrow> player_at l w;
                         if p_playerType lp = PLAYER_TYPE_AI then do {
                           w \<leftarrow> modify_player l (\<lambda>q. q\<lparr>p_gameStatus := GAME_STATUS_LOG_OUTING\<rparr>) w;
                           Player_checkOutPlayer l w
                         } else Some w
                       });
               p \<leftarrow> player_at this w;
               w \<leftarrow> (case p_right p of
                       None \<Rightarrow> Some w
                     | Some r \<Rightarrow> do {
                         w \<leftarrow> modify_player r (\<lambda>q. q\<lparr>p_left := None\<rparr>) w;
                         rp \<leftarrow> player_at r w;
                         if p_playerType rp = PLAYER_TYPE_AI then do {
                           w \<leftarrow> modify_player r (\<lambda>q. q\<lparr>p_gameStatus := GAME_STATUS_LOG_OUTING\<rparr>) w;
                           Player_checkOutPlayer r w
                         } else Some w
                       });
               modify_player this
                 (\<lambda>p. p\<lparr>p_left := None, p_right := None, p_gameStatus := GAME_STATUS_LOG_OUTED\<rparr>) w
             });
       drop_session this w
     }
   }"

definition Player_logOutPlayer :: "nat \<Rightarrow> world \<Rightarrow> world option" where
  "Player_logOutPlayer this w = do {
     w \<leftarrow> modify_player this (\<lambda>p. p\<lparr>p_gameStatus := p_gameStatus p OR GAME_STATUS_LOG_OUTING\<rparr>) w;
     Player_checkOutPlayer this w
   }"

section \<open>Seats\<close>

definition Player_sendTwoDesk :: "nat \<Rightarrow> world \<Rightarrow> world option" where
  "Player_sendTwoDesk this w = do {
     p \<leftarrow> player_at this w;
     if \<not> is_user p then Some w
     else do {
       data \<leftarrow> pkt_put 1 (pkt_start SMSG_DESK_TWO);
       other \<leftarrow> (if p_right p \<noteq> None then p_right p else p_left p);
       let data = (if p_left p \<noteq> None then bb_resize (8 + 4 + 152) data else data);
       q \<leftarrow> player_at other w;
       data \<leftarrow> pkt_append (PlayerInfo_bytes (p_info q)) data;
       let data = (if p_right p \<noteq> None then bb_resize (8 + 4 + 152 + 152) data else data);
       WorldSession_SendPacket data (p_session p) w
     }
   }"

definition Player_sendThreeDesk :: "nat \<Rightarrow> world \<Rightarrow> world option" where
  "Player_sendThreeDesk this w = do {
     p \<leftarrow> player_at this w;
     if \<not> is_user p then Some w
     else do {
       data \<leftarrow> pkt_put 1 (pkt_start SMSG_DESK_THREE);
       la \<leftarrow> p_left p;
       l \<leftarrow> player_at la w;
       data \<leftarrow> pkt_append (PlayerInfo_bytes (p_info l)) data;
       ra \<leftarrow> p_right p;
       r \<leftarrow> player_at ra w;
       data \<leftarrow> pkt_append (PlayerInfo_bytes (p_info r)) data;
       WorldSession_SendPacket data (p_session p) w
     }
   }"

definition Player_checkQueueStatus :: "nat \<Rightarrow> world \<Rightarrow> world option" where
  "Player_checkQueueStatus this w = do {
     p \<leftarrow> player_at this w;
     if p_left p \<noteq> None \<and> p_right p \<noteq> None then
       if p_queueFlags p \<noteq> QUEUE_FLAGS_THREE then do {
         w \<leftarrow> modify_player this (\<lambda>p. p\<lparr>p_queueFlags := QUEUE_FLAGS_THREE\<rparr>) w;
         Player_sendThreeDesk this w
       } else Some w
     else if p_left p \<noteq> None \<or> p_right p \<noteq> None then
       if p_queueFlags p \<noteq> QUEUE_FLAGS_TWO then do {
         w \<leftarrow> modify_player this (\<lambda>p. p\<lparr>p_queueFlags := QUEUE_FLAGS_TWO\<rparr>) w;
         Player_sendTwoDesk this w
       } else Some w
     else Some w
   }"

definition Player_addPlayer :: "nat \<Rightarrow> nat \<Rightarrow> world \<Rightarrow> world option" where
  "Player_addPlayer this other w = do {
     p \<leftarrow> player_at this w;
     if Some other = p_left p \<or> Some other = p_right p then Some w
     else do {
       w \<leftarrow> (if p_left p = None then do {
               w \<leftarrow> modify_player this (\<lambda>p. p\<lparr>p_left := Some other\<rparr>) w;
               modify_player other (\<lambda>q. q\<lparr>p_right := Some this\<rparr>) w
             } else if p_right p = None then do {
               w \<leftarrow> modify_player this (\<lambda>p. p\<lparr>p_right := Some other\<rparr>) w;
               modify_player other (\<lambda>q. q\<lparr>p_left := Some this\<rparr>) w
             } else Some w);
       modify_player this (\<lambda>p. p\<lparr>p_expiration := getIntConfig CONFIG_WAIT_TIME w\<rparr>) w
     }
   }"

definition Player_checkStart :: "nat \<Rightarrow> world \<Rightarrow> world option" where
  "Player_checkStart this w = do {
     p \<leftarrow> player_at this w;
     if p_gameStatus p = GAME_STATUS_STARTING then do {
       data \<leftarrow> pkt_put (Player_getid p) (pkt_start CMSG_WAIT_START);
       w \<leftarrow> send_neighbour data (p_left p) w;
       w \<leftarrow> send_neighbour data (p_right p) w;
       modify_player this (\<lambda>p. p\<lparr>p_gameStatus := GAME_STATUS_STARTED\<rparr>) w
     } else Some w
   }"

section \<open>Dealing\<close>

definition Player_dealCards :: "u8 list \<Rightarrow> u8 list \<Rightarrow> nat \<Rightarrow> world \<Rightarrow> world option" where
  "Player_dealCards cards baseCards this w =
     (if length cards < CARD_NUMBER \<or> length baseCards < 3 then None
      else modify_player this
        (\<lambda>p. p\<lparr>p_cards := overwrite CARD_NUMBER (take 3 baseCards)
                             (overwrite 0 (take CARD_NUMBER cards) (p_cards p)),
               p_gameStatus := GAME_STATUS_DEALING_CARD\<rparr>) w)"

definition Player_getDefaultLandlordUserId :: "nat \<Rightarrow> world \<Rightarrow> (u32 \<times> world) option" where
  "Player_getDefaultLandlordUserId this w = do {
     p \<leftarrow> player_at this w;
     if p_defaultGrab p = 0 then do {
       let (r, w) = rand_call w;
       let iLandlordUserIdx = r mod 3;
       chosen \<leftarrow> (if iLandlordUserIdx = 0 then Some p
                  else if iLandlordUserIdx = 1 then do { l \<leftarrow> p_left p; player_at l w }
                  else do { r \<leftarrow> p_right p; player_at r w });
       let i = Player_getid chosen;
       w \<leftarrow> modify_player this (\<lambda>p. p\<lparr>p_defaultGrab := i\<rparr>) w;
       w \<leftarrow> modify_ptr (p_left p) (\<lambda>q. q\<lparr>p_defaultGrab := i\<rparr>) w;
       w \<leftarrow> modify_ptr (p_right p) (\<lambda>q. q\<lparr>p_defaultGrab := i\<rparr>) w;
       p \<leftarrow> player_at this w;
       Some (p_defaultGrab p, w)
     } else Some (p_defaultGrab p, w)
   }"

definition Player_checkDealCards :: "nat \<Rightarrow> world \<Rightarrow> world option" where
  "Player_checkDealCards this w = do {
     p \<leftarrow> player_at this w;
     if p_gameStatus p = GAME_STATUS_DEALING_CARD then do {
       w \<leftarrow> (if is_user p then do {
               (i, w) \<leftarrow> Player_getDefaultLandlordUserId this w;
               data \<leftarrow> pkt_put i (pkt_start SMSG_CARD_DEAL);
               data \<leftarrow> pkt_append (take CARD_NUMBER (p_cards p)) data;
               data \<leftarrow> pkt_append (drop CARD_NUMBER (p_cards p)) data;
               w \<leftarrow> WorldSession_SendPacket data (p_session p) w;
               Some w
             } else Some w);
       w \<leftarrow> modify_player this (\<lambda>p. p\<lparr>p_gameStatus := GAME_STATUS_DEALED_CARD\<rparr>) w;
       (i, w) \<leftarrow> Player_getDefaultLandlordUserId this w;
       if i = Player_getid p \<and> is_ai p
       then modify_player this (\<lambda>p. p\<lparr>p_gameStatus := GAME_STATUS_GRABING_LANDLORD\<rparr>) w
       else Some w
     } else Some w
   }"

section \<open>The auction for the landlord\<close>

text \<open>\<^verbatim>\<open>std::max\<close> on \<^verbatim>\<open>int32\<close>.\<close>

definition smax :: "i32 \<Rightarrow> i32 \<Rightarrow> i32" where
  "smax a b = (if sint a < sint b then b else a)"

definition Player_aiGrabLandlord :: "nat \<Rightarrow> world \<Rightarrow> (u32 \<times> world) option" where
  "Player_aiGrabLandlord this w = do {
     p \<leftarrow> player_at this w;
     la \<leftarrow> p_left p;
     l \<leftarrow> player_at la w;
     ra \<leftarrow> p_right p;
     r \<leftarrow> player_at ra w;
     let leftGrabScore = p_grabScore l;
     let rightGrabScore = p_grabScore r;
     let maxScore = (if leftGrabScore < rightGrabScore then rightGrabScore else leftGrabScore);
     if leftGrabScore = - 1 \<and> rightGrabScore = - 1 then do {
       let (n, w) = rand_call w;
       Some (word_of_nat (n mod 4), w)
     }
     else if maxScore = 0 then Some (1, w)
     else Some (0, w)
   }"

definition Player_getLandlordId :: "nat \<Rightarrow> world \<Rightarrow> (i32 \<times> world) option" where
  "Player_getLandlordId this w = do {
     p \<leftarrow> player_at this w;
     if p_landlord p \<noteq> - 1 then Some (p_landlord p, w)
     else do {
       la \<leftarrow> p_left p;
       l \<leftarrow> player_at la w;
       ra \<leftarrow> p_right p;
       r \<leftarrow> player_at ra w;
       let own = p_grabScore p;
       let leftGrabScore = p_grabScore l;
       let rightGrabScore = p_grabScore r;
       let maxScore = smax (smax own leftGrabScore) rightGrabScore;
       w \<leftarrow> (if own \<noteq> - 1 \<and> leftGrabScore \<noteq> - 1 \<and> rightGrabScore \<noteq> - 1 \<or> maxScore = 3
             then if maxScore = own
                  then modify_player this (\<lambda>p. p\<lparr>p_landlord := Player_getid p\<rparr>) w
                  else if maxScore = leftGrabScore
                  then modify_player this (\<lambda>p. p\<lparr>p_landlord := Player_getid l\<rparr>) w
                  else if maxScore = rightGrabScore
                  then modify_player this (\<lambda>p. p\<lparr>p_landlord := Player_getid r\<rparr>) w
                  else Some w
             else Some w);
       p \<leftarrow> player_at this w;
       Some (p_landlord p, w)
     }
   }"

definition Player_beginOutCard :: "nat \<Rightarrow> world \<Rightarrow> world option" where
  "Player_beginOutCard this w = do {
     p \<leftarrow> player_at this w;
     w \<leftarrow> modify_ptr (p_left p) (Player_setLandlordId (p_landlord p)) w;
     w \<leftarrow> modify_ptr (p_right p) (Player_setLandlordId (p_landlord p)) w;
     w \<leftarrow> modify_player this (\<lambda>p. p\<lparr>p_gameStatus := GAME_STATUS_WAIT_OUT_CARD\<rparr>) w;
     w \<leftarrow> modify_ptr (p_left p) (\<lambda>p. p\<lparr>p_gameStatus := GAME_STATUS_WAIT_OUT_CARD\<rparr>) w;
     modify_ptr (p_right p) (\<lambda>p. p\<lparr>p_gameStatus := GAME_STATUS_WAIT_OUT_CARD\<rparr>) w
   }"

text \<open>
  The three parts of \<^verbatim>\<open>checkGrabLandlord\<close>: a computer whose turn has come starts to bid;
  a bid is announced; the outcome is decided.
\<close>

definition grab_turn :: "nat \<Rightarrow> world \<Rightarrow> world option" where
  "grab_turn this w = do {
     p \<leftarrow> player_at this w;
     if p_gameStatus p = GAME_STATUS_DEALED_CARD then do {
       go \<leftarrow> pand (Some (is_ai p))
               (por (Some (p_defaultGrab p = Player_getid p))
                    (ptr_test (p_left p) (\<lambda>l. p_gameStatus l = GAME_STATUS_GRABED_LAND_LORD) w));
       if go then modify_player this (\<lambda>p. p\<lparr>p_gameStatus := GAME_STATUS_GRABING_LANDLORD\<rparr>) w
       else Some w
     } else Some w
   }"

definition grab_announce :: "nat \<Rightarrow> world \<Rightarrow> world option" where
  "grab_announce this w = do {
     p \<leftarrow> player_at this w;
     data \<leftarrow> pkt_put (Player_getid p) (pkt_start CMSG_GRAD_LANDLORD);
     data \<leftarrow> pkt_put (p_grabScore p) data;
     (landlord, w) \<leftarrow> Player_getLandlordId this w;
     data \<leftarrow> pkt_put landlord data;
     w \<leftarrow> send_if_user data this w;
     la \<leftarrow> p_left p;
     w \<leftarrow> send_if_user data la w;
     ra \<leftarrow> p_right p;
     w \<leftarrow> send_if_user data ra w;
     modify_player this (\<lambda>p. p\<lparr>p_gameStatus := GAME_STATUS_GRABED_LAND_LORD\<rparr>) w
   }"

definition grab_bid :: "nat \<Rightarrow> world \<Rightarrow> world option" where
  "grab_bid this w = do {
     p \<leftarrow> player_at this w;
     if p_gameStatus p = GAME_STATUS_GRABING_LANDLORD then
       if is_ai p then
         if sint (p_aiDelay p) > 0 then Some w
         else do {
           (score, w) \<leftarrow> Player_aiGrabLandlord this w;
           w \<leftarrow> modify_player this
                 (\<lambda>p. p\<lparr>p_grabScore := score, p_aiDelay := getIntConfig CONFIG_AI_DELAY w\<rparr>) w;
           grab_announce this w
         }
       else grab_announce this w
     else Some w
   }"

definition grab_decide :: "nat \<Rightarrow> world \<Rightarrow> world option" where
  "grab_decide this w = do {
     p \<leftarrow> player_at this w;
     if p_gameStatus p = GAME_STATUS_GRABED_LAND_LORD then do {
       nobody \<leftarrow> pand (pand (Some (p_grabScore p = 0)) (ptr_test (p_left p) (\<lambda>l. p_grabScore l = 0) w))
                      (ptr_test (p_right p) (\<lambda>r. p_grabScore r = 0) w);
       w \<leftarrow> (if nobody
             then modify_player this
                    (\<lambda>p. p\<lparr>p_defaultGrab := 0, p_grabScore := - 1, p_gameStatus := GAME_STATUS_STARTED\<rparr>) w
             else Some w);
       (landlord, w) \<leftarrow> Player_getLandlordId this w;
       if landlord \<noteq> - 1 then Player_beginOutCard this w else Some w
     } else Some w
   }"

definition Player_checkGrabLandlord :: "nat \<Rightarrow> world \<Rightarrow> world option" where
  "Player_checkGrabLandlord this w = do {
     p \<leftarrow> player_at this w;
     if p_gameStatus p \<noteq> GAME_STATUS_DEALED_CARD \<and> p_gameStatus p \<noteq> GAME_STATUS_GRABING_LANDLORD
     then Some w
     else do {
       w \<leftarrow> grab_turn this w;
       w \<leftarrow> grab_bid this w;
       grab_decide this w
     }
   }"

section \<open>Playing cards\<close>

definition OutCardAi_OutCard :: "nat \<Rightarrow> world \<Rightarrow> world option" where
  "OutCardAi_OutCard this w = do {
     (landlord, w) \<leftarrow> Player_getLandlordId this w;
     p \<leftarrow> player_at this w;
     lead \<leftarrow> por (pand (Some (landlord = Player_getid p))
                      (do { n \<leftarrow> getCardsNumber (p_cards p); Some (n = 20) }))
                (pand (ptr_test (p_left p) (\<lambda>l. p_cardType l = CARD_TYPE_PASS) w)
                      (ptr_test (p_right p) (\<lambda>r. p_cardType r = CARD_TYPE_PASS) w));
     if lead
     then modify_player this
            (\<lambda>p. p\<lparr>p_outCards := resetCards[0 := p_cards p ! 0], p_cardType := CARD_TYPE_SINGLE\<rparr>) w
     else modify_player this (\<lambda>p. p\<lparr>p_outCards := resetCards, p_cardType := CARD_TYPE_PASS\<rparr>) w
   }"

text \<open>
  The parts of \<^verbatim>\<open>checkOutCard\<close>: a computer whose turn has come; the played cards are
  announced and leave the hand, and the turn passes to a computer on the right; a seat whose
  right neighbour has played goes back to waiting.
\<close>

definition out_turn :: "nat \<Rightarrow> world \<Rightarrow> world option" where
  "out_turn this w = do {
     p \<leftarrow> player_at this w;
     if is_ai p then do {
       (mine, w) \<leftarrow> (if p_gameStatus p = GAME_STATUS_WAIT_OUT_CARD then do {
                       (landlord, w) \<leftarrow> Player_getLandlordId this w;
                       Some (landlord = Player_getid p, w)
                     } else Some (False, w));
       go \<leftarrow> por (Some mine) (ptr_test (p_left p) (\<lambda>l. p_gameStatus l = GAME_STATUS_OUT_CARDED) w);
       if go then modify_player this (\<lambda>p. p\<lparr>p_gameStatus := GAME_STATUS_OUT_CARDING\<rparr>) w
       else Some w
     } else Some w
   }"

definition out_announce :: "nat \<Rightarrow> world \<Rightarrow> world option" where
  "out_announce this w = do {
     p \<leftarrow> player_at this w;
     data \<leftarrow> pkt_put (Player_getid p) (pkt_start CMSG_CARD_OUT);
     data \<leftarrow> pkt_put (p_cardType p) data;
     data \<leftarrow> pkt_append (p_outCards p) data;
     w \<leftarrow> send_if_user data this w;
     la \<leftarrow> p_left p;
     w \<leftarrow> send_if_user data la w;
     ra \<leftarrow> p_right p;
     w \<leftarrow> send_if_user data ra w;
     cards \<leftarrow> updateCardsFace (p_cards p) (p_outCards p);
     w \<leftarrow> modify_player this (\<lambda>p. p\<lparr>p_cards := cards, p_gameStatus := GAME_STATUS_OUT_CARDED\<rparr>) w;
     ai \<leftarrow> ptr_test (p_right p) is_ai w;
     if ai then modify_player ra (\<lambda>r. r\<lparr>p_gameStatus := GAME_STATUS_OUT_CARDING\<rparr>) w else Some w
   }"

definition out_play :: "nat \<Rightarrow> world \<Rightarrow> world option" where
  "out_play this w = do {
     p \<leftarrow> player_at this w;
     if p_gameStatus p = GAME_STATUS_OUT_CARDING then
       if is_ai p then
         if sint (p_aiDelay p) > 0 then Some w
         else do {
           w \<leftarrow> OutCardAi_OutCard this w;
           w \<leftarrow> modify_player this (\<lambda>p. p\<lparr>p_aiDelay := getIntConfig CONFIG_AI_DELAY w\<rparr>) w;
           out_announce this w
         }
       else out_announce this w
     else Some w
   }"

definition out_wait :: "nat \<Rightarrow> world \<Rightarrow> world option" where
  "out_wait this w = do {
     p \<leftarrow> player_at this w;
     both \<leftarrow> pand (Some (p_gameStatus p = GAME_STATUS_OUT_CARDED))
               (ptr_test (p_right p) (\<lambda>r. p_gameStatus r = GAME_STATUS_OUT_CARDED) w);
     if both then modify_player this (\<lambda>p. p\<lparr>p_gameStatus := GAME_STATUS_WAIT_OUT_CARD\<rparr>) w else Some w
   }"

definition Player_checkOutCard :: "nat \<Rightarrow> world \<Rightarrow> world option" where
  "Player_checkOutCard this w = do {
     p \<leftarrow> player_at this w;
     if p_gameStatus p < GAME_STATUS_WAIT_OUT_CARD \<or> p_gameStatus p > GAME_STATUS_OUT_CARDED then Some w
     else do {
       w \<leftarrow> out_turn this w;
       w \<leftarrow> out_play this w;
       out_wait this w
     }
   }"

section \<open>The end of a round\<close>

definition Player_resetGame :: "nat \<Rightarrow> world \<Rightarrow> world option" where
  "Player_resetGame this w =
     modify_player this
       (\<lambda>p. p\<lparr>p_cards := replicate CARD_NUMBER CARD_TERMINATE @ replicate BASIC_CARD CARD_TERMINATE,
              p_queueFlags := (if type_has (p_playerType p) PLAYER_TYPE_USER then QUEUE_FLAGS_NULL
                               else p_queueFlags p),
              p_expiration := getIntConfig CONFIG_WAIT_TIME w,
              p_aiDelay := getIntConfig CONFIG_AI_DELAY w,
              p_left := None, p_right := None, p_start := False, p_defaultGrab := 0,
              p_grabScore := - 1, p_landlord := - 1, p_winGold := 0\<rparr>) w"

definition end_round_neighbour :: "nat option \<Rightarrow> world \<Rightarrow> bool option" where
  "end_round_neighbour ptr w =
     pand (ptr_test ptr is_ai w) (ptr_test ptr (\<lambda>q. p_gameStatus q \<noteq> GAME_STATUS_ROUNDOVERED) w)"

definition round_over_update :: "nat \<Rightarrow> world \<Rightarrow> world option" where
  "round_over_update this w = do {
     p \<leftarrow> player_at this w;
     p \<leftarrow> Player_UpdatePlayerData (getIntConfig CONFIG_BASICSCORE w) p;
     let w = put_player this p w;
     data \<leftarrow> pkt_append (take 152 (PlayerInfo_bytes (p_info p))) (pkt_start CMSG_ROUND_OVER);
     w \<leftarrow> send_if_user data this w;
     modify_player this (\<lambda>p. p\<lparr>p_gameStatus := GAME_STATUS_ROUNDOVERED\<rparr>) w
   }"

partial_function (option) Player_checkRoundOver :: "nat \<Rightarrow> world \<Rightarrow> world option" where
  "Player_checkRoundOver this w = do {
     p \<leftarrow> player_at this w;
     w \<leftarrow> (if p_gameStatus p = GAME_STATUS_ROUNDOVERING then do {
             w \<leftarrow> round_over_update this w;
             leftGo \<leftarrow> end_round_neighbour (p_left p) w;
             w \<leftarrow> (if leftGo
                   then modify_ptr (p_left p) (\<lambda>q. q\<lparr>p_gameStatus := GAME_STATUS_ROUNDOVERING\<rparr>) w
                   else Some w);
             rightGo \<leftarrow> end_round_neighbour (p_right p) w;
             if rightGo then do {
               ra \<leftarrow> p_right p;
               w \<leftarrow> modify_player ra (\<lambda>q. q\<lparr>p_gameStatus := GAME_STATUS_ROUNDOVERING\<rparr>) w;
               Player_checkRoundOver ra w
             } else Some w
           } else Some w);
     p \<leftarrow> player_at this w;
     if p_gameStatus p = GAME_STATUS_ROUNDOVERED then Player_resetGame this w else Some w
   }"

section \<open>Update\<close>

definition Player_UpdateAiDelay :: "u32 \<Rightarrow> nat \<Rightarrow> world \<Rightarrow> world option" where
  "Player_UpdateAiDelay diff this w = do {
     p \<leftarrow> player_at this w;
     if \<not> is_ai p then Some w
     else if p_gameStatus p = GAME_STATUS_GRABING_LANDLORD \<or> p_gameStatus p = GAME_STATUS_OUT_CARDING
     then modify_player this (\<lambda>p. p\<lparr>p_aiDelay := p_aiDelay p - diff\<rparr>) w
     else Some w
   }"

definition Player_Update :: "u32 \<Rightarrow> nat \<Rightarrow> world \<Rightarrow> world option" where
  "Player_Update diff this w = do {
     p \<leftarrow> player_at this w;
     w \<leftarrow> (if p_queueFlags p = QUEUE_FLAGS_ONE \<or> p_queueFlags p = QUEUE_FLAGS_TWO
           then modify_player this (\<lambda>p. p\<lparr>p_expiration := p_expiration p - diff\<rparr>) w else Some w);
     w \<leftarrow> Player_UpdateAiDelay diff this w;
     w \<leftarrow> Player_checkOutPlayer this w;
     w \<leftarrow> Player_checkQueueStatus this w;
     w \<leftarrow> Player_checkStart this w;
     w \<leftarrow> Player_checkDealCards this w;
     w \<leftarrow> Player_checkGrabLandlord this w;
     w \<leftarrow> Player_checkOutCard this w;
     Player_checkRoundOver this w
   }"

end
