(* ===== verification/Table.thy ===== *)
theory Table
  imports Player
begin

text \<open>
  Table: three players who sit in a ring, and what the steps of
  \<^verbatim>\<open>src/server/game/Player/Player.cpp\<close> do there.
\<close>

section \<open>Delivery\<close>

text \<open>What sending a packet to a seat does when its session and connection are alive.\<close>

definition user_ok :: "player \<Rightarrow> world \<Rightarrow> bool" where
  "user_ok p w \<longleftrightarrow> (is_user p \<longrightarrow>
     (\<exists>sa s. p_session p = Some sa \<and> sess_at sa w = Some s \<and>
        (\<forall>ca. s_Socket s = Some ca \<longrightarrow> conn_at ca w \<noteq> None)))"

definition conn_of :: "player \<Rightarrow> world \<Rightarrow> nat option" where
  "conn_of p w =
     (if is_user p then do { sa \<leftarrow> p_session p; s \<leftarrow> sess_at sa w; s_Socket s } else None)"

definition write_to :: "world_packet \<Rightarrow> nat option \<Rightarrow> world \<Rightarrow> world" where
  "write_to data ca w =
     (case ca of None \<Rightarrow> w
      | Some c \<Rightarrow> (case conn_at c w of None \<Rightarrow> w
          | Some cn \<Rightarrow> put_conn c (cn\<lparr>cn_socket := WorldSocket_AsyncWrite data (cn_socket cn)\<rparr>) w))"

lemma write_to_frame [simp]:
  "player_at a (write_to d ca w) = player_at a w" "sess_at s (write_to d ca w) = sess_at s w"
  "getIntConfig n (write_to d ca w) = getIntConfig n w" "user_ok p (write_to d ca w) = user_ok p w"
  "conn_of p (write_to d ca w) = conn_of p w" "w_ridx (write_to d ca w) = w_ridx w"
  "w_rand (write_to d ca w) = w_rand w" "w_pool (write_to d ca w) = w_pool w"
  by (auto simp: write_to_def player_at_def heap_simps getIntConfig_def
      user_ok_def conn_of_def split: option.splits)

lemma put_player_user_frame [simp]:
  "user_ok p (put_player a q w) = user_ok p w" "conn_of p (put_player a q w) = conn_of p w"
  "sess_at s (put_player a q w) = sess_at s w" "conn_at c (put_player a q w) = conn_at c w"
  by (simp_all add: user_ok_def conn_of_def heap_simps put_player_def)

lemma write_to_put_player:
  "write_to d ca (put_player a p w) = put_player a p (write_to d ca w)"
  by (simp add: write_to_def heap_simps put_player_def split: option.splits)

lemma send_if_user_ok:
  assumes "player_at a w = Some p" and "user_ok p w"
  shows "send_if_user data a w = Some (write_to data (conn_of p w) w)"
  using assms
  by (auto simp: send_if_user_def WorldSession_SendPacket_def user_ok_def conn_of_def write_to_def
      split: option.splits)

lemma user_fields [simp]:
  "user_ok (p\<lparr>p_expiration := x0\<rparr>) w = user_ok p w" "conn_of (p\<lparr>p_expiration := x0\<rparr>) w = conn_of p w"
  "user_ok (p\<lparr>p_aiDelay := x1\<rparr>) w = user_ok p w" "conn_of (p\<lparr>p_aiDelay := x1\<rparr>) w = conn_of p w"
  "user_ok (p\<lparr>p_cards := x2\<rparr>) w = user_ok p w" "conn_of (p\<lparr>p_cards := x2\<rparr>) w = conn_of p w"
  "user_ok (p\<lparr>p_roomid := x3\<rparr>) w = user_ok p w" "conn_of (p\<lparr>p_roomid := x3\<rparr>) w = conn_of p w"
  "user_ok (p\<lparr>p_left := x4\<rparr>) w = user_ok p w" "conn_of (p\<lparr>p_left := x4\<rparr>) w = conn_of p w"
  "user_ok (p\<lparr>p_right := x5\<rparr>) w = user_ok p w" "conn_of (p\<lparr>p_right := x5\<rparr>) w = conn_of p w"
  "user_ok (p\<lparr>p_queueFlags := x6\<rparr>) w = user_ok p w" "conn_of (p\<lparr>p_queueFlags := x6\<rparr>) w = conn_of p w"
  "user_ok (p\<lparr>p_gameStatus := x7\<rparr>) w = user_ok p w" "conn_of (p\<lparr>p_gameStatus := x7\<rparr>) w = conn_of p w"
  "user_ok (p\<lparr>p_start := x8\<rparr>) w = user_ok p w" "conn_of (p\<lparr>p_start := x8\<rparr>) w = conn_of p w"
  "user_ok (p\<lparr>p_defaultGrab := x9\<rparr>) w = user_ok p w" "conn_of (p\<lparr>p_defaultGrab := x9\<rparr>) w = conn_of p w"
  "user_ok (p\<lparr>p_grabScore := x10\<rparr>) w = user_ok p w" "conn_of (p\<lparr>p_grabScore := x10\<rparr>) w = conn_of p w"
  "user_ok (p\<lparr>p_landlord := x11\<rparr>) w = user_ok p w" "conn_of (p\<lparr>p_landlord := x11\<rparr>) w = conn_of p w"
  "user_ok (p\<lparr>p_cardType := x12\<rparr>) w = user_ok p w" "conn_of (p\<lparr>p_cardType := x12\<rparr>) w = conn_of p w"
  "user_ok (p\<lparr>p_outCards := x13\<rparr>) w = user_ok p w" "conn_of (p\<lparr>p_outCards := x13\<rparr>) w = conn_of p w"
  "user_ok (p\<lparr>p_winGold := x14\<rparr>) w = user_ok p w" "conn_of (p\<lparr>p_winGold := x14\<rparr>) w = conn_of p w"
  "user_ok (p\<lparr>p_info := x15\<rparr>) w = user_ok p w" "conn_of (p\<lparr>p_info := x15\<rparr>) w = conn_of p w"
  by (simp_all add: user_ok_def conn_of_def is_user_def)

section \<open>Packets\<close>

definition packet :: "u32 \<Rightarrow> u8 list \<Rightarrow> world_packet" where
  "packet opcode body =
     \<lparr>rpos = 0, wpos = 8 + length body, storage = replicate 8 0 @ body, m_opcode = opcode\<rparr>"

lemma pkt_start_packet: "pkt_start opcode = packet opcode []"
  by (simp add: pkt_start_def packet_def bb_resize_def WorldPacket_new_def bb_size_def)

lemma pkt_append_packet [simp]:
  assumes "length body < 1000000" and "bs \<noteq> []" and "length bs < 1000000"
  shows "pkt_append bs (packet opcode body) = Some (packet opcode (body @ bs))"
proof -
  have "at_end (packet opcode body)" by (simp add: at_end_def packet_def bb_size_def)
  moreover have "bb_size (packet opcode body) < 10000000" using assms by (simp add: packet_def bb_size_def)
  ultimately have "bb_append bs (packet opcode body) =
      Inr ((packet opcode body)\<lparr>storage := storage (packet opcode body) @ bs,
             wpos := wpos (packet opcode body) + length bs\<rparr>)"
    using assms by (intro bb_append_at_end) simp_all
  then show ?thesis by (simp add: pkt_append_def packet_def)
qed

lemma pkt_put_append: "pkt_put v = pkt_append (le_enc 4 (unat v))"
  by (rule ext) (simp add: pkt_put_def pkt_append_def bb_append_val_wire size_of_def)

lemma le_enc_4_not_Nil [simp]: "le_enc 4 x \<noteq> []"
  using length_le_enc [of 4 x] by (metis list.size(3) zero_neq_numeral)

lemma pkt_put_packet [simp]:
  "length body < 1000000 \<Longrightarrow> pkt_put v (packet opcode body) = Some (packet opcode (body @ le_enc 4 (unat v)))"
  by (simp add: pkt_put_append)

section \<open>The ring\<close>

definition seats :: "nat \<Rightarrow> nat \<Rightarrow> nat \<Rightarrow> player \<Rightarrow> player \<Rightarrow> player \<Rightarrow> world \<Rightarrow> bool" where
  "seats a b c pa pb pc w \<longleftrightarrow> distinct [a, b, c] \<and>
     player_at a w = Some pa \<and> player_at b w = Some pb \<and> player_at c w = Some pc"

definition ring :: "nat \<Rightarrow> nat \<Rightarrow> nat \<Rightarrow> player \<Rightarrow> player \<Rightarrow> player \<Rightarrow> world \<Rightarrow> bool" where
  "ring a b c pa pb pc w \<longleftrightarrow> seats a b c pa pb pc w \<and>
     p_left pa = Some b \<and> p_right pa = Some c \<and>
     p_left pb = Some c \<and> p_right pb = Some a \<and>
     p_left pc = Some a \<and> p_right pc = Some b \<and>
     user_ok pa w \<and> user_ok pb w \<and> user_ok pc w"

lemma ring_simps:
  assumes "ring a b c pa pb pc w"
  shows "player_at a w = Some pa" "player_at b w = Some pb" "player_at c w = Some pc"
    "a \<noteq> b" "b \<noteq> a" "a \<noteq> c" "c \<noteq> a" "b \<noteq> c" "c \<noteq> b"
    "p_left pa = Some b" "p_right pa = Some c" "p_left pb = Some c" "p_right pb = Some a"
    "p_left pc = Some a" "p_right pc = Some b" "user_ok pa w" "user_ok pb w" "user_ok pc w"
  using assms by (auto simp: ring_def seats_def)

lemma ring_rotate: "ring a b c pa pb pc w \<longleftrightarrow> ring b c a pb pc pa w"
  by (auto simp: ring_def seats_def)

lemma put_player_id: "player_at a w = Some p \<Longrightarrow> put_player a p w = w"
  by (cases w) (auto simp: put_player_def player_at_def)

lemma put_player_swap: "a \<noteq> b \<Longrightarrow> put_player a p (put_player b q w) = put_player b q (put_player a p w)"
  by (cases w) (auto simp: put_player_def fun_upd_twist)

section \<open>The auction\<close>

text \<open>
  Who is the landlord for a seat with neighbours \<open>l\<close> and \<open>r\<close>: what it knows already, or,
  once all have bid or somebody has bid 3, the highest bidder, with ties resolved in the order
  own seat, left, right.
\<close>

definition auction_over :: "player \<Rightarrow> player \<Rightarrow> player \<Rightarrow> bool" where
  "auction_over p l r \<longleftrightarrow>
     p_grabScore p \<noteq> - 1 \<and> p_grabScore l \<noteq> - 1 \<and> p_grabScore r \<noteq> - 1 \<or>
     Max {sint (p_grabScore p), sint (p_grabScore l), sint (p_grabScore r)} = 3"

definition highest_bidder :: "player \<Rightarrow> player \<Rightarrow> player \<Rightarrow> player" where
  "highest_bidder p l r =
     (let m = Max {sint (p_grabScore p), sint (p_grabScore l), sint (p_grabScore r)} in
      if sint (p_grabScore p) = m then p else if sint (p_grabScore l) = m then l else r)"

definition landlord_of :: "player \<Rightarrow> player \<Rightarrow> player \<Rightarrow> i32" where
  "landlord_of p l r =
     (if p_landlord p \<noteq> - 1 then p_landlord p
      else if auction_over p l r then Player_getid (highest_bidder p l r) else - 1)"

lemma sint_smax: "sint (smax a b) = max (sint a) (sint b)"
  by (simp add: smax_def max_def)

lemma sint_eq_iff: "sint a = sint b \<longleftrightarrow> a = (b :: i32)"
  by (auto intro: signed_word_eqI)

lemma smax3:
  "sint (smax (smax x y) z) = Max {sint x, sint y, sint z}"
  "smax (smax x y) z = x \<or> smax (smax x y) z = y \<or> smax (smax x y) z = z"
  by (simp_all add: sint_smax max.assoc smax_def)

lemma smax_is_max:
  assumes "v = x \<or> v = y \<or> v = z"
  shows "smax (smax x y) z = v \<longleftrightarrow> sint v = Max {sint x, sint y, sint z}"
  using assms by (metis sint_eq_iff smax3(1))

lemma smax_is_3:
  "smax (smax x y) z = 3 \<longleftrightarrow> Max {sint x, sint y, sint z} = 3"
proof -
  have "sint (3 :: i32) = 3" by simp
  then show ?thesis by (metis sint_eq_iff smax3(1))
qed

lemma getLandlordId_ring:
  assumes "ring a b c pa pb pc w"
  shows "Player_getLandlordId a w =
    Some (landlord_of pa pb pc, put_player a (pa\<lparr>p_landlord := landlord_of pa pb pc\<rparr>) w)"
proof (cases "p_landlord pa \<noteq> - 1")
  case True
  have "put_player a (pa\<lparr>p_landlord := p_landlord pa\<rparr>) w = w"
    using assms by (simp add: put_player_id ring_simps)
  with True assms show ?thesis
    by (simp add: Player_getLandlordId_def ring_simps landlord_of_def)
next
  case False
  let ?x = "p_grabScore pa" and ?y = "p_grabScore pb" and ?z = "p_grabScore pc"
  let ?m = "smax (smax ?x ?y) ?z"
  have "pa\<lparr>p_landlord := - 1\<rparr> = pa" using False by (cases pa) simp
  then have same: "put_player a (pa\<lparr>p_landlord := - 1\<rparr>) w = w"
    using assms put_player_id [of a w pa] by (simp add: ring_simps)
  have over: "auction_over pa pb pc \<longleftrightarrow> ?x \<noteq> - 1 \<and> ?y \<noteq> - 1 \<and> ?z \<noteq> - 1 \<or> ?m = 3"
    by (simp only: auction_over_def smax_is_3)
  have best: "highest_bidder pa pb pc = (if ?m = ?x then pa else if ?m = ?y then pb else pc)"
    by (simp add: highest_bidder_def Let_def smax_is_max)
  have last: "?m \<noteq> ?x \<Longrightarrow> ?m \<noteq> ?y \<Longrightarrow> ?m = ?z" using smax3(2) [of ?x ?y ?z] by metis
  show ?thesis
    using assms False same last
    by (auto simp: Player_getLandlordId_def ring_simps landlord_of_def over best Let_def
        modify_player_def)
qed

lemma ring_put:
  assumes "ring a b c pa pb pc w"
    and "p_left pa' = p_left pa" "p_right pa' = p_right pa" "p_session pa' = p_session pa"
    and "p_playerType pa' = p_playerType pa"
  shows "ring a b c pa' pb pc (put_player a pa' w)"
  using assms by (auto simp: ring_def seats_def user_ok_def is_user_def)

lemma ring_write [simp]: "ring a b c pa pb pc (write_to d ca w) = ring a b c pa pb pc w"
  by (simp add: ring_def seats_def)

lemma ptr_test_ring:
  assumes "ring a b c pa pb pc w"
  shows "ptr_test (p_left pa) test w = Some (test pb)" "ptr_test (p_right pa) test w = Some (test pc)"
  using assms by (simp_all add: ptr_test_def ring_simps)

text \<open>Everybody who has a connection at the table receives the packet.\<close>

definition announce :: "world_packet \<Rightarrow> player list \<Rightarrow> world \<Rightarrow> world" where
  "announce data ps w = fold (\<lambda>p w. write_to data (conn_of p w) w) ps w"

lemma announce_simps [simp]:
  "announce d [] w = w" "announce d (p # ps) w = announce d ps (write_to d (conn_of p w) w)"
  by (simp_all add: announce_def)

lemma begin_ring:
  assumes "ring a b c pa pb pc w"
  shows "Player_beginOutCard a w =
    Some (put_player c (pc\<lparr>p_landlord := p_landlord pa, p_gameStatus := GAME_STATUS_WAIT_OUT_CARD\<rparr>)
         (put_player b (pb\<lparr>p_landlord := p_landlord pa, p_gameStatus := GAME_STATUS_WAIT_OUT_CARD\<rparr>)
         (put_player a (pa\<lparr>p_gameStatus := GAME_STATUS_WAIT_OUT_CARD\<rparr>) w)))"
  using assms
  by (simp add: Player_beginOutCard_def modify_ptr_def modify_player_def ring_simps
      Player_setLandlordId_def put_player_swap [of a b] put_player_swap [of b c] put_player_swap [of a c])

text \<open>The bids are announced, and the seat caches the landlord it has read for the packet.\<close>

definition grab_packet :: "player \<Rightarrow> i32 \<Rightarrow> world_packet" where
  "grab_packet p landlord = packet CMSG_GRAD_LANDLORD
     (le_enc 4 (unat (Player_getid p)) @ le_enc 4 (unat (p_grabScore p)) @ le_enc 4 (unat landlord))"

lemma announce_ring:
  assumes "ring a b c pa pb pc w"
  shows "grab_announce a w =
    Some (put_player a (pa\<lparr>p_landlord := landlord_of pa pb pc, p_gameStatus := GAME_STATUS_GRABED_LAND_LORD\<rparr>)
      (announce (grab_packet pa (landlord_of pa pb pc)) [pa, pb, pc] w))"
proof -
  let ?L = "landlord_of pa pb pc"
  let ?w = "put_player a (pa\<lparr>p_landlord := ?L\<rparr>) w"
  let ?d = "grab_packet pa ?L"
  have ring: "ring a b c (pa\<lparr>p_landlord := ?L\<rparr>) pb pc ?w"
    using assms by (rule ring_put) simp_all
  show ?thesis
    using assms ring
    by (simp add: grab_announce_def getLandlordId_ring [OF assms] pkt_start_packet ring_simps
        send_if_user_ok [of a _ "pa\<lparr>p_landlord := ?L\<rparr>"] send_if_user_ok [of b _ pb]
        send_if_user_ok [of c _ pc] modify_player_def write_to_put_player grab_packet_def)
qed

definition nobody_bid :: "player \<Rightarrow> player \<Rightarrow> player \<Rightarrow> bool" where
  "nobody_bid p l r \<longleftrightarrow> p_grabScore p = 0 \<and> p_grabScore l = 0 \<and> p_grabScore r = 0"

definition all_wait_out :: "i32 \<Rightarrow> nat \<Rightarrow> nat \<Rightarrow> nat \<Rightarrow> player \<Rightarrow> player \<Rightarrow> player \<Rightarrow> world \<Rightarrow> world" where
  "all_wait_out landlord a b c pa pb pc w =
     put_player c (pc\<lparr>p_landlord := landlord, p_gameStatus := GAME_STATUS_WAIT_OUT_CARD\<rparr>)
      (put_player b (pb\<lparr>p_landlord := landlord, p_gameStatus := GAME_STATUS_WAIT_OUT_CARD\<rparr>)
        (put_player a (pa\<lparr>p_landlord := landlord, p_gameStatus := GAME_STATUS_WAIT_OUT_CARD\<rparr>) w))"

definition undo_bid :: "player \<Rightarrow> player" where
  "undo_bid p = p\<lparr>p_defaultGrab := 0, p_grabScore := - 1, p_gameStatus := GAME_STATUS_STARTED\<rparr>"

lemma decide_ring:
  assumes ring: "ring a b c pa pb pc w" and status: "p_gameStatus pa = GAME_STATUS_GRABED_LAND_LORD"
    and cached: "p_landlord pa = landlord_of pa pb pc"
  shows "grab_decide a w =
    (let pa' = (if nobody_bid pa pb pc then undo_bid pa else pa) in
     if p_landlord pa \<noteq> - 1 then Some (all_wait_out (p_landlord pa) a b c pa' pb pc w)
     else Some (put_player a pa' w))"
proof -
  let ?pa = "if nobody_bid pa pb pc then undo_bid pa else pa"
  let ?w = "put_player a ?pa w"
  have ring': "ring a b c ?pa pb pc ?w"
    using ring by (rule ring_put) (simp_all add: undo_bid_def)
  have keep: "landlord_of ?pa pb pc = p_landlord pa"
  proof (cases "p_landlord pa = - 1")
    case True
    have "\<not> auction_over (undo_bid pa) pb pc" if "nobody_bid pa pb pc"
      using that by (simp add: auction_over_def undo_bid_def nobody_bid_def)
    moreover have "p_landlord (undo_bid pa) = p_landlord pa" by (simp add: undo_bid_def)
    ultimately show ?thesis
      using True cached [symmetric] by (cases "nobody_bid pa pb pc") (simp_all add: landlord_of_def)
  qed (simp add: landlord_of_def undo_bid_def)
  have "?pa\<lparr>p_landlord := p_landlord pa\<rparr> = ?pa" by (simp add: undo_bid_def)
  then have get: "Player_getLandlordId a ?w = Some (p_landlord pa, ?w)"
    using getLandlordId_ring [OF ring'] keep by simp
  have step: "(if nobody_bid pa pb pc then modify_player a undo_bid w else Some w) = Some ?w"
    using ring_simps(1) [OF ring] by (simp add: modify_player_def put_player_id)
  have "pand (pand (Some (p_grabScore pa = 0)) (ptr_test (p_left pa) (\<lambda>l. p_grabScore l = 0) w))
      (ptr_test (p_right pa) (\<lambda>r. p_grabScore r = 0) w) = Some (nobody_bid pa pb pc)"
    by (simp add: ptr_test_ring [OF ring] pand_def nobody_bid_def)
  then have "grab_decide a w =
      (if nobody_bid pa pb pc then modify_player a undo_bid w else Some w) \<bind>
      (\<lambda>w. Player_getLandlordId a w \<bind>
        (\<lambda>(landlord, w). if landlord \<noteq> - 1 then Player_beginOutCard a w else Some w))"
    using ring_simps(1) [OF ring] status unfolding grab_decide_def undo_bid_def [abs_def]
    by (simp only: Option.bind.simps if_True refl)
  also have "\<dots> = (if p_landlord pa \<noteq> - 1 then Player_beginOutCard a ?w else Some ?w)"
    by (simp only: step get Option.bind.simps prod.case)
  also have "Player_beginOutCard a ?w = Some (all_wait_out (p_landlord pa) a b c ?pa pb pc w)"
    using begin_ring [OF ring'] by (simp add: all_wait_out_def undo_bid_def)
  finally show ?thesis by (simp only: Let_def)
qed

text \<open>What the bid of a seat leads to, when it has been announced.\<close>

definition bid_outcome :: "nat \<Rightarrow> nat \<Rightarrow> nat \<Rightarrow> player \<Rightarrow> player \<Rightarrow> player \<Rightarrow> world \<Rightarrow> world" where
  "bid_outcome a b c pa pb pc w =
     (let landlord = landlord_of pa pb pc;
          w1 = announce (grab_packet pa landlord) [pa, pb, pc] w;
          pa1 = pa\<lparr>p_landlord := landlord, p_gameStatus := GAME_STATUS_GRABED_LAND_LORD\<rparr>;
          pa2 = (if nobody_bid pa pb pc then undo_bid pa1 else pa1)
      in if landlord \<noteq> - 1 then all_wait_out landlord a b c pa2 pb pc w1 else put_player a pa2 w1)"

lemma ring_announce [simp]: "ring a b c pa pb pc (announce d ps w) = ring a b c pa pb pc w"
  by (induction ps arbitrary: w) simp_all

lemma put_put_announce [simp]:
  "put_player a p (announce d ps (put_player a q w)) = put_player a p (announce d ps w)"
  by (induction ps arbitrary: w) (simp_all add: write_to_put_player)

lemma all_wait_out_put [simp]:
  "ring a b c qa qb qc w \<Longrightarrow>
   all_wait_out L a b c pa pb pc (put_player a p w) = all_wait_out L a b c pa pb pc w"
  by (simp add: all_wait_out_def)

lemma bid_outcome_ring:
  assumes ring: "ring a b c pa pb pc w"
  shows "grab_announce a w \<bind> grab_decide a = Some (bid_outcome a b c pa pb pc w)"
proof -
  let ?L = "landlord_of pa pb pc"
  let ?w1 = "announce (grab_packet pa ?L) [pa, pb, pc] w"
  let ?p = "pa\<lparr>p_landlord := ?L, p_gameStatus := GAME_STATUS_GRABED_LAND_LORD\<rparr>"
  have w1: "ring a b c pa pb pc ?w1" using ring by (simp only: ring_announce)
  then have ring1: "ring a b c ?p pb pc (put_player a ?p ?w1)"
    by (rule ring_put) simp_all
  have cached: "landlord_of ?p pb pc = ?L"
    by (auto simp: landlord_of_def auction_over_def highest_bidder_def Let_def Player_getid_def)
  have nobody: "nobody_bid (pa\<lparr>p_landlord := x, p_gameStatus := y\<rparr>) pb pc = nobody_bid pa pb pc" for x y
    by (simp add: nobody_bid_def)
  have "grab_decide a (put_player a ?p ?w1) = Some (bid_outcome a b c pa pb pc w)"
    using decide_ring [OF ring1] cached all_wait_out_put [OF w1]
    by (simp add: bid_outcome_def nobody Let_def del: announce_simps)
  then show ?thesis by (simp add: announce_ring [OF ring] del: announce_simps)
qed

lemma checkGrab_user:
  assumes ring: "ring a b c pa pb pc w" and "is_user pa"
    and status: "p_gameStatus pa = GAME_STATUS_GRABING_LANDLORD"
  shows "Player_checkGrabLandlord a w = Some (bid_outcome a b c pa pb pc w)"
proof -
  have "\<not> is_ai pa" using assms(2) by (simp add: is_ai_iff is_user_def)
  then have "grab_turn a w \<bind> grab_bid a = grab_announce a w"
    using ring status by (simp add: grab_turn_def grab_bid_def ring_simps)
  then show ?thesis
    using ring status bid_outcome_ring [OF ring]
    by (simp add: Player_checkGrabLandlord_def ring_simps bind_assoc [symmetric] del: bind_assoc)
qed

text \<open>The bid a computer makes: random if it is the first, 1 if both others passed, else 0.\<close>

definition ai_bid :: "player \<Rightarrow> player \<Rightarrow> world \<Rightarrow> u32 \<times> world" where
  "ai_bid l r w =
     (if p_grabScore l = - 1 \<and> p_grabScore r = - 1
      then (word_of_nat (w_rand w (w_ridx w) mod 4), w\<lparr>w_ridx := Suc (w_ridx w)\<rparr>)
      else (if p_grabScore l = 0 \<and> p_grabScore r = 0 then 1 else 0, w))"

lemma aiGrab_ring:
  assumes "ring a b c pa pb pc w"
  shows "Player_aiGrabLandlord a w = Some (ai_bid pb pc w)"
proof -
  have "(if p_grabScore pb < p_grabScore pc then p_grabScore pc else p_grabScore pb) = 0 \<longleftrightarrow>
      p_grabScore pb = 0 \<and> p_grabScore pc = 0"
    by (auto simp: not_less)
  with assms show ?thesis
    by (simp add: Player_aiGrabLandlord_def ring_simps ai_bid_def rand_call_def Let_def)
qed

lemma ring_ridx [simp]: "ring a b c pa pb pc (w\<lparr>w_ridx := n\<rparr>) = ring a b c pa pb pc w"
  by (simp add: ring_def seats_def user_ok_def player_at_def heap_simps)

lemma ring_ai_bid: "ring a b c pa pb pc w \<Longrightarrow> ring a b c pa pb pc (snd (ai_bid l r w))"
  by (simp add: ai_bid_def)

lemma checkGrab_ai:
  assumes ring: "ring a b c pa pb pc w" and "is_ai pa" and "sint (p_aiDelay pa) \<le> 0"
    and status: "p_gameStatus pa = GAME_STATUS_GRABING_LANDLORD"
  defines "w1 \<equiv> snd (ai_bid pb pc w)"
  defines "pa1 \<equiv> pa\<lparr>p_grabScore := fst (ai_bid pb pc w), p_aiDelay := getIntConfig CONFIG_AI_DELAY w1\<rparr>"
  shows "Player_checkGrabLandlord a w = Some (bid_outcome a b c pa1 pb pc (put_player a pa1 w1))"
proof -
  have w1: "ring a b c pa pb pc w1" using ring_ai_bid [OF ring] by (simp add: w1_def)
  have ring1: "ring a b c pa1 pb pc (put_player a pa1 w1)"
    using w1 by (rule ring_put) (simp_all add: pa1_def)
  have "grab_turn a w = Some w" using ring status by (simp add: grab_turn_def ring_simps)
  moreover have "grab_bid a w = grab_announce a (put_player a pa1 w1)"
    using assms(2,3) status ring_simps(1) [OF ring] ring_simps(1) [OF w1]
    by (simp add: grab_bid_def aiGrab_ring [OF ring] modify_player_def pa1_def w1_def split_beta)
  ultimately show ?thesis
    using ring status bid_outcome_ring [OF ring1]
    by (simp add: Player_checkGrabLandlord_def ring_simps)
qed

section \<open>Playing\<close>

definition out_packet :: "player \<Rightarrow> world_packet" where
  "out_packet p = packet CMSG_CARD_OUT
     (le_enc 4 (unat (Player_getid p)) @ le_enc 4 (unat (p_cardType p)) @ p_outCards p)"

text \<open>
  What a play leads to: the packet goes out, the hand becomes \<open>cards\<close>, a computer on the
  right is told to play, and the seat waits again at once if a person on the right has just played.
\<close>

definition play_outcome ::
  "nat \<Rightarrow> nat \<Rightarrow> player \<Rightarrow> player \<Rightarrow> player \<Rightarrow> u8 list \<Rightarrow> world \<Rightarrow> world" where
  "play_outcome a c pa pb pc cards w =
     (let pa1 = pa\<lparr>p_cards := cards, p_gameStatus :=
            (if \<not> is_ai pc \<and> p_gameStatus pc = GAME_STATUS_OUT_CARDED then GAME_STATUS_WAIT_OUT_CARD
             else GAME_STATUS_OUT_CARDED)\<rparr>;
          pc1 = (if is_ai pc then pc\<lparr>p_gameStatus := GAME_STATUS_OUT_CARDING\<rparr> else pc)
      in put_player a pa1 (put_player c pc1 (announce (out_packet pa) [pa, pb, pc] w)))"

lemma player_at_announce [simp]: "player_at x (announce d ps w) = player_at x w"
  by (induction ps arbitrary: w) simp_all

lemma play_ring:
  assumes ring: "ring a b c pa pb pc w"
    and cards: "updateCardsFace (p_cards pa) (p_outCards pa) = Some cards"
    and len: "length (p_outCards pa) = 24"
  shows "out_announce a w \<bind> out_wait a = Some (play_outcome a c pa pb pc cards w)"
proof -
  let ?d = "out_packet pa"
  let ?w1 = "announce ?d [pa, pb, pc] w"
  let ?pa = "pa\<lparr>p_cards := cards, p_gameStatus := GAME_STATUS_OUT_CARDED\<rparr>"
  let ?pc = "if is_ai pc then pc\<lparr>p_gameStatus := GAME_STATUS_OUT_CARDING\<rparr> else pc"
  let ?w2 = "put_player c ?pc (put_player a ?pa ?w1)"
  note sends = send_if_user_ok [of a _ pa] send_if_user_ok [of b _ pb] send_if_user_ok [of c _ pc]
  have "p_outCards pa \<noteq> []" using len by auto
  then have "out_announce a w = Some ?w2"
    using ring_simps [OF ring] cards len put_player_id [of c "put_player a ?pa ?w1" pc]
    by (simp add: out_announce_def pkt_start_packet sends modify_player_def ptr_test_def
        write_to_put_player out_packet_def [symmetric] put_player_swap [of a c])
  moreover have "out_wait a ?w2 = Some (play_outcome a c pa pb pc cards w)"
    using ring_simps [OF ring]
    by (simp add: out_wait_def ptr_test_def pand_def modify_player_def play_outcome_def Let_def
        put_player_swap [of c a] del: announce_simps)
  ultimately show ?thesis by simp
qed

lemma checkOut_user:
  assumes ring: "ring a b c pa pb pc w" and "is_user pa"
    and status: "p_gameStatus pa = GAME_STATUS_OUT_CARDING"
    and cards: "updateCardsFace (p_cards pa) (p_outCards pa) = Some cards"
    and len: "length (p_outCards pa) = 24"
  shows "Player_checkOutCard a w = Some (play_outcome a c pa pb pc cards w)"
proof -
  have "\<not> is_ai pa" using assms(2) by (simp add: is_ai_iff is_user_def)
  then show ?thesis
    using ring_simps(1) [OF ring] status play_ring [OF ring cards len]
    by (simp add: Player_checkOutCard_def out_turn_def out_play_def)
qed

text \<open>The computer's play: its first card when it leads with 20 cards or both others passed.\<close>

definition ai_leads :: "player \<Rightarrow> player \<Rightarrow> player \<Rightarrow> bool" where
  "ai_leads p l r \<longleftrightarrow>
     p_landlord p = Player_getid p \<and> length (hand_of (p_cards p)) = 20 \<or>
     p_cardType l = CARD_TYPE_PASS \<and> p_cardType r = CARD_TYPE_PASS"

definition ai_play :: "player \<Rightarrow> player \<Rightarrow> player \<Rightarrow> player" where
  "ai_play p l r =
     (if ai_leads p l r
      then p\<lparr>p_outCards := resetCards[0 := p_cards p ! 0], p_cardType := CARD_TYPE_SINGLE\<rparr>
      else p\<lparr>p_outCards := resetCards, p_cardType := CARD_TYPE_PASS\<rparr>)"

lemma OutCard_ring:
  assumes ring: "ring a b c pa pb pc w" and "terminated (p_cards pa)" and "p_landlord pa \<noteq> - 1"
  shows "OutCardAi_OutCard a w = Some (put_player a (ai_play pa pb pc) w)"
proof -
  have "Player_getLandlordId a w = Some (p_landlord pa, w)"
    using ring_simps(1) [OF ring] assms(3) by (simp add: Player_getLandlordId_def)
  moreover have "getCardsNumber (p_cards pa) = Some (length (hand_of (p_cards pa)))"
    using assms(2) by (rule getCardsNumber_terminated)
  ultimately show ?thesis
    using ring_simps(1) [OF ring]
    by (auto simp: OutCardAi_OutCard_def por_def pand_def ptr_test_ring [OF ring] modify_player_def
        ai_play_def ai_leads_def)
qed

lemma resetCards_eq: "resetCards = replicate 24 CARD_TERMINATE"
  by (simp add: resetCards_def map_replicate_const)

lemma ai_play_out:
  assumes "terminated (p_cards p)"
  shows "length (p_outCards (ai_play p l r)) = 24" "terminated (p_outCards (ai_play p l r))"
    "hand_of (p_outCards (ai_play p l r)) = (if ai_leads p l r then take 1 (hand_of (p_cards p)) else [])"
proof -
  obtain x xs where x: "p_cards p = x # xs" using assms by (cases "p_cards p") (auto simp: terminated_def)
  have reset: "resetCards = CARD_TERMINATE # replicate 23 CARD_TERMINATE"
    by (simp add: resetCards_eq numeral_eq_Suc)
  have upd: "resetCards[0 := x] = x # replicate 23 CARD_TERMINATE" by (simp add: reset)
  have "hand_of (replicate n CARD_TERMINATE) = []" for n by (cases n) (simp_all add: hand_of_def)
  then show "hand_of (p_outCards (ai_play p l r)) = (if ai_leads p l r then take 1 (hand_of (p_cards p)) else [])"
    using x upd by (simp add: ai_play_def reset) (simp add: hand_of_def)
  show "length (p_outCards (ai_play p l r)) = 24" "terminated (p_outCards (ai_play p l r))"
    using x upd by (simp_all add: ai_play_def resetCards_eq terminated_def)
qed

lemma checkOut_ai:
  assumes ring: "ring a b c pa pb pc w" and ai: "is_ai pa" and delay: "sint (p_aiDelay pa) \<le> 0"
    and status: "p_gameStatus pa = GAME_STATUS_OUT_CARDING"
    and hand: "terminated (p_cards pa)" and landlord: "p_landlord pa \<noteq> - 1"
    and cards: "updateCardsFace (p_cards pa) (p_outCards (ai_play pa pb pc)) = Some cards"
  defines "pa1 \<equiv> (ai_play pa pb pc)\<lparr>p_aiDelay := getIntConfig CONFIG_AI_DELAY w\<rparr>"
  shows "Player_checkOutCard a w = Some (play_outcome a c pa1 pb pc cards (put_player a pa1 w))"
proof -
  have "pa\<lparr>p_gameStatus := 8\<rparr> = pa" using status by (cases pa) simp
  then have "put_player a (pa\<lparr>p_gameStatus := 8\<rparr>) w = w"
    using ring_simps(1) [OF ring] put_player_id [of a w pa] by simp
  then have turn: "out_turn a w = Some w"
    using ring_simps(1) [OF ring] ai status
    by (simp add: out_turn_def por_def ptr_test_ring [OF ring] modify_player_def)
  have ring1: "ring a b c pa1 pb pc (put_player a pa1 w)"
    using ring by (rule ring_put) (simp_all add: pa1_def ai_play_def)
  have same: "p_cards pa1 = p_cards pa" "p_outCards pa1 = p_outCards (ai_play pa pb pc)"
    by (simp_all add: pa1_def ai_play_def)
  have "out_announce a (put_player a pa1 w) \<bind> out_wait a =
      Some (play_outcome a c pa1 pb pc cards (put_player a pa1 w))"
    using cards ai_play_out(1) [OF hand] by (intro play_ring [OF ring1]) (simp_all add: same)
  moreover have "out_play a w = out_announce a (put_player a pa1 w)"
    using ring_simps(1) [OF ring] ai status delay OutCard_ring [OF ring hand landlord]
    by (simp add: out_play_def modify_player_def pa1_def)
  ultimately show ?thesis
    using ring_simps(1) [OF ring] status turn by (simp add: Player_checkOutCard_def)
qed

section \<open>A table for examples\<close>

definition demo_world :: "player \<Rightarrow> player \<Rightarrow> player \<Rightarrow> world" where
  "demo_world pa pb pc =
     \<lparr>w_players = [1 \<mapsto> pa\<lparr>p_left := Some 2, p_right := Some 3\<rparr>, 2 \<mapsto> pb\<lparr>p_left := Some 3, p_right := Some 1\<rparr>,
        3 \<mapsto> pc\<lparr>p_left := Some 1, p_right := Some 2\<rparr>],
      w_sessions = [10 \<mapsto> \<lparr>s_Socket = Some 20, s_accountId = 7, s_player = Some 1,
        s_recvQueue = LockedQueue_new, s_timeOutTime = 30000, s_forceExit = False\<rparr>],
      w_conns = [20 \<mapsto> \<lparr>cn_socket = Socket_new 8, cn_session = Some 10\<rparr>],
      w_next = 30, w_mem = (\<lambda>_. (0, replicate 24 0)), w_rand = (\<lambda>i. i), w_ridx = 0,
      w_cfg = [8085, 30000, 100, 1, 6, 5000, 4000, 10, 1000, 7000, 12000, 30000, 90000, 300000, 2000],
      w_pool = [], w_rooms = [], w_rm_timer = IntervalTimer_new, w_addSess = LockedQueue_new,
      w_smap = [], w_logs = (\<lambda>_. True)\<rparr>"

definition demo_user :: player where
  "demo_user = (Player_init (Some 10) 4000 2000 (0, replicate 24 0))\<lparr>p_info := PlayerInfo_new\<lparr>pi_id := 7\<rparr>\<rparr>"

definition demo_ai :: "u32 \<Rightarrow> player" where
  "demo_ai i = (Player_init None 4000 2000 (0, replicate 24 0))\<lparr>p_playerType := PLAYER_TYPE_AI,
     p_info := PlayerInfo_new\<lparr>pi_id := i, pi_start := 1\<rparr>\<rparr>"

lemma demo_ring:
  assumes "is_ai pb" and "is_ai pc" and "is_ai pa \<or> p_session pa = Some 10"
  shows "ring 1 2 3 (pa\<lparr>p_left := Some 2, p_right := Some 3\<rparr>) (pb\<lparr>p_left := Some 3, p_right := Some 1\<rparr>)
    (pc\<lparr>p_left := Some 1, p_right := Some 2\<rparr>) (demo_world pa pb pc)"
  using assms
  by (auto simp: ring_def seats_def player_at_def demo_world_def user_ok_def heap_simps
      is_ai_iff is_user_def)

lemma demo_types [simp]: "is_user demo_user" "is_ai (demo_ai i)" "p_session demo_user = Some 10"
  by (simp_all add: demo_user_def demo_ai_def is_user_def is_ai_iff Player_init_def)

lemma type_fields [simp]:
  "is_user (p\<lparr>p_gameStatus := s\<rparr>) = is_user p" "is_ai (p\<lparr>p_gameStatus := s\<rparr>) = is_ai p"
  "is_user (p\<lparr>p_grabScore := g\<rparr>) = is_user p" "is_ai (p\<lparr>p_grabScore := g\<rparr>) = is_ai p"
  "is_user (p\<lparr>p_left := l\<rparr>) = is_user p" "is_ai (p\<lparr>p_left := l\<rparr>) = is_ai p"
  "is_user (p\<lparr>p_right := l\<rparr>) = is_user p" "is_ai (p\<lparr>p_right := l\<rparr>) = is_ai p"
  "is_user (p\<lparr>p_outCards := xs\<rparr>) = is_user p" "is_ai (p\<lparr>p_outCards := xs\<rparr>) = is_ai p"
  "is_user (p\<lparr>p_cards := xs\<rparr>) = is_user p" "is_ai (p\<lparr>p_cards := xs\<rparr>) = is_ai p"
  by (simp_all add: is_user_def is_ai_iff)

section \<open>Properties\<close>



text \<open>
  No redeal. When all three have bid 0 the last bidder's step should undo the
  auction (\<^verbatim>\<open>_gameStatus = GAME_STATUS_STARTED\<close>, so that the room deals again), but
  the landlord has already been computed, and cached, for the announced packet: the step makes
  the last bidder landlord and sends all three seats to play.
\<close>

theorem redeal_never_happens:
  assumes "ring a b c pa pb pc w" and "is_user pa"
    and "p_gameStatus pa = GAME_STATUS_GRABING_LANDLORD" and "p_landlord pa = - 1"
    and "nobody_bid pa pb pc" and "Player_getid pa \<noteq> - 1"
  shows "\<exists>w' qa qb qc. Player_checkGrabLandlord a w = Some w' \<and> ring a b c qa qb qc w' \<and>
    (\<forall>q \<in> {qa, qb, qc}. p_gameStatus q = GAME_STATUS_WAIT_OUT_CARD \<and> p_landlord q = Player_getid pa)"
proof -
  let ?L = "Player_getid pa"
  have over: "auction_over pa pb pc" and best: "highest_bidder pa pb pc = pa"
    using assms(5) by (simp_all add: auction_over_def highest_bidder_def nobody_bid_def Let_def)
  then have L: "landlord_of pa pb pc = ?L" using assms(4) by (simp add: landlord_of_def)
  let ?w1 = "announce (grab_packet pa ?L) [pa, pb, pc] w"
  let ?pa = "undo_bid (pa\<lparr>p_landlord := ?L, p_gameStatus := GAME_STATUS_GRABED_LAND_LORD\<rparr>)"
  let ?seat = "\<lambda>p. p\<lparr>p_landlord := ?L, p_gameStatus := GAME_STATUS_WAIT_OUT_CARD\<rparr>"
  have "Player_checkGrabLandlord a w = Some (all_wait_out ?L a b c ?pa pb pc ?w1)"
    unfolding checkGrab_user [OF assms(1-3)]
    using assms(5,6) by (simp add: bid_outcome_def L Let_def del: announce_simps)
  moreover have "ring a b c (?seat ?pa) (?seat pb) (?seat pc) (all_wait_out ?L a b c ?pa pb pc ?w1)"
  proof -
    have "ring a b c pa pb pc ?w1" using assms(1) by (simp only: ring_announce)
    then have "ring a b c (?seat ?pa) pb pc (put_player a (?seat ?pa) ?w1)"
      by (rule ring_put) (simp_all add: undo_bid_def)
    then have "ring b c a (?seat pb) pc (?seat ?pa) (put_player b (?seat pb) (put_player a (?seat ?pa) ?w1))"
      unfolding ring_rotate [of a b c] by (rule ring_put) simp_all
    then have "ring c a b (?seat pc) (?seat ?pa) (?seat pb) (all_wait_out ?L a b c ?pa pb pc ?w1)"
      unfolding ring_rotate [of b c a] all_wait_out_def by (rule ring_put) simp_all
    then show ?thesis by (simp only: ring_rotate [of a b c] ring_rotate [of b c a])
  qed
  ultimately show ?thesis
    by (intro exI [of _ "all_wait_out ?L a b c ?pa pb pc ?w1"] exI [of _ "?seat ?pa"]
        exI [of _ "?seat pb"] exI [of _ "?seat pc"]) simp
qed

theorem redeal_never_happens_witness:
  "\<exists>w' p. Player_checkGrabLandlord 1
      (demo_world (demo_user\<lparr>p_gameStatus := GAME_STATUS_GRABING_LANDLORD, p_grabScore := 0\<rparr>)
         ((demo_ai 8)\<lparr>p_grabScore := 0\<rparr>) ((demo_ai 9)\<lparr>p_grabScore := 0\<rparr>))
    = Some w' \<and> player_at 1 w' = Some p \<and> p_gameStatus p = GAME_STATUS_WAIT_OUT_CARD \<and> p_landlord p = 7"
proof -
  let ?u = "demo_user\<lparr>p_gameStatus := GAME_STATUS_GRABING_LANDLORD, p_grabScore := 0\<rparr>"
  let ?p = "\<lambda>i. (demo_ai i)\<lparr>p_grabScore := 0\<rparr>"
  have ring: "ring 1 2 3 (?u\<lparr>p_left := Some 2, p_right := Some 3\<rparr>)
      ((?p 8)\<lparr>p_left := Some 3, p_right := Some 1\<rparr>) ((?p 9)\<lparr>p_left := Some 1, p_right := Some 2\<rparr>)
      (demo_world ?u (?p 8) (?p 9))"
    by (rule demo_ring) simp_all
  have "Player_getid (?u\<lparr>p_left := Some 2, p_right := Some 3\<rparr>) = 7" and "p_landlord ?u = - 1"
    by (simp_all add: Player_getid_def demo_user_def Player_init_def)
  with redeal_never_happens [OF ring] show ?thesis
    by (auto simp: nobody_bid_def dest: ring_simps(1))
qed

text \<open>
  The bid of a computer. It bids when its delay has run out: a random score
  from 0 to 3 if neither neighbour has bid yet, 1 if both have passed, and otherwise 0, so also
  when only one of them has bid: the score -1 of the other counts as the largest.
\<close>

theorem computer_bid:
  assumes "ring a b c pa pb pc w" and "is_ai pa" and "sint (p_aiDelay pa) \<le> 0"
    and "p_gameStatus pa = GAME_STATUS_GRABING_LANDLORD"
  shows "\<exists>score w1. Player_checkGrabLandlord a w = Some (bid_outcome a b c
        (pa\<lparr>p_grabScore := score, p_aiDelay := getIntConfig CONFIG_AI_DELAY w\<rparr>) pb pc w1) \<and>
    (p_grabScore pb = - 1 \<and> p_grabScore pc = - 1 \<longrightarrow> score < 4) \<and>
    (p_grabScore pb = 0 \<and> p_grabScore pc = 0 \<longrightarrow> score = 1) \<and>
    (p_grabScore pb = - 1 \<and> p_grabScore pc \<noteq> - 1 \<or> p_grabScore pc = - 1 \<and> p_grabScore pb \<noteq> - 1
       \<longrightarrow> score = 0)"
proof -
  let ?w1 = "snd (ai_bid pb pc w)" and ?s = "fst (ai_bid pb pc w)"
  have cfg: "getIntConfig CONFIG_AI_DELAY ?w1 = getIntConfig CONFIG_AI_DELAY w"
    by (simp add: ai_bid_def getIntConfig_def)
  let ?pa = "pa\<lparr>p_grabScore := ?s, p_aiDelay := getIntConfig CONFIG_AI_DELAY w\<rparr>"
  have "unat (word_of_nat (n mod 4) :: u32) < 4" for n
    by (simp add: unat_of_nat)
  then have "word_of_nat (n mod 4) < (4 :: u32)" for n
    by (simp add: word_less_nat_alt)
  then have "(p_grabScore pb = - 1 \<and> p_grabScore pc = - 1 \<longrightarrow> ?s < 4) \<and>
    (p_grabScore pb = 0 \<and> p_grabScore pc = 0 \<longrightarrow> ?s = 1) \<and>
    (p_grabScore pb = - 1 \<and> p_grabScore pc \<noteq> - 1 \<or> p_grabScore pc = - 1 \<and> p_grabScore pb \<noteq> - 1
       \<longrightarrow> ?s = 0)"
    by (auto simp: ai_bid_def)
  with checkGrab_ai [OF assms] show ?thesis
    by (intro exI [of _ ?s] exI [of _ "put_player a ?pa ?w1"]) (simp only: cfg simp_thms)
qed

theorem computer_bid_witness:
  "\<exists>w. Player_checkGrabLandlord 1
      (demo_world ((demo_ai 7)\<lparr>p_gameStatus := GAME_STATUS_GRABING_LANDLORD, p_aiDelay := 0\<rparr>)
         (demo_ai 8) ((demo_ai 9)\<lparr>p_grabScore := 0\<rparr>)) = Some w"
proof -
  let ?u = "(demo_ai 7)\<lparr>p_gameStatus := GAME_STATUS_GRABING_LANDLORD, p_aiDelay := 0\<rparr>"
  let ?c = "(demo_ai 9)\<lparr>p_grabScore := 0\<rparr>"
  have u: "is_ai ?u" and c: "is_ai ?c" by (simp_all add: demo_ai_def is_ai_iff)
  have ring: "ring 1 2 3 (?u\<lparr>p_left := Some 2, p_right := Some 3\<rparr>)
      ((demo_ai 8)\<lparr>p_left := Some 3, p_right := Some 1\<rparr>) (?c\<lparr>p_left := Some 1, p_right := Some 2\<rparr>)
      (demo_world ?u (demo_ai 8) ?c)"
    using u c by (intro demo_ring) simp_all
  show ?thesis using computer_bid [OF ring] u by auto
qed

text \<open>
  C6. A person's play. With terminated card arrays the step succeeds: the played
  cards are announced to every connected seat with their type, exactly they leave the hand, a
  computer on the right is put on turn (\<^verbatim>\<open>OUT_CARDING\<close>), and the left neighbour is
  not touched.
\<close>

theorem person_plays:
  assumes "ring a b c pa pb pc w" and "is_user pa"
    and "p_gameStatus pa = GAME_STATUS_OUT_CARDING"
    and "terminated (p_cards pa)" and "terminated (p_outCards pa)" and "length (p_outCards pa) = 24"
  shows "\<exists>cards. Player_checkOutCard a w = Some (play_outcome a c pa pb pc cards w) \<and>
    mset (hand_of cards) = mset (hand_of (p_cards pa)) - mset (hand_of (p_outCards pa)) \<and>
    terminated cards \<and> length cards = length (p_cards pa) \<and>
    player_at b (play_outcome a c pa pb pc cards w) = Some pb"
proof -
  obtain cards where "updateCardsFace (p_cards pa) (p_outCards pa) = Some cards"
    "hand_of cards = fold remove1 (hand_of (p_outCards pa)) (hand_of (p_cards pa))"
    "terminated cards" "length cards = length (p_cards pa)"
    using updateCardsFace_hand [OF assms(5,4)] .
  moreover from this(1) have "Player_checkOutCard a w = Some (play_outcome a c pa pb pc cards w)"
    by (rule checkOut_user [OF assms(1-3) _ assms(6)])
  moreover have "player_at b (play_outcome a c pa pb pc cards w) = Some pb"
    using ring_simps [OF assms(1)] by (simp add: play_outcome_def Let_def)
  ultimately show ?thesis by (metis mset_fold_remove1)
qed

theorem person_plays_witness:
  "\<exists>w p. Player_checkOutCard 1
      (demo_world (demo_user\<lparr>p_gameStatus := GAME_STATUS_OUT_CARDING,
           p_cards := 5 # 18 # 61 # replicate 21 100, p_outCards := 18 # replicate 23 100\<rparr>)
         (demo_ai 8) (demo_ai 9)) = Some w \<and> player_at 3 w = Some p \<and> p_gameStatus p = GAME_STATUS_OUT_CARDING"
proof -
  let ?u = "demo_user\<lparr>p_gameStatus := GAME_STATUS_OUT_CARDING,
           p_cards := 5 # 18 # 61 # replicate 21 100, p_outCards := 18 # replicate 23 100\<rparr>"
  have ring: "ring 1 2 3 (?u\<lparr>p_left := Some 2, p_right := Some 3\<rparr>)
      ((demo_ai 8)\<lparr>p_left := Some 3, p_right := Some 1\<rparr>) ((demo_ai 9)\<lparr>p_left := Some 1, p_right := Some 2\<rparr>)
      (demo_world ?u (demo_ai 8) (demo_ai 9))"
    by (rule demo_ring) simp_all
  have t: "terminated (5 # 18 # 61 # replicate 21 100)" "terminated (18 # replicate 23 100)"
    by (simp_all add: terminated_def CARD_TERMINATE_def)
  show ?thesis
    using person_plays [OF ring] t
    by (auto simp: play_outcome_def Let_def simp del: announce_simps)
qed

text \<open>
  C7. A computer's play. On its turn, with its delay run out and the landlord
  known, a computer leads the first card of its hand if it is the landlord with 20 cards or if both
  neighbours passed, passes otherwise, and its hand loses exactly the card it led.
\<close>

theorem computer_plays:
  assumes "ring a b c pa pb pc w" and "is_ai pa" and "sint (p_aiDelay pa) \<le> 0"
    and "p_gameStatus pa = GAME_STATUS_OUT_CARDING"
    and "terminated (p_cards pa)" and "p_landlord pa \<noteq> - 1"
  shows "\<exists>pa1 cards. Player_checkOutCard a w = Some (play_outcome a c pa1 pb pc cards (put_player a pa1 w)) \<and>
    hand_of (p_outCards pa1) = (if ai_leads pa pb pc then take 1 (hand_of (p_cards pa)) else []) \<and>
    p_cardType pa1 = (if ai_leads pa pb pc then CARD_TYPE_SINGLE else CARD_TYPE_PASS) \<and>
    hand_of cards = (if ai_leads pa pb pc then drop 1 (hand_of (p_cards pa)) else hand_of (p_cards pa))"
proof -
  let ?out = "p_outCards (ai_play pa pb pc)"
  obtain cards where cards: "updateCardsFace (p_cards pa) ?out = Some cards"
    "hand_of cards = fold remove1 (hand_of ?out) (hand_of (p_cards pa))"
    using updateCardsFace_hand [OF ai_play_out(2) [OF assms(5)] assms(5)] by metis
  have "fold remove1 (take 1 xs) xs = drop 1 xs" for xs :: "u8 list" by (cases xs) simp_all
  then have hand: "hand_of cards = (if ai_leads pa pb pc then drop 1 (hand_of (p_cards pa)) else hand_of (p_cards pa))"
    unfolding cards(2) ai_play_out(3) [OF assms(5)] by simp
  let ?pa = "(ai_play pa pb pc)\<lparr>p_aiDelay := getIntConfig CONFIG_AI_DELAY w\<rparr>"
  have "Player_checkOutCard a w = Some (play_outcome a c ?pa pb pc cards (put_player a ?pa w))"
    by (rule checkOut_ai [OF assms cards(1)])
  moreover have "p_outCards ?pa = ?out" by simp
  moreover have "p_cardType ?pa = (if ai_leads pa pb pc then CARD_TYPE_SINGLE else CARD_TYPE_PASS)"
    by (simp add: ai_play_def)
  ultimately show ?thesis
    using hand ai_play_out(3) [OF assms(5), of pb pc]
    by (intro exI [of _ ?pa] exI [of _ cards] conjI) (simp_all only:)
qed

theorem computer_plays_witness:
  "\<exists>w. Player_checkOutCard 2
      (demo_world demo_user ((demo_ai 8)\<lparr>p_gameStatus := GAME_STATUS_OUT_CARDING, p_aiDelay := 0,
         p_landlord := 8, p_cards := 5 # replicate 23 100\<rparr>) (demo_ai 9)) = Some w"
proof -
  let ?b = "(demo_ai 8)\<lparr>p_gameStatus := GAME_STATUS_OUT_CARDING, p_aiDelay := 0,
         p_landlord := 8, p_cards := 5 # replicate 23 100\<rparr>"
  have ai: "is_ai ?b" by (simp add: demo_ai_def is_ai_iff)
  have "ring 1 2 3 (demo_user\<lparr>p_left := Some 2, p_right := Some 3\<rparr>)
      (?b\<lparr>p_left := Some 3, p_right := Some 1\<rparr>) ((demo_ai 9)\<lparr>p_left := Some 1, p_right := Some 2\<rparr>)
      (demo_world demo_user ?b (demo_ai 9))"
    using ai by (intro demo_ring) simp_all
  then have ring: "ring 2 3 1 (?b\<lparr>p_left := Some 3, p_right := Some 1\<rparr>)
      ((demo_ai 9)\<lparr>p_left := Some 1, p_right := Some 2\<rparr>) (demo_user\<lparr>p_left := Some 2, p_right := Some 3\<rparr>)
      (demo_world demo_user ?b (demo_ai 9))"
    by (rule ring_rotate [THEN iffD1])
  show ?thesis
    using computer_plays [OF ring] ai by (auto simp: terminated_def CARD_TERMINATE_def)
qed

end
