(* ===== verification/Leaving.thy ===== *)
theory Leaving
  imports Table
begin

text \<open>
  Leaving: what \<^verbatim>\<open>checkOutPlayer\<close> and \<^verbatim>\<open>checkRoundOver\<close> of
  \<^verbatim>\<open>src/server/game/Player/Player.cpp\<close> do at a full table: a person leaves during a
  game or before it, and a round ends.
\<close>

section \<open>Leaving a table\<close>

definition logout_message :: "player \<Rightarrow> world_packet" where
  "logout_message p =
     packet CMSG_LOG_OUT (le_enc 4 (unat (Player_getid p)) @ le_enc 4 (unat (leaving_status p)))"

lemma logout_packet_eq: "logout_packet (Player_getid p) (leaving_status p) = Some (logout_message p)"
  by (simp add: logout_packet_def pkt_start_packet logout_message_def)

definition leaving :: "player \<Rightarrow> bool" where
  "leaving p \<longleftrightarrow> p_gameStatus p AND 0xf0 = GAME_STATUS_LOG_OUTING"

text \<open>The player of a session is taken from it.\<close>

definition unbind_session :: "nat option \<Rightarrow> world \<Rightarrow> world" where
  "unbind_session sa w =
     (case sa of None \<Rightarrow> w
      | Some x \<Rightarrow> (case sess_at x w of None \<Rightarrow> w | Some s \<Rightarrow> put_sess x (s\<lparr>s_player := None\<rparr>) w))"

lemma unbind_session_frame [simp]: "player_at a (unbind_session sa w) = player_at a w"
  by (simp add: unbind_session_def split: option.splits)

lemma drop_session_ok:
  assumes "player_at a w = Some p" and "\<And>x. p_session p = Some x \<Longrightarrow> sess_at x w \<noteq> None"
  shows "drop_session a w = Some (put_player a (p\<lparr>p_session := None\<rparr>) (unbind_session (p_session p) w))"
  using assms
  by (auto simp: drop_session_def modify_player_def unbind_session_def split: option.splits)

lemma unbind_put_player: "unbind_session sa (put_player a p w) = put_player a p (unbind_session sa w)"
  by (simp add: unbind_session_def put_player_def heap_simps split: option.splits)

lemma send_table:
  assumes ring: "ring a b c pa pb pc w"
  shows "send_if_user d a w \<bind> send_neighbour d (p_left pa) \<bind> send_neighbour d (p_right pa) =
    Some (announce d [pa, pb, pc] w)"
  using ring_simps [OF ring]
  by (simp add: send_neighbour_def send_if_user_ok [of a _ pa] send_if_user_ok [of b _ pb]
      send_if_user_ok [of c _ pc])

lemma sess_at_announce [simp]: "sess_at s (announce d ps w) = sess_at s w"
  by (induction ps arbitrary: w) simp_all

text \<open>A seat left during the game, with a person still at the table.\<close>

lemma checkOut_in_game:
  assumes ring: "ring a b c pa pb pc w" and user: "is_user pa" and "leaving pa" "leaving_status pa = 4"
    and other: "is_user pb \<or> is_user pc"
  shows "Player_checkOutPlayer a w =
    Some (put_player a (pa\<lparr>p_gameStatus := 0x0f AND p_gameStatus pa, p_playerType := PLAYER_TYPE_REPLACE_AI,
           p_session := None\<rparr>)
         (unbind_session (p_session pa) (announce (logout_message pa) [pa, pb, pc] w)))"
proof -
  let ?w1 = "announce (logout_message pa) [pa, pb, pc] w"
  let ?p = "pa\<lparr>p_gameStatus := 0x0f AND p_gameStatus pa, p_playerType := PLAYER_TYPE_REPLACE_AI\<rparr>"
  have ring1: "ring a b c pa pb pc ?w1" using ring by (simp only: ring_announce)
  have "por (ptr_test (p_left pa) is_user ?w1) (ptr_test (p_right pa) is_user ?w1) = Some True"
    using other by (auto simp: por_def ptr_test_ring [OF ring1] simp del: announce_simps)
  then have take: "leave_in_game a ?w1 = Some (put_player a ?p ?w1)"
    using ring_simps(1) [OF ring1] by (simp add: leave_in_game_def modify_player_def del: announce_simps)
  have "sess_at x ?w1 \<noteq> None" if "p_session pa = Some x" for x
    using ring_simps(16) [OF ring] user that by (auto simp: user_ok_def simp del: announce_simps)
  then have drop: "drop_session a (put_player a ?p ?w1) =
      Some (put_player a (?p\<lparr>p_session := None\<rparr>) (unbind_session (p_session pa) ?w1))"
    by (subst drop_session_ok [where p = ?p]) (simp_all add: unbind_put_player del: announce_simps)
  have "logout_packet (Player_getid pa) 4 = Some (logout_message pa)"
    using logout_packet_eq [of pa] assms(4) by simp
  then have "Player_checkOutPlayer a w =
      (send_if_user (logout_message pa) a w \<bind> send_neighbour (logout_message pa) (p_left pa)
        \<bind> send_neighbour (logout_message pa) (p_right pa)) \<bind> leave_in_game a \<bind> drop_session a"
    using ring_simps(1) [OF ring] assms(3,4)
    by (subst Player_checkOutPlayer.simps) (simp add: leaving_def)
  then show ?thesis
    unfolding send_table [OF ring] using take drop by (simp del: announce_simps)
qed

lemma leaving_status_2:
  "leaving_status (p\<lparr>p_gameStatus := GAME_STATUS_LOG_OUTING\<rparr>) = 2"
  by (simp add: leaving_status_def Let_def)

definition gone :: "player \<Rightarrow> player" where
  "gone p = p\<lparr>p_left := None, p_right := None, p_gameStatus := GAME_STATUS_LOG_OUTED, p_session := None\<rparr>"

lemma logout_packet_2:
  "leaving_status p = 2 \<Longrightarrow> logout_packet (Player_getid p) 2 = Some (logout_message p)"
  using logout_packet_eq [of p] by simp

text \<open>The two computers of a table, taken down one after the other by the person who leaves.\<close>

lemma checkOut_last:
  assumes "player_at c w = Some pc" and "p_playerType pc = PLAYER_TYPE_AI" and "p_session pc = None"
    and "p_gameStatus pc = GAME_STATUS_LOG_OUTING" and "p_left pc = Some a" and "p_right pc = None"
    and "player_at a w = Some pa" and "is_user pa" and "user_ok pa w" and "a \<noteq> c"
  shows "Player_checkOutPlayer c w = Some (put_player c (gone pc)
    (put_player a (pa\<lparr>p_right := None\<rparr>) (write_to (logout_message pc) (conn_of pa w) w)))"
proof -
  have "leaving_status pc = 2" using assms(4) by (simp add: leaving_status_def)
  then show ?thesis
    using assms logout_packet_2 [of pc]
    by (subst Player_checkOutPlayer.simps)
      (simp add: send_if_user_ok [of a _ pa] send_neighbour_def modify_player_def is_user_def
        send_if_user_def [of _ c] drop_session_def gone_def)
qed

lemma checkOut_middle:
  assumes b: "player_at b w = Some pb" "p_playerType pb = PLAYER_TYPE_AI" "p_session pb = None"
      "p_gameStatus pb = GAME_STATUS_LOG_OUTING" "p_left pb = Some c" "p_right pb = None"
    and c: "player_at c w = Some pc" "p_playerType pc = PLAYER_TYPE_AI" "p_session pc = None"
      "p_left pc = Some a"
    and a: "player_at a w = Some pa" "is_user pa" "user_ok pa w"
    and distinct: "a \<noteq> b" "a \<noteq> c" "b \<noteq> c"
  defines "pc1 \<equiv> pc\<lparr>p_right := None, p_gameStatus := GAME_STATUS_LOG_OUTING\<rparr>"
  shows "Player_checkOutPlayer b w = Some (put_player b (gone pb) (put_player c (gone pc1)
    (put_player a (pa\<lparr>p_right := None\<rparr>) (write_to (logout_message pc1) (conn_of pa w) w))))"
proof -
  have "leaving_status pb = 2" using b(4) by (simp add: leaving_status_def)
  moreover have "Player_checkOutPlayer c (put_player c pc1 w) = Some (put_player c (gone pc1)
      (put_player a (pa\<lparr>p_right := None\<rparr>) (write_to (logout_message pc1) (conn_of pa w) w)))"
    using checkOut_last [of c "put_player c pc1 w" pc1 a pa] c a distinct
    by (simp add: pc1_def write_to_put_player put_player_swap [of a c])
  ultimately show ?thesis
    using b c(1,2) distinct logout_packet_2 [of pb]
    by (subst Player_checkOutPlayer.simps)
      (simp add: send_neighbour_def modify_player_def is_user_def send_if_user_def drop_session_def
        gone_def pc1_def)
qed

lemma checkOut_dissolves:
  assumes ring: "ring a b c pa pb pc w" and user: "is_user pa" "leaving pa" "leaving_status pa = 2"
    and ai: "p_playerType pb = PLAYER_TYPE_AI" "p_playerType pc = PLAYER_TYPE_AI"
      "p_session pb = None" "p_session pc = None"
  shows "\<exists>w'. Player_checkOutPlayer a w = Some w' \<and>
    player_at a w' = Some (gone pa) \<and>
    player_at b w' = Some (gone pb) \<and> player_at c w' = Some (gone pc) \<and>
    (\<forall>x. x \<noteq> a \<and> x \<noteq> b \<and> x \<noteq> c \<longrightarrow> player_at x w' = player_at x w) \<and>
    (\<forall>sa. p_session pa = Some sa \<longrightarrow> (\<exists>s. sess_at sa w' = Some s \<and> s_player s = None))"
proof -
  let ?w1 = "announce (logout_message pa) [pa, pb, pc] w"
  let ?pb = "pb\<lparr>p_right := None, p_gameStatus := GAME_STATUS_LOG_OUTING\<rparr>"
  let ?pc = "pc\<lparr>p_right := None, p_gameStatus := GAME_STATUS_LOG_OUTING\<rparr>"
  let ?w2 = "put_player b ?pb ?w1"
  let ?w3 = "put_player b (gone ?pb) (put_player c (gone ?pc)
    (put_player a (pa\<lparr>p_right := None\<rparr>) (write_to (logout_message ?pc) (conn_of pa ?w2) ?w2)))"
  note r = ring_simps [OF ring]
  have r1: "ring a b c pa pb pc ?w1" using ring by (simp only: ring_announce)
  have mid: "Player_checkOutPlayer b ?w2 = Some ?w3"
    using ring_simps [OF r1] user(1) ai
    by (intro checkOut_middle [where c = c and a = a and pa = pa and pc = pc])
      (simp_all del: announce_simps)
  obtain sa s where sa: "p_session pa = Some sa" "sess_at sa w = Some s"
    using r(16) user(1) by (auto simp: user_ok_def)
  let ?w4 = "put_player a (gone pa) (unbind_session (Some sa) ?w3)"
  have drop: "drop_session a (put_player a (pa\<lparr>p_left := None, p_right := None,
      p_gameStatus := GAME_STATUS_LOG_OUTED\<rparr>) ?w3) = Some ?w4"
    using sa by (subst drop_session_ok) (auto simp: unbind_put_player gone_def simp del: announce_simps)
  have "Player_checkOutPlayer a w =
      (send_if_user (logout_message pa) a w \<bind> send_neighbour (logout_message pa) (p_left pa)
        \<bind> send_neighbour (logout_message pa) (p_right pa)) \<bind>
      (\<lambda>w. modify_player b (\<lambda>q. q\<lparr>p_right := None\<rparr>) w \<bind>
        (\<lambda>w. player_at b w \<bind> (\<lambda>lp. if p_playerType lp = PLAYER_TYPE_AI
           then modify_player b (\<lambda>q. q\<lparr>p_gameStatus := GAME_STATUS_LOG_OUTING\<rparr>) w \<bind> Player_checkOutPlayer b
           else Some w))) \<bind>
      (\<lambda>w. player_at a w \<bind> (\<lambda>p. (case p_right p of None \<Rightarrow> Some w | Some r \<Rightarrow> do {
                         w \<leftarrow> modify_player r (\<lambda>q. q\<lparr>p_left := None\<rparr>) w;
                         rp \<leftarrow> player_at r w;
                         if p_playerType rp = PLAYER_TYPE_AI then do {
                           w \<leftarrow> modify_player r (\<lambda>q. q\<lparr>p_gameStatus := GAME_STATUS_LOG_OUTING\<rparr>) w;
                           Player_checkOutPlayer r w
                         } else Some w }) \<bind>
        modify_player a (\<lambda>p. p\<lparr>p_left := None, p_right := None, p_gameStatus := GAME_STATUS_LOG_OUTED\<rparr>)
        \<bind> drop_session a))"
    using r user logout_packet_2 [of pa]
    by (subst Player_checkOutPlayer.simps) (simp add: leaving_def)
  also have "\<dots> = Some ?w4"
    unfolding send_table [OF ring]
    using ring_simps [OF r1] ai mid drop
    by (simp add: modify_player_def del: announce_simps)
  finally have "Player_checkOutPlayer a w = Some ?w4" .
  moreover have "gone ?pb = gone pb" "gone ?pc = gone pc" by (simp_all add: gone_def)
  moreover have "\<exists>s. sess_at sa ?w4 = Some s \<and> s_player s = None"
    using sa(2) by (simp add: unbind_session_def put_sess_def sess_at_def [symmetric] del: announce_simps)
      (simp add: sess_at_def)
  ultimately show ?thesis
    using r sa(1) by (intro exI [of _ ?w4]) (simp del: announce_simps)
qed

section \<open>The end of a round\<close>

lemma UpdatePlayerData_frame:
  assumes "Player_UpdatePlayerData basic p = Some q"
  obtains pi where "q = p\<lparr>p_info := pi\<rparr>"
  using assms
  by (auto simp: Player_UpdatePlayerData_def Player_UpdatePlayerLevel_def Let_def bind_eq_Some_conv
      split: if_splits)

lemma UpdatePlayerData_fields:
  assumes "Player_UpdatePlayerData basic p = Some q"
  shows "p_left q = p_left p" "p_right q = p_right p" "p_session q = p_session p"
    "p_playerType q = p_playerType p" "user_ok q w = user_ok p w" "conn_of q w = conn_of p w"
    "is_user q = is_user p" "is_ai q = is_ai p"
proof -
  obtain pi where "q = p\<lparr>p_info := pi\<rparr>" using UpdatePlayerData_frame [OF assms] .
  then show "p_left q = p_left p" "p_right q = p_right p" "p_session q = p_session p"
    "p_playerType q = p_playerType p" "user_ok q w = user_ok p w" "conn_of q w = conn_of p w"
    "is_user q = is_user p" "is_ai q = is_ai p"
    by (simp_all add: is_user_def is_ai_iff)
qed

definition round_message :: "player \<Rightarrow> world_packet" where
  "round_message p = packet CMSG_ROUND_OVER (take 152 (PlayerInfo_bytes (p_info p)))"

lemma round_message_start:
  "pkt_append (take 152 (PlayerInfo_bytes (p_info p))) (pkt_start CMSG_ROUND_OVER) = Some (round_message p)"
proof -
  have "PlayerInfo_bytes (p_info p) \<noteq> []"
    unfolding PlayerInfo_bytes_def append_Cons u32s_bytes_simps
    by (simp only: append_is_Nil_conv le_enc_4_not_Nil simp_thms)
  then have "take 152 (PlayerInfo_bytes (p_info p)) \<noteq> []"
    by (simp only: take_eq_Nil) presburger
  moreover have "length (take 152 (PlayerInfo_bytes (p_info p))) < 1000000"
    by (simp only: length_take min_less_iff_disj) presburger
  ultimately show ?thesis
    unfolding pkt_start_packet round_message_def
    using pkt_append_packet [of "[]" "take 152 (PlayerInfo_bytes (p_info p))" CMSG_ROUND_OVER] by simp
qed

lemma round_over_update_ok:
  assumes "player_at a w = Some p" and "Player_UpdatePlayerData (getIntConfig CONFIG_BASICSCORE w) p = Some q"
    and "user_ok p w"
  shows "round_over_update a w = Some (put_player a (q\<lparr>p_gameStatus := GAME_STATUS_ROUNDOVERED\<rparr>)
    (write_to (round_message q) (conn_of p w) w))"
proof -
  have "send_if_user (round_message q) a (put_player a q w) =
      Some (write_to (round_message q) (conn_of q (put_player a q w)) (put_player a q w))"
    using UpdatePlayerData_fields(5) [OF assms(2)] assms(3) by (intro send_if_user_ok) simp_all
  then show ?thesis
    using assms UpdatePlayerData_fields(6) [OF assms(2)]
    by (simp add: round_over_update_def round_message_start modify_player_def write_to_put_player)
qed

definition round_ended :: "world \<Rightarrow> player \<Rightarrow> player" where
  "round_ended w p =
     p\<lparr>p_cards := replicate CARD_NUMBER CARD_TERMINATE @ replicate BASIC_CARD CARD_TERMINATE,
       p_queueFlags := (if type_has (p_playerType p) PLAYER_TYPE_USER then QUEUE_FLAGS_NULL
                        else p_queueFlags p),
       p_expiration := getIntConfig CONFIG_WAIT_TIME w,
       p_aiDelay := getIntConfig CONFIG_AI_DELAY w,
       p_left := None, p_right := None, p_start := False, p_defaultGrab := 0,
       p_grabScore := - 1, p_landlord := - 1, p_winGold := 0\<rparr>"

lemma resetGame_ok:
  "player_at a w = Some p \<Longrightarrow> Player_resetGame a w = Some (put_player a (round_ended w p) w)"
  by (simp add: Player_resetGame_def modify_player_def round_ended_def)

lemma write_to_not_user: "\<not> is_user p \<Longrightarrow> write_to d (conn_of p w) w = w"
  by (simp add: conn_of_def write_to_def)

lemma ai_user_ok: "is_ai p \<Longrightarrow> user_ok p w"
  by (simp add: user_ok_def is_user_def is_ai_iff)

text \<open>A computer whose neighbours need no wake-up: the last one of the chain.\<close>

lemma checkRoundOver_last:
  assumes b: "player_at b w = Some pb" "is_ai pb" "p_gameStatus pb = GAME_STATUS_ROUNDOVERING"
      "p_left pb = Some c" "p_right pb = Some a"
    and upd: "Player_UpdatePlayerData (getIntConfig CONFIG_BASICSCORE w) pb = Some qb"
    and c: "player_at c w = Some pc" "p_gameStatus pc = GAME_STATUS_ROUNDOVERED"
    and a: "player_at a w = Some pa" "\<not> is_ai pa" and "a \<noteq> b" "b \<noteq> c"
  shows "Player_checkRoundOver b w = Some (put_player b
    (round_ended w (qb\<lparr>p_gameStatus := GAME_STATUS_ROUNDOVERED\<rparr>)) w)"
proof -
  have "\<not> is_user pb" using b(2) by (simp add: is_user_def is_ai_iff)
  then have "round_over_update b w = Some (put_player b (qb\<lparr>p_gameStatus := GAME_STATUS_ROUNDOVERED\<rparr>) w)"
    using round_over_update_ok [OF b(1) upd ai_user_ok [OF b(2)]] by (simp add: write_to_not_user)
  moreover have "round_ended (put_player x y z) p = round_ended z p" for x y z p
    by (simp add: round_ended_def)
  ultimately show ?thesis
    using assms
    by (subst Player_checkRoundOver.simps)
      (simp add: end_round_neighbour_def pand_def ptr_test_def resetGame_ok [where p = "qb\<lparr>p_gameStatus := GAME_STATUS_ROUNDOVERED\<rparr>", simplified])
qed

definition over :: "player \<Rightarrow> player" where
  "over p = p\<lparr>p_gameStatus := GAME_STATUS_ROUNDOVERED\<rparr>"

lemma over_simps [simp]:
  "p_gameStatus (over p) = GAME_STATUS_ROUNDOVERED" "p_left (over p) = p_left p"
  "p_right (over p) = p_right p" "is_ai (over p) = is_ai p" "is_user (over p) = is_user p"
  by (simp_all add: over_def)

lemma round_ended_put [simp]: "round_ended (put_player x y z) p = round_ended z p"
  by (simp add: round_ended_def)

lemma round_ended_write [simp]: "round_ended (write_to d ca w) p = round_ended w p"
  by (simp add: round_ended_def)

lemma checkRoundOver_ai:
  assumes c: "player_at c w = Some pc" "is_ai pc" "p_gameStatus pc = GAME_STATUS_ROUNDOVERING"
      "p_left pc = Some a" "p_right pc = Some b"
    and b: "player_at b w = Some pb" "is_ai pb" "p_gameStatus pb \<noteq> GAME_STATUS_ROUNDOVERED"
      "p_left pb = Some c" "p_right pb = Some a"
    and upd: "Player_UpdatePlayerData (getIntConfig CONFIG_BASICSCORE w) pc = Some qc"
      "Player_UpdatePlayerData (getIntConfig CONFIG_BASICSCORE w)
         (pb\<lparr>p_gameStatus := GAME_STATUS_ROUNDOVERING\<rparr>) = Some qb"
    and a: "player_at a w = Some pa" "\<not> is_ai pa" and distinct: "a \<noteq> b" "b \<noteq> c" "a \<noteq> c"
  shows "Player_checkRoundOver c w = Some (put_player c (round_ended w (over qc))
    (put_player b (round_ended w (over qb)) w))"
proof -
  let ?pb = "pb\<lparr>p_gameStatus := GAME_STATUS_ROUNDOVERING\<rparr>"
  let ?w1 = "put_player c (over qc) w"
  let ?w2 = "put_player b ?pb ?w1"
  have "\<not> is_user pc" using c(2) by (simp add: is_user_def is_ai_iff)
  then have own: "round_over_update c w = Some ?w1"
    using round_over_update_ok [OF c(1) upd(1) ai_user_ok [OF c(2)]]
    by (simp add: write_to_not_user over_def)
  have "Player_checkRoundOver b ?w2 =
      Some (put_player b (round_ended ?w2 (qb\<lparr>p_gameStatus := GAME_STATUS_ROUNDOVERED\<rparr>)) ?w2)"
    by (rule checkRoundOver_last [where c = c and a = a and pa = pa and pb = ?pb and pc = "over qc"])
      (use b upd a distinct in \<open>simp_all\<close>)
  then have "Player_checkRoundOver b ?w2 = Some (put_player b (round_ended w (over qb)) ?w1)"
    by (simp add: over_def)
  then show ?thesis
    using assms own UpdatePlayerData_fields [OF upd(1)]
    by (subst Player_checkRoundOver.simps)
      (simp add: end_round_neighbour_def pand_def ptr_test_def modify_player_def
        resetGame_ok [where p = "over qc"] put_player_swap [of b c])
qed

lemma checkRoundOver_table:
  assumes ring: "ring a b c pa pb pc w" and user: "is_user pa"
    and status: "p_gameStatus pa = GAME_STATUS_ROUNDOVERING"
    and ai: "is_ai pb" "is_ai pc" "p_gameStatus pb \<noteq> GAME_STATUS_ROUNDOVERED"
      "p_gameStatus pc \<noteq> GAME_STATUS_ROUNDOVERED"
    and upd: "Player_UpdatePlayerData (getIntConfig CONFIG_BASICSCORE w) pa = Some qa"
      "Player_UpdatePlayerData (getIntConfig CONFIG_BASICSCORE w)
         (pb\<lparr>p_gameStatus := GAME_STATUS_ROUNDOVERING\<rparr>) = Some qb"
      "Player_UpdatePlayerData (getIntConfig CONFIG_BASICSCORE w)
         (pc\<lparr>p_gameStatus := GAME_STATUS_ROUNDOVERING\<rparr>) = Some qc"
  shows "Player_checkRoundOver a w = Some (put_player a (round_ended w (over qa))
    (put_player c (round_ended w (over qc)) (put_player b (round_ended w (over qb))
      (write_to (round_message qa) (conn_of pa w) w))))"
proof -
  let ?w0 = "write_to (round_message qa) (conn_of pa w) w"
  let ?pb = "pb\<lparr>p_gameStatus := GAME_STATUS_ROUNDOVERING\<rparr>"
  let ?pc = "pc\<lparr>p_gameStatus := GAME_STATUS_ROUNDOVERING\<rparr>"
  let ?w1 = "put_player a (over qa) ?w0"
  let ?w3 = "put_player c ?pc (put_player b ?pb ?w1)"
  note r = ring_simps [OF ring]
  have person: "\<not> is_ai qa" "\<not> is_ai pa"
    using user UpdatePlayerData_fields(8) [OF upd(1)] by (simp_all add: is_user_def is_ai_iff)
  have own: "round_over_update a w = Some ?w1"
    using round_over_update_ok [OF r(1) upd(1) r(16)] by (simp add: over_def)
  have "?pb\<lparr>p_gameStatus := GAME_STATUS_ROUNDOVERING\<rparr> = ?pb" by simp
  then have "Player_checkRoundOver c ?w3 = Some (put_player c (round_ended ?w3 (over qc))
      (put_player b (round_ended ?w3 (over qb)) ?w3))"
    by (intro checkRoundOver_ai [where a = a and pa = "over qa" and pb = ?pb and pc = ?pc])
      (use r ai upd person in \<open>simp_all\<close>)
  then have chain: "Player_checkRoundOver c ?w3 = Some (put_player c (round_ended w (over qc))
      (put_player b (round_ended w (over qb)) ?w1))"
    using r by (simp add: put_player_swap [of b c])
  show ?thesis
    using r status ai chain own UpdatePlayerData_fields(1,2) [OF upd(1)]
    by (subst Player_checkRoundOver.simps)
      (simp add: end_round_neighbour_def pand_def ptr_test_def modify_player_def modify_ptr_def
        resetGame_ok [where p = "over qa"] put_player_swap [of b a] put_player_swap [of c a])
qed

section \<open>Properties\<close>

lemma user_ok_unbind [simp]: "user_ok p (unbind_session sa w) = user_ok p w"
  by (auto simp: user_ok_def unbind_session_def heap_simps split: option.splits)



text \<open>
  C12. A person who leaves a table with two computers before the game (or after
  it) dissolves it: the recursion through the computers ends, all three are
  \<^verbatim>\<open>LOG_OUTED\<close> without neighbours and session, no other player is touched, and the
  person's session no longer refers to the player.
\<close>

theorem table_dissolves:
  assumes "ring a b c pa pb pc w" and "is_user pa" and "leaving pa" and "leaving_status pa = 2"
    and "p_playerType pb = PLAYER_TYPE_AI" and "p_playerType pc = PLAYER_TYPE_AI"
    and "p_session pb = None" and "p_session pc = None"
  shows "\<exists>w'. Player_checkOutPlayer a w = Some w' \<and>
    (\<forall>x \<in> {a, b, c}. \<exists>p. player_at x w' = Some p \<and> p_gameStatus p = GAME_STATUS_LOG_OUTED \<and>
       p_left p = None \<and> p_right p = None \<and> p_session p = None) \<and>
    (\<forall>x. x \<notin> {a, b, c} \<longrightarrow> player_at x w' = player_at x w) \<and>
    (\<exists>sa s. p_session pa = Some sa \<and> sess_at sa w' = Some s \<and> s_player s = None)"
proof -
  obtain sa where "p_session pa = Some sa"
    using ring_simps(16) [OF assms(1)] assms(2) by (auto simp: user_ok_def)
  with checkOut_dissolves [OF assms] show ?thesis by (auto simp: gone_def)
qed

theorem table_dissolves_witness:
  "\<exists>w' p. Player_checkOutPlayer 1 (demo_world (demo_user\<lparr>p_gameStatus := 0x12\<rparr>) (demo_ai 8) (demo_ai 9))
     = Some w' \<and> player_at 2 w' = Some p \<and> p_gameStatus p = GAME_STATUS_LOG_OUTED"
proof -
  let ?u = "demo_user\<lparr>p_gameStatus := 0x12\<rparr>"
  have ring: "ring 1 2 3 (?u\<lparr>p_left := Some 2, p_right := Some 3\<rparr>)
      ((demo_ai 8)\<lparr>p_left := Some 3, p_right := Some 1\<rparr>) ((demo_ai 9)\<lparr>p_left := Some 1, p_right := Some 2\<rparr>)
      (demo_world ?u (demo_ai 8) (demo_ai 9))"
    by (rule demo_ring) simp_all
  show ?thesis
    using table_dissolves [OF ring]
    by (auto simp: leaving_def leaving_status_def demo_ai_def demo_user_def Player_init_def is_user_def)
qed

text \<open>
  C10. A round ends for the whole table at once. When a person's round is over at
  a table with two computers whose scores can be updated, \<^verbatim>\<open>checkRoundOver\<close> returns:
  the computers are ended by the chain of calls to the right, and all three seats are reset
  (no cards, no neighbours, no landlord), scored once and \<^verbatim>\<open>ROUNDOVERED\<close>.
\<close>

theorem round_ends_for_all:
  assumes "ring a b c pa pb pc w" and "is_user pa" and "p_gameStatus pa = GAME_STATUS_ROUNDOVERING"
    and "is_ai pb" and "is_ai pc" and "p_gameStatus pb \<noteq> GAME_STATUS_ROUNDOVERED"
    and "p_gameStatus pc \<noteq> GAME_STATUS_ROUNDOVERED"
    and "Player_UpdatePlayerData (getIntConfig CONFIG_BASICSCORE w) pa = Some qa"
    and "Player_UpdatePlayerData (getIntConfig CONFIG_BASICSCORE w)
           (pb\<lparr>p_gameStatus := GAME_STATUS_ROUNDOVERING\<rparr>) = Some qb"
    and "Player_UpdatePlayerData (getIntConfig CONFIG_BASICSCORE w)
           (pc\<lparr>p_gameStatus := GAME_STATUS_ROUNDOVERING\<rparr>) = Some qc"
  shows "\<exists>w'. Player_checkRoundOver a w = Some w' \<and>
    (\<forall>(x, q) \<in> {(a, qa), (b, qb), (c, qc)}. \<exists>p. player_at x w' = Some p \<and> p_info p = p_info q \<and>
       p_gameStatus p = GAME_STATUS_ROUNDOVERED \<and> hand_of (p_cards p) = [] \<and> p_left p = None \<and>
       p_right p = None \<and> p_landlord p = - 1 \<and> p_grabScore p = - 1)"
proof -
  have "hand_of (replicate CARD_NUMBER CARD_TERMINATE @ replicate BASIC_CARD CARD_TERMINATE) = []"
    by (simp add: hand_of_def CARD_NUMBER_def numeral_eq_Suc)
  with checkRoundOver_table [OF assms] ring_simps [OF assms(1)] show ?thesis
    by (simp add: round_ended_def over_def)
qed

lemma first_round_scored:
  assumes "p_winGold p = 0" and "pi_all_Chess (p_info p) = 0" and "pi_win_chess (p_info p) = 0"
    and "pi_score (p_info p) = 0"
  shows "\<exists>q. Player_UpdatePlayerData basic p = Some q"
proof -
  have "win_rate 0 1 = Some 0" by (subst win_rate_small) simp_all
  moreover have "level_loop 0 0 = Some 0" by (simp add: level_loop_iff LevelTable_def)
  ultimately show ?thesis
    using assms by (simp add: Player_UpdatePlayerData_def Player_UpdatePlayerLevel_def Let_def)
qed

theorem round_ends_for_all_witness:
  "\<exists>w' p. Player_checkRoundOver 1
      (demo_world (demo_user\<lparr>p_gameStatus := GAME_STATUS_ROUNDOVERING\<rparr>) (demo_ai 8) (demo_ai 9))
     = Some w' \<and> player_at 2 w' = Some p \<and> p_gameStatus p = GAME_STATUS_ROUNDOVERED"
proof -
  let ?u = "demo_user\<lparr>p_gameStatus := GAME_STATUS_ROUNDOVERING\<rparr>"
  let ?pa = "?u\<lparr>p_left := Some 2, p_right := Some 3\<rparr>"
  let ?pb = "(demo_ai 8)\<lparr>p_left := Some 3, p_right := Some 1\<rparr>"
  let ?pc = "(demo_ai 9)\<lparr>p_left := Some 1, p_right := Some 2\<rparr>"
  let ?w = "demo_world ?u (demo_ai 8) (demo_ai 9)"
  have ring: "ring 1 2 3 ?pa ?pb ?pc ?w" by (rule demo_ring) simp_all
  let ?upd = "Player_UpdatePlayerData (getIntConfig CONFIG_BASICSCORE ?w)"
  have "\<exists>q. ?upd ?pa = Some q" "\<exists>q. ?upd (?pb\<lparr>p_gameStatus := GAME_STATUS_ROUNDOVERING\<rparr>) = Some q"
    "\<exists>q. ?upd (?pc\<lparr>p_gameStatus := GAME_STATUS_ROUNDOVERING\<rparr>) = Some q"
    by (rule first_round_scored; simp add: demo_user_def demo_ai_def Player_init_def PlayerInfo_new_def)+
  then obtain qa qb qc where q: "?upd ?pa = Some qa"
    "?upd (?pb\<lparr>p_gameStatus := GAME_STATUS_ROUNDOVERING\<rparr>) = Some qb"
    "?upd (?pc\<lparr>p_gameStatus := GAME_STATUS_ROUNDOVERING\<rparr>) = Some qc" by blast
  have s: "p_gameStatus ?pb \<noteq> GAME_STATUS_ROUNDOVERED" "p_gameStatus ?pc \<noteq> GAME_STATUS_ROUNDOVERED"
    "p_gameStatus ?pa = GAME_STATUS_ROUNDOVERING" "is_user ?pa" "is_ai ?pb" "is_ai ?pc"
    by (simp_all add: demo_ai_def demo_user_def Player_init_def is_user_def is_ai_iff)
  from round_ends_for_all [OF ring s(4,3,5,6,1,2) q] show ?thesis by blast
qed

end
