(* ===== verification/Room.thy ===== *)
theory Room
  imports Player
begin

text \<open>
  Room: the pool of computer players (\<^verbatim>\<open>src/server/game/AI/AiPlayerPool.cpp\<close>) and
  the matchmaking of a room (\<^verbatim>\<open>src/server/game/Room/Room.cpp\<close>): single players are
  paired, pairs become tables of three, computers fill the seats of those who have waited too long,
  tables are dealt to and taken down. A room's operation takes the room and the world and returns
  both. The hash map of a room is an association list in the order in which it is iterated; the
  properties hold for every order.
\<close>

section \<open>The pool of computer players\<close>

definition Player_new :: "nat option \<Rightarrow> world \<Rightarrow> nat \<times> world" where
  "Player_new sess w =
     (let a = w_next w in
      (a, put_player a (Player_init sess (getIntConfig CONFIG_WAIT_TIME w) (getIntConfig CONFIG_AI_DELAY w)
                          (w_mem w a)) (w\<lparr>w_next := Suc a\<rparr>)))"

definition AiPlayerPool_new :: "world \<Rightarrow> world" where
  "AiPlayerPool_new w =
     fold (\<lambda>i w. let (a, w) = Player_new None w in w\<lparr>w_pool := w_pool w @ [a]\<rparr>)
       [0..<unat (getIntConfig CONFIG_AI_PLAYER_COUNT w)] w"

fun decimal :: "nat \<Rightarrow> u8 list" where
  "decimal n = (if n < 10 then [48 + word_of_nat n] else decimal (n div 10) @ [48 + word_of_nat (n mod 10)])"

declare decimal.simps [simp del]

text \<open>\<^verbatim>\<open>0.4\<close> as a double is \<open>7205759403792794 / 2 ^ 54\<close>.\<close>

definition ai_win_chess :: "u32 \<Rightarrow> u32" where
  "ai_win_chess all_Chess = word_of_nat (fl_trunc 53 (unat all_Chess * 7205759403792794) (2 ^ 54))"

definition ai_nick_name :: "u8 list" where
  "ai_nick_name = [0xcc, 0xec, 0xcc, 0xec, 0xcf, 0xf2, 0xc9, 0xcf]"

definition ai_info :: "u32 \<Rightarrow> nat \<Rightarrow> nat \<Rightarrow> u32 \<Rightarrow> player_info" where
  "ai_info roomid r1 r2 gold =
     (let pi = PlayerInfo_new;
          pi = pi\<lparr>pi_id := 2000 + word_of_nat (r1 mod 100)\<rparr>;
          pi = pi\<lparr>pi_sex := word_of_nat (r2 mod 2)\<rparr>;
          pi = pi\<lparr>pi_gold := gold\<rparr>;
          pi = pi\<lparr>pi_level := roomid * 2 + 1\<rparr>;
          pi = pi\<lparr>pi_all_Chess := roomid * 100 + 80\<rparr>;
          pi = pi\<lparr>pi_win_chess := ai_win_chess (pi_all_Chess pi)\<rparr>;
          pi = pi\<lparr>pi_win_Rate := 0\<rparr>;
          pi = pi\<lparr>pi_account := overwrite 0 (take 11 (decimal (unat (pi_id pi + 524288))) @ [0]) (pi_account pi)\<rparr>;
          pi = pi\<lparr>pi_nick_name := overwrite 0 ai_nick_name (pi_nick_name pi)\<rparr>
      in pi)"

definition AiPlayerPool_configureAiPlayer :: "nat \<Rightarrow> u32 \<Rightarrow> world \<Rightarrow> world option" where
  "AiPlayerPool_configureAiPlayer a roomid w = do {
     let (r1, w) = rand_call w;
     let (r2, w) = rand_call w;
     let gold = getIntConfig (unat (word_of_nat CONFIG_ROOM1_GOLD + roomid)) w;
     modify_player a
       (\<lambda>p. Player_setStart ((Player_loadData (ai_info roomid r1 r2 gold) p)\<lparr>p_playerType := PLAYER_TYPE_AI\<rparr>)) w
   }"

definition AiPlayerPool_getAiPlayer :: "u32 \<Rightarrow> world \<Rightarrow> (nat \<times> world) option" where
  "AiPlayerPool_getAiPlayer roomid w = do {
     let w = (if w_pool w = [] then let (a, w) = Player_new None w in w\<lparr>w_pool := w_pool w @ [a]\<rparr> else w);
     let a = last (w_pool w);
     let w = w\<lparr>w_pool := butlast (w_pool w)\<rparr>;
     w \<leftarrow> AiPlayerPool_configureAiPlayer a roomid w;
     Some (a, w)
   }"

definition AiPlayerPool_releasePlayer :: "nat \<Rightarrow> world \<Rightarrow> world" where
  "AiPlayerPool_releasePlayer a w = w\<lparr>w_pool := w_pool w @ [a]\<rparr>"

section \<open>Players of a room\<close>

type_synonym room_state = "room \<times> world"

definition Room_new :: "u32 \<Rightarrow> u32 \<Rightarrow> room" where
  "Room_new i basic_score =
     \<lparr>rm_id = i, rm_basic_score = basic_score, rm_playerMap = [], rm_one = [], rm_two = [], rm_three = []\<rparr>"

definition map_assign :: "'k \<Rightarrow> 'v \<Rightarrow> ('k \<times> 'v) list \<Rightarrow> ('k \<times> 'v) list" where
  "map_assign k v m =
     (if k \<in> fst ` set m then map (\<lambda>(k', v'). if k' = k then (k', v) else (k', v')) m else m @ [(k, v)])"

definition map_erase :: "'k \<Rightarrow> ('k \<times> 'v) list \<Rightarrow> ('k \<times> 'v) list" where
  "map_erase k m = filter (\<lambda>(k', v'). k' \<noteq> k) m"

definition Room_AddPlayer :: "u32 \<Rightarrow> nat \<Rightarrow> bool \<Rightarrow> room \<Rightarrow> world \<Rightarrow> room_state option" where
  "Room_AddPlayer i a inOne r w = do {
     let r = r\<lparr>rm_playerMap := map_assign i a (rm_playerMap r)\<rparr>;
     if inOne then do {
       w \<leftarrow> modify_player a (\<lambda>p. p\<lparr>p_queueFlags := QUEUE_FLAGS_ONE\<rparr>) w;
       Some (r\<lparr>rm_one := rm_one r @ [a]\<rparr>, w)
     } else Some (r, w)
   }"

text \<open>The macros \<^verbatim>\<open>RELEASE\<close> and \<^verbatim>\<open>OUT_TWO\<close>.\<close>

definition RELEASE :: "nat \<Rightarrow> world \<Rightarrow> world option" where
  "RELEASE a w = do {
     p \<leftarrow> player_at a w;
     if p_playerType p = PLAYER_TYPE_AI then Some (AiPlayerPool_releasePlayer a w) else delete_player a w
   }"

definition OUT_TWO :: "nat \<Rightarrow> room \<Rightarrow> world \<Rightarrow> room_state option" where
  "OUT_TWO a r w = do {
     p \<leftarrow> player_at a w;
     if p_playerType p = PLAYER_TYPE_AI then Some (r, AiPlayerPool_releasePlayer a w)
     else Some (r\<lparr>rm_one := rm_one r @ [a]\<rparr>, w)
   }"

definition Room_getPlayerFromOne :: "room \<Rightarrow> world \<Rightarrow> (nat option \<times> room_state) option" where
  "Room_getPlayerFromOne r w =
     (case rm_one r of
        [] \<Rightarrow> Some (None, r, w)
      | a # rest \<Rightarrow> do {
          let r = r\<lparr>rm_one := rest\<rparr>;
          p \<leftarrow> player_at a w;
          if Player_LogOut p then do { w \<leftarrow> delete_player a w; Some (None, r, w) }
          else Some (Some a, r, w)
        })"

lemma getPlayerFromOne_length:
  "Room_getPlayerFromOne r w = Some (p, r', w') \<Longrightarrow> length (rm_one r') = length (rm_one r) - 1"
  by (auto simp: Room_getPlayerFromOne_def Let_def bind_eq_Some_conv split: list.splits if_splits)

section \<open>One waiting player\<close>

definition seat_three :: "nat \<Rightarrow> nat \<Rightarrow> nat \<Rightarrow> room \<Rightarrow> world \<Rightarrow> room_state option" where
  "seat_three p0 p1 p2 r w = do {
     w \<leftarrow> Player_addPlayer p0 p1 w;
     w \<leftarrow> Player_addPlayer p1 p2 w;
     w \<leftarrow> Player_addPlayer p2 p0 w;
     Some (r\<lparr>rm_three := rm_three r @ [((p0, p1), p2)]\<rparr>, w)
   }"

definition seat_two :: "nat \<Rightarrow> nat \<Rightarrow> room \<Rightarrow> world \<Rightarrow> room_state option" where
  "seat_two p0 p1 r w = do {
     w \<leftarrow> Player_addPlayer p0 p1 w;
     w \<leftarrow> Player_addPlayer p1 p0 w;
     Some (r\<lparr>rm_two := rm_two r @ [(p0, p1)]\<rparr>, w)
   }"

text \<open>The single player who has waited long enough gets a computer as partner.\<close>

definition seat_with_ai :: "nat \<Rightarrow> player \<Rightarrow> room \<Rightarrow> world \<Rightarrow> room_state option" where
  "seat_with_ai p0 p r w = do {
     (p1, w) \<leftarrow> AiPlayerPool_getAiPlayer (p_roomid p) w;
     (r, w) \<leftarrow> seat_two p0 p1 r w;
     q \<leftarrow> player_at p1 w;
     Room_AddPlayer (Player_getid q) p1 False r w
   }"

lemma seats_keep_one:
  "seat_three p0 p1 p2 r w = Some (r', w') \<Longrightarrow> rm_one r' = rm_one r"
  "seat_two p0 p1 r w = Some (r', w') \<Longrightarrow> rm_one r' = rm_one r"
  "Room_AddPlayer i a False r w = Some (r', w') \<Longrightarrow> rm_one r' = rm_one r"
  "seat_with_ai p0 p r w = Some (r', w') \<Longrightarrow> rm_one r' = rm_one r"
  by (auto simp: seat_three_def seat_two_def seat_with_ai_def Room_AddPlayer_def Let_def bind_eq_Some_conv)

function Room_UpdateOne :: "room \<Rightarrow> world \<Rightarrow> room_state option" where
  "Room_UpdateOne r w =
     (if rm_one r = [] then Some (r, w)
      else if length (rm_one r) > 2 then
        Room_getPlayerFromOne r w \<bind> (\<lambda>(p0, r1, w1).
        Room_getPlayerFromOne r1 w1 \<bind> (\<lambda>(p1, r2, w2).
        Room_getPlayerFromOne r2 w2 \<bind> (\<lambda>(p2, r3, w3).
          case (p0, p1, p2) of
            (Some a, Some b, Some c) \<Rightarrow>
              seat_three a b c r3 w3 \<bind> (\<lambda>(r4, w4).
                Room_UpdateOne r4 w4)
          | _ \<Rightarrow> Room_UpdateOne r3 w3)))
      else if length (rm_one r) = 2 then
        Room_getPlayerFromOne r w \<bind> (\<lambda>(p0, r1, w1).
        Room_getPlayerFromOne r1 w1 \<bind> (\<lambda>(p1, r2, w2).
          case (p0, p1) of
            (Some a, Some b) \<Rightarrow>
              seat_two a b r2 w2 \<bind> (\<lambda>(r3, w3).
                Room_UpdateOne r3 w3)
          | _ \<Rightarrow> Room_UpdateOne r2 w2))
      else
        Room_getPlayerFromOne r w \<bind> (\<lambda>(p0, r1, w1).
          case p0 of
            None \<Rightarrow> Some (r1, w1)
          | Some a \<Rightarrow> player_at a w1 \<bind> (\<lambda>p.
              if Player_expiration p then
                seat_with_ai a p r1 w1 \<bind> (\<lambda>(r2, w2).
                  Room_UpdateOne r2 w2)
              else Some (r1\<lparr>rm_one := rm_one r1 @ [a]\<rparr>, w1))))"
  by pat_completeness auto
termination
  by (relation "measure (\<lambda>(r, w). length (rm_one r))")
    (auto dest!: getPlayerFromOne_length seats_keep_one)

declare Room_UpdateOne.simps [simp del]

section \<open>Pairs\<close>

definition Room_LogoutTwo :: "nat \<times> nat \<Rightarrow> room \<Rightarrow> world \<Rightarrow> (bool \<times> room_state) option" where
  "Room_LogoutTwo twoP r w = do {
     let (p0, p1) = twoP;
     q0 \<leftarrow> player_at p0 w;
     q1 \<leftarrow> player_at p1 w;
     (case (Player_LogOut q0, Player_LogOut q1) of
        (False, False) \<Rightarrow> Some (False, r, w)
      | (True, False) \<Rightarrow> do { w \<leftarrow> RELEASE p0 w; (r, w) \<leftarrow> OUT_TWO p1 r w; Some (True, r, w) }
      | (False, True) \<Rightarrow> do { (r, w) \<leftarrow> OUT_TWO p0 r w; w \<leftarrow> RELEASE p1 w; Some (True, r, w) }
      | (True, True) \<Rightarrow> do { w \<leftarrow> RELEASE p0 w; w \<leftarrow> RELEASE p1 w; Some (True, r, w) })
   }"

text \<open>One iteration of \<^verbatim>\<open>UpdateTwo\<close>; the flag says that the pair is erased.\<close>

definition UpdateTwo_step :: "nat \<times> nat \<Rightarrow> room \<Rightarrow> world \<Rightarrow> (bool \<times> room_state) option" where
  "UpdateTwo_step twoP r w = do {
     (out, r, w) \<leftarrow> Room_LogoutTwo twoP r w;
     if out then Some (True, r, w)
     else do {
       (p2, r, w) \<leftarrow> Room_getPlayerFromOne r w;
       let (p0, p1) = twoP;
       q0 \<leftarrow> player_at p0 w;
       go \<leftarrow> por (Some (Player_expiration q0))
               (por (do { q1 \<leftarrow> player_at p1 w; Some (Player_expiration q1) }) (Some (p2 \<noteq> None)));
       if go then do {
         (a, w) \<leftarrow> (case p2 of Some a \<Rightarrow> Some (a, w) | None \<Rightarrow> AiPlayerPool_getAiPlayer (p_roomid q0) w);
         w \<leftarrow> Player_addPlayer p0 a w;
         w \<leftarrow> Player_addPlayer p1 a w;
         let r = r\<lparr>rm_three := rm_three r @ [(twoP, a)]\<rparr>;
         q2 \<leftarrow> player_at a w;
         (r, w) \<leftarrow> Room_AddPlayer (Player_getid q2) a False r w;
         Some (True, r, w)
       } else Some (False, r, w)
     }
   }"

text \<open>The loop visits the pairs in order; the pairs that stay are the new list.\<close>

fun UpdateTwo_loop :: "(nat \<times> nat) list \<Rightarrow> room \<Rightarrow> world \<Rightarrow> ((nat \<times> nat) list \<times> room_state) option" where
  "UpdateTwo_loop [] r w = Some ([], r, w)"
| "UpdateTwo_loop (twoP # rest) r w = do {
     (erased, r, w) \<leftarrow> UpdateTwo_step twoP r w;
     (kept, r, w) \<leftarrow> UpdateTwo_loop rest r w;
     Some (if erased then kept else twoP # kept, r, w)
   }"

definition Room_UpdateTwo :: "room \<Rightarrow> world \<Rightarrow> room_state option" where
  "Room_UpdateTwo r w = do {
     (kept, r, w) \<leftarrow> UpdateTwo_loop (rm_two r) r w;
     Some (r\<lparr>rm_two := kept\<rparr>, w)
   }"

section \<open>Tables\<close>

definition Room_LogoutThree :: "(nat \<times> nat) \<times> nat \<Rightarrow> room \<Rightarrow> world \<Rightarrow> (bool \<times> room_state) option" where
  "Room_LogoutThree threeP r w = do {
     let ((p0, p1), p2) = threeP;
     q0 \<leftarrow> player_at p0 w;
     q1 \<leftarrow> player_at p1 w;
     q2 \<leftarrow> player_at p2 w;
     (case (Player_LogOut q0, Player_LogOut q1, Player_LogOut q2) of
        (False, False, False) \<Rightarrow> Some (False, r, w)
      | (True, False, False) \<Rightarrow> do {
          w \<leftarrow> delete_player p0 w;
          Some (True, r\<lparr>rm_two := rm_two r @ [(p1, p2)]\<rparr>, w) }
      | (False, True, False) \<Rightarrow> do {
          w \<leftarrow> delete_player p1 w;
          Some (True, r\<lparr>rm_two := rm_two r @ [(p0, p2)]\<rparr>, w) }
      | (True, True, False) \<Rightarrow> do {
          w \<leftarrow> delete_player p0 w; w \<leftarrow> delete_player p1 w;
          Some (True, r\<lparr>rm_one := rm_one r @ [p2]\<rparr>, w) }
      | (False, False, True) \<Rightarrow> do {
          w \<leftarrow> delete_player p2 w;
          Some (True, r\<lparr>rm_two := rm_two r @ [(p0, p1)]\<rparr>, w) }
      | (True, False, True) \<Rightarrow> do {
          w \<leftarrow> delete_player p0 w; w \<leftarrow> delete_player p2 w;
          Some (True, r\<lparr>rm_one := rm_one r @ [p1]\<rparr>, w) }
      | (False, True, True) \<Rightarrow> do {
          w \<leftarrow> delete_player p1 w; w \<leftarrow> delete_player p2 w;
          Some (True, r\<lparr>rm_one := rm_one r @ [p0]\<rparr>, w) }
      | (True, True, True) \<Rightarrow> do {
          w \<leftarrow> RELEASE p0 w; w \<leftarrow> RELEASE p1 w; w \<leftarrow> RELEASE p2 w;
          Some (True, r, w) })
   }"

text \<open>\<^verbatim>\<open>p0->test() && p1->test() && p2->test()\<close>\<close>

definition all_three :: "(player \<Rightarrow> bool) \<Rightarrow> (nat \<times> nat) \<times> nat \<Rightarrow> world \<Rightarrow> bool option" where
  "all_three test threeP w =
     (let ((p0, p1), p2) = threeP in
      pand (pand (ptr_test (Some p0) test w) (ptr_test (Some p1) test w)) (ptr_test (Some p2) test w))"

definition Room_allStart :: "(nat \<times> nat) \<times> nat \<Rightarrow> world \<Rightarrow> bool option" where
  "Room_allStart = all_three Player_started"

definition Room_allAtThree :: "(nat \<times> nat) \<times> nat \<Rightarrow> world \<Rightarrow> bool option" where
  "Room_allAtThree = all_three (\<lambda>p. p_queueFlags p = QUEUE_FLAGS_THREE)"

definition Room_allWaitDealCards :: "(nat \<times> nat) \<times> nat \<Rightarrow> world \<Rightarrow> bool option" where
  "Room_allWaitDealCards = all_three (\<lambda>p. p_gameStatus p < GAME_STATUS_DEALING_CARD)"

definition Room_dealCards :: "(nat \<times> nat) \<times> nat \<Rightarrow> world \<Rightarrow> world option" where
  "Room_dealCards threeP w = do {
     let ((p0, p1), p2) = threeP;
     let cards = shuffleCard (\<lambda>i. w_rand w (w_ridx w + i));
     let w = w\<lparr>w_ridx := w_ridx w + 54\<rparr>;
     w \<leftarrow> Player_dealCards cards (drop 51 cards) p0 w;
     w \<leftarrow> Player_dealCards (drop 17 cards) (drop 51 cards) p1 w;
     Player_dealCards (drop 34 cards) (drop 51 cards) p2 w
   }"

definition release_ai_seat :: "nat \<Rightarrow> world \<Rightarrow> world option" where
  "release_ai_seat a w = do {
     p \<leftarrow> player_at a w;
     if is_ai p then do {
       w \<leftarrow> modify_player a (\<lambda>p. p\<lparr>p_gameStatus := GAME_STATUS_LOG_OUTED\<rparr>) w;
       if p_playerType p = PLAYER_TYPE_AI then Some (AiPlayerPool_releasePlayer a w) else Some w
     } else Some w
   }"

definition Room_releaseAiPlayer :: "(nat \<times> nat) \<times> nat \<Rightarrow> world \<Rightarrow> world option" where
  "Room_releaseAiPlayer threeP w = do {
     let ((p0, p1), p2) = threeP;
     w \<leftarrow> release_ai_seat p0 w;
     w \<leftarrow> release_ai_seat p1 w;
     release_ai_seat p2 w
   }"

definition Room_roundOver :: "(nat \<times> nat) \<times> nat \<Rightarrow> world \<Rightarrow> (bool \<times> world) option" where
  "Room_roundOver threeP w = do {
     done \<leftarrow> all_three Player_roundOver threeP w;
     if done then do { w \<leftarrow> Room_releaseAiPlayer threeP w; Some (True, w) } else Some (False, w)
   }"

definition UpdateThree_step ::
  "(nat \<times> nat) \<times> nat \<Rightarrow> room \<Rightarrow> world \<Rightarrow> (bool \<times> room_state) option" where
  "UpdateThree_step threeP r w = do {
     (out, r, w) \<leftarrow> Room_LogoutThree threeP r w;
     if out then Some (True, r, w)
     else do {
       deal \<leftarrow> pand (pand (Room_allStart threeP w) (Room_allAtThree threeP w)) (Room_allWaitDealCards threeP w);
       w \<leftarrow> (if deal then Room_dealCards threeP w else Some w);
       (over, w) \<leftarrow> Room_roundOver threeP w;
       Some (over, r, w)
     }
   }"

fun UpdateThree_loop ::
  "((nat \<times> nat) \<times> nat) list \<Rightarrow> room \<Rightarrow> world \<Rightarrow> (((nat \<times> nat) \<times> nat) list \<times> room_state) option" where
  "UpdateThree_loop [] r w = Some ([], r, w)"
| "UpdateThree_loop (threeP # rest) r w = do {
     (erased, r, w) \<leftarrow> UpdateThree_step threeP r w;
     (kept, r, w) \<leftarrow> UpdateThree_loop rest r w;
     Some (if erased then kept else threeP # kept, r, w)
   }"

definition Room_UpdateThree :: "room \<Rightarrow> world \<Rightarrow> room_state option" where
  "Room_UpdateThree r w = do {
     (kept, r, w) \<leftarrow> UpdateThree_loop (rm_three r) r w;
     Some (r\<lparr>rm_three := kept\<rparr>, w)
   }"

section \<open>Update\<close>

text \<open>The body of the loop over \<^verbatim>\<open>_playerMap\<close>, for the entry with key \<open>i\<close>.\<close>

definition Update_player :: "u32 \<Rightarrow> u32 \<times> nat \<Rightarrow> room \<Rightarrow> world \<Rightarrow> room_state option" where
  "Update_player diff entry r w = do {
     let (i, a) = entry;
     w \<leftarrow> Player_Update diff a w;
     p \<leftarrow> player_at a w;
     if Player_LogOut p then
       if \<not> Player_inTheGame p then do {
         let r = r\<lparr>rm_playerMap := map_erase i (rm_playerMap r)\<rparr>;
         w \<leftarrow> (if Player_idle p then delete_player a w else Some w);
         Some (r, w)
       } else Some (r, w)
     else if p_gameStatus p = GAME_STATUS_STARTED \<and> p_queueFlags p = QUEUE_FLAGS_NULL then do {
       w \<leftarrow> modify_player a (\<lambda>p. p\<lparr>p_queueFlags := QUEUE_FLAGS_ONE\<rparr>) w;
       Some (r\<lparr>rm_one := rm_one r @ [a]\<rparr>, w)
     } else Some (r, w)
   }"

fun Update_players :: "u32 \<Rightarrow> (u32 \<times> nat) list \<Rightarrow> room \<Rightarrow> world \<Rightarrow> room_state option" where
  "Update_players diff [] r w = Some (r, w)"
| "Update_players diff (e # es) r w = do {
     (r, w) \<leftarrow> Update_player diff e r w;
     Update_players diff es r w
   }"

definition Room_Update :: "u32 \<Rightarrow> room \<Rightarrow> world \<Rightarrow> room_state option" where
  "Room_Update diff r w = do {
     (r, w) \<leftarrow> Update_players diff (rm_playerMap r) r w;
     (r, w) \<leftarrow> Room_UpdateOne r w;
     (r, w) \<leftarrow> Room_UpdateTwo r w;
     Room_UpdateThree r w
   }"

end
