(* ===== verification/Matchmaking.thy ===== *)
theory Matchmaking
  imports Room Table
begin

text \<open>
  Matchmaking: what the room (\<^verbatim>\<open>src/server/game/Room/Room.cpp\<close>) and the pool of
  computers (\<^verbatim>\<open>AI/AiPlayerPool.cpp\<close>) do with waiting players, pairs and full tables.
\<close>

section \<open>Free players and linked seats\<close>

definition free :: "nat \<Rightarrow> world \<Rightarrow> bool" where
  "free a w \<longleftrightarrow> (\<exists>p. player_at a w = Some p \<and> \<not> Player_LogOut p \<and> p_left p = None \<and> p_right p = None)"

text \<open>Player \<open>a\<close> of \<open>w\<close> is in \<open>w'\<close> the same player with other neighbours and a new deadline.\<close>

definition reseated :: "nat \<Rightarrow> nat option \<Rightarrow> nat option \<Rightarrow> world \<Rightarrow> world \<Rightarrow> bool" where
  "reseated a l r w w' \<longleftrightarrow> (\<exists>p d. player_at a w = Some p \<and>
     player_at a w' = Some (p\<lparr>p_left := l, p_right := r, p_expiration := d\<rparr>))"

definition linked :: "nat \<times> nat \<times> nat \<Rightarrow> world \<Rightarrow> world \<Rightarrow> bool" where
  "linked t w w' = (case t of (a, b, c) \<Rightarrow>
     reseated a (Some b) (Some c) w w' \<and> reseated b (Some c) (Some a) w w' \<and>
     reseated c (Some a) (Some b) w w')"

lemma seat_three_links:
  assumes "distinct [a, b, c]" and "free a w" and "free b w" and "free c w"
  obtains w' where "seat_three a b c r w = Some (r\<lparr>rm_three := rm_three r @ [((a, b), c)]\<rparr>, w')"
    and "linked (a, b, c) w w'" and "\<And>x. x \<notin> {a, b, c} \<Longrightarrow> player_at x w' = player_at x w"
proof -
  obtain pa pb pc where p: "player_at a w = Some pa" "player_at b w = Some pb" "player_at c w = Some pc"
    "p_left pa = None" "p_right pa = None" "p_left pb = None" "p_right pb = None"
    "p_left pc = None" "p_right pc = None"
    using assms(2-4) by (auto simp: free_def)
  let ?d = "getIntConfig CONFIG_WAIT_TIME w"
  let ?w = "put_player c (pc\<lparr>p_left := Some a, p_right := Some b, p_expiration := ?d\<rparr>)
     (put_player b (pb\<lparr>p_left := Some c, p_right := Some a, p_expiration := ?d\<rparr>)
     (put_player a (pa\<lparr>p_left := Some b, p_right := Some c, p_expiration := ?d\<rparr>) w))"
  have "\<exists>w'. seat_three a b c r w = Some (r\<lparr>rm_three := rm_three r @ [((a, b), c)]\<rparr>, w') \<and>
      player_at a w' = player_at a ?w \<and> player_at b w' = player_at b ?w \<and> player_at c w' = player_at c ?w \<and>
      (\<forall>x. x \<notin> {a, b, c} \<longrightarrow> player_at x w' = player_at x w)"
    using p assms(1) by (simp add: seat_three_def Player_addPlayer_def modify_player_def)
  then obtain w' where w': "seat_three a b c r w = Some (r\<lparr>rm_three := rm_three r @ [((a, b), c)]\<rparr>, w')"
      "player_at a w' = player_at a ?w" "player_at b w' = player_at b ?w" "player_at c w' = player_at c ?w"
      "\<forall>x. x \<notin> {a, b, c} \<longrightarrow> player_at x w' = player_at x w" by blast
  show thesis
  proof (rule that [OF w'(1)])
    show "linked (a, b, c) w w'"
      using w'(2-4) p assms(1) unfolding linked_def reseated_def by auto
    show "player_at x w' = player_at x w" if "x \<notin> {a, b, c}" for x using w'(5) that by blast
  qed
qed

lemma seat_two_links:
  assumes "a \<noteq> b" and "free a w" and "free b w"
  obtains w' where "seat_two a b r w = Some (r\<lparr>rm_two := rm_two r @ [(a, b)]\<rparr>, w')"
    and "reseated a (Some b) None w w'" and "reseated b None (Some a) w w'"
    and "\<And>x. x \<notin> {a, b} \<Longrightarrow> player_at x w' = player_at x w"
proof -
  obtain pa pb where p: "player_at a w = Some pa" "player_at b w = Some pb"
    "p_left pa = None" "p_right pa = None" "p_left pb = None" "p_right pb = None"
    using assms(2,3) by (auto simp: free_def)
  let ?d = "getIntConfig CONFIG_WAIT_TIME w"
  let ?w = "put_player a (pa\<lparr>p_left := Some b, p_expiration := ?d\<rparr>) (put_player b (pb\<lparr>p_right := Some a\<rparr>)
     (put_player a (pa\<lparr>p_left := Some b\<rparr>) w))"
  have "seat_two a b r w = Some (r\<lparr>rm_two := rm_two r @ [(a, b)]\<rparr>, ?w)"
    using p assms(1) by (simp add: seat_two_def Player_addPlayer_def modify_player_def)
  moreover have "reseated a (Some b) None w ?w"
    using p assms(1) by (auto simp: reseated_def intro!: exI [of _ ?d])
  moreover have "reseated b None (Some a) w ?w"
    using p assms(1) by (auto simp: reseated_def intro!: exI [of _ "p_expiration pb"])
  ultimately show thesis using that by auto
qed

lemma free_pop:
  assumes "rm_one r = a # rest" and "free a w"
  shows "Room_getPlayerFromOne r w = Some (Some a, r\<lparr>rm_one := rest\<rparr>, w)"
  using assms by (auto simp: Room_getPlayerFromOne_def free_def)

lemma free_frame: "player_at x w' = player_at x w \<Longrightarrow> free x w' = free x w"
  by (simp add: free_def)

text \<open>The tables \<^verbatim>\<open>UpdateOne\<close> forms of a list of waiting players, and who is left.\<close>

fun tables_of :: "nat list \<Rightarrow> (nat \<times> nat \<times> nat) list" where
  "tables_of (a # b # c # rest) = (a, b, c) # tables_of rest"
| "tables_of [] = []"
| "tables_of [a] = []"
| "tables_of [a, b] = []"

fun left_over :: "nat list \<Rightarrow> nat list" where
  "left_over (a # b # c # rest) = left_over rest"
| "left_over xs = xs"

lemma tables_of_in: "(a, b, c) \<in> set (tables_of xs) \<Longrightarrow> a \<in> set xs \<and> b \<in> set xs \<and> c \<in> set xs"
  by (induction xs rule: tables_of.induct) auto

lemma left_over_in: "set (left_over xs) \<subseteq> set xs"
  by (induction xs rule: left_over.induct) auto

lemma linked_frame:
  assumes "linked (a, b, c) w1 w'" and "\<And>x. x \<in> {a, b, c} \<Longrightarrow> player_at x w1 = player_at x w"
  shows "linked (a, b, c) w w'"
  using assms by (auto simp: linked_def reseated_def)

definition waits :: "nat list \<Rightarrow> world \<Rightarrow> bool" where
  "waits xs w \<longleftrightarrow> (\<forall>a p. left_over xs = [a] \<longrightarrow> player_at a w = Some p \<longrightarrow> \<not> Player_expiration p)"

definition matched :: "nat list \<Rightarrow> room \<Rightarrow> room" where
  "matched xs r = r\<lparr>rm_one := (if length (left_over xs) = 1 then left_over xs else []),
     rm_two := rm_two r @ (case left_over xs of [a, b] \<Rightarrow> [(a, b)] | _ \<Rightarrow> []),
     rm_three := rm_three r @ map (\<lambda>(a, b, c). ((a, b), c)) (tables_of xs)\<rparr>"

lemma UpdateOne_matches:
  assumes "rm_one r = xs" and "distinct xs" and "\<forall>x \<in> set xs. free x w" and "waits xs w"
  shows "\<exists>w'. Room_UpdateOne r w = Some (matched xs r, w') \<and>
    (\<forall>t \<in> set (tables_of xs). linked t w w') \<and>
    (\<forall>a b. left_over xs = [a, b] \<longrightarrow> reseated a (Some b) None w w' \<and> reseated b None (Some a) w w') \<and>
    (\<forall>x. x \<notin> set xs \<longrightarrow> player_at x w' = player_at x w)"
  using assms
proof (induction xs arbitrary: r w rule: tables_of.induct)
  case (1 a b c rest)
  let ?r1 = "r\<lparr>rm_one := b # c # rest\<rparr>" and ?r3 = "r\<lparr>rm_one := rest\<rparr>"
  have pop: "Room_getPlayerFromOne r w = Some (Some a, ?r1, w)"
    "Room_getPlayerFromOne ?r1 w = Some (Some b, r\<lparr>rm_one := c # rest\<rparr>, w)"
    "Room_getPlayerFromOne (r\<lparr>rm_one := c # rest\<rparr>) w = Some (Some c, ?r3, w)"
    using free_pop [of r a "b # c # rest" w] free_pop [of ?r1 b "c # rest" w]
      free_pop [of "r\<lparr>rm_one := c # rest\<rparr>" c rest w] 1(2,4) by simp_all
  have "distinct [a, b, c]" "free a w" "free b w" "free c w" using 1(3,4) by auto
  then obtain w1 where w1: "seat_three a b c ?r3 w = Some (?r3\<lparr>rm_three := rm_three ?r3 @ [((a, b), c)]\<rparr>, w1)"
    "linked (a, b, c) w w1" "\<And>x. x \<notin> {a, b, c} \<Longrightarrow> player_at x w1 = player_at x w"
    using seat_three_links by blast
  let ?r4 = "?r3\<lparr>rm_three := rm_three ?r3 @ [((a, b), c)]\<rparr>"
  have keep: "player_at x w1 = player_at x w" if "x \<in> set rest" for x
  proof (rule w1(3))
    show "x \<notin> {a, b, c}" using 1(3) that by auto
  qed
  then have free: "\<forall>x \<in> set rest. free x w1" using 1(4) by (simp add: free_def)
  have "waits rest w1"
    using 1(5) keep left_over_in [of rest] unfolding waits_def by (metis left_over.simps(1) list.set_intros(1) subsetD)
  with 1(1) [of ?r4 w1] 1(3) free obtain w' where
    ih: "Room_UpdateOne ?r4 w1 = Some (matched rest ?r4, w')"
    "\<forall>t \<in> set (tables_of rest). linked t w1 w'"
    "\<forall>a b. left_over rest = [a, b] \<longrightarrow> reseated a (Some b) None w1 w' \<and> reseated b None (Some a) w1 w'"
    "\<forall>x. x \<notin> set rest \<longrightarrow> player_at x w' = player_at x w1" by auto
  have "Room_UpdateOne r w = Room_UpdateOne ?r4 w1"
    using 1(2) pop w1(1) by (subst Room_UpdateOne.simps) simp
  also have "\<dots> = Some (matched (a # b # c # rest) r, w')"
    unfolding ih(1) by (simp add: matched_def)
  finally have res: "Room_UpdateOne r w = Some (matched (a # b # c # rest) r, w')" .
  have "player_at x w' = player_at x w1" if "x \<in> {a, b, c}" for x
    using ih(4) 1(3) that by auto
  then have first: "linked (a, b, c) w w'"
    using w1(2) unfolding linked_def reseated_def by auto
  have others: "linked t w w'" if "t \<in> set (tables_of rest)" for t
    using ih(2) that keep tables_of_in [of "fst t" "fst (snd t)" "snd (snd t)" rest]
      linked_frame [of "fst t" "fst (snd t)" "snd (snd t)" w1 w' w] by auto
  have pair: "reseated a' (Some b') None w w' \<and> reseated b' None (Some a') w w'"
    if "left_over rest = [a', b']" for a' b'
    using ih(3) that keep [of a'] keep [of b'] left_over_in [of rest] by (auto simp: reseated_def)
  show ?case
    using res first others pair ih(4) w1(3) by (intro exI [of _ w']) auto
next
  case 2
  then show ?case by (subst Room_UpdateOne.simps) (auto simp: matched_def intro!: exI [of _ w])
next
  case (3 a)
  obtain p where p: "player_at a w = Some p" using 3 by (auto simp: free_def)
  have "\<not> Player_expiration p" using 3(4) p by (simp add: waits_def)
  moreover have "Room_getPlayerFromOne r w = Some (Some a, r\<lparr>rm_one := []\<rparr>, w)"
    using 3 by (intro free_pop) auto
  ultimately have "Room_UpdateOne r w = Some (matched [a] r, w)"
    using 3(1) p by (subst Room_UpdateOne.simps) (simp add: matched_def)
  then show ?case by auto
next
  case (4 a b)
  have "a \<noteq> b" "free a w" "free b w" using 4 by auto
  then obtain w1 where w1: "seat_two a b (r\<lparr>rm_one := []\<rparr>) w = Some (r\<lparr>rm_one := [], rm_two := rm_two r @ [(a, b)]\<rparr>, w1)"
    "reseated a (Some b) None w w1" "reseated b None (Some a) w w1"
    "\<And>x. x \<notin> {a, b} \<Longrightarrow> player_at x w1 = player_at x w"
    using seat_two_links [of a b w "r\<lparr>rm_one := []\<rparr>"] by auto
  have pop: "Room_getPlayerFromOne r w = Some (Some a, r\<lparr>rm_one := [b]\<rparr>, w)"
    "Room_getPlayerFromOne (r\<lparr>rm_one := [b]\<rparr>) w = Some (Some b, r\<lparr>rm_one := []\<rparr>, w)"
    using free_pop [of r a "[b]" w] free_pop [of "r\<lparr>rm_one := [b]\<rparr>" b "[]" w] 4 by simp_all
  have "Room_UpdateOne r w = Room_UpdateOne (r\<lparr>rm_one := [], rm_two := rm_two r @ [(a, b)]\<rparr>) w1"
    using 4(1) pop w1(1) by (subst Room_UpdateOne.simps) simp
  also have "\<dots> = Some (matched [a, b] r, w1)"
    by (subst Room_UpdateOne.simps) (simp add: matched_def)
  finally show ?case using w1 by auto
qed

section \<open>Dealing\<close>

text \<open>A hand that is ready to be dealt to: what stays behind the 20 cards is terminated.\<close>

definition empty_hand :: "player \<Rightarrow> bool" where
  "empty_hand p \<longleftrightarrow> length (p_cards p) = 24 \<and> p_cards p ! 20 = CARD_TERMINATE"

lemma Player_dealCards_ok:
  assumes "player_at a w = Some p" and "empty_hand p"
    and "length own = 17" and "length base = 3" and "CARD_TERMINATE \<notin> set own \<union> set base"
  obtains q where "Player_dealCards (own @ suffix) base a w = Some (put_player a q w)"
    "hand_of (p_cards q) = own @ base" "p_gameStatus q = GAME_STATUS_DEALING_CARD"
proof -
  let ?cards = "overwrite CARD_NUMBER (take 3 base) (overwrite 0 (take CARD_NUMBER (own @ suffix)) (p_cards p))"
  have cards: "?cards = (own @ base) @ drop 20 (p_cards p)"
    using assms(2-4) by (simp add: overwrite_def CARD_NUMBER_def empty_hand_def)
  have "drop 20 (p_cards p) = CARD_TERMINATE # drop 21 (p_cards p)"
    using assms(2) Cons_nth_drop_Suc [of 20 "p_cards p"] by (simp add: empty_hand_def)
  then have "hand_of ?cards = own @ base"
    using assms(5) by (simp only: cards) (simp add: hand_of_append del: append_assoc)
  then show thesis
    using assms(1,3,4)
    by (intro that [of "p\<lparr>p_cards := ?cards, p_gameStatus := GAME_STATUS_DEALING_CARD\<rparr>"])
      (simp_all add: Player_dealCards_def modify_player_def CARD_NUMBER_def)
qed

lemma deal_partition:
  fixes cs :: "'a list"
  shows "take 17 cs @ take 17 (drop 17 cs) @ take 17 (drop 34 cs) @ drop 51 cs = cs"
  using append_take_drop_id [of 17 cs] append_take_drop_id [of 17 "drop 17 cs"]
    append_take_drop_id [of 17 "drop 34 cs"] by simp

lemma Room_dealCards_ok:
  assumes seats: "seats a b c pa pb pc w" and "empty_hand pa" and "empty_hand pb" and "empty_hand pc"
  shows "\<exists>w' qa qb qc ha hb hc base. Room_dealCards ((a, b), c) w = Some w' \<and> seats a b c qa qb qc w' \<and>
    hand_of (p_cards qa) = ha @ base \<and> hand_of (p_cards qb) = hb @ base \<and> hand_of (p_cards qc) = hc @ base \<and>
    length ha = 17 \<and> length hb = 17 \<and> length hc = 17 \<and> length base = 3 \<and>
    mset (ha @ hb @ hc @ base) = mset new_deck \<and>
    (\<forall>q \<in> {qa, qb, qc}. p_gameStatus q = GAME_STATUS_DEALING_CARD)"
proof -
  let ?cs = "shuffleCard (\<lambda>i. w_rand w (w_ridx w + i))"
  let ?w = "w\<lparr>w_ridx := w_ridx w + 54\<rparr>"
  have cs: "length ?cs = 54" "mset ?cs = mset new_deck" using shuffle_invariant by blast+
  have no: "CARD_TERMINATE \<notin> set ?cs"
    using cs(2) new_deck_below by (metis less_irrefl set_mset_mset)
  define ha hb hc base where "ha = take 17 ?cs" and "hb = take 17 (drop 17 ?cs)"
    and "hc = take 17 (drop 34 ?cs)" and "base = drop 51 ?cs"
  have len: "length ha = 17" "length hb = 17" "length hc = 17" "length base = 3"
    using cs(1) by (simp_all add: ha_def hb_def hc_def base_def)
  have part: "ha @ hb @ hc @ base = ?cs"
    using deal_partition [of ?cs] by (simp add: ha_def hb_def hc_def base_def)
  have free: "CARD_TERMINATE \<notin> set ha \<union> set base" "CARD_TERMINATE \<notin> set hb \<union> set base"
    "CARD_TERMINATE \<notin> set hc \<union> set base"
    using no unfolding part [symmetric] by simp_all
  have drops: "?cs = ha @ hb @ hc @ base" "drop 17 ?cs = hb @ hc @ base" "drop 34 ?cs = hc @ base"
    "drop 51 ?cs = base"
    unfolding part [symmetric] using len by simp_all
  note s = seats [unfolded seats_def]
  obtain qa where qa: "Player_dealCards (ha @ hb @ hc @ base) base a ?w = Some (put_player a qa ?w)"
    "hand_of (p_cards qa) = ha @ base" "p_gameStatus qa = GAME_STATUS_DEALING_CARD"
    using Player_dealCards_ok [of a ?w pa ha base "hb @ hc @ base"] s assms(2) len free by auto
  let ?w1 = "put_player a qa ?w"
  obtain qb where qb: "Player_dealCards (hb @ hc @ base) base b ?w1 = Some (put_player b qb ?w1)"
    "hand_of (p_cards qb) = hb @ base" "p_gameStatus qb = GAME_STATUS_DEALING_CARD"
    using Player_dealCards_ok [of b ?w1 pb hb base "hc @ base"] s assms(3) len free by auto
  let ?w2 = "put_player b qb ?w1"
  obtain qc where qc: "Player_dealCards (hc @ base) base c ?w2 = Some (put_player c qc ?w2)"
    "hand_of (p_cards qc) = hc @ base" "p_gameStatus qc = GAME_STATUS_DEALING_CARD"
    using Player_dealCards_ok [of c ?w2 pc hc base "base"] s assms(4) len free by auto
  have "Room_dealCards ((a, b), c) w = Some (put_player c qc ?w2)"
    using qa(1) qb(1) qc(1) unfolding Room_dealCards_def Let_def prod.case drops(2-4)
    by (simp add: drops(1) [symmetric] part)
  moreover have "seats a b c qa qb qc (put_player c qc ?w2)"
    using s by (simp add: seats_def)
  moreover have "mset (ha @ hb @ hc @ base) = mset new_deck" by (simp only: part cs(2))
  ultimately show ?thesis
    using qa(2,3) qb(2,3) qc(2,3) len
    by (intro exI [of _ "put_player c qc ?w2"] exI [of _ qa] exI [of _ qb] exI [of _ qc]
        exI [of _ ha] exI [of _ hb] exI [of _ hc] exI [of _ base]) simp
qed

section \<open>The pool\<close>

lemma getAiPlayer_pooled:
  assumes "w_pool w = as @ [a]" and "player_at a w = Some p"
  obtains w' q where "AiPlayerPool_getAiPlayer roomid w = Some (a, w')" and "w_pool w' = as"
    and "player_at a w' = Some q" and "q = Player_setStart ((Player_loadData (p_info q) p)\<lparr>p_playerType := PLAYER_TYPE_AI\<rparr>)"
    and "pi_gold (p_info q) = getIntConfig (unat (word_of_nat CONFIG_ROOM1_GOLD + roomid)) w"
    and "\<exists>r. pi_id (p_info q) = 2000 + word_of_nat (r mod 100)"
    and "\<forall>x. x \<noteq> a \<longrightarrow> player_at x w' = player_at x w"
proof -
  let ?pi = "ai_info roomid (w_rand w (w_ridx w)) (w_rand w (Suc (w_ridx w)))
    (getIntConfig (unat (word_of_nat CONFIG_ROOM1_GOLD + roomid)) w)"
  let ?q = "Player_setStart ((Player_loadData ?pi p)\<lparr>p_playerType := PLAYER_TYPE_AI\<rparr>)"
  let ?w = "put_player a ?q (w\<lparr>w_pool := as, w_ridx := Suc (Suc (w_ridx w))\<rparr>)"
  have at: "player_at x (w\<lparr>w_pool := as, w_ridx := n\<rparr>) = player_at x w" for x n
    by (simp add: player_at_def)
  have "AiPlayerPool_getAiPlayer roomid w = Some (a, ?w)"
    using assms at
    by (simp add: AiPlayerPool_getAiPlayer_def AiPlayerPool_configureAiPlayer_def rand_call_def Let_def
        modify_player_def getIntConfig_def)
  moreover have "Player_setStart ((Player_loadData (p_info ?q) p)\<lparr>p_playerType := PLAYER_TYPE_AI\<rparr>) = ?q"
    by (simp add: Player_setStart_def Player_loadData_def)
  moreover have "pi_gold (p_info ?q) = getIntConfig (unat (word_of_nat CONFIG_ROOM1_GOLD + roomid)) w"
    and "pi_id (p_info ?q) = 2000 + word_of_nat (w_rand w (w_ridx w) mod 100)"
    by (simp_all add: Player_setStart_def Player_loadData_def ai_info_def Let_def)
  ultimately show thesis
    using at by (intro that [of ?w ?q]) auto
qed

text \<open>Fresh addresses are unused.\<close>

definition fresh_ok :: "world \<Rightarrow> bool" where
  "fresh_ok w \<longleftrightarrow> (\<forall>a \<ge> w_next w. player_at a w = None)"

lemma getAiPlayer_fresh:
  assumes "w_pool w = []"
  obtains w' q where "AiPlayerPool_getAiPlayer roomid w = Some (w_next w, w')" and "w_pool w' = []"
    and "player_at (w_next w) w' = Some q" and "p_playerType q = PLAYER_TYPE_AI"
    and "p_gameStatus q = GAME_STATUS_STARTING" and "Player_started q" and "p_left q = None" and "p_right q = None"
    and "\<forall>x. x \<noteq> w_next w \<longrightarrow> player_at x w' = player_at x w"
proof -
  let ?a = "w_next w"
  let ?p = "Player_init None (getIntConfig CONFIG_WAIT_TIME w) (getIntConfig CONFIG_AI_DELAY w) (w_mem w ?a)"
  let ?w0 = "(put_player ?a ?p (w\<lparr>w_next := Suc ?a\<rparr>))\<lparr>w_pool := [?a]\<rparr>"
  have same: "AiPlayerPool_getAiPlayer roomid w = AiPlayerPool_getAiPlayer roomid ?w0"
    using assms by (simp add: AiPlayerPool_getAiPlayer_def Player_new_def Let_def)
  have at: "player_at x ?w0 = (if x = ?a then Some ?p else player_at x w)" for x
    by (simp add: player_at_def put_player_def)
  have "w_pool ?w0 = [] @ [?a]" and "player_at ?a ?w0 = Some ?p" by (simp_all add: at)
  then obtain w' q where w': "AiPlayerPool_getAiPlayer roomid ?w0 = Some (?a, w')" "w_pool w' = []"
    "player_at ?a w' = Some q" "q = Player_setStart ((Player_loadData (p_info q) ?p)\<lparr>p_playerType := PLAYER_TYPE_AI\<rparr>)"
    "pi_gold (p_info q) = getIntConfig (unat (word_of_nat CONFIG_ROOM1_GOLD + roomid)) ?w0"
    "\<exists>r. pi_id (p_info q) = 2000 + word_of_nat (r mod 100)"
    "\<forall>x. x \<noteq> ?a \<longrightarrow> player_at x w' = player_at x ?w0"
    by (rule getAiPlayer_pooled [where roomid = roomid])
  have "p_playerType q = PLAYER_TYPE_AI" "p_gameStatus q = GAME_STATUS_STARTING" "Player_started q"
    "p_left q = None" "p_right q = None"
    by (subst w'(4), simp add: Player_setStart_def Player_loadData_def Player_init_def Player_started_def)+
  with w'(1-3,7) at show thesis by (intro that [of w' q]) (auto simp: same)
qed

section \<open>Properties\<close>

text \<open>
  C4. Matchmaking of waiting players. With live players without neighbours in the
  one-player list (a single one still within its time), \<^verbatim>\<open>UpdateOne\<close> terminates: every
  three, in the order of the list, become a table whose seats are linked in a ring, a remaining two
  become a linked pair, a remaining one goes on waiting, the other lists only grow, and no other
  player is touched.
\<close>

theorem waiting_players_matched:
  assumes "distinct (rm_one r)" and "\<forall>x \<in> set (rm_one r). free x w" and "waits (rm_one r) w"
  shows "\<exists>w'. Room_UpdateOne r w = Some (matched (rm_one r) r, w') \<and>
    (\<forall>t \<in> set (tables_of (rm_one r)). linked t w w') \<and>
    (\<forall>a b. left_over (rm_one r) = [a, b] \<longrightarrow>
       reseated a (Some b) None w w' \<and> reseated b None (Some a) w w') \<and>
    (\<forall>x. x \<notin> set (rm_one r) \<longrightarrow> player_at x w' = player_at x w)"
  using UpdateOne_matches [OF refl assms] .

theorem waiting_players_matched_witness:
  "\<exists>r' w'. Room_UpdateOne ((Room_new 0 5000)\<lparr>rm_one := [1, 2, 3, 4, 5]\<rparr>)
      ((demo_world demo_user demo_user demo_user)\<lparr>w_players := (\<lambda>a. Some demo_user)\<rparr>) = Some (r', w') \<and>
    rm_three r' = [((1, 2), 3)] \<and> rm_two r' = [(4, 5)] \<and> rm_one r' = []"
proof -
  let ?r = "(Room_new 0 5000)\<lparr>rm_one := [1, 2, 3, 4, 5]\<rparr>"
  let ?w = "(demo_world demo_user demo_user demo_user)\<lparr>w_players := (\<lambda>a. Some demo_user)\<rparr>"
  have "\<forall>x \<in> set (rm_one ?r). free x ?w"
    by (simp add: free_def player_at_def demo_user_def Player_init_def Player_LogOut_def)
  with waiting_players_matched [of ?r ?w] show ?thesis
    by (auto simp: waits_def matched_def Room_new_def)
qed

text \<open>
  C14. The deal. At a table with emptied hands the room gives the three players 17
  cards each and all three the same last three cards; the three hands and the three base cards
  together are exactly the 54 cards of the deck, whatever \<^verbatim>\<open>rand()\<close> returns, and all three
  players are \<^verbatim>\<open>DEALING_CARD\<close>. So each hand has 20 cards, the later farmers' too.
\<close>

theorem table_dealt:
  assumes "seats a b c pa pb pc w" and "empty_hand pa" and "empty_hand pb" and "empty_hand pc"
  shows "\<exists>w' qa qb qc ha hb hc base. Room_dealCards ((a, b), c) w = Some w' \<and> seats a b c qa qb qc w' \<and>
    hand_of (p_cards qa) = ha @ base \<and> hand_of (p_cards qb) = hb @ base \<and> hand_of (p_cards qc) = hc @ base \<and>
    length ha = 17 \<and> length hb = 17 \<and> length hc = 17 \<and> length base = 3 \<and>
    mset (ha @ hb @ hc @ base) = mset new_deck \<and>
    (\<forall>q \<in> {qa, qb, qc}. p_gameStatus q = GAME_STATUS_DEALING_CARD)"
  using Room_dealCards_ok [OF assms] .

theorem table_dealt_witness:
  "\<exists>w' p. Room_dealCards ((1, 2), 3) (demo_world demo_user (demo_ai 8) (demo_ai 9)) = Some w' \<and>
    player_at 3 w' = Some p \<and> length (hand_of (p_cards p)) = 20"
proof -
  have seats: "seats 1 2 3 (demo_user\<lparr>p_left := Some 2, p_right := Some 3\<rparr>)
      ((demo_ai 8)\<lparr>p_left := Some 3, p_right := Some 1\<rparr>) ((demo_ai 9)\<lparr>p_left := Some 1, p_right := Some 2\<rparr>)
      (demo_world demo_user (demo_ai 8) (demo_ai 9))"
    by (simp add: seats_def player_at_def demo_world_def)
  have hands: "empty_hand (demo_user\<lparr>p_left := x, p_right := y\<rparr>)" "empty_hand ((demo_ai i)\<lparr>p_left := x, p_right := y\<rparr>)"
    for x y i
    by (simp_all add: empty_hand_def demo_user_def demo_ai_def Player_init_def CARD_NUMBER_def
        BASIC_CARD_def CARD_TERMINATE_def nth_append)
  obtain w' qa qb qc ha hb hc base where
    "Room_dealCards ((1, 2), 3) (demo_world demo_user (demo_ai 8) (demo_ai 9)) = Some w'"
    "seats 1 2 3 qa qb qc w'" "hand_of (p_cards qc) = hc @ base" "length hc = 17" "length base = 3"
    using table_dealt [OF seats hands(1,2,2)] by blast
  then show ?thesis by (auto simp: seats_def)
qed

text \<open>
  The pool of computers. Taking a player from the pool never fails while the
  pool's players are alive: it returns the one released last, or a new one when the pool is empty,
  as a started computer, and touches no other player; so a released player is the next one handed
  out.
\<close>

theorem pool_hands_out_last:
  assumes "player_at a w = Some p"
  shows "\<exists>w' q. AiPlayerPool_getAiPlayer roomid (AiPlayerPool_releasePlayer a w) = Some (a, w') \<and>
    w_pool w' = w_pool w \<and> player_at a w' = Some q \<and> p_playerType q = PLAYER_TYPE_AI \<and>
    p_gameStatus q = GAME_STATUS_STARTING \<and> Player_started q \<and>
    (\<forall>x. x \<noteq> a \<longrightarrow> player_at x w' = player_at x w)"
proof -
  let ?w = "AiPlayerPool_releasePlayer a w"
  have at: "player_at x ?w = player_at x w" for x
    by (simp add: AiPlayerPool_releasePlayer_def player_at_def)
  have "w_pool ?w = w_pool w @ [a]" and "player_at a ?w = Some p"
    by (simp_all add: AiPlayerPool_releasePlayer_def at [unfolded AiPlayerPool_releasePlayer_def] assms)
  then obtain w' q where w': "AiPlayerPool_getAiPlayer roomid ?w = Some (a, w')" "w_pool w' = w_pool w"
    "player_at a w' = Some q" "q = Player_setStart ((Player_loadData (p_info q) p)\<lparr>p_playerType := PLAYER_TYPE_AI\<rparr>)"
    "pi_gold (p_info q) = getIntConfig (unat (word_of_nat CONFIG_ROOM1_GOLD + roomid)) ?w"
    "\<exists>r. pi_id (p_info q) = 2000 + word_of_nat (r mod 100)"
    "\<forall>x. x \<noteq> a \<longrightarrow> player_at x w' = player_at x ?w"
    by (rule getAiPlayer_pooled [where roomid = roomid])
  have "p_playerType q = PLAYER_TYPE_AI" "p_gameStatus q = GAME_STATUS_STARTING" "Player_started q"
    by (subst w'(4), simp add: Player_setStart_def Player_loadData_def Player_started_def)+
  with w'(1-3,7) at show ?thesis by auto
qed

theorem pool_hands_out_last_witness:
  "\<exists>w' q. AiPlayerPool_getAiPlayer 0 (AiPlayerPool_releasePlayer 2 (demo_world demo_user (demo_ai 8) (demo_ai 9)))
     = Some (2, w') \<and> player_at 2 w' = Some q \<and> Player_started q"
proof -
  have "player_at 2 (demo_world demo_user (demo_ai 8) (demo_ai 9)) =
      Some ((demo_ai 8)\<lparr>p_left := Some 3, p_right := Some 1\<rparr>)"
    by (simp add: player_at_def demo_world_def)
  from pool_hands_out_last [OF this] show ?thesis by blast
qed

text \<open>
  A room updates only one player per id. The key of \<^verbatim>\<open>_playerMap\<close> is the
  player's id, and computers draw theirs from the hundred numbers from 2000: adding a computer whose
  id is in use replaces the other player's entry, so that player is not updated any more.
\<close>

theorem same_id_evicts:
  assumes "(i, a) \<in> set (rm_playerMap r)" and "b \<noteq> a" and "\<forall>j. (j, a) \<in> set (rm_playerMap r) \<longrightarrow> j = i"
  shows "\<exists>r'. Room_AddPlayer i b False r w = Some (r', w) \<and>
    a \<notin> snd ` set (rm_playerMap r') \<and> (i, b) \<in> set (rm_playerMap r') \<and>
    length (rm_playerMap r') = length (rm_playerMap r)"
proof -
  let ?m = "map (\<lambda>(k, v). if k = i then (k, b) else (k, v)) (rm_playerMap r)"
  have "i \<in> fst ` set (rm_playerMap r)" using assms(1) by (metis fst_conv image_eqI)
  then have "Room_AddPlayer i b False r w = Some (r\<lparr>rm_playerMap := ?m\<rparr>, w)"
    by (simp add: Room_AddPlayer_def map_assign_def)
  moreover have "a \<notin> snd ` set ?m"
  proof
    assume "a \<in> snd ` set ?m"
    then obtain k v where kv: "(k, v) \<in> set (rm_playerMap r)" "a = (if k = i then b else v)"
      by (auto split: if_splits)
    then have "k \<noteq> i" using assms(2) by auto
    with kv have "(k, a) \<in> set (rm_playerMap r)" by simp
    with assms(3) \<open>k \<noteq> i\<close> show False by blast
  qed
  moreover have "(i, b) \<in> set ?m"
  proof -
    have "(\<lambda>(k, v). if k = i then (k, b) else (k, v)) (i, a) \<in> set ?m"
      using assms(1) by (metis (no_types, lifting) image_eqI set_map)
    then show ?thesis by simp
  qed
  ultimately show ?thesis by (intro exI [of _ "r\<lparr>rm_playerMap := ?m\<rparr>"]) simp
qed

theorem same_id_evicts_witness:
  "\<exists>r'. Room_AddPlayer 2042 12 False ((Room_new 0 5000)\<lparr>rm_playerMap := [(7, 10), (2042, 11)]\<rparr>)
      (demo_world demo_user (demo_ai 8) (demo_ai 9)) = Some (r', demo_world demo_user (demo_ai 8) (demo_ai 9)) \<and>
    11 \<notin> snd ` set (rm_playerMap r')"
  using same_id_evicts [of 2042 11 "(Room_new 0 5000)\<lparr>rm_playerMap := [(7, 10), (2042, 11)]\<rparr>" 12
      "demo_world demo_user (demo_ai 8) (demo_ai 9)"] by auto

text \<open>
  A waiting player can be lost. When one of the two waiting players has logged
  out, \<^verbatim>\<open>UpdateOne\<close> pops both and goes on with the next round of its loop: the other, live
  player is in no list any more although its queue flag still says it is waiting.
\<close>

theorem waiting_player_lost:
  assumes "rm_one r = [a, b]" and "a \<noteq> b" and "player_at a w = Some pa" and "Player_LogOut pa"
    and "player_at b w = Some pb" and "\<not> Player_LogOut pb"
  shows "\<exists>w'. Room_UpdateOne r w = Some (r\<lparr>rm_one := []\<rparr>, w') \<and> player_at b w' = Some pb \<and>
    player_at a w' = None"
proof -
  let ?w = "w\<lparr>w_players := (w_players w)(a := None)\<rparr>"
  have "Room_getPlayerFromOne r w = Some (None, r\<lparr>rm_one := [b]\<rparr>, ?w)"
    using assms by (simp add: Room_getPlayerFromOne_def delete_player_def)
  moreover have b: "player_at b ?w = Some pb" using assms by (simp add: player_at_def)
  then have "Room_getPlayerFromOne (r\<lparr>rm_one := [b]\<rparr>) ?w = Some (Some b, r\<lparr>rm_one := []\<rparr>, ?w)"
    using assms by (simp add: Room_getPlayerFromOne_def)
  moreover have "Room_UpdateOne (r\<lparr>rm_one := []\<rparr>) ?w = Some (r\<lparr>rm_one := []\<rparr>, ?w)"
    by (subst Room_UpdateOne.simps) simp
  ultimately have "Room_UpdateOne r w = Some (r\<lparr>rm_one := []\<rparr>, ?w)"
    using assms(1) by (subst Room_UpdateOne.simps) simp
  with b show ?thesis by (simp add: player_at_def)
qed

theorem waiting_player_lost_witness:
  "\<exists>r' w'. Room_UpdateOne ((Room_new 0 5000)\<lparr>rm_one := [1, 2]\<rparr>)
      (demo_world (demo_user\<lparr>p_gameStatus := GAME_STATUS_LOG_OUTED\<rparr>) demo_user (demo_ai 9)) = Some (r', w') \<and>
    rm_one r' = [] \<and> rm_two r' = [] \<and> player_at 2 w' \<noteq> None"
proof -
  let ?r = "(Room_new 0 5000)\<lparr>rm_one := [1, 2]\<rparr>"
  let ?u = "demo_user\<lparr>p_gameStatus := GAME_STATUS_LOG_OUTED\<rparr>"
  let ?w = "demo_world ?u demo_user (demo_ai 9)"
  have p: "player_at 1 ?w = Some (?u\<lparr>p_left := Some 2, p_right := Some 3\<rparr>)"
    "player_at 2 ?w = Some (demo_user\<lparr>p_left := Some 3, p_right := Some 1\<rparr>)"
    by (simp_all add: player_at_def demo_world_def)
  have q: "rm_one ?r = [1, 2]" "(1::nat) \<noteq> 2" "Player_LogOut (?u\<lparr>p_left := Some 2, p_right := Some 3\<rparr>)"
    "\<not> Player_LogOut (demo_user\<lparr>p_left := Some 3, p_right := Some 1\<rparr>)"
    by (simp_all add: Player_LogOut_def demo_user_def Player_init_def)
  obtain w' where w': "Room_UpdateOne ?r ?w = Some (?r\<lparr>rm_one := []\<rparr>, w')" "player_at 2 w' \<noteq> None"
    using waiting_player_lost [OF q(1,2) p(1) q(3) p(2) q(4)] by (metis option.distinct(1))
  show ?thesis
    by (rule exI [of _ "?r\<lparr>rm_one := []\<rparr>"], rule exI [of _ w'], intro conjI, rule w'(1), simp,
        simp add: Room_new_def, rule w'(2))
qed

end
