(* ===== verification/Sessions.thy ===== *)
theory Sessions
  imports Room
begin

text \<open>
  Sessions: the packet handlers of a connection (\<^verbatim>\<open>Server/WorldSocket.cpp\<close>) and of a
  session (\<^verbatim>\<open>Server/WorldSession.cpp\<close>, dispatched by the table of
  \<^verbatim>\<open>Server/Protocol/Opcodes.cpp\<close>), the room manager
  (\<^verbatim>\<open>Room/RoomManager.cpp\<close>) and the world (\<^verbatim>\<open>World/World.cpp\<close>), all under
  \<^verbatim>\<open>src/server/game/\<close>. The rooms of the manager are updated one after the other.
\<close>

section \<open>Opcodes\<close>

datatype opcode_handler =
    Handle_NULL | HandlePlayerLogin | HandleWaitStart | HandleGrabLandlord | HandleOutCards
  | HandleRoundOver | HandlLogout

definition opcodeTable :: "(string \<times> opcode_handler) list" where
  "opcodeTable =
     [(''CMSG_PLAYER_LOGIN'', HandlePlayerLogin),
      (''SMSG_DESK_TWO'', Handle_NULL),
      (''SMSG_DESK_THREE'', Handle_NULL),
      (''CMSG_WAIT_START'', HandleWaitStart),
      (''SMSG_CARD_DEAL'', Handle_NULL),
      (''CMSG_GRAD_LANDLORD'', HandleGrabLandlord),
      (''CMSG_DOUBLE_SCORE'', Handle_NULL),
      (''CMSG_SHOW_CARD'', Handle_NULL),
      (''CMSG_CARD_OUT'', HandleOutCards),
      (''CMSG_REQUEST_CARDS_LEFT'', Handle_NULL),
      (''CMSG_ROUND_OVER'', HandleRoundOver),
      (''CMSG_CHANGE_DESK'', Handle_NULL),
      (''CMSG_CHAT_SHORTCUT'', Handle_NULL),
      (''CMSG_CHAT_ICON'', Handle_NULL),
      (''CMSG_CHAT_CONTEXT'', Handle_NULL),
      (''CMSG_PING'', Handle_NULL),
      (''CMSG_LOG_OUT'', HandlLogout),
      (''CMSG_INCREMENT_GOLD'', Handle_NULL)]"

definition LookupOpcodeName :: "u16 \<Rightarrow> string" where
  "LookupOpcodeName i =
     (if unat i \<ge> unat NUM_MSG_TYPES then ''Received unknown opcode, it's more than max!''
      else fst (opcodeTable ! unat i))"

definition CMSG_PLAYER_LOGIN :: u32 where "CMSG_PLAYER_LOGIN = 0x00"
definition CMSG_PING :: u32 where "CMSG_PING = 0x0F"

section \<open>Session timers and queues\<close>

definition WorldSession_UpdateTimeOutTime :: "u32 \<Rightarrow> session \<Rightarrow> session" where
  "WorldSession_UpdateTimeOutTime diff s = s\<lparr>s_timeOutTime := s_timeOutTime s - diff\<rparr>"

definition WorldSession_ResetTimeOutTime :: "nat \<Rightarrow> world \<Rightarrow> world option" where
  "WorldSession_ResetTimeOutTime sa w = do {
     s \<leftarrow> sess_at sa w;
     Some (put_sess sa (s\<lparr>s_timeOutTime := getIntConfig CONFIG_SOCKET_TIMEOUTTIME w\<rparr>) w)
   }"

definition WorldSession_IsTimeOutTime :: "session \<Rightarrow> bool" where
  "WorldSession_IsTimeOutTime s \<longleftrightarrow> sint (s_timeOutTime s) \<le> 0"

definition WorldSession_QueuePacket :: "world_packet \<Rightarrow> nat \<Rightarrow> world \<Rightarrow> world option" where
  "WorldSession_QueuePacket packet sa w = do {
     s \<leftarrow> sess_at sa w;
     q \<leftarrow> LockedQueue_add packet (s_recvQueue s);
     Some (put_sess sa (s\<lparr>s_recvQueue := q\<rparr>) w)
   }"

definition WorldSession_new :: "u32 \<Rightarrow> nat option \<Rightarrow> world \<Rightarrow> nat \<times> world" where
  "WorldSession_new i sock w =
     (let a = w_next w;
          s = \<lparr>s_Socket = sock, s_accountId = i, s_player = None, s_recvQueue = LockedQueue_new,
               s_timeOutTime = (if sock \<noteq> None then getIntConfig CONFIG_SOCKET_TIMEOUTTIME w else 0),
               s_forceExit = False\<rparr>
      in (a, put_sess a s (w\<lparr>w_next := Suc a\<rparr>)))"

definition close_connection :: "nat \<Rightarrow> world \<Rightarrow> world option" where
  "close_connection ca w = do {
     c \<leftarrow> conn_at ca w;
     Some (put_conn ca (c\<lparr>cn_socket := Socket_CloseSocket (cn_socket c)\<rparr>) w)
   }"

text \<open>The destructor: the player is logged out, the socket closed, the received packets go.\<close>

definition WorldSession_delete :: "nat \<Rightarrow> world \<Rightarrow> world option" where
  "WorldSession_delete sa w = do {
     s \<leftarrow> sess_at sa w;
     w \<leftarrow> (case s_player s of None \<Rightarrow> Some w | Some a \<Rightarrow> Player_logOutPlayer a w);
     s \<leftarrow> sess_at sa w;
     w \<leftarrow> (case s_Socket s of None \<Rightarrow> Some w | Some ca \<Rightarrow> close_connection ca w);
     Some (w\<lparr>w_sessions := (w_sessions w)(sa := None)\<rparr>)
   }"

definition WorldSession_SendLoginError :: "u8 \<Rightarrow> nat \<Rightarrow> world \<Rightarrow> world option" where
  "WorldSession_SendLoginError code sa w = do {
     packet \<leftarrow> pkt_put 0 (WorldPacket_new CMSG_PLAYER_LOGIN);
     packet \<leftarrow> pkt_put 0 packet;
     packet \<leftarrow> pkt_put (ucast code) packet;
     WorldSession_SendPacket packet (Some sa) w
   }"

section \<open>The room manager\<close>

definition RoomManager_AddPlayer :: "u32 \<Rightarrow> nat \<Rightarrow> world \<Rightarrow> world option" where
  "RoomManager_AddPlayer roomid a w =
     (case map_of (w_rooms w) roomid of
        None \<Rightarrow> Some w
      | Some r \<Rightarrow> do {
          p \<leftarrow> player_at a w;
          (r, w) \<leftarrow> Room_AddPlayer (Player_getid p) a True r w;
          Some (w\<lparr>w_rooms := map_assign roomid r (w_rooms w)\<rparr>)
        })"

definition RoomManager_InitRooms :: "u32 \<Rightarrow> u32 \<Rightarrow> world \<Rightarrow> world" where
  "RoomManager_InitRooms num_rooms basic_score w =
     w\<lparr>w_rooms := fold (\<lambda>i m. map_assign (word_of_nat i) (Room_new (word_of_nat i) (basic_score * (word_of_nat i + 1))) m)
          [0..<unat num_rooms] (w_rooms w)\<rparr>"

definition RoomManager_Initialize :: "world \<Rightarrow> world" where
  "RoomManager_Initialize w =
     RoomManager_InitRooms (getIntConfig CONFIG_NUMBERROOMS w) (getIntConfig CONFIG_BASICSCORE w) w"

fun update_rooms :: "u32 \<Rightarrow> (u32 \<times> room) list \<Rightarrow> world \<Rightarrow> ((u32 \<times> room) list \<times> world) option" where
  "update_rooms diff [] w = Some ([], w)"
| "update_rooms diff ((i, r) # rest) w = do {
     (r, w) \<leftarrow> Room_Update diff r w;
     (rest, w) \<leftarrow> update_rooms diff rest w;
     Some ((i, r) # rest, w)
   }"

definition RoomManager_Update :: "u32 \<Rightarrow> world \<Rightarrow> world option" where
  "RoomManager_Update diff w = do {
     t \<leftarrow> IntervalTimer_Update (uint diff) (w_rm_timer w);
     let w = w\<lparr>w_rm_timer := t\<rparr>;
     if \<not> IntervalTimer_Passed t then Some w
     else do {
       (rooms, w) \<leftarrow> update_rooms (word_of_int (it_current t)) (w_rooms w) w;
       Some (w\<lparr>w_rooms := rooms, w_rm_timer := IntervalTimer_SetCurrent 0 (w_rm_timer w)\<rparr>)
     }
   }"

definition RoomManager_UnloadAll :: "world \<Rightarrow> world" where
  "RoomManager_UnloadAll w = w\<lparr>w_rooms := []\<rparr>"

section \<open>Names in log messages\<close>

definition DefaultPlayerName :: "u8 list" where
  "DefaultPlayerName = map (\<lambda>c. word_of_nat (of_char c)) ''<none>''"

text \<open>
  \<^verbatim>\<open>GetPlayerName\<close> streamed into a log message: the bytes up to the first zero. The name
  is the last member of the player; without a zero the read leaves the object.
\<close>

definition WorldSession_GetPlayerName :: "nat \<Rightarrow> world \<Rightarrow> u8 list option" where
  "WorldSession_GetPlayerName sa w = do {
     s \<leftarrow> sess_at sa w;
     case s_player s of
       None \<Rightarrow> Some DefaultPlayerName
     | Some a \<Rightarrow> do {
         p \<leftarrow> player_at a w;
         let name = pi_nick_name (p_info p);
         if 0 \<in> set name then Some (takeWhile (\<lambda>c. c \<noteq> 0) name) else None
       }
   }"

definition log_player_info :: "string \<Rightarrow> nat \<Rightarrow> world \<Rightarrow> world option" where
  "log_player_info filter_type sa w =
     (if w_logs w filter_type then do { name \<leftarrow> WorldSession_GetPlayerName sa w; Some w } else Some w)"

section \<open>Packet handlers of a session\<close>

definition read_u32 :: "world_packet \<Rightarrow> (u32 \<times> world_packet) option" where
  "read_u32 p = uncaught (bb_read LittleEndian p)"

definition read_bytes :: "nat \<Rightarrow> world_packet \<Rightarrow> (u8 list \<times> world_packet) option" where
  "read_bytes n p = uncaught (bb_read_bytes n p)"

definition WorldSession_HandlePlayerLogin :: "world_packet \<Rightarrow> nat \<Rightarrow> world \<Rightarrow> world option" where
  "WorldSession_HandlePlayerLogin recvPacket sa w = do {
     (spaceid, recvPacket) \<leftarrow> read_u32 recvPacket;
     (roomid, recvPacket) \<leftarrow> read_u32 recvPacket;
     (SameRoom, recvPacket) \<leftarrow> read_u32 recvPacket;
     (pInfo, recvPacket) \<leftarrow> read_bytes sizeof_PlayerInfo recvPacket;
     s \<leftarrow> sess_at sa w;
     let (a, w) = Player_new (Some sa) w;
     let w = put_sess sa (s\<lparr>s_player := Some a\<rparr>) w;
     w \<leftarrow> modify_player a (\<lambda>p. (Player_loadData (PlayerInfo_of_bytes pInfo) p)\<lparr>p_roomid := roomid\<rparr>) w;
     w \<leftarrow> RoomManager_AddPlayer roomid a w;
     packet \<leftarrow> pkt_put 0 (WorldPacket_new CMSG_PLAYER_LOGIN);
     packet \<leftarrow> pkt_put 0 packet;
     packet \<leftarrow> pkt_put 1 packet;
     w \<leftarrow> WorldSession_SendPacket (bb_resize 600 packet) (Some sa) w;
     log_player_info ''server.worldserver'' sa w
   }"

text \<open>\<^verbatim>\<open>getPlayer()->...\<close> in a handler: a null player is undefined behaviour.\<close>

definition session_player :: "nat \<Rightarrow> world \<Rightarrow> nat option" where
  "session_player sa w = do { s \<leftarrow> sess_at sa w; s_player s }"

definition WorldSession_HandleWaitStart :: "world_packet \<Rightarrow> nat \<Rightarrow> world \<Rightarrow> world option" where
  "WorldSession_HandleWaitStart recvPacket sa w = do {
     a \<leftarrow> session_player sa w;
     modify_player a Player_setStart w
   }"

definition WorldSession_HandleGrabLandlord :: "world_packet \<Rightarrow> nat \<Rightarrow> world \<Rightarrow> world option" where
  "WorldSession_HandleGrabLandlord recvPacket sa w = do {
     a \<leftarrow> session_player sa w;
     (score, recvPacket) \<leftarrow> read_u32 recvPacket;
     modify_player a (\<lambda>p. p\<lparr>p_grabScore := score, p_gameStatus := GAME_STATUS_GRABING_LANDLORD\<rparr>) w
   }"

definition WorldSession_HandleOutCards :: "world_packet \<Rightarrow> nat \<Rightarrow> world \<Rightarrow> world option" where
  "WorldSession_HandleOutCards recvPacket sa w = do {
     a \<leftarrow> session_player sa w;
     (cardType, recvPacket) \<leftarrow> read_bytes 4 recvPacket;
     (cards, recvPacket) \<leftarrow> read_bytes 24 recvPacket;
     modify_player a (\<lambda>p. p\<lparr>p_cardType := word_of_nat (le_dec cardType), p_outCards := cards,
                             p_gameStatus := GAME_STATUS_OUT_CARDING\<rparr>) w
   }"

definition WorldSession_HandleRoundOver :: "world_packet \<Rightarrow> nat \<Rightarrow> world \<Rightarrow> world option" where
  "WorldSession_HandleRoundOver recvPacket sa w = do {
     a \<leftarrow> session_player sa w;
     (gold, recvPacket) \<leftarrow> read_u32 recvPacket;
     modify_player a (\<lambda>p. p\<lparr>p_winGold := gold, p_gameStatus := GAME_STATUS_ROUNDOVERING\<rparr>) w
   }"

definition WorldSession_HandlLogout :: "world_packet \<Rightarrow> nat \<Rightarrow> world \<Rightarrow> world option" where
  "WorldSession_HandlLogout recvPacket sa w = do {
     a \<leftarrow> session_player sa w;
     modify_player a (\<lambda>p. p\<lparr>p_gameStatus := p_gameStatus p OR GAME_STATUS_LOG_OUTING\<rparr>) w
   }"

fun run_handler :: "opcode_handler \<Rightarrow> world_packet \<Rightarrow> nat \<Rightarrow> world \<Rightarrow> world option" where
  "run_handler Handle_NULL p sa w = log_player_info ''network.opcode'' sa w"
| "run_handler HandlePlayerLogin p sa w = WorldSession_HandlePlayerLogin p sa w"
| "run_handler HandleWaitStart p sa w = WorldSession_HandleWaitStart p sa w"
| "run_handler HandleGrabLandlord p sa w = WorldSession_HandleGrabLandlord p sa w"
| "run_handler HandleOutCards p sa w = WorldSession_HandleOutCards p sa w"
| "run_handler HandleRoundOver p sa w = WorldSession_HandleRoundOver p sa w"
| "run_handler HandlLogout p sa w = WorldSession_HandlLogout p sa w"

definition dispatch_packet :: "world_packet \<Rightarrow> nat \<Rightarrow> world \<Rightarrow> world option" where
  "dispatch_packet packet sa w =
     (if unat (m_opcode packet) \<ge> length opcodeTable then None
      else run_handler (snd (opcodeTable ! unat (m_opcode packet))) packet sa w)"

section \<open>Session update\<close>

text \<open>
  The loop over the received packets. The counter stops it after
  \<^verbatim>\<open>MAX_PROCESSED_PACKETS_IN_SAME_WORLDSESSION_UPDATE\<close> plus one packets: the test comes
  after the increment and is strict.
\<close>

definition MAX_PROCESSED_PACKETS :: nat where "MAX_PROCESSED_PACKETS = 100"

function session_loop :: "nat \<Rightarrow> nat \<Rightarrow> world \<Rightarrow> world option" where
  "session_loop processedPackets sa w = do {
     s \<leftarrow> sess_at sa w;
     if s_Socket s = None then Some w
     else do {
       (empty, q) \<leftarrow> LockedQueue_empty (s_recvQueue s);
       if empty then Some w
       else do {
         (packet, q) \<leftarrow> LockedQueue_next q;
         (case packet of
            None \<Rightarrow> Some w
          | Some packet \<Rightarrow> do {
              w \<leftarrow> dispatch_packet packet sa (put_sess sa (s\<lparr>s_recvQueue := q\<rparr>) w);
              if Suc processedPackets > MAX_PROCESSED_PACKETS then Some w
              else session_loop (Suc processedPackets) sa w
            })
       }
     }
   }"
  by pat_completeness auto
termination by (relation "measure (\<lambda>(n, sa, w). Suc MAX_PROCESSED_PACKETS - n)") auto

declare session_loop.simps [simp del]

text \<open>The result is false when the session is to be removed.\<close>

definition WorldSession_Update :: "u32 \<Rightarrow> nat \<Rightarrow> world \<Rightarrow> (bool \<times> world) option" where
  "WorldSession_Update diff sa w = do {
     s \<leftarrow> sess_at sa w;
     let s = WorldSession_UpdateTimeOutTime diff s;
     let w = put_sess sa s w;
     w \<leftarrow> (if WorldSession_IsTimeOutTime s then do { ca \<leftarrow> s_Socket s; close_connection ca w } else Some w);
     w \<leftarrow> session_loop 0 sa w;
     s \<leftarrow> sess_at sa w;
     closed \<leftarrow> (case s_Socket s of
                 None \<Rightarrow> Some False
               | Some ca \<Rightarrow> do { c \<leftarrow> conn_at ca w; Some (\<not> Socket_IsOpen (cn_socket c)) });
     let s = (if closed \<or> s_player s = None then s\<lparr>s_Socket := None\<rparr> else s);
     Some (s_Socket s \<noteq> None, put_sess sa s w)
   }"

section \<open>The world\<close>

definition World_AddSession :: "nat \<Rightarrow> world \<Rightarrow> world option" where
  "World_AddSession sa w = do {
     q \<leftarrow> LockedQueue_add sa (w_addSess w);
     Some (w\<lparr>w_addSess := q\<rparr>)
   }"

definition World_RemoveSession :: "u32 \<Rightarrow> world \<Rightarrow> bool" where
  "World_RemoveSession i w \<longleftrightarrow> map_of (w_smap w) i \<noteq> None"

definition World_AddSession_new :: "nat \<Rightarrow> world \<Rightarrow> world option" where
  "World_AddSession_new sa w = do {
     s \<leftarrow> sess_at sa w;
     if World_RemoveSession (s_accountId s) w then WorldSession_delete sa w
     else Some (w\<lparr>w_smap := map_assign (s_accountId s) sa (w_smap w)\<rparr>)
   }"

text \<open>New sessions first, in the order they arrived, then every session is updated.\<close>

fun add_sessions :: "nat list \<Rightarrow> world \<Rightarrow> world option" where
  "add_sessions [] w = Some w"
| "add_sessions (sa # rest) w = do { w \<leftarrow> World_AddSession_new sa w; add_sessions rest w }"

fun update_sessions :: "u32 \<Rightarrow> (u32 \<times> nat) list \<Rightarrow> world \<Rightarrow> world option" where
  "update_sessions diff [] w = Some w"
| "update_sessions diff ((i, sa) # rest) w = do {
     (alive, w) \<leftarrow> WorldSession_Update diff sa w;
     w \<leftarrow> (if alive then Some w
           else WorldSession_delete sa (w\<lparr>w_smap := map_erase i (w_smap w)\<rparr>));
     update_sessions diff rest w
   }"

definition World_UpdateSessions :: "u32 \<Rightarrow> world \<Rightarrow> world option" where
  "World_UpdateSessions diff w =
     (if lq_locked (w_addSess w) then None
      else do {
        w \<leftarrow> add_sessions (lq_items (w_addSess w)) (w\<lparr>w_addSess := (w_addSess w)\<lparr>lq_items := []\<rparr>\<rparr>);
        update_sessions diff (w_smap w) w
      })"

definition World_Update :: "u32 \<Rightarrow> world \<Rightarrow> world option" where
  "World_Update diff w = do {
     w \<leftarrow> World_UpdateSessions diff w;
     RoomManager_Update diff w
   }"

section \<open>Packet handlers of a connection\<close>

definition WorldSocket_new :: connection where
  "WorldSocket_new = \<lparr>cn_socket = Socket_new ClientPktHeader_size, cn_session = None\<rparr>"

definition WorldSocket_Start :: "connection \<Rightarrow> connection" where
  "WorldSocket_Start c = c\<lparr>cn_socket := Socket_AsyncReadHeader (cn_socket c)\<rparr>"

definition read_next_header :: "nat \<Rightarrow> world \<Rightarrow> world option" where
  "read_next_header ca w = do {
     c \<leftarrow> conn_at ca w;
     Some (put_conn ca (WorldSocket_Start c) w)
   }"

definition WorldSocket_AddSession :: "world_packet \<Rightarrow> nat \<Rightarrow> world \<Rightarrow> world option" where
  "WorldSocket_AddSession recvPacket ca w = do {
     i \<leftarrow> uncaught (bb_peek LittleEndian 20 recvPacket);
     c \<leftarrow> conn_at ca w;
     let (sa, w) = WorldSession_new i (Some ca) w;
     let w = put_conn ca (c\<lparr>cn_session := Some sa\<rparr>) w;
     w \<leftarrow> WorldSession_QueuePacket recvPacket sa w;
     w \<leftarrow> WorldSession_ResetTimeOutTime sa w;
     World_AddSession sa w
   }"

definition WorldSocket_ReadDataHandler :: "nat \<Rightarrow> world \<Rightarrow> world option" where
  "WorldSocket_ReadDataHandler ca w = do {
     c \<leftarrow> conn_at ca w;
     let header = ClientPktHeader_of_bytes (mb_storage (sk_header (cn_socket c)));
     let opcode = (ucast (ucast (ch_cmd header) :: u16) :: u32);
     let (bytes, buffer) = MessageBuffer_Move (sk_data (cn_socket c));
     let c = c\<lparr>cn_socket := (cn_socket c)\<lparr>sk_data := buffer\<rparr>\<rparr>;
     let w = put_conn ca c w;
     packet \<leftarrow> uncaught (bb_read_skip 8 (WorldPacket_of_message opcode bytes));
     if opcode = CMSG_PLAYER_LOGIN then do {
       w \<leftarrow> (case cn_session c of
               Some sa \<Rightarrow> log_player_info ''network'' sa w
             | None \<Rightarrow> WorldSocket_AddSession packet ca w);
       read_next_header ca w
     }
     else if opcode = CMSG_PING then do {
       sa \<leftarrow> cn_session c;
       w \<leftarrow> WorldSession_ResetTimeOutTime sa w;
       read_next_header ca w
     }
     else (case cn_session c of
             None \<Rightarrow> close_connection ca w
           | Some sa \<Rightarrow> do {
               w \<leftarrow> WorldSession_ResetTimeOutTime sa w;
               w \<leftarrow> WorldSession_QueuePacket packet sa w;
               read_next_header ca w
             })
   }"

text \<open>A packet without body is handled at once.\<close>

definition WorldSocket_ReadHeaderHandler :: "nat \<Rightarrow> world \<Rightarrow> world option" where
  "WorldSocket_ReadHeaderHandler ca w = do {
     c \<leftarrow> conn_at ca w;
     let header = ClientPktHeader_of_bytes (mb_storage (sk_header (cn_socket c)));
     if \<not> ClientPktHeader_IsValid header then close_connection ca w
     else do {
       let (s, now) = Socket_AsyncReadData (ClientPktHeader_body_size header) (cn_socket c);
       let w = put_conn ca (c\<lparr>cn_socket := s\<rparr>) w;
       if now then WorldSocket_ReadDataHandler ca w else Some w
     }
   }"

text \<open>The completion of a read on a connection: the buffer step, then the handler if it is full.\<close>

definition connection_read ::
  "(u8 list option \<Rightarrow> socket \<Rightarrow> socket \<times> bool) \<Rightarrow> (nat \<Rightarrow> world \<Rightarrow> world option) \<Rightarrow>
   u8 list option \<Rightarrow> nat \<Rightarrow> world \<Rightarrow> world option" where
  "connection_read internal handler transferred ca w = do {
     c \<leftarrow> conn_at ca w;
     let (s, ready) = internal transferred (cn_socket c);
     let w = put_conn ca (c\<lparr>cn_socket := s\<rparr>) w;
     if ready then handler ca w else Some w
   }"

definition connection_header_read :: "u8 list option \<Rightarrow> nat \<Rightarrow> world \<Rightarrow> world option" where
  "connection_header_read = connection_read Socket_ReadHeaderHandlerInternal WorldSocket_ReadHeaderHandler"

definition connection_data_read :: "u8 list option \<Rightarrow> nat \<Rightarrow> world \<Rightarrow> world option" where
  "connection_data_read = connection_read Socket_ReadDataHandlerInternal WorldSocket_ReadDataHandler"

end
