(* ===== verification/Handlers.thy ===== *)
theory Handlers
  imports Sessions Matchmaking
begin

text \<open>
  Handlers: what the packet handlers of \<^verbatim>\<open>src/server/game/Server/WorldSession.cpp\<close> and
  \<^verbatim>\<open>WorldSocket.cpp\<close> guarantee: how many packets an update takes from the queue, when
  a session ends, and which inputs the code does not survive.
\<close>

section \<open>What a handler leaves alone\<close>

text \<open>
  A handler of session \<open>sa\<close> leaves the session's packet queue and connection as they are,
  and does not reopen a closed connection.
\<close>

definition calm :: "nat \<Rightarrow> world \<Rightarrow> world \<Rightarrow> bool" where
  "calm sa w w' \<longleftrightarrow>
     (\<forall>s. sess_at sa w = Some s \<longrightarrow> (\<exists>s'. sess_at sa w' = Some s' \<and>
        s_recvQueue s' = s_recvQueue s \<and> s_Socket s' = s_Socket s)) \<and>
     (\<forall>ca c. conn_at ca w = Some c \<longrightarrow> sk_closed (cn_socket c) \<longrightarrow>
        (\<exists>c'. conn_at ca w' = Some c' \<and> sk_closed (cn_socket c')))"

lemma calm_refl [simp]: "calm sa w w"
  by (simp add: calm_def)

lemma calm_trans: "calm sa w w1 \<Longrightarrow> calm sa w1 w2 \<Longrightarrow> calm sa w w2"
  unfolding calm_def by metis

lemma calm_put_player [simp]: "calm sa w (put_player a p w)"
  by (simp add: calm_def)

lemma calm_modify: "modify_player a f w = Some w' \<Longrightarrow> calm sa w w'"
  by (auto simp: modify_player_def bind_eq_Some_conv)

lemma calm_rooms [simp]: "calm sa w (w\<lparr>w_rooms := m\<rparr>)"
  by (simp add: calm_def heap_simps)

lemma closed_write: "sk_closed s \<Longrightarrow> sk_closed (WorldSocket_AsyncWrite p s)"
  by (simp add: WorldSocket_AsyncWrite_def Socket_IsOpen_def)

lemma calm_send: "WorldSession_SendPacket p x w = Some w' \<Longrightarrow> calm sa w w'"
  by (auto simp: WorldSession_SendPacket_def bind_eq_Some_conv calm_def heap_simps closed_write split: option.splits)

lemma calm_log: "log_player_info t x w = Some w' \<Longrightarrow> calm sa w w'"
  by (auto simp: log_player_info_def bind_eq_Some_conv split: if_splits)

lemma calm_AddPlayer: "RoomManager_AddPlayer i a w = Some w' \<Longrightarrow> calm sa w w'"
  by (auto simp: RoomManager_AddPlayer_def Room_AddPlayer_def Let_def bind_eq_Some_conv
      intro: calm_trans [OF calm_modify] split: option.splits)

lemma calm_new: "Player_new x w = (a, w') \<Longrightarrow> calm sa w w'"
  by (auto simp: Player_new_def Let_def calm_def put_player_def heap_simps)

lemma calm_put_sess:
  "sess_at sa w = Some s \<Longrightarrow> s_recvQueue s' = s_recvQueue s \<Longrightarrow> s_Socket s' = s_Socket s \<Longrightarrow>
   calm sa w (put_sess sa s' w)"
  by (auto simp: calm_def heap_simps)

lemma calm_login:
  assumes "WorldSession_HandlePlayerLogin p sa w = Some w'"
  shows "calm sa w w'"
proof -
  obtain a w1 where new: "Player_new (Some sa) w = (a, w1)" by fastforce
  with assms obtain s f roomid w2 w3 packet w4 where
    steps: "sess_at sa w = Some s"
      "modify_player a f (put_sess sa (s\<lparr>s_player := Some a\<rparr>) w1) = Some w2"
      "RoomManager_AddPlayer roomid a w2 = Some w3"
      "WorldSession_SendPacket packet (Some sa) w3 = Some w4"
      "log_player_info ''server.worldserver'' sa w4 = Some w'"
    by (auto simp: WorldSession_HandlePlayerLogin_def bind_eq_Some_conv split: prod.splits)
  have "sess_at sa w1 = Some s"
    using steps(1) new by (auto simp: Player_new_def Let_def put_player_def sess_at_def)
  then have "calm sa w1 (put_sess sa (s\<lparr>s_player := Some a\<rparr>) w1)"
    by (rule calm_put_sess) simp_all
  with steps new show ?thesis
    by (meson calm_trans calm_new calm_modify calm_AddPlayer calm_send calm_log)
qed

lemma calm_dispatch:
  assumes "dispatch_packet p sa w = Some w'"
  shows "calm sa w w'"
proof -
  obtain h where h: "run_handler h p sa w = Some w'"
    using assms by (auto simp: dispatch_packet_def split: if_splits)
  show ?thesis
  proof (cases h)
    case HandlePlayerLogin
    with h show ?thesis by (simp add: calm_login)
  qed (use h in \<open>auto simp: calm_log WorldSession_HandleWaitStart_def WorldSession_HandleGrabLandlord_def
      WorldSession_HandleOutCards_def WorldSession_HandleRoundOver_def WorldSession_HandlLogout_def
      bind_eq_Some_conv intro: calm_modify\<close>)
qed

section \<open>The loop over the received packets\<close>

lemma calm_queue:
  assumes "sess_at sa w = Some s" and "\<not> lq_locked (s_recvQueue s)" and "s_Socket s \<noteq> None"
    and "session_loop n sa w = Some w'" and "n \<le> MAX_PROCESSED_PACKETS"
  shows "\<exists>s'. sess_at sa w' = Some s' \<and> s_Socket s' = s_Socket s \<and> \<not> lq_locked (s_recvQueue s') \<and>
    lq_items (s_recvQueue s') = drop (Suc MAX_PROCESSED_PACKETS - n) (lq_items (s_recvQueue s)) \<and>
    (\<forall>ca c. conn_at ca w = Some c \<longrightarrow> sk_closed (cn_socket c) \<longrightarrow>
        (\<exists>c'. conn_at ca w' = Some c' \<and> sk_closed (cn_socket c')))"
  using assms
proof (induction n sa w arbitrary: s rule: session_loop.induct)
  case (1 n sa w)
  show ?case
  proof (cases "lq_items (s_recvQueue s)")
    case Nil
    then have "w' = w"
      using 1(2-5) by (subst (asm) session_loop.simps) (auto simp: queue_simps)
    with Nil 1(2-5) show ?thesis by simp
  next
    case (Cons packet rest)
    let ?q = "LockedQueue_unlock ((s_recvQueue s)\<lparr>lq_locked := True, lq_items := rest\<rparr>)"
    let ?q' = "(s_recvQueue s)\<lparr>lq_items := rest\<rparr>"
    have unlocked: "(s_recvQueue s)\<lparr>lq_locked := False\<rparr> = s_recvQueue s"
      using 1(3) by (cases "s_recvQueue s") simp
    have q: "LockedQueue_empty (s_recvQueue s) = Some (False, s_recvQueue s)"
      "LockedQueue_next (s_recvQueue s) = Some (Some packet, ?q')"
      using Cons 1(3) unlocked
      by (simp_all add: queue_simps)
    let ?s1 = "s\<lparr>s_recvQueue := ?q'\<rparr>"
    let ?w1 = "put_sess sa ?s1 w"
    obtain w2 where w2: "dispatch_packet packet sa ?w1 = Some w2"
      and cont: "(if Suc n > MAX_PROCESSED_PACKETS then Some w2 else session_loop (Suc n) sa w2) = Some w'"
      using 1(2,4,5) q by (subst (asm) session_loop.simps) (auto simp: bind_eq_Some_conv)
    have "sess_at sa ?w1 = Some ?s1" by (simp add: heap_simps)
    with calm_dispatch [OF w2] obtain s2 where s2: "sess_at sa w2 = Some s2"
      "s_recvQueue s2 = ?q'" "s_Socket s2 = s_Socket s" unfolding calm_def by force
    have conn: "\<exists>c'. conn_at ca w2 = Some c' \<and> sk_closed (cn_socket c')"
      if "conn_at ca w = Some c" "sk_closed (cn_socket c)" for ca c
      using calm_dispatch [OF w2] that by (simp add: calm_def heap_simps)
    show ?thesis
    proof (cases "Suc n > MAX_PROCESSED_PACKETS")
      case True
      with cont have "w' = w2" by simp
      moreover have "Suc MAX_PROCESSED_PACKETS - n = 1" using True 1(6) by simp
      ultimately show ?thesis using s2 Cons conn 1(3) by (simp add: s2(3))
    next
      case False
      with cont have "session_loop (Suc n) sa w2 = Some w'" by simp
      moreover have "\<exists>y. packet = y" by simp
      ultimately obtain s3 where "sess_at sa w' = Some s3" "s_Socket s3 = s_Socket s2"
        "\<not> lq_locked (s_recvQueue s3)"
        "lq_items (s_recvQueue s3) = drop (Suc MAX_PROCESSED_PACKETS - Suc n) rest"
        "\<forall>ca c. conn_at ca w2 = Some c \<longrightarrow> sk_closed (cn_socket c) \<longrightarrow>
          (\<exists>c'. conn_at ca w' = Some c' \<and> sk_closed (cn_socket c'))"
        using 1(1) [OF 1(2) 1(4) q(1) refl _ q(2) refl refl w2 False, of s2] s2 1(3,4) False by auto
      moreover have "drop (Suc MAX_PROCESSED_PACKETS - n) (packet # rest) =
          drop (Suc MAX_PROCESSED_PACKETS - Suc n) rest"
        using False by (simp add: Suc_diff_le)
      ultimately show ?thesis using s2(3) Cons conn by metis
    qed
  qed
qed

lemma Update_result:
  assumes "sess_at sa w = Some s" and "s_Socket s = Some ca" and "\<not> lq_locked (s_recvQueue s)"
    and "WorldSession_Update diff sa w = Some (alive, w')"
  shows "\<exists>s'. sess_at sa w' = Some s' \<and>
    lq_items (s_recvQueue s') = drop 101 (lq_items (s_recvQueue s)) \<and>
    (alive \<longleftrightarrow> s_Socket s' \<noteq> None) \<and>
    (sint (s_timeOutTime s - diff) \<le> 0 \<longrightarrow> \<not> alive)"
proof -
  let ?s1 = "WorldSession_UpdateTimeOutTime diff s"
  let ?w1 = "put_sess sa ?s1 w"
  have s1: "sess_at sa ?w1 = Some ?s1" by (simp add: heap_simps)
  have fields: "s_Socket ?s1 = Some ca" "s_recvQueue ?s1 = s_recvQueue s"
    by (simp_all add: WorldSession_UpdateTimeOutTime_def assms(2))
  let ?out = "WorldSession_IsTimeOutTime ?s1"
  obtain w2 w3 s3 closed where
    w2: "(if ?out then close_connection ca ?w1 else Some ?w1) = Some w2" and
    w3: "session_loop 0 sa w2 = Some w3" and s3: "sess_at sa w3 = Some s3" and
    closed: "(case s_Socket s3 of None \<Rightarrow> Some False
       | Some ca \<Rightarrow> do { c \<leftarrow> conn_at ca w3; Some (\<not> Socket_IsOpen (cn_socket c)) }) = Some closed" and
    res: "(let s = (if closed \<or> s_player s3 = None then s3\<lparr>s_Socket := None\<rparr> else s3) in
      Some (s_Socket s \<noteq> None, put_sess sa s w3)) = Some (alive, w')"
    using assms(1,4) fields(1)
    by (auto simp: WorldSession_Update_def Let_def bind_eq_Some_conv split: if_splits)
  have s2: "sess_at sa w2 = Some ?s1"
    using w2 s1 by (auto simp: close_connection_def bind_eq_Some_conv heap_simps split: if_splits)
  from calm_queue [OF s2 _ _ w3] fields assms(3) obtain s' where
    s': "sess_at sa w3 = Some s'" "s_Socket s' = Some ca"
      "lq_items (s_recvQueue s') = drop 101 (lq_items (s_recvQueue s))" and
    conn: "\<forall>ca c. conn_at ca w2 = Some c \<longrightarrow> sk_closed (cn_socket c) \<longrightarrow>
        (\<exists>c'. conn_at ca w3 = Some c' \<and> sk_closed (cn_socket c'))"
    by (auto simp: MAX_PROCESSED_PACKETS_def)
  have timeout: "closed" if "sint (s_timeOutTime s - diff) \<le> 0"
  proof -
    from that have "?out" by (simp add: WorldSession_IsTimeOutTime_def WorldSession_UpdateTimeOutTime_def)
    with w2 obtain c where "conn_at ca w2 = Some c" "sk_closed (cn_socket c)"
      by (auto simp: close_connection_def bind_eq_Some_conv heap_simps Socket_CloseSocket_def
          split: if_splits)
    with conn obtain c' where "conn_at ca w3 = Some c'" "sk_closed (cn_socket c')" by blast
    with closed s3 s' show ?thesis by (auto simp: Socket_IsOpen_def)
  qed
  have "s' = s3" using s3 s'(1) by simp
  with res s' timeout show ?thesis
    by (auto simp: Let_def heap_simps split: if_splits)
qed

section \<open>Properties\<close>


definition demo_session :: session where
  "demo_session = \<lparr>s_Socket = Some 20, s_accountId = 7, s_player = Some 1,
        s_recvQueue = LockedQueue_new, s_timeOutTime = 30000, s_forceExit = False\<rparr>"


text \<open>
  C24. A packet for a player who is gone stops the server. The loop handles the
  queue before the update looks whether the session still has a player, and the game handlers
  (start, bid, play, round over, log out) use the player without a test: with no player and such a
  packet first in the queue the update is undefined.
\<close>

theorem packet_after_logout_crashes:
  assumes "sess_at sa w = Some s" and "s_Socket s = Some ca" and "s_player s = None"
    and "\<not> lq_locked (s_recvQueue s)" and "lq_items (s_recvQueue s) = p # rest"
    and "m_opcode p \<in> {CMSG_WAIT_START, CMSG_GRAD_LANDLORD, CMSG_CARD_OUT, CMSG_ROUND_OVER, CMSG_LOG_OUT}"
    and "sint (s_timeOutTime s - diff) > 0"
  shows "WorldSession_Update diff sa w = None"
proof -
  let ?s1 = "WorldSession_UpdateTimeOutTime diff s"
  let ?q = "(s_recvQueue s)\<lparr>lq_items := rest\<rparr>"
  let ?w1 = "put_sess sa ?s1 w"
  let ?w2 = "put_sess sa (?s1\<lparr>s_recvQueue := ?q\<rparr>) ?w1"
  have unlocked: "(s_recvQueue s)\<lparr>lq_locked := False\<rparr> = s_recvQueue s"
    using assms(4) by (cases "s_recvQueue s") simp
  have q: "LockedQueue_empty (s_recvQueue s) = Some (False, s_recvQueue s)"
    "LockedQueue_next (s_recvQueue s) = Some (Some p, ?q)"
    using assms(4,5) unlocked
    by (simp_all add: queue_simps)
  have s1: "sess_at sa ?w1 = Some ?s1" by (simp add: heap_simps)
  have "session_player sa ?w2 = None"
    using assms(3) by (simp add: session_player_def heap_simps WorldSession_UpdateTimeOutTime_def)
  then have "dispatch_packet p sa ?w2 = None"
    using assms(6)
    by (auto simp: dispatch_packet_def opcodeTable_def CMSG_WAIT_START_def CMSG_GRAD_LANDLORD_def
        CMSG_CARD_OUT_def CMSG_ROUND_OVER_def CMSG_LOG_OUT_def WorldSession_HandleWaitStart_def
        WorldSession_HandleGrabLandlord_def WorldSession_HandleOutCards_def
        WorldSession_HandleRoundOver_def WorldSession_HandlLogout_def)
  then have "session_loop 0 sa ?w1 = None"
    using s1 q assms(2)
    by (subst session_loop.simps) (simp add: WorldSession_UpdateTimeOutTime_def)
  moreover have "\<not> WorldSession_IsTimeOutTime ?s1"
    using assms(7) by (simp add: WorldSession_IsTimeOutTime_def WorldSession_UpdateTimeOutTime_def)
  ultimately show ?thesis
    using assms(1) by (simp add: WorldSession_Update_def Let_def)
qed

theorem packet_after_logout_crashes_witness:
  "WorldSession_Update 50 10 ((demo_world demo_user (demo_ai 8) (demo_ai 9))\<lparr>w_sessions :=
     [10 \<mapsto> demo_session\<lparr>s_player := None, s_recvQueue := \<lparr>lq_items = [WorldPacket_new CMSG_WAIT_START],
        lq_canceled = False, lq_locked = False\<rparr>\<rparr>]\<rparr>) = None"
  by (rule packet_after_logout_crashes [where ca = 20 and rest = "[]"])
    (auto simp: sess_at_def demo_session_def WorldPacket_new_def)

section \<open>The first packet of a connection\<close>

text \<open>The opcode of the header that was read, as \<^verbatim>\<open>ReadDataHandler\<close> takes it.\<close>

definition header_opcode :: "connection \<Rightarrow> u32" where
  "header_opcode c =
     ucast (ucast (ch_cmd (ClientPktHeader_of_bytes (mb_storage (sk_header (cn_socket c))))) :: u16)"

definition body_of :: "connection \<Rightarrow> u8 list" where
  "body_of c = mb_storage (sk_data (cn_socket c))"

definition take_body :: "connection \<Rightarrow> connection" where
  "take_body c = c\<lparr>cn_socket := (cn_socket c)\<lparr>sk_data := MessageBuffer_new\<rparr>\<rparr>"

definition received :: "connection \<Rightarrow> world_packet" where
  "received c = (WorldPacket_of_message (header_opcode c) (body_of c))\<lparr>rpos := 8\<rparr>"

lemma ReadDataHandler_eq:
  assumes "conn_at ca w = Some c" and "length (body_of c) < 2 ^ 63"
  shows "WorldSocket_ReadDataHandler ca w =
    (if length (body_of c) < 8 then None
     else let w = put_conn ca (take_body c) w in
       if header_opcode c = CMSG_PLAYER_LOGIN then
         (case cn_session c of Some sa \<Rightarrow> log_player_info ''network'' sa w
          | None \<Rightarrow> WorldSocket_AddSession (received c) ca w) \<bind> read_next_header ca
       else if header_opcode c = CMSG_PING then
         cn_session c \<bind> (\<lambda>sa. WorldSession_ResetTimeOutTime sa w \<bind> read_next_header ca)
       else (case cn_session c of None \<Rightarrow> close_connection ca w
         | Some sa \<Rightarrow> WorldSession_ResetTimeOutTime sa w \<bind> WorldSession_QueuePacket (received c) sa
             \<bind> read_next_header ca))"
proof -
  have "bb_read_skip 8 (WorldPacket_of_message opc (body_of c)) =
      (if length (body_of c) < 8 then Inl (PositionException False 0 8 (length (body_of c)))
       else Inr ((WorldPacket_of_message opc (body_of c))\<lparr>rpos := 8\<rparr>))" for opc
    using assms(2) by (simp add: bb_read_skip_def WorldPacket_of_message_def bb_size_def)
  then show ?thesis
    using assms(1)
    by (simp add: WorldSocket_ReadDataHandler_def MessageBuffer_Move_def header_opcode_def [symmetric]
        body_of_def [symmetric] take_body_def MessageBuffer_new_def received_def Let_def
        cong: option.case_cong)
qed

lemma peek_account:
  assumes "length (body_of c) < 2 ^ 63"
  shows "uncaught (bb_peek LittleEndian 20 (received c)) =
    (if length (body_of c) < 24 then None
     else Some (word_of_nat (le_dec (take 4 (drop 20 (body_of c)))) :: u32))"
  using assms
  by (simp add: bb_peek_def bb_slice_exact size_of_def received_def WorldPacket_of_message_def
      bb_size_def native_dec_def)

text \<open>
  C23. Before the login. On a connection without a session a packet other than
  the login only closes the connection; but a ping uses the null session, a body of fewer than 8
  bytes (whatever the opcode), and a login with fewer than 24, raise an exception that nobody
  catches.
\<close>

theorem packets_before_login:
  assumes "conn_at ca w = Some c" and "cn_session c = None" and "length (body_of c) < 2 ^ 63"
    and "header_opcode c \<noteq> CMSG_PLAYER_LOGIN \<or> length (body_of c) < 24"
  shows "WorldSocket_ReadDataHandler ca w =
    (if length (body_of c) < 8 \<or> header_opcode c \<in> {CMSG_PING, CMSG_PLAYER_LOGIN} then None
     else Some (put_conn ca ((take_body c)\<lparr>cn_socket := Socket_CloseSocket (cn_socket (take_body c))\<rparr>) w))"
  using assms
  by (auto simp: ReadDataHandler_eq Let_def WorldSocket_AddSession_def peek_account close_connection_def heap_simps CMSG_PING_def CMSG_PLAYER_LOGIN_def)

definition demo_connection :: "u8 list \<Rightarrow> u8 list \<Rightarrow> connection" where
  "demo_connection header body = \<lparr>cn_socket = (Socket_new 8)\<lparr>
     sk_header := \<lparr>mb_wpos = 8, mb_storage = header\<rparr>, sk_data := \<lparr>mb_wpos = length body, mb_storage = body\<rparr>\<rparr>,
     cn_session = None\<rparr>"

theorem packets_before_login_witness:
  "WorldSocket_ReadDataHandler 20 ((demo_world demo_user (demo_ai 8) (demo_ai 9))\<lparr>w_conns :=
     [20 \<mapsto> demo_connection [16, 0, 0, 0, 15, 0, 0, 0] (replicate 8 0)]\<rparr>) = None"
proof -
  let ?c = "demo_connection [16, 0, 0, 0, 15, 0, 0, 0] (replicate 8 0)"
  let ?w = "(demo_world demo_user (demo_ai 8) (demo_ai 9))\<lparr>w_conns := [20 \<mapsto> ?c]\<rparr>"
  have c: "conn_at 20 ?w = Some ?c" "cn_session ?c = None" "length (body_of ?c) < 2 ^ 63"
    "header_opcode ?c = CMSG_PING"
    by (simp_all add: conn_at_def demo_connection_def body_of_def header_opcode_def
        ClientPktHeader_of_bytes_def CMSG_PING_def)
  then show ?thesis
    using packets_before_login [OF c(1-3)] by (simp add: CMSG_PING_def CMSG_PLAYER_LOGIN_def)
qed

text \<open>
  C19. The login. A login packet of at least 24 bytes creates one session on the
  connection: its account is the player id in the packet, the packet itself is the only one in its
  queue, its timeout is fresh, it is last in the world's queue of new sessions, and the connection
  reads its next header.
\<close>

theorem login_creates_session:
  assumes "conn_at ca w = Some c" and "cn_session c = None" and "length (body_of c) < 2 ^ 63"
    and "header_opcode c = CMSG_PLAYER_LOGIN" and "24 \<le> length (body_of c)"
    and "\<not> lq_locked (w_addSess w)"
  shows "\<exists>w' s. WorldSocket_ReadDataHandler ca w = Some w' \<and> sess_at (w_next w) w' = Some s \<and>
    s_accountId s = word_of_nat (le_dec (take 4 (drop 20 (body_of c)))) \<and>
    lq_items (s_recvQueue s) = [received c] \<and> s_Socket s = Some ca \<and> s_player s = None \<and>
    s_timeOutTime s = getIntConfig CONFIG_SOCKET_TIMEOUTTIME w \<and>
    lq_items (w_addSess w') = lq_items (w_addSess w) @ [w_next w] \<and>
    conn_at ca w' = Some (WorldSocket_Start ((take_body c)\<lparr>cn_session := Some (w_next w)\<rparr>))"
  using assms
  by (simp add: ReadDataHandler_eq Let_def WorldSocket_AddSession_def peek_account CMSG_PLAYER_LOGIN_def
      WorldSession_new_def WorldSession_QueuePacket_def WorldSession_ResetTimeOutTime_def
      World_AddSession_def queue_simps heap_simps read_next_header_def
      getIntConfig_def)

theorem login_creates_session_witness:
  "\<exists>w' s. WorldSocket_ReadDataHandler 20 ((demo_world demo_user (demo_ai 8) (demo_ai 9))\<lparr>w_conns :=
     [20 \<mapsto> demo_connection [180, 0, 0, 0, 0, 0, 0, 0] (replicate 20 0 @ [7, 0, 0, 0] @ replicate 148 0)]\<rparr>)
     = Some w' \<and> sess_at 30 w' = Some s \<and> s_accountId s = 7"
proof -
  let ?c = "demo_connection [180, 0, 0, 0, 0, 0, 0, 0] (replicate 20 0 @ [7, 0, 0, 0] @ replicate 148 0)"
  let ?w = "(demo_world demo_user (demo_ai 8) (demo_ai 9))\<lparr>w_conns := [20 \<mapsto> ?c]\<rparr>"
  have body: "body_of ?c = replicate 20 0 @ [7, 0, 0, 0] @ replicate 148 0"
    by (simp add: demo_connection_def body_of_def)
  have c: "conn_at 20 ?w = Some ?c" "cn_session ?c = None" "length (body_of ?c) < 2 ^ 63"
    "header_opcode ?c = CMSG_PLAYER_LOGIN" "24 \<le> length (body_of ?c)" "\<not> lq_locked (w_addSess ?w)"
    unfolding body
    by (simp_all add: conn_at_def demo_connection_def header_opcode_def ClientPktHeader_of_bytes_def
        CMSG_PLAYER_LOGIN_def demo_world_def LockedQueue_new_def)
  have "take 4 (drop 20 (body_of ?c)) = [7, 0, 0, 0]" unfolding body by simp
  moreover have "w_next ?w = 30" by (simp add: demo_world_def)
  ultimately show ?thesis using login_creates_session [OF c] by fastforce
qed

end
