(* ===== verification/RoomUpdater.thy ===== *)
theory RoomUpdater
  imports Queues
begin

text \<open>
  RoomUpdater: the worker threads of \<^verbatim>\<open>src/server/game/Room/RoomUpdater.cpp\<close> and the
  thread that schedules the updates of the rooms. The state is the request queue, the cancellation
  token, the counter \<^verbatim>\<open>pending_requests\<close> and where each worker stands in
  \<^verbatim>\<open>WorkerThread\<close>; a step of the relation is a stretch of one thread between two
  accesses to what the threads share, so an execution of the relation is an interleaving. An update
  of a room is taken to return. What has been scheduled, carried out and dropped is recorded beside
  the state.
\<close>

section \<open>State\<close>

datatype 'r worker =
    Waiting                      \<comment> \<open>before or in \<^verbatim>\<open>_queue.WaitAndPop(request)\<close>\<close>
  | Popped "'r option"           \<comment> \<open>before the test of the token\<close>
  | Calling 'r                   \<comment> \<open>in \<^verbatim>\<open>_room.Update(_diff)\<close>\<close>
  | Finishing                    \<comment> \<open>before \<^verbatim>\<open>update_finished\<close>\<close>
  | Exited
  | Crashed                      \<comment> \<open>called a null request\<close>

record 'r updater =
  ru_queue :: "'r pc_queue"
  ru_token :: bool
  ru_pending :: nat
  ru_workers :: "'r worker list"

record 'r updater_history = "'r updater" +
  ru_scheduled :: "'r list"
  ru_done :: "'r list"
  ru_dropped :: "'r list"

section \<open>Operations\<close>

definition RoomUpdater_activate :: "nat \<Rightarrow> 'r updater_history" where
  "RoomUpdater_activate num_threads =
     \<lparr>ru_queue = PCQueue_new, ru_token = False, ru_pending = 0, ru_workers = replicate num_threads Waiting,
      ru_scheduled = [], ru_done = [], ru_dropped = []\<rparr>"

definition RoomUpdater_activated :: "('r, 'z) updater_scheme \<Rightarrow> bool" where
  "RoomUpdater_activated u \<longleftrightarrow> length (ru_workers u) > 0"

text \<open>\<^verbatim>\<open>schedule_update\<close> counts and pushes under the updater's lock.\<close>

definition RoomUpdater_schedule_update :: "'r \<Rightarrow> 'r updater_history \<Rightarrow> 'r updater_history" where
  "RoomUpdater_schedule_update request u =
     u\<lparr>ru_pending := Suc (ru_pending u), ru_queue := PCQueue_Push request (ru_queue u),
       ru_scheduled := ru_scheduled u @ [request]\<rparr>"

text \<open>\<^verbatim>\<open>wait\<close> returns, without effect, when nothing is pending.\<close>

definition RoomUpdater_wait :: "'r updater_history \<Rightarrow> 'r updater_history option" where
  "RoomUpdater_wait u = (if ru_pending u > 0 then None else Some u)"

definition RoomUpdater_update_finished :: "'r updater_history \<Rightarrow> 'r updater_history" where
  "RoomUpdater_update_finished u = u\<lparr>ru_pending := ru_pending u - 1\<rparr>"

definition set_worker :: "nat \<Rightarrow> 'r worker \<Rightarrow> 'r updater_history \<Rightarrow> 'r updater_history" where
  "set_worker i x u = u\<lparr>ru_workers := (ru_workers u)[i := x]\<rparr>"

text \<open>
  One step of worker \<open>i\<close> in \<^verbatim>\<open>WorkerThread\<close>; \<open>None\<close> when it is blocked or has
  ended.
\<close>

definition WorkerThread_step :: "nat \<Rightarrow> 'r updater_history \<Rightarrow> 'r updater_history option" where
  "WorkerThread_step i u =
     (case ru_workers u ! i of
        Waiting \<Rightarrow> do {
          (request, q) \<leftarrow> PCQueue_WaitAndPop (ru_queue u);
          Some (set_worker i (Popped request) (u\<lparr>ru_queue := q\<rparr>))
        }
      | Popped request \<Rightarrow>
          if ru_token u then
            Some (set_worker i Exited (u\<lparr>ru_dropped := ru_dropped u @ (case request of None \<Rightarrow> [] | Some r \<Rightarrow> [r])\<rparr>))
          else (case request of
                  None \<Rightarrow> Some (set_worker i Crashed u)
                | Some r \<Rightarrow> Some (set_worker i (Calling r) u))
      | Calling r \<Rightarrow> Some (set_worker i Finishing (u\<lparr>ru_done := ru_done u @ [r]\<rparr>))
      | Finishing \<Rightarrow> Some (set_worker i Waiting (RoomUpdater_update_finished u))
      | Exited \<Rightarrow> None
      | Crashed \<Rightarrow> None)"

text \<open>\<^verbatim>\<open>deactivate\<close> sets the token, waits, and only then cancels the queue.\<close>

definition deactivate_token :: "'r updater_history \<Rightarrow> 'r updater_history" where
  "deactivate_token u = u\<lparr>ru_token := True\<rparr>"

definition deactivate_cancel :: "'r updater_history \<Rightarrow> 'r updater_history option" where
  "deactivate_cancel u = do {
     u \<leftarrow> RoomUpdater_wait u;
     Some (u\<lparr>ru_queue := PCQueue_Cancel (ru_queue u)\<rparr>)
   }"

inductive reach :: "nat \<Rightarrow> 'r updater_history \<Rightarrow> bool" for n where
  start: "reach n (RoomUpdater_activate n)"
| schedule: "reach n u \<Longrightarrow> \<not> ru_token u \<Longrightarrow> reach n (RoomUpdater_schedule_update r u)"
| worker: "reach n u \<Longrightarrow> i < n \<Longrightarrow> WorkerThread_step i u = Some u' \<Longrightarrow> reach n u'"
| token: "reach n u \<Longrightarrow> reach n (deactivate_token u)"
| cancel: "reach n u \<Longrightarrow> ru_token u \<Longrightarrow> deactivate_cancel u = Some u' \<Longrightarrow> reach n u'"

section \<open>Invariant\<close>

fun held :: "'r worker \<Rightarrow> 'r list" where
  "held (Popped (Some r)) = [r]"
| "held (Calling r) = [r]"
| "held _ = []"

definition in_hand :: "'r worker list \<Rightarrow> 'r multiset" where
  "in_hand ws = mset (concat (map held ws))"

definition finishing :: "'r worker list \<Rightarrow> nat" where
  "finishing ws = length (filter (\<lambda>x. x = Finishing) ws)"

definition updater_inv :: "nat \<Rightarrow> 'r updater_history \<Rightarrow> bool" where
  "updater_inv n u \<longleftrightarrow> length (ru_workers u) = n \<and>
     mset (ru_scheduled u) = mset (pq_items (ru_queue u)) + in_hand (ru_workers u) +
       mset (ru_done u) + mset (ru_dropped u) \<and>
     ru_pending u = length (pq_items (ru_queue u)) + size (in_hand (ru_workers u)) +
       finishing (ru_workers u) + length (ru_dropped u) \<and>
     (pq_shutdown (ru_queue u) \<longrightarrow> ru_token u) \<and>
     (Popped None \<in> set (ru_workers u) \<longrightarrow> ru_token u) \<and>
     Crashed \<notin> set (ru_workers u) \<and>
     (\<not> ru_token u \<longrightarrow> ru_dropped u = [] \<and> Exited \<notin> set (ru_workers u))"

lemma in_hand_update:
  "i < length ws \<Longrightarrow> in_hand (ws[i := x]) + mset (held (ws ! i)) = in_hand ws + mset (held x)"
proof (induction ws arbitrary: i)
  case (Cons y ws)
  then show ?case by (cases i) (auto simp: in_hand_def)
qed simp

lemma finishing_update:
  "i < length ws \<Longrightarrow> finishing (ws[i := x]) + (if ws ! i = Finishing then 1 else 0) =
     finishing ws + (if x = Finishing then 1 else 0)"
proof (induction ws arbitrary: i)
  case (Cons y ws)
  show ?case
  proof (cases i)
    case 0
    then show ?thesis by (simp add: finishing_def)
  next
    case (Suc j)
    with Cons.prems Cons.IH [of j] show ?thesis by (auto simp: finishing_def split: if_splits)
  qed
qed simp

lemma in_hand_size:
  "i < length ws \<Longrightarrow> size (in_hand (ws[i := x])) + length (held (ws ! i)) = size (in_hand ws) + length (held x)"
  using in_hand_update [of i ws x] by (metis size_mset size_union)

lemma worker_step_inv:
  assumes inv: "updater_inv n u" and i: "i < n" and step: "WorkerThread_step i u = Some u'"
  shows "updater_inv n u'"
proof -
  let ?ws = "ru_workers u"
  have len: "i < length ?ws" using inv i by (simp add: updater_inv_def)
  note upd = in_hand_update [OF len] finishing_update [OF len] in_hand_size [OF len]
  have sub: "set (?ws[i := x]) \<subseteq> insert x (set ?ws)" for x by (rule set_update_subset_insert)
  have mem: "?ws ! i \<in> set ?ws" using len by simp
  show ?thesis
  proof (cases "?ws ! i")
    case Waiting
    then obtain request q where q: "PCQueue_WaitAndPop (ru_queue u) = Some (request, q)"
      and u': "u' = set_worker i (Popped request) (u\<lparr>ru_queue := q\<rparr>)"
      using step by (auto simp: WorkerThread_step_def bind_eq_Some_conv)
    show ?thesis
    proof (cases "PCQueue_Empty (ru_queue u) \<or> pq_shutdown (ru_queue u)")
      case True
      then have "request = None" "q = ru_queue u" "pq_shutdown (ru_queue u)"
        using q by (auto simp: PCQueue_WaitAndPop_def split: if_splits)
      then show ?thesis
        using inv u' Waiting upd(1) [of "Popped None"] upd(2,3) [of "Popped None"] sub [of "Popped None"]
        by (auto simp: updater_inv_def set_worker_def)
    next
      case False
      then obtain r rest where items: "pq_items (ru_queue u) = r # rest"
        by (cases "pq_items (ru_queue u)") (auto simp: PCQueue_Empty_def)
      then have "request = Some r" "q = (ru_queue u)\<lparr>pq_items := rest\<rparr>"
        using q False by (auto simp: PCQueue_WaitAndPop_def PCQueue_Empty_def)
      then show ?thesis
        using inv u' Waiting items upd(1) [of "Popped (Some r)"] upd(2,3) [of "Popped (Some r)"]
          sub [of "Popped (Some r)"]
        by (auto simp: updater_inv_def set_worker_def)
    qed
  next
    case (Popped request)
    show ?thesis
    proof (cases "ru_token u")
      case True
      then have u': "u' = set_worker i Exited (u\<lparr>ru_dropped := ru_dropped u @ (case request of None \<Rightarrow> [] | Some r \<Rightarrow> [r])\<rparr>)"
        using step Popped by (simp add: WorkerThread_step_def)
      then show ?thesis
        using inv True Popped upd(1) [of Exited] upd(2,3) [of Exited] sub [of Exited]
        by (cases request) (auto simp: updater_inv_def set_worker_def)
    next
      case False
      then obtain r where r: "request = Some r"
        using inv Popped mem by (cases request) (auto simp: updater_inv_def)
      then have u': "u' = set_worker i (Calling r) u"
        using step Popped False by (simp add: WorkerThread_step_def)
      then show ?thesis
        using inv False Popped r upd(1) [of "Calling r"] upd(2,3) [of "Calling r"] sub [of "Calling r"]
        by (auto simp: updater_inv_def set_worker_def)
    qed
  next
    case (Calling r)
    then have u': "u' = set_worker i Finishing (u\<lparr>ru_done := ru_done u @ [r]\<rparr>)"
      using step by (simp add: WorkerThread_step_def)
    then show ?thesis
      using inv Calling upd(1) [of Finishing] upd(2,3) [of Finishing] sub [of Finishing]
      by (auto simp: updater_inv_def set_worker_def)
  next
    case Finishing
    then have u': "u' = set_worker i Waiting (RoomUpdater_update_finished u)"
      using step by (simp add: WorkerThread_step_def)
    then show ?thesis
      using inv Finishing upd(1) [of Waiting] upd(2,3) [of Waiting] sub [of Waiting]
      by (auto simp: updater_inv_def set_worker_def RoomUpdater_update_finished_def)
  qed (use step in \<open>auto simp: WorkerThread_step_def\<close>)
qed

lemma start_inv: "updater_inv n (RoomUpdater_activate n)"
  by (induction n) (auto simp: updater_inv_def RoomUpdater_activate_def PCQueue_new_def in_hand_def finishing_def)

lemma reach_inv: "reach n u \<Longrightarrow> updater_inv n u"
proof (induction rule: reach.induct)
  case start
  then show ?case by (rule start_inv)
next
  case (schedule u r)
  then show ?case by (simp add: updater_inv_def RoomUpdater_schedule_update_def PCQueue_Push_def)
next
  case (worker u i u')
  then show ?case by (simp add: worker_step_inv)
next
  case (token u)
  then show ?case by (simp add: updater_inv_def deactivate_token_def)
next
  case (cancel u u')
  then have "pq_items (ru_queue u) = []" and u': "u' = u\<lparr>ru_queue := PCQueue_Cancel (ru_queue u)\<rparr>"
    by (auto simp: updater_inv_def deactivate_cancel_def RoomUpdater_wait_def split: if_splits)
  with cancel show ?case by (simp add: updater_inv_def PCQueue_Cancel_def)
qed

lemma in_hand_empty: "in_hand ws = {#} \<longleftrightarrow> (\<forall>x \<in> set ws. held x = [])"
  by (auto simp: in_hand_def)

section \<open>Progress\<close>

fun worker_work :: "'r worker \<Rightarrow> nat" where
  "worker_work (Popped (Some r)) = 3"
| "worker_work (Calling r) = 2"
| "worker_work Finishing = 1"
| "worker_work _ = 0"

definition work :: "'r updater_history \<Rightarrow> nat" where
  "work u = 4 * length (pq_items (ru_queue u)) + sum_list (map worker_work (ru_workers u))"

lemma work_update:
  "i < length ws \<Longrightarrow> sum_list (map worker_work (ws[i := x])) + worker_work (ws ! i) =
     sum_list (map worker_work ws) + worker_work x"
proof (induction ws arbitrary: i)
  case (Cons y ws)
  show ?case
  proof (cases i)
    case (Suc j)
    with Cons.prems Cons.IH [of j] show ?thesis by simp
  qed simp
qed simp

lemma worker_step_work:
  assumes inv: "updater_inv n u" and i: "i < n" and run: "\<not> ru_token u" "WorkerThread_step i u = Some u'"
  shows "work u' < work u \<and> \<not> ru_token u'"
proof -
  let ?ws = "ru_workers u"
  have len: "i < length ?ws" using inv i by (simp add: updater_inv_def)
  have mem: "?ws ! i \<in> set ?ws" using len by simp
  note upd = work_update [OF len]
  show ?thesis
  proof (cases "?ws ! i")
    case Waiting
    have "\<not> pq_shutdown (ru_queue u)" using inv run(1) by (auto simp: updater_inv_def)
    with run(2) Waiting obtain r rest where "pq_items (ru_queue u) = r # rest"
      "u' = set_worker i (Popped (Some r)) (u\<lparr>ru_queue := (ru_queue u)\<lparr>pq_items := rest\<rparr>\<rparr>)"
      by (cases "pq_items (ru_queue u)")
        (auto simp: WorkerThread_step_def bind_eq_Some_conv PCQueue_WaitAndPop_def PCQueue_Empty_def)
    with Waiting run(1) upd [of "Popped (Some r)"] show ?thesis by (auto simp: work_def set_worker_def)
  next
    case (Popped request)
    then obtain r where "request = Some r"
      using inv mem run(1) by (cases request) (auto simp: updater_inv_def)
    with Popped run upd [of "Calling r"] show ?thesis
      by (auto simp: WorkerThread_step_def work_def set_worker_def)
  next
    case (Calling r)
    with run upd [of Finishing] show ?thesis
      by (auto simp: WorkerThread_step_def work_def set_worker_def)
  next
    case Finishing
    with run upd [of Waiting] show ?thesis
      by (auto simp: WorkerThread_step_def work_def set_worker_def RoomUpdater_update_finished_def)
  qed (use run in \<open>auto simp: WorkerThread_step_def\<close>)
qed

lemma pending_can_step:
  assumes inv: "updater_inv n u" and "n > 0" and "\<not> ru_token u" and "ru_pending u > 0"
  shows "\<exists>i < n. WorkerThread_step i u \<noteq> None"
proof (rule ccontr)
  assume "\<not> ?thesis"
  then have stuck: "WorkerThread_step i u = None" if "i < n" for i using that by blast
  have len: "length (ru_workers u) = n" using inv by (simp add: updater_inv_def)
  have idle: "x = Waiting \<and> pq_items (ru_queue u) = []" if "x \<in> set (ru_workers u)" for x
  proof -
    from that obtain i where i: "i < n" "ru_workers u ! i = x" using len by (metis in_set_conv_nth)
    have x: "x \<noteq> Exited" "x \<noteq> Crashed" using that inv assms(3) by (auto simp: updater_inv_def)
    show ?thesis
      using stuck [OF i(1)] i(2) x assms(3)
      by (cases x) (auto simp: WorkerThread_step_def PCQueue_WaitAndPop_def PCQueue_Empty_def
          split: if_splits option.splits)
  qed
  have "ru_workers u \<noteq> []" using len assms(2) by auto
  then have "pq_items (ru_queue u) = []" using idle by (metis list.set_intros(1) neq_Nil_conv)
  moreover have "in_hand (ru_workers u) = {#}" by (auto simp: in_hand_empty dest!: idle)
  moreover have "finishing (ru_workers u) = 0" by (auto simp: finishing_def filter_empty_conv dest!: idle)
  ultimately have "ru_pending u = 0" using inv assms(3) by (simp add: updater_inv_def)
  with assms(4) show False by simp
qed

section \<open>Properties\<close>

text \<open>
  C1. Waiting for the workers. In every interleaving of the scheduling thread and
  any number of workers, when \<^verbatim>\<open>wait\<close> returns before the updater is deactivated, every
  scheduled update has been carried out exactly once, and no request is left in the queue or in a
  worker's hands.
\<close>

theorem wait_means_done:
  assumes "reach n u" and "\<not> ru_token u" and "RoomUpdater_wait u = Some u'"
  shows "mset (ru_done u) = mset (ru_scheduled u) \<and> pq_items (ru_queue u) = [] \<and>
    (\<forall>x \<in> set (ru_workers u). held x = [] \<and> x \<noteq> Finishing)"
proof -
  have inv: "updater_inv n u" using assms(1) by (rule reach_inv)
  have "ru_pending u = 0" using assms(3) by (simp add: RoomUpdater_wait_def split: if_splits)
  then have "pq_items (ru_queue u) = []" "in_hand (ru_workers u) = {#}" "finishing (ru_workers u) = 0"
    "ru_dropped u = []" using inv assms(2) by (simp_all add: updater_inv_def)
  then show ?thesis
    using inv by (auto simp: updater_inv_def in_hand_empty finishing_def filter_empty_conv)
qed

lemma one_update: "reach 1 (RoomUpdater_update_finished (set_worker 0 Waiting
    (RoomUpdater_schedule_update r (RoomUpdater_activate 1)))\<lparr>ru_queue := PCQueue_new, ru_done := [r]\<rparr>)"
proof -
  let ?u1 = "RoomUpdater_schedule_update r (RoomUpdater_activate 1)"
  let ?u2 = "set_worker 0 (Popped (Some r)) (?u1\<lparr>ru_queue := PCQueue_new\<rparr>)"
  let ?u3 = "set_worker 0 (Calling r) ?u2"
  let ?u4 = "set_worker 0 Finishing (?u3\<lparr>ru_done := [r]\<rparr>)"
  let ?u5 = "set_worker 0 Waiting (RoomUpdater_update_finished ?u4)"
  note defs = RoomUpdater_schedule_update_def RoomUpdater_activate_def PCQueue_new_def PCQueue_Push_def
    set_worker_def WorkerThread_step_def PCQueue_WaitAndPop_def PCQueue_Empty_def
    RoomUpdater_update_finished_def
  have "reach 1 ?u1" by (rule schedule, rule start) (simp add: defs)
  then have "reach 1 ?u2" by (rule worker [where i = 0]) (simp_all add: defs)
  then have "reach 1 ?u3" by (rule worker [where i = 0]) (simp_all add: defs)
  then have "reach 1 ?u4" by (rule worker [where i = 0]) (simp_all add: defs)
  then have "reach 1 ?u5" by (rule worker [where i = 0]) (simp_all add: defs)
  then show ?thesis by (simp add: defs)
qed

theorem wait_means_done_witness:
  "\<exists>u. reach 1 u \<and> ru_scheduled u = [3 :: nat] \<and> mset (ru_done u) = {#3#}"
  using wait_means_done [OF one_update, of "3 :: nat"] one_update [of "3 :: nat"]
  by (intro exI [of _ "RoomUpdater_update_finished (set_worker 0 Waiting
    (RoomUpdater_schedule_update 3 (RoomUpdater_activate 1)))\<lparr>ru_queue := PCQueue_new, ru_done := [3]\<rparr>"])
    (simp add: RoomUpdater_wait_def RoomUpdater_schedule_update_def RoomUpdater_activate_def
      RoomUpdater_update_finished_def set_worker_def)

text \<open>
  The workers never call a null request: a worker gets one from
  \<^verbatim>\<open>WaitAndPop\<close> only after the queue has been cancelled, which \<^verbatim>\<open>deactivate\<close>
  does after setting the token the worker tests first. This holds at every point of every
  interleaving.
\<close>

theorem no_null_request:
  assumes "reach n u"
  shows "Crashed \<notin> set (ru_workers u)"
  using reach_inv [OF assms] by (simp add: updater_inv_def)

theorem no_null_request_witness:
  "Crashed \<notin> set (ru_workers (RoomUpdater_activate 2 :: nat updater_history))"
  by (rule no_null_request [OF start])

text \<open>
  C21. The workers make progress. As long as something is pending and the updater
  is not deactivated some worker can take a step, and every step of a worker uses up a part of a
  finite amount of work: so after at most \<open>work u\<close> steps nothing is pending and
  \<^verbatim>\<open>wait\<close> returns.
\<close>

theorem updates_progress:
  assumes "reach n u" and "n > 0" and "\<not> ru_token u"
  shows "(ru_pending u > 0 \<longrightarrow> (\<exists>i < n. WorkerThread_step i u \<noteq> None)) \<and>
    (\<forall>i < n. \<forall>u'. WorkerThread_step i u = Some u' \<longrightarrow> work u' < work u \<and> \<not> ru_token u')"
  using pending_can_step [OF reach_inv [OF assms(1)] assms(2,3)]
    worker_step_work [OF reach_inv [OF assms(1)] _ assms(3)] by blast

theorem updates_progress_witness:
  "\<exists>i < 1. WorkerThread_step i (RoomUpdater_schedule_update (3 :: nat) (RoomUpdater_activate 1)) \<noteq> None"
proof -
  have "reach 1 (RoomUpdater_schedule_update (3 :: nat) (RoomUpdater_activate 1))"
    by (rule schedule, rule start) (simp add: RoomUpdater_activate_def)
  from updates_progress [OF this] show ?thesis
    by (simp add: RoomUpdater_schedule_update_def RoomUpdater_activate_def)
qed

text \<open>
  Deactivating with a request pending can block for ever: a worker that popped
  the request before the token was set leaves without finishing it, so \<^verbatim>\<open>deactivate\<close>
  waits for a counter that no thread will change any more.
\<close>

theorem deactivate_can_block:
  "\<exists>u :: nat updater_history. reach 1 u \<and> ru_token u \<and> RoomUpdater_wait u = None \<and>
     deactivate_cancel u = None \<and> WorkerThread_step 0 u = None"
proof -
  let ?u1 = "RoomUpdater_schedule_update (3 :: nat) (RoomUpdater_activate 1)"
  let ?u2 = "set_worker 0 (Popped (Some 3)) (?u1\<lparr>ru_queue := PCQueue_new\<rparr>)"
  let ?u3 = "deactivate_token ?u2"
  let ?u4 = "set_worker 0 Exited (?u3\<lparr>ru_dropped := [3]\<rparr>)"
  note defs = RoomUpdater_schedule_update_def RoomUpdater_activate_def PCQueue_new_def PCQueue_Push_def
    set_worker_def WorkerThread_step_def PCQueue_WaitAndPop_def PCQueue_Empty_def deactivate_token_def
    RoomUpdater_wait_def deactivate_cancel_def
  have "reach 1 ?u1" by (rule schedule, rule start) (simp add: defs)
  then have "reach 1 ?u2" by (rule worker [where i = 0]) (simp_all add: defs)
  then have "reach 1 ?u3" by (rule token)
  then have "reach 1 ?u4" by (rule worker [where i = 0]) (simp_all add: defs)
  then show ?thesis by (intro exI [of _ ?u4]) (simp add: defs)
qed

end
