(* ===== verification/Multimap.thy ===== *)
theory Multimap
  imports Prelude
begin

text \<open>
  The \<^verbatim>\<open>std::multimap\<close> from times to events that \<^verbatim>\<open>EventMap\<close> (\<^verbatim>\<open>Util.h\<close>) and
  \<^verbatim>\<open>EventProcessor\<close> keep: the list of its entries in iteration order, and a locale
  that states what its clients rely on.
\<close>

section \<open>The multimap\<close>

text \<open>\<^verbatim>\<open>insert\<close> puts an entry behind the entries of the same key.\<close>

definition mm_insert :: "'k::linorder \<Rightarrow> 'v \<Rightarrow> ('k \<times> 'v) list \<Rightarrow> ('k \<times> 'v) list" where
  "mm_insert k v m = takeWhile (\<lambda>e. fst e \<le> k) m @ (k, v) # dropWhile (\<lambda>e. fst e \<le> k) m"

definition mm_insert_all :: "('k::linorder \<times> 'v) list \<Rightarrow> ('k \<times> 'v) list \<Rightarrow> ('k \<times> 'v) list" where
  "mm_insert_all es m = fold (\<lambda>(k, v). mm_insert k v) es m"

definition mm_sorted :: "('k::linorder \<times> 'v) list \<Rightarrow> bool" where
  "mm_sorted m \<longleftrightarrow> sorted (map fst m)"

text \<open>
  What a client of a store of timed entries relies on: the entries stay in the order of their
  times, an insertion adds exactly the new entry, and it comes behind the entries of its time.
\<close>

locale timed_store =
  fixes ins :: "'k::linorder \<Rightarrow> 'v \<Rightarrow> 's \<Rightarrow> 's"
    and entries :: "'s \<Rightarrow> ('k \<times> 'v) list"
    and ok :: "'s \<Rightarrow> bool"
  assumes in_order: "ok s \<Longrightarrow> mm_sorted (entries s)"
    and stays_ok: "ok s \<Longrightarrow> ok (ins k v s)"
    and mset_ins: "ok s \<Longrightarrow> mset (entries (ins k v s)) = add_mset (k, v) (mset (entries s))"
    and behind: "ok s \<Longrightarrow> [e \<leftarrow> entries (ins k v s). fst e = k] = [e \<leftarrow> entries s. fst e = k] @ [(k, v)]"
    and others: "ok s \<Longrightarrow> k' \<noteq> k \<Longrightarrow> [e \<leftarrow> entries (ins k v s). fst e = k'] = [e \<leftarrow> entries s. fst e = k']"
begin

definition insert_all :: "('k \<times> 'v) list \<Rightarrow> 's \<Rightarrow> 's" where
  "insert_all es s = fold (\<lambda>(k, v). ins k v) es s"

lemma insert_all_ok: "ok s \<Longrightarrow> ok (insert_all es s)"
  by (induction es arbitrary: s) (auto simp: insert_all_def stays_ok)

lemma insert_all_mset: "ok s \<Longrightarrow> mset (entries (insert_all es s)) = mset (entries s) + mset es"
proof (induction es arbitrary: s)
  case (Cons e es)
  then show ?case
    using Cons.IH [OF stays_ok [OF Cons.prems, of "fst e" "snd e"]]
    by (cases e) (simp add: insert_all_def mset_ins)
qed (simp add: insert_all_def)

lemma insert_all_key:
  "ok s \<Longrightarrow> [e \<leftarrow> entries (insert_all es s). fst e = k] = [e \<leftarrow> entries s. fst e = k] @ [e \<leftarrow> es. fst e = k]"
proof (induction es arbitrary: s)
  case (Cons e es)
  show ?case
    using Cons.IH [OF stays_ok [OF Cons.prems, of "fst e" "snd e"]] Cons.prems
    by (cases e) (auto simp: insert_all_def behind others)
qed (simp add: insert_all_def)

text \<open>Entries that are inserted into an empty store come out sorted by time, stably.\<close>

lemma insert_all_sorts:
  assumes "ok s" and "entries s = []"
  shows "entries (insert_all es s) = sort_key fst es"
proof (rule properties_for_sort_key [symmetric])
  show "mset (entries (insert_all es s)) = mset es"
    using insert_all_mset [OF assms(1)] assms(2) by simp
  show "filter (\<lambda>x. fst e = fst x) (entries (insert_all es s)) = filter (\<lambda>x. fst e = fst x) es"
    if "e \<in> set (entries (insert_all es s))" for e
    using insert_all_key [OF assms(1), where es = es and k = "fst e"] assms(2) by (simp add: eq_commute)
  show "sorted (map fst (entries (insert_all es s)))"
    using in_order [OF insert_all_ok [OF assms(1)]] by (simp add: mm_sorted_def)
qed

end

lemma mm_sorted_split:
  assumes "mm_sorted m"
  shows "takeWhile (\<lambda>e. fst e \<le> k) m = [e \<leftarrow> m. fst e \<le> k]"
    and "dropWhile (\<lambda>e. fst e \<le> k) m = [e \<leftarrow> m. \<not> fst e \<le> k]"
  using assms unfolding mm_sorted_def
  by (induction m) (auto simp: filter_empty_conv filter_id_conv not_le
      intro!: filter_True [symmetric] filter_False [symmetric] dest: order.strict_trans2)

lemma mm_sorted_Nil [simp]: "mm_sorted []"
  by (simp add: mm_sorted_def)

lemma mm_sorted_filter: "mm_sorted m \<Longrightarrow> mm_sorted (filter P m)"
  unfolding mm_sorted_def by (simp add: sorted_filter)

lemma mm_insert_eq:
  "mm_sorted m \<Longrightarrow> mm_insert k v m = [e \<leftarrow> m. fst e \<le> k] @ (k, v) # [e \<leftarrow> m. \<not> fst e \<le> k]"
  by (simp add: mm_insert_def mm_sorted_split)

lemma mm_sorted_insert: "mm_sorted m \<Longrightarrow> mm_sorted (mm_insert k v m)"
  by (subst mm_insert_eq, assumption)
    (auto simp: mm_sorted_def sorted_append sorted_filter intro: order.trans less_imp_le)

lemma mset_mm_insert [simp]: "mset (mm_insert k v m) = add_mset (k, v) (mset m)"
proof -
  have "mset (takeWhile P m) + mset (dropWhile P m) = mset m" for P :: "'a \<times> 'b \<Rightarrow> bool"
    by (metis mset_append takeWhile_dropWhile_id)
  then show ?thesis by (simp add: mm_insert_def)
qed

lemma set_mm_insert [simp]: "set (mm_insert k v m) = insert (k, v) (set m)"
  by (metis mset_mm_insert set_mset_add_mset_insert set_mset_mset)

interpretation mm: timed_store mm_insert "\<lambda>m. m" mm_sorted
proof
  fix s :: "('a \<times> 'b) list" and k k' :: 'a and v :: 'b
  assume s: "mm_sorted s"
  show "mm_sorted s" "mm_sorted (mm_insert k v s)" using s mm_sorted_insert by auto
  show "mset (mm_insert k v s) = add_mset (k, v) (mset s)" by simp
  have at: "[e \<leftarrow> s. fst e \<le> k \<and> fst e = k] = [e \<leftarrow> s. fst e = k]"
    "[e \<leftarrow> s. \<not> fst e \<le> k \<and> fst e = k] = []"
    by (auto simp: filter_empty_conv intro: filter_cong)
  then show "[e \<leftarrow> mm_insert k v s. fst e = k] = [e \<leftarrow> s. fst e = k] @ [(k, v)]"
    using s by (simp add: mm_insert_eq)
  assume "k' \<noteq> k"
  moreover have "[e \<leftarrow> s. fst e \<le> k \<and> fst e = k'] @ [e \<leftarrow> s. \<not> fst e \<le> k \<and> fst e = k'] = [e \<leftarrow> s. fst e = k']"
  proof (cases "k' \<le> k")
    case True
    then show ?thesis by (induction s) auto
  next
    case False
    then have "[e \<leftarrow> s. fst e \<le> k \<and> fst e = k'] = []" by (auto simp: filter_empty_conv)
    moreover have "[e \<leftarrow> s. \<not> fst e \<le> k \<and> fst e = k'] = [e \<leftarrow> s. fst e = k']"
      using False by (induction s) auto
    ultimately show ?thesis by simp
  qed
  ultimately show "[e \<leftarrow> mm_insert k v s. fst e = k'] = [e \<leftarrow> s. fst e = k']"
    using s by (simp add: mm_insert_eq)
qed

lemma mm_insert_all_eq: "mm_insert_all es m = mm.insert_all es m"
  by (simp add: mm_insert_all_def mm.insert_all_def)

end
