(* ===== verification/Events.thy ===== *)
theory Events
  imports Multimap
begin

text \<open>
  The \<^verbatim>\<open>EventMap\<close> of \<^verbatim>\<open>src/server/shared/Utilities/Util.h\<close>: a stopwatch with
  scheduled events, which belong to groups and to phases. An event's data is a 32-bit word, the
  id in bits 0 to 15, the groups in 16 to 23, the phases in 24 to 31.
\<close>

unbundle bit_operations_syntax

section \<open>The state and its operations\<close>

record event_map =
  em_time :: u32
  em_phase :: u8
  em_events :: "(u32 \<times> u32) list"
  em_lastEvent :: u32

definition EventMap_new :: event_map where
  "EventMap_new = \<lparr>em_time = 0, em_phase = 0, em_events = [], em_lastEvent = 0\<rparr>"

definition EventMap_Reset :: "event_map \<Rightarrow> event_map" where
  "EventMap_Reset m = m\<lparr>em_events := [], em_time := 0, em_phase := 0\<rparr>"

definition EventMap_Update :: "u32 \<Rightarrow> event_map \<Rightarrow> event_map" where
  "EventMap_Update time m = m\<lparr>em_time := em_time m + time\<rparr>"

definition EventMap_Empty :: "event_map \<Rightarrow> bool" where
  "EventMap_Empty m \<longleftrightarrow> em_events m = []"

text \<open>\<^verbatim>\<open>uint8(1 << (phase - 1))\<close> for a phase from 1 to 8.\<close>

definition phase_bit :: "u8 \<Rightarrow> u8" where
  "phase_bit phase = ucast (push_bit (unat phase - 1) (1 :: u32))"

definition EventMap_SetPhase :: "u8 \<Rightarrow> event_map \<Rightarrow> event_map" where
  "EventMap_SetPhase phase m =
     (if phase = 0 then m\<lparr>em_phase := 0\<rparr>
      else if phase \<le> 8 then m\<lparr>em_phase := phase_bit phase\<rparr>
      else m)"

definition EventMap_AddPhase :: "u8 \<Rightarrow> event_map \<Rightarrow> event_map" where
  "EventMap_AddPhase phase m =
     (if phase \<noteq> 0 \<and> phase \<le> 8 then m\<lparr>em_phase := em_phase m OR phase_bit phase\<rparr> else m)"

definition EventMap_RemovePhase :: "u8 \<Rightarrow> event_map \<Rightarrow> event_map" where
  "EventMap_RemovePhase phase m =
     (if phase \<noteq> 0 \<and> phase \<le> 8 then m\<lparr>em_phase := em_phase m AND NOT (phase_bit phase)\<rparr> else m)"

definition EventMap_IsInPhase :: "u8 \<Rightarrow> event_map \<Rightarrow> bool" where
  "EventMap_IsInPhase phase m \<longleftrightarrow> phase \<le> 8 \<and> (phase = 0 \<or> em_phase m AND phase_bit phase \<noteq> 0)"

text \<open>\<^verbatim>\<open>1 << (group + 15)\<close> and \<^verbatim>\<open>1 << (phase + 23)\<close>.\<close>

definition group_bit :: "u32 \<Rightarrow> u32" where
  "group_bit grp = push_bit (unat (grp + 15)) 1"

definition EventMap_ScheduleEvent :: "u32 \<Rightarrow> u32 \<Rightarrow> u32 \<Rightarrow> u8 \<Rightarrow> event_map \<Rightarrow> event_map" where
  "EventMap_ScheduleEvent eventId time grp phase m =
     (let eventId = (if grp \<noteq> 0 \<and> grp \<le> 8 then eventId OR group_bit grp else eventId);
          eventId = (if phase \<noteq> 0 \<and> phase \<le> 8 then eventId OR push_bit (unat phase + 23) 1 else eventId)
      in m\<lparr>em_events := mm_insert (em_time m + time) eventId (em_events m)\<rparr>)"

definition EventMap_CancelEvent :: "u32 \<Rightarrow> event_map \<Rightarrow> event_map" where
  "EventMap_CancelEvent eventId m =
     m\<lparr>em_events := [e \<leftarrow> em_events m. \<not> eventId = snd e AND 0x0000FFFF]\<rparr>"

definition EventMap_RescheduleEvent :: "u32 \<Rightarrow> u32 \<Rightarrow> u32 \<Rightarrow> u8 \<Rightarrow> event_map \<Rightarrow> event_map" where
  "EventMap_RescheduleEvent eventId time grp phase m =
     EventMap_ScheduleEvent eventId time grp phase (EventMap_CancelEvent eventId m)"

definition EventMap_Repeat :: "u32 \<Rightarrow> event_map \<Rightarrow> event_map" where
  "EventMap_Repeat time m = m\<lparr>em_events := mm_insert (em_time m + time) (em_lastEvent m) (em_events m)\<rparr>"

text \<open>\<open>rnd\<close> is what \<^verbatim>\<open>urand\<close> returns; its assertion stops the program.\<close>

definition EventMap_Repeat_between ::
  "(u32 \<Rightarrow> u32 \<Rightarrow> u32) \<Rightarrow> u32 \<Rightarrow> u32 \<Rightarrow> event_map \<Rightarrow> event_map option" where
  "EventMap_Repeat_between rnd minTime maxTime m =
     (if maxTime \<ge> minTime then Some (EventMap_Repeat (rnd minTime maxTime) m) else None)"

fun execute_loop :: "u32 \<Rightarrow> u8 \<Rightarrow> (u32 \<times> u32) list \<Rightarrow> (u32 \<times> u32) option \<times> (u32 \<times> u32) list" where
  "execute_loop time phase [] = (None, [])"
| "execute_loop time phase (e # es) =
     (if fst e > time then (None, e # es)
      else if phase \<noteq> 0 \<and> snd e AND 0xFF000000 \<noteq> 0 \<and> drop_bit 24 (snd e) AND ucast phase = 0
        then execute_loop time phase es
      else (Some e, es))"

definition EventMap_ExecuteEvent :: "event_map \<Rightarrow> u32 \<times> event_map" where
  "EventMap_ExecuteEvent m =
     (case execute_loop (em_time m) (em_phase m) (em_events m) of
        (None, es) \<Rightarrow> (0, m\<lparr>em_events := es\<rparr>)
      | (Some e, es) \<Rightarrow> (snd e AND 0x0000FFFF, m\<lparr>em_events := es, em_lastEvent := snd e\<rparr>))"

definition EventMap_DelayEvents :: "u32 \<Rightarrow> event_map \<Rightarrow> event_map" where
  "EventMap_DelayEvents delay m =
     m\<lparr>em_time := (if delay < em_time m then em_time m - delay else 0)\<rparr>"

definition EventMap_DelayEvents_group :: "u32 \<Rightarrow> u32 \<Rightarrow> event_map \<Rightarrow> event_map" where
  "EventMap_DelayEvents_group delay grp m =
     (if grp = 0 \<or> grp > 8 \<or> EventMap_Empty m then m
      else
        let delayed = mm_insert_all
              (map (\<lambda>e. (fst e + delay, snd e)) [e \<leftarrow> em_events m. snd e AND group_bit grp \<noteq> 0]) []
        in m\<lparr>em_events := mm_insert_all delayed [e \<leftarrow> em_events m. \<not> snd e AND group_bit grp \<noteq> 0]\<rparr>)"

definition EventMap_CancelEventGroup :: "u32 \<Rightarrow> event_map \<Rightarrow> event_map" where
  "EventMap_CancelEventGroup grp m =
     (if grp = 0 \<or> grp > 8 \<or> EventMap_Empty m then m
      else m\<lparr>em_events := [e \<leftarrow> em_events m. \<not> snd e AND group_bit grp \<noteq> 0]\<rparr>)"

definition EventMap_GetNextEventTime_id :: "u32 \<Rightarrow> event_map \<Rightarrow> u32" where
  "EventMap_GetNextEventTime_id eventId m =
     (case find (\<lambda>e. eventId = snd e AND 0x0000FFFF) (em_events m) of None \<Rightarrow> 0 | Some e \<Rightarrow> fst e)"

definition EventMap_GetNextEventTime :: "event_map \<Rightarrow> u32" where
  "EventMap_GetNextEventTime m = (case em_events m of [] \<Rightarrow> 0 | e # _ \<Rightarrow> fst e)"

definition EventMap_GetTimeUntilEvent :: "u32 \<Rightarrow> event_map \<Rightarrow> u32" where
  "EventMap_GetTimeUntilEvent eventId m =
     (case find (\<lambda>e. eventId = snd e AND 0x0000FFFF) (em_events m) of
        None \<Rightarrow> - 1
      | Some e \<Rightarrow> fst e - em_time m)"

text \<open>The maps a program can have: a new map, and what the operations make of one.\<close>

inductive em_reach :: "event_map \<Rightarrow> bool" where
  new: "em_reach EventMap_new"
| reset: "em_reach m \<Longrightarrow> em_reach (EventMap_Reset m)"
| update: "em_reach m \<Longrightarrow> em_reach (EventMap_Update t m)"
| set_phase: "em_reach m \<Longrightarrow> em_reach (EventMap_SetPhase p m)"
| add_phase: "em_reach m \<Longrightarrow> em_reach (EventMap_AddPhase p m)"
| remove_phase: "em_reach m \<Longrightarrow> em_reach (EventMap_RemovePhase p m)"
| schedule: "em_reach m \<Longrightarrow> em_reach (EventMap_ScheduleEvent i t g p m)"
| reschedule: "em_reach m \<Longrightarrow> em_reach (EventMap_RescheduleEvent i t g p m)"
| repeat: "em_reach m \<Longrightarrow> em_reach (EventMap_Repeat t m)"
| execute: "em_reach m \<Longrightarrow> em_reach (snd (EventMap_ExecuteEvent m))"
| delay: "em_reach m \<Longrightarrow> em_reach (EventMap_DelayEvents d m)"
| delay_group: "em_reach m \<Longrightarrow> em_reach (EventMap_DelayEvents_group d g m)"
| cancel: "em_reach m \<Longrightarrow> em_reach (EventMap_CancelEvent i m)"
| cancel_group: "em_reach m \<Longrightarrow> em_reach (EventMap_CancelEventGroup g m)"


section \<open>Lemmas\<close>

lemma execute_loop_suffix: "\<exists>us. es = us @ snd (execute_loop time phase es)"
proof (induction es)
  case (Cons e es)
  then obtain us where "es = us @ snd (execute_loop time phase es)" by blast
  then show ?case by (auto intro: exI [of _ "e # us"] exI [of _ "[e]"])
qed simp

text \<open>An event that is due but not in phase.\<close>

definition out_of_phase :: "u8 \<Rightarrow> u32 \<times> u32 \<Rightarrow> bool" where
  "out_of_phase phase e \<longleftrightarrow>
     phase \<noteq> 0 \<and> snd e AND 0xFF000000 \<noteq> 0 \<and> drop_bit 24 (snd e) AND ucast phase = 0"

lemma execute_loop_eq:
  assumes "mm_sorted es"
  shows "execute_loop time phase es =
    (let due = [e \<leftarrow> es. fst e \<le> time]; later = [e \<leftarrow> es. \<not> fst e \<le> time]
     in case dropWhile (out_of_phase phase) due of
          [] \<Rightarrow> (None, later)
        | e # rest \<Rightarrow> (Some e, rest @ later))"
  using assms
proof (induction es)
  case (Cons e es)
  then have s: "mm_sorted es" "\<forall>x \<in> set es. fst e \<le> fst x" by (auto simp: mm_sorted_def)
  show ?case
  proof (cases "fst e \<le> time")
    case True
    have "[x \<leftarrow> es. fst x \<le> time] @ [x \<leftarrow> es. \<not> fst x \<le> time] = es"
      using mm_sorted_split [OF s(1), of time] by (metis takeWhile_dropWhile_id)
    with True Cons.IH [OF s(1)] show ?thesis
      by (auto simp: Let_def out_of_phase_def)
  next
    case False
    then have "[x \<leftarrow> es. fst x \<le> time] = []" "[x \<leftarrow> es. \<not> fst x \<le> time] = es"
      using s(2) by (force simp: filter_empty_conv filter_id_conv)+
    with False show ?thesis by (simp add: Let_def not_le)
  qed
qed (simp add: Let_def)

lemma em_reach_sorted: "em_reach m \<Longrightarrow> mm_sorted (em_events m)"
proof (induction rule: em_reach.induct)
  case (execute m)
  have "\<exists>us. em_events m = us @ snd (execute_loop (em_time m) (em_phase m) (em_events m))"
    by (rule execute_loop_suffix)
  then show ?case using execute
    by (auto simp: EventMap_ExecuteEvent_def mm_sorted_def sorted_append split: prod.splits option.splits)
next
  case (delay_group m d g)
  then show ?case
    using mm.insert_all_ok mm_sorted_filter
    by (auto simp: EventMap_DelayEvents_group_def Let_def mm_insert_all_eq)
qed (auto simp: EventMap_new_def EventMap_Reset_def EventMap_Update_def EventMap_SetPhase_def
    EventMap_AddPhase_def EventMap_RemovePhase_def EventMap_ScheduleEvent_def
    EventMap_RescheduleEvent_def EventMap_Repeat_def EventMap_DelayEvents_def
    EventMap_CancelEvent_def EventMap_CancelEventGroup_def Let_def mm_sorted_insert
    mm_sorted_filter mm_sorted_Nil)

section \<open>Identities and flags\<close>

lemma low_bits: "(w :: u32) AND 0x0000FFFF = take_bit 16 w"
  by (simp add: take_bit_eq_mask mask_eq_exp_minus_1)

lemma low_id:
  assumes "(i :: u32) \<le> 0xFFFF"
  shows "i AND 0x0000FFFF = i"
proof -
  have "unat i < 2 ^ 16" using assms by (simp add: word_le_nat_alt)
  then have "unat (take_bit 16 i) = unat i"
    by (simp add: unsigned_take_bit_eq take_bit_nat_eq_self)
  then have "take_bit 16 i = i" by (rule word_unat_eq_iff [THEN iffD2])
  then show ?thesis by (simp only: low_bits)
qed

lemma flag_low: "16 \<le> n \<Longrightarrow> push_bit n (1 :: u32) AND 0x0000FFFF = 0"
  unfolding low_bits take_bit_push_bit by simp

lemma group_bit_low: "g \<noteq> 0 \<Longrightarrow> g \<le> 8 \<Longrightarrow> group_bit g AND 0x0000FFFF = 0"
  unfolding group_bit_def by (rule flag_low) (simp add: word_le_nat_alt unat_word_ariths unat_eq_0 [symmetric] not_less [symmetric])

lemma scheduled_id:
  assumes "i \<le> 0xFFFF"
  shows "(let i = (if g \<noteq> 0 \<and> g \<le> 8 then i OR group_bit g else i);
              i = (if p \<noteq> 0 \<and> (p :: u8) \<le> 8 then i OR push_bit (unat p + 23) 1 else i) in i) AND 0x0000FFFF = i"
proof -
  have "push_bit (unat p + 23) (1 :: u32) AND 0x0000FFFF = 0" if "p \<noteq> 0"
    by (rule flag_low) simp
  then show ?thesis
    using low_id [OF assms] group_bit_low [of g] by (auto simp: Let_def bit.conj_disj_distrib2)
qed

lemma filter_mm_insert: "filter P m = [] \<Longrightarrow> P (k, v) \<Longrightarrow> filter P (mm_insert k v m) = [(k, v)]"
proof -
  assume none: "filter P m = []" and new: "P (k, v)"
  then have "filter P (takeWhile (\<lambda>e. fst e \<le> k) m @ dropWhile (\<lambda>e. fst e \<le> k) m) = []" by simp
  then show ?thesis using new unfolding mm_insert_def filter_append by simp
qed

lemma filter_mm_insert_not: "\<not> P (k, v) \<Longrightarrow> filter P (mm_insert k v m) = filter P m"
proof -
  assume new: "\<not> P (k, v)"
  have "filter P (mm_insert k v m) =
      filter P (takeWhile (\<lambda>e. fst e \<le> k) m @ dropWhile (\<lambda>e. fst e \<le> k) m)"
    using new unfolding mm_insert_def filter_append by simp
  then show ?thesis by simp
qed

lemma find_filter: "find P xs = (case filter P xs of [] \<Rightarrow> None | x # _ \<Rightarrow> Some x)"
  by (induction xs) auto

text \<open>The word a call of \<^verbatim>\<open>ScheduleEvent\<close> stores for an event.\<close>

definition event_data :: "u32 \<Rightarrow> u32 \<Rightarrow> u8 \<Rightarrow> u32" where
  "event_data eventId grp phase =
     (let eventId = (if grp \<noteq> 0 \<and> grp \<le> 8 then eventId OR group_bit grp else eventId)
      in if phase \<noteq> 0 \<and> phase \<le> 8 then eventId OR push_bit (unat phase + 23) 1 else eventId)"

lemma ScheduleEvent_eq:
  "EventMap_ScheduleEvent i t g p m =
     m\<lparr>em_events := mm_insert (em_time m + t) (event_data i g p) (em_events m)\<rparr>"
  by (simp add: EventMap_ScheduleEvent_def event_data_def Let_def)

lemma event_data_id: "i \<le> 0xFFFF \<Longrightarrow> event_data i g p AND 0x0000FFFF = i"
  using scheduled_id [of i g p] by (simp add: event_data_def Let_def)

lemma mset_delayed:
  "mset (map (\<lambda>e. (fst e + d, snd e)) [e \<leftarrow> es. P e]) + mset [e \<leftarrow> es. \<not> P e] =
     image_mset (\<lambda>e. if P e then (fst e + d, snd e) else e) (mset es)"
  by (induction es) auto

lemma filter_mm_insert_all:
  "(\<And>e. e \<in> set es \<Longrightarrow> \<not> P e) \<Longrightarrow> filter P (mm_insert_all es m) = filter P m"
  unfolding mm_insert_all_def
  by (induction es arbitrary: m) (auto simp: filter_mm_insert_not)

lemma delay_group_events:
  assumes "em_reach m" and "g \<noteq> 0" and "g \<le> 8"
  shows "mset (em_events (EventMap_DelayEvents_group d g m)) =
      image_mset (\<lambda>e. if snd e AND group_bit g \<noteq> 0 then (fst e + d, snd e) else e) (mset (em_events m))"
    and "[e \<leftarrow> em_events (EventMap_DelayEvents_group d g m). \<not> snd e AND group_bit g \<noteq> 0] =
      [e \<leftarrow> em_events m. \<not> snd e AND group_bit g \<noteq> 0]"
proof -
  let ?G = "\<lambda>e. snd e AND group_bit g \<noteq> 0"
  let ?moved = "map (\<lambda>e. (fst e + d, snd e)) [e \<leftarrow> em_events m. ?G e]"
  let ?delayed = "mm_insert_all ?moved []" and ?rest = "[e \<leftarrow> em_events m. \<not> ?G e]"
  have res: "em_events (EventMap_DelayEvents_group d g m) = mm_insert_all ?delayed ?rest"
    using assms(2) leD [OF assms(3)]
    by (simp add: EventMap_DelayEvents_group_def EventMap_Empty_def Let_def mm_insert_all_def)
  have "mm_sorted ?rest" using em_reach_sorted [OF assms(1)] by (rule mm_sorted_filter)
  then have "mset (mm_insert_all ?delayed ?rest) = mset ?rest + mset ?moved"
    using mm.insert_all_mset [of ?rest ?delayed] mm.insert_all_mset [of "[]" ?moved]
    by (simp add: mm_insert_all_eq)
  then show "mset (em_events (EventMap_DelayEvents_group d g m)) =
      image_mset (\<lambda>e. if ?G e then (fst e + d, snd e) else e) (mset (em_events m))"
    using mset_delayed [of d ?G "em_events m"] by (simp add: res add.commute)
  have "set ?delayed = set ?moved"
    using mm.insert_all_mset [of "[]" ?moved] mset_eq_setD [of ?delayed ?moved]
    by (simp add: mm_insert_all_eq)
  then have "\<And>e. e \<in> set ?delayed \<Longrightarrow> \<not> \<not> ?G e" by auto
  from filter_mm_insert_all [of ?delayed "\<lambda>e. \<not> ?G e", OF this]
  show "[e \<leftarrow> em_events (EventMap_DelayEvents_group d g m). \<not> ?G e] = [e \<leftarrow> em_events m. \<not> ?G e]"
    by (simp add: res)
qed

lemma delay_all_until:
  assumes "\<exists>e \<in> set (em_events m). snd e AND 0x0000FFFF = i"
  shows "EventMap_GetTimeUntilEvent i (EventMap_DelayEvents d m) =
    EventMap_GetTimeUntilEvent i m + min d (em_time m)"
proof -
  have "find (\<lambda>e. i = snd e AND 0x0000FFFF) (em_events m) \<noteq> None"
    using assms unfolding find_None_iff by blast
  then obtain e where "find (\<lambda>e. i = snd e AND 0x0000FFFF) (em_events m) = Some e" by blast
  then show ?thesis
    by (auto simp: EventMap_GetTimeUntilEvent_def EventMap_DelayEvents_def min_def not_less)
qed

section \<open>Properties\<close>

text \<open>
  Running the events. On every event map a program can reach, \<^verbatim>\<open>ExecuteEvent\<close>
  implements this specification: take the due events in the order of their times (for equal
  times in the order of scheduling), skip and drop those that belong to phases of which none is
  active, and execute, remove and remember the next one; with none left return 0. Events that
  are not due stay as they are.
\<close>

theorem execute_runs_next_due:
  assumes "em_reach m"
  shows "EventMap_ExecuteEvent m =
    (let due = [e \<leftarrow> em_events m. fst e \<le> em_time m];
         later = [e \<leftarrow> em_events m. \<not> fst e \<le> em_time m]
     in case dropWhile (out_of_phase (em_phase m)) due of
          [] \<Rightarrow> (0, m\<lparr>em_events := later\<rparr>)
        | e # rest \<Rightarrow>
            (snd e AND 0x0000FFFF, m\<lparr>em_events := rest @ later, em_lastEvent := snd e\<rparr>)) \<and>
    mm_sorted (em_events (snd (EventMap_ExecuteEvent m)))"
proof -
  let ?due = "[e \<leftarrow> em_events m. fst e \<le> em_time m]"
    and ?later = "[e \<leftarrow> em_events m. \<not> fst e \<le> em_time m]"
  have run: "execute_loop (em_time m) (em_phase m) (em_events m) =
      (case D of [] \<Rightarrow> (None, ?later) | e # rest \<Rightarrow> (Some e, rest @ ?later))"
    if "D = dropWhile (out_of_phase (em_phase m)) ?due" for D
    using execute_loop_eq [OF em_reach_sorted [OF assms]] that by (simp add: Let_def)
  have "EventMap_ExecuteEvent m =
      (case D of [] \<Rightarrow> (0, m\<lparr>em_events := ?later\<rparr>)
       | e # rest \<Rightarrow> (snd e AND 0x0000FFFF, m\<lparr>em_events := rest @ ?later, em_lastEvent := snd e\<rparr>))"
    if "D = dropWhile (out_of_phase (em_phase m)) ?due" for D
    using run [OF that] by (cases D) (simp_all add: EventMap_ExecuteEvent_def)
  then show ?thesis
    using em_reach_sorted [OF em_reach.execute [OF assms]] by (simp add: Let_def)
qed

theorem execute_runs_next_due_witness:
  "EventMap_ExecuteEvent (EventMap_Update 5 (EventMap_ScheduleEvent 7 4 0 0 EventMap_new)) =
     (7, \<lparr>em_time = 5, em_phase = 0, em_events = [], em_lastEvent = 7\<rparr>)"
proof -
  have r: "em_reach (EventMap_Update 5 (EventMap_ScheduleEvent 7 4 0 0 EventMap_new))"
    by (intro em_reach.intros)
  show ?thesis
    using conjunct1 [OF execute_runs_next_due [OF r]]
    by (simp add: EventMap_Update_def EventMap_ScheduleEvent_def EventMap_new_def mm_insert_def
        out_of_phase_def)
qed

text \<open>
  Rescheduling. For an id of 16 bits, \<^verbatim>\<open>RescheduleEvent\<close> leaves exactly one event
  of that id, at the new time and with the new group and phase, keeps all other events in their
  order, and \<^verbatim>\<open>GetTimeUntilEvent\<close> then returns the time asked for, also when the sum
  with the clock wraps; after \<^verbatim>\<open>CancelEvent\<close> it returns the largest number.
\<close>

theorem reschedule_leaves_one:
  assumes "i \<le> 0xFFFF"
  shows "[e \<leftarrow> em_events (EventMap_RescheduleEvent i t g p m). snd e AND 0x0000FFFF = i] =
      [(em_time m + t, event_data i g p)] \<and>
    [e \<leftarrow> em_events (EventMap_RescheduleEvent i t g p m). snd e AND 0x0000FFFF \<noteq> i] =
      [e \<leftarrow> em_events m. snd e AND 0x0000FFFF \<noteq> i] \<and>
    EventMap_GetTimeUntilEvent i (EventMap_RescheduleEvent i t g p m) = t \<and>
    EventMap_GetTimeUntilEvent i (EventMap_CancelEvent i m) = - 1"
proof -
  let ?P = "\<lambda>e. snd e AND 0x0000FFFF = i"
  let ?m = "EventMap_CancelEvent i m"
  have d: "event_data i g p AND 0x0000FFFF = i" using assms by (rule event_data_id)
  have none: "filter ?P (em_events ?m) = []"
    by (auto simp: EventMap_CancelEvent_def filter_empty_conv)
  have one: "filter ?P (em_events (EventMap_RescheduleEvent i t g p m)) =
      [(em_time m + t, event_data i g p)]"
    using filter_mm_insert [of ?P "em_events ?m", OF none] d
    by (simp add: EventMap_RescheduleEvent_def ScheduleEvent_eq EventMap_CancelEvent_def)
  have rest: "filter (\<lambda>e. \<not> ?P e) (em_events (EventMap_RescheduleEvent i t g p m)) =
      filter (\<lambda>e. \<not> ?P e) (em_events m)"
    using filter_mm_insert_not [of "\<lambda>e. \<not> ?P e" "em_time m + t" "event_data i g p" "em_events ?m"] d
    by (simp add: EventMap_RescheduleEvent_def ScheduleEvent_eq EventMap_CancelEvent_def eq_commute)
  have "em_time (EventMap_RescheduleEvent i t g p m) = em_time m"
    by (simp add: EventMap_RescheduleEvent_def ScheduleEvent_eq EventMap_CancelEvent_def)
  with one rest none show ?thesis
    by (simp add: EventMap_GetTimeUntilEvent_def find_filter eq_commute [of i])
qed

theorem reschedule_leaves_one_witness:
  "EventMap_GetTimeUntilEvent 7
     (EventMap_RescheduleEvent 7 9 2 1 (EventMap_ScheduleEvent 7 4 0 0 EventMap_new)) = 9"
  using reschedule_leaves_one [of 7 9 2 1 "EventMap_ScheduleEvent 7 4 0 0 EventMap_new"] by simp

text \<open>
  Delays. Delaying a group moves exactly its events, each by the delay, and keeps the others
  in their order; the result is in the order of the times again. The delay of the whole map turns
  the clock back, so that every event has the delay more to wait, but no more than the clock has
  run.
\<close>

theorem delays_move_events:
  assumes "em_reach m" and "g \<noteq> 0" and "g \<le> 8"
    and "\<exists>e \<in> set (em_events m). snd e AND 0x0000FFFF = i"
  shows "mset (em_events (EventMap_DelayEvents_group d g m)) =
      image_mset (\<lambda>e. if snd e AND group_bit g \<noteq> 0 then (fst e + d, snd e) else e) (mset (em_events m)) \<and>
    [e \<leftarrow> em_events (EventMap_DelayEvents_group d g m). \<not> snd e AND group_bit g \<noteq> 0] =
      [e \<leftarrow> em_events m. \<not> snd e AND group_bit g \<noteq> 0] \<and>
    mm_sorted (em_events (EventMap_DelayEvents_group d g m)) \<and>
    EventMap_GetTimeUntilEvent i (EventMap_DelayEvents d m) =
      EventMap_GetTimeUntilEvent i m + min d (em_time m)"
  using delay_group_events [OF assms(1-3)] em_reach_sorted [OF em_reach.delay_group [OF assms(1)]]
    delay_all_until [OF assms(4)] by blast

theorem delays_move_events_witness:
  "EventMap_GetTimeUntilEvent 7
     (EventMap_DelayEvents 9 (EventMap_Update 5 (EventMap_ScheduleEvent 7 8 1 0 EventMap_new))) = 8"
proof -
  let ?m = "EventMap_Update 5 (EventMap_ScheduleEvent 7 8 1 0 EventMap_new)"
  have r: "em_reach ?m" by (intro em_reach.intros)
  have e: "\<exists>e \<in> set (em_events ?m). snd e AND 0x0000FFFF = 7"
    by (simp add: EventMap_Update_def ScheduleEvent_eq EventMap_new_def event_data_id)
  have "EventMap_GetTimeUntilEvent 7 (EventMap_DelayEvents 9 ?m) =
      EventMap_GetTimeUntilEvent 7 ?m + min 9 (em_time ?m)"
    using delays_move_events [OF r _ _ e, of 1 9] by simp
  also have "\<dots> = 8"
    by (simp add: EventMap_GetTimeUntilEvent_def find_filter EventMap_Update_def ScheduleEvent_eq
        EventMap_new_def event_data_id mm_insert_def)
  finally show ?thesis .
qed

end
