(* ===== verification/Processor.thy ===== *)
theory Processor
  imports Multimap
begin

text \<open>
  The \<^verbatim>\<open>EventProcessor\<close> of \<^verbatim>\<open>src/server/shared/Utilities\<close>. Its events are
  objects with virtual functions, which a subclass overrides; they live at addresses of a store,
  and what a subclass does is an argument of the model. \<open>None\<close> is the use of an object that is
  already deleted.
\<close>

section \<open>The state and its operations\<close>

record basic_event =
  be_to_Abort :: bool
  be_addTime :: u64
  be_execTime :: u64

definition BasicEvent_new :: basic_event where
  "BasicEvent_new = \<lparr>be_to_Abort = False, be_addTime = 0, be_execTime = 0\<rparr>"

text \<open>What has been called so far, for the statements below.\<close>

datatype call = Executed nat u64 u32 | Aborted nat u64

record event_processor =
  ep_time :: u64
  ep_events :: "(u64 \<times> nat) list"
  ep_aborting :: bool
  ep_objects :: "nat \<Rightarrow> basic_event option"
  ep_calls :: "call list"

definition EventProcessor_new :: "(nat \<Rightarrow> basic_event option) \<Rightarrow> event_processor" where
  "EventProcessor_new objects =
     \<lparr>ep_time = 0, ep_events = [], ep_aborting = False, ep_objects = objects, ep_calls = []\<rparr>"

definition EventProcessor_AddEvent ::
  "nat \<Rightarrow> u64 \<Rightarrow> bool \<Rightarrow> event_processor \<Rightarrow> event_processor option" where
  "EventProcessor_AddEvent a e_time set_addtime p = do {
     e \<leftarrow> ep_objects p a;
     let e = (if set_addtime then e\<lparr>be_addTime := ep_time p\<rparr> else e);
     let e = e\<lparr>be_execTime := e_time\<rparr>;
     Some (p\<lparr>ep_objects := (ep_objects p)(a \<mapsto> e), ep_events := mm_insert e_time a (ep_events p)\<rparr>)
   }"

definition EventProcessor_CalculateTime :: "u64 \<Rightarrow> event_processor \<Rightarrow> u64" where
  "EventProcessor_CalculateTime t_offset p = ep_time p + t_offset"

definition delete_event :: "nat \<Rightarrow> event_processor \<Rightarrow> event_processor option" where
  "delete_event a p = do { e \<leftarrow> ep_objects p a; Some (p\<lparr>ep_objects := (ep_objects p)(a := None)\<rparr>) }"

text \<open>
  What \<^verbatim>\<open>Execute\<close> of an event does to the processor: the calls of
  \<^verbatim>\<open>AddEvent\<close> it makes, and whether it returns \<^verbatim>\<open>true\<close>.
\<close>

type_synonym behaviour = "nat \<Rightarrow> u64 \<Rightarrow> u32 \<Rightarrow> bool \<times> (nat \<times> u64) list"

fun add_events :: "(nat \<times> u64) list \<Rightarrow> event_processor \<Rightarrow> event_processor option" where
  "add_events [] p = Some p"
| "add_events ((a, t) # adds) p = do { p \<leftarrow> EventProcessor_AddEvent a t True p; add_events adds p }"

definition run_event :: "behaviour \<Rightarrow> u32 \<Rightarrow> nat \<Rightarrow> event_processor \<Rightarrow> event_processor option" where
  "run_event execute p_time a p = do {
     e \<leftarrow> ep_objects p a;
     if \<not> be_to_Abort e then do {
       let (finished, adds) = execute a (ep_time p) p_time;
       p \<leftarrow> add_events adds (p\<lparr>ep_calls := ep_calls p @ [Executed a (ep_time p) p_time]\<rparr>);
       if finished then delete_event a p else Some p
     } else delete_event a (p\<lparr>ep_calls := ep_calls p @ [Aborted a (ep_time p)]\<rparr>)
   }"

partial_function (option) update_loop :: "behaviour \<Rightarrow> u32 \<Rightarrow> event_processor \<Rightarrow> event_processor option" where
  "update_loop execute p_time p =
     (case ep_events p of
        [] \<Rightarrow> Some p
      | i # rest \<Rightarrow>
          if fst i \<le> ep_time p then do {
            p \<leftarrow> run_event execute p_time (snd i) (p\<lparr>ep_events := rest\<rparr>);
            update_loop execute p_time p
          } else Some p)"

declare update_loop.simps [code]

definition EventProcessor_Update :: "behaviour \<Rightarrow> u32 \<Rightarrow> event_processor \<Rightarrow> event_processor option" where
  "EventProcessor_Update execute p_time p =
     update_loop execute p_time (p\<lparr>ep_time := ep_time p + ucast p_time\<rparr>)"

text \<open>
  \<open>deletable\<close> is what the virtual \<^verbatim>\<open>IsDeletable\<close> of an event returns. With
  \<^verbatim>\<open>force\<close> the entries stay in the list until the loop is over.
\<close>

fun kill_loop :: "(nat \<Rightarrow> bool) \<Rightarrow> bool \<Rightarrow> (u64 \<times> nat) list \<Rightarrow> event_processor
    \<Rightarrow> ((u64 \<times> nat) list \<times> event_processor) option" where
  "kill_loop deletable force [] p = Some ([], p)"
| "kill_loop deletable force (i # is) p = do {
     e \<leftarrow> ep_objects p (snd i);
     let p = p\<lparr>ep_calls := ep_calls p @ [Aborted (snd i) (ep_time p)],
               ep_objects := (ep_objects p)(snd i \<mapsto> e\<lparr>be_to_Abort := True\<rparr>)\<rparr>;
     let gone = (force \<or> deletable (snd i));
     p \<leftarrow> (if gone then delete_event (snd i) p else Some p);
     (kept, p) \<leftarrow> kill_loop deletable force is p;
     Some (if gone \<and> \<not> force then kept else i # kept, p)
   }"

definition EventProcessor_KillAllEvents ::
  "(nat \<Rightarrow> bool) \<Rightarrow> bool \<Rightarrow> event_processor \<Rightarrow> event_processor option" where
  "EventProcessor_KillAllEvents deletable force p = do {
     (kept, p) \<leftarrow> kill_loop deletable force (ep_events p) (p\<lparr>ep_aborting := True\<rparr>);
     Some (p\<lparr>ep_events := (if force then [] else kept)\<rparr>)
   }"

section \<open>Lemmas\<close>

text \<open>The events a processor holds: every object alive, no event twice, in the order of times.\<close>

definition ep_wf :: "event_processor \<Rightarrow> bool" where
  "ep_wf p \<longleftrightarrow> mm_sorted (ep_events p) \<and> distinct (map snd (ep_events p)) \<and>
     (\<forall>i \<in> set (ep_events p). ep_objects p (snd i) \<noteq> None)"

text \<open>An event is finished or adds itself again for a later time.\<close>

definition one_shot_or_later :: "behaviour \<Rightarrow> bool" where
  "one_shot_or_later execute \<longleftrightarrow>
     (\<forall>a t d. execute a t d = (True, []) \<or> (\<exists>t' > t. execute a t d = (False, [(a, t')])))"

text \<open>What an update makes of one due event: the call, and the time it is added again for.\<close>

definition call_of :: "u64 \<Rightarrow> u32 \<Rightarrow> (nat \<Rightarrow> basic_event option) \<Rightarrow> nat \<Rightarrow> call" where
  "call_of now p_time objects a =
     (case objects a of
        Some e \<Rightarrow> if be_to_Abort e then Aborted a now else Executed a now p_time
      | None \<Rightarrow> Aborted a now)"

definition added_again :: "behaviour \<Rightarrow> u64 \<Rightarrow> u32 \<Rightarrow> (nat \<Rightarrow> basic_event option) \<Rightarrow> nat \<Rightarrow> (u64 \<times> nat) list" where
  "added_again execute now p_time objects a =
     (if objects a \<noteq> None \<and> \<not> be_to_Abort (the (objects a)) \<and> \<not> fst (execute a now p_time)
      then map (\<lambda>(b, t). (t, b)) (snd (execute a now p_time)) else [])"

lemma mm_insert_later:
  "\<forall>e \<in> set es. \<not> k < fst e \<Longrightarrow> mm_insert k v (es @ later) = es @ mm_insert k v later"
  by (induction es) (auto simp: mm_insert_def not_less)

lemma mm_insert_all_simps [simp]:
  "mm_insert_all [] m = m" "mm_insert_all (e # es) m = mm_insert_all es (mm_insert (fst e) (snd e) m)"
  by (simp_all add: mm_insert_all_def split: prod.splits)

lemma mm_insert_all_append: "mm_insert_all (xs @ ys) m = mm_insert_all ys (mm_insert_all xs m)"
  by (simp add: mm_insert_all_def)

lemma distinct_mm_insert:
  "distinct (map snd (mm_insert k v m)) \<longleftrightarrow> v \<notin> snd ` set m \<and> distinct (map snd m)"
proof -
  have "mset (map snd (mm_insert k v m)) = mset (v # map snd m)" by simp
  then show ?thesis by (metis distinct.simps(2) image_set mset_eq_imp_distinct_iff)
qed

lemma run_event_ok:
  assumes "one_shot_or_later execute" and "ep_wf p" and "ep_events p = i # due @ later"
    and "\<forall>j \<in> set due. fst j \<le> ep_time p"
  shows "\<exists>q. run_event execute d (snd i) (p\<lparr>ep_events := due @ later\<rparr>) = Some q \<and>
    ep_time q = ep_time p \<and>
    ep_events q = due @ mm_insert_all (added_again execute (ep_time p) d (ep_objects p) (snd i)) later \<and>
    ep_calls q = ep_calls p @ [call_of (ep_time p) d (ep_objects p) (snd i)] \<and>
    (\<forall>b. b \<noteq> snd i \<longrightarrow> ep_objects q b = ep_objects p b) \<and>
    (ep_objects q (snd i) = None \<longleftrightarrow> added_again execute (ep_time p) d (ep_objects p) (snd i) = []) \<and>
    ep_wf q"
proof -
  let ?a = "snd i" and ?now = "ep_time p"
  obtain e where e: "ep_objects p ?a = Some e" using assms(2,3) by (auto simp: ep_wf_def)
  have wf: "mm_sorted (due @ later)" "distinct (map snd (due @ later))" "?a \<notin> snd ` set (due @ later)"
    "\<forall>j \<in> set (due @ later). ep_objects p (snd j) \<noteq> None"
    using assms(2,3) by (auto simp: ep_wf_def mm_sorted_def)
  show ?thesis
  proof (cases "be_to_Abort e \<or> fst (execute ?a ?now d)")
    case True
    then have "be_to_Abort e \<or> execute ?a ?now d = (True, [])"
      using assms(1) unfolding one_shot_or_later_def by (metis fst_conv)
    moreover have "\<forall>j \<in> set (due @ later). snd j \<noteq> ?a" using wf(3) by (metis image_eqI)
    ultimately show ?thesis using e wf
      by (auto simp: run_event_def delete_event_def added_again_def call_of_def ep_wf_def)
  next
    case False
    then obtain t where t: "t > ?now" "execute ?a ?now d = (False, [(?a, t)])"
      using assms(1) unfolding one_shot_or_later_def by (metis fst_conv)
    have new: "mm_insert t ?a (due @ later) = due @ mm_insert t ?a later"
      using assms(4) t(1) by (intro mm_insert_later) (auto simp: not_less intro: order.trans less_imp_le)
    have "mm_sorted (mm_insert t ?a (due @ later))" using wf(1) by (rule mm_sorted_insert)
    moreover have "distinct (map snd (mm_insert t ?a (due @ later)))"
      unfolding distinct_mm_insert using wf(2,3) by simp
    ultimately show ?thesis using False e wf t(2)
      by (auto simp: run_event_def EventProcessor_AddEvent_def added_again_def call_of_def ep_wf_def new)
  qed
qed

lemma added_again_cases:
  assumes "one_shot_or_later execute"
  shows "added_again execute now d objects a = [] \<or> (\<exists>t > now. added_again execute now d objects a = [(t, a)])"
proof -
  have "execute a now d = (True, []) \<or> (\<exists>t > now. execute a now d = (False, [(a, t)]))"
    using assms by (simp add: one_shot_or_later_def)
  then show ?thesis by (auto simp: added_again_def)
qed

lemma update_loop_due:
  assumes "one_shot_or_later execute" and "ep_wf p" and "ep_events p = due @ later"
    and "\<forall>j \<in> set due. fst j \<le> ep_time p" and "\<forall>j \<in> set later. \<not> fst j \<le> ep_time p"
  shows "\<exists>q. update_loop execute d p = Some q \<and>
    ep_time q = ep_time p \<and>
    ep_events q = mm_insert_all
      (concat (map (added_again execute (ep_time p) d (ep_objects p)) (map snd due))) later \<and>
    ep_calls q = ep_calls p @ map (call_of (ep_time p) d (ep_objects p)) (map snd due) \<and>
    (\<forall>b. b \<notin> snd ` set due \<longrightarrow> ep_objects q b = ep_objects p b) \<and>
    (\<forall>b \<in> snd ` set due. ep_objects q b = None \<longleftrightarrow>
      added_again execute (ep_time p) d (ep_objects p) b = []) \<and>
    ep_wf q"
  using assms(2-)
proof (induction due arbitrary: p later)
  case Nil
  then show ?case by (cases later) (auto simp: update_loop.simps)
next
  case (Cons i due)
  let ?a = "snd i" and ?now = "ep_time p"
  have ev: "ep_events p = i # due @ later" and le: "fst i \<le> ?now" "\<forall>j \<in> set due. fst j \<le> ?now"
    using Cons.prems by auto
  obtain q where q: "run_event execute d ?a (p\<lparr>ep_events := due @ later\<rparr>) = Some q"
    "ep_time q = ?now"
    "ep_events q = due @ mm_insert_all (added_again execute ?now d (ep_objects p) ?a) later"
    "ep_calls q = ep_calls p @ [call_of ?now d (ep_objects p) ?a]"
    "\<forall>b. b \<noteq> ?a \<longrightarrow> ep_objects q b = ep_objects p b"
    "ep_objects q ?a = None \<longleftrightarrow> added_again execute ?now d (ep_objects p) ?a = []" "ep_wf q"
    using run_event_ok [OF assms(1) Cons.prems(1) ev le(2), of d] by (elim exE conjE) (rule that)
  let ?later = "mm_insert_all (added_again execute ?now d (ep_objects p) ?a) later"
  have later: "\<forall>j \<in> set ?later. \<not> fst j \<le> ep_time q"
  proof -
    consider "added_again execute ?now d (ep_objects p) ?a = []"
      | t where "t > ?now" "added_again execute ?now d (ep_objects p) ?a = [(t, ?a)]"
      using added_again_cases [OF assms(1)] by metis
    then show ?thesis using Cons.prems(4) by cases (auto simp: q(2))
  qed
  have le': "\<forall>j \<in> set due. fst j \<le> ep_time q" using le(2) by (simp add: q(2))
  obtain r where r: "update_loop execute d q = Some r" "ep_time r = ep_time q"
    "ep_events r = mm_insert_all
      (concat (map (added_again execute (ep_time q) d (ep_objects q)) (map snd due))) ?later"
    "ep_calls r = ep_calls q @ map (call_of (ep_time q) d (ep_objects q)) (map snd due)"
    "\<forall>b. b \<notin> snd ` set due \<longrightarrow> ep_objects r b = ep_objects q b"
    "\<forall>b \<in> snd ` set due. ep_objects r b = None \<longleftrightarrow>
      added_again execute (ep_time q) d (ep_objects q) b = []" "ep_wf r"
    using Cons.IH [OF q(7,3) le' later] by (elim exE conjE) (rule that)
  have fresh: "?a \<notin> snd ` set due" using Cons.prems(1) ev by (auto simp: ep_wf_def)
  then have same: "\<forall>b \<in> snd ` set due. ep_objects q b = ep_objects p b" using q(5) by metis
  have maps: "map (call_of ?now d (ep_objects q)) (map snd due) = map (call_of ?now d (ep_objects p)) (map snd due)"
    "map (added_again execute ?now d (ep_objects q)) (map snd due) =
      map (added_again execute ?now d (ep_objects p)) (map snd due)"
    using same by (auto simp: call_of_def added_again_def)
  have "update_loop execute d p = update_loop execute d q"
    by (subst update_loop.simps) (simp add: ev le(1) q(1))
  moreover have "\<forall>b \<in> snd ` set due. added_again execute ?now d (ep_objects q) b =
      added_again execute ?now d (ep_objects p) b"
    using same by (simp add: added_again_def)
  ultimately show ?case
    using r q(2-6) maps same fresh
    by (intro exI [of _ r]) (auto simp: mm_insert_all_append simp del: map_map)
qed

definition killed :: "(nat \<Rightarrow> bool) \<Rightarrow> bool \<Rightarrow> nat set \<Rightarrow> (nat \<Rightarrow> basic_event option) \<Rightarrow> nat \<Rightarrow> basic_event option" where
  "killed deletable force as objects b =
     (if b \<in> as
      then if force \<or> deletable b then None else map_option (\<lambda>e. e\<lparr>be_to_Abort := True\<rparr>) (objects b)
      else objects b)"

lemma kill_loop_eq:
  "distinct (map snd is) \<Longrightarrow> \<forall>i \<in> set is. ep_objects p (snd i) \<noteq> None \<Longrightarrow>
   kill_loop deletable force is p = Some
     (if force then is else [i \<leftarrow> is. \<not> deletable (snd i)],
      p\<lparr>ep_calls := ep_calls p @ map (\<lambda>i. Aborted (snd i) (ep_time p)) is,
        ep_objects := killed deletable force (snd ` set is) (ep_objects p)\<rparr>)"
proof (induction "is" arbitrary: p)
  case Nil
  have "killed deletable force {} (ep_objects p) = ep_objects p" by (simp add: killed_def fun_eq_iff)
  then show ?case by simp
next
  case (Cons i "is")
  obtain e where e: "ep_objects p (snd i) = Some e" using Cons.prems(2) by auto
  have fresh: "snd i \<notin> snd ` set is" "distinct (map snd is)" using Cons.prems(1) by auto
  let ?gone = "force \<or> deletable (snd i)"
  let ?o = "(ep_objects p)(snd i := if ?gone then None else Some (e\<lparr>be_to_Abort := True\<rparr>))"
  let ?p = "p\<lparr>ep_calls := ep_calls p @ [Aborted (snd i) (ep_time p)], ep_objects := ?o\<rparr>"
  have alive: "\<forall>j \<in> set is. ep_objects ?p (snd j) \<noteq> None"
    using Cons.prems(2) fresh(1) by (auto intro: rev_image_eqI)
  have step: "kill_loop deletable force (i # is) p = do {
      (kept, p) \<leftarrow> kill_loop deletable force is ?p;
      Some (if ?gone \<and> \<not> force then kept else i # kept, p) }"
    using e by (cases ?gone) (simp_all add: delete_event_def Let_def del: split_paired_All)
  have o: "killed deletable force (snd ` set is) ?o = killed deletable force (snd ` set (i # is)) (ep_objects p)"
    using e fresh(1) by (auto simp: killed_def fun_eq_iff)
  show ?case unfolding step Cons.IH [OF fresh(2) alive] using o by auto
qed

section \<open>Properties\<close>

text \<open>
  C32. Updating the event processor. When an event, once executed, is either finished or adds
  itself again for a later time, \<^verbatim>\<open>Update\<close> returns: every due event is called exactly
  once, in the order of the times, executed or, if it is marked, aborted; the events that added
  themselves again and those not yet due are what the queue holds afterwards, and exactly the
  others are deleted.
\<close>

theorem processor_runs_due_events:
  assumes "ep_wf p" and "one_shot_or_later execute"
  shows "\<exists>q. EventProcessor_Update execute d p = Some q \<and>
    (let now = ep_time p + ucast d;
         due = map snd [i \<leftarrow> ep_events p. fst i \<le> now]
     in ep_time q = now \<and>
        ep_events q = mm_insert_all (concat (map (added_again execute now d (ep_objects p)) due))
          [i \<leftarrow> ep_events p. \<not> fst i \<le> now] \<and>
        ep_calls q = ep_calls p @ map (call_of now d (ep_objects p)) due \<and>
        (\<forall>b. b \<notin> set due \<longrightarrow> ep_objects q b = ep_objects p b) \<and>
        (\<forall>b \<in> set due. ep_objects q b = None \<longleftrightarrow> added_again execute now d (ep_objects p) b = []) \<and>
        ep_wf q)"
proof -
  let ?p = "p\<lparr>ep_time := ep_time p + ucast d\<rparr>"
  let ?due = "[i \<leftarrow> ep_events p. fst i \<le> ep_time ?p]" and ?later = "[i \<leftarrow> ep_events p. \<not> fst i \<le> ep_time ?p]"
  have wf: "ep_wf ?p" using assms(1) by (simp add: ep_wf_def)
  have sorted: "mm_sorted (ep_events p)" using assms(1) by (simp add: ep_wf_def)
  have split: "ep_events ?p = ?due @ ?later"
    unfolding mm_sorted_split [OF sorted, symmetric] takeWhile_dropWhile_id by simp
  show ?thesis
    using update_loop_due [OF assms(2) wf split, of d]
    by (simp add: EventProcessor_Update_def Let_def image_set [symmetric] del: image_set)
qed

theorem processor_runs_due_events_witness:
  "\<exists>q. EventProcessor_Update (\<lambda>a t d. if t < 9 \<and> a = 1 then (False, [(a, 9)]) else (True, [])) 5
      \<lparr>ep_time = 0, ep_events = [(3, 1), (4, 2), (8, 3)], ep_aborting = False,
       ep_objects = (\<lambda>a. Some BasicEvent_new), ep_calls = []\<rparr> = Some q \<and>
    ep_calls q = [Executed 1 5 5, Executed 2 5 5] \<and> ep_events q = [(8, 3), (9, 1)] \<and>
    ep_objects q 2 = None"
proof -
  let ?ex = "\<lambda>a t d. if t < 9 \<and> a = (1 :: nat) then (False, [(a, 9 :: u64)]) else (True, [])"
  let ?p = "\<lparr>ep_time = 0, ep_events = [(3, 1), (4, 2), (8, 3)], ep_aborting = False,
       ep_objects = (\<lambda>a. Some BasicEvent_new), ep_calls = []\<rparr>"
  have wf: "ep_wf ?p" by (simp add: ep_wf_def mm_sorted_def)
  have ex: "one_shot_or_later ?ex" by (auto simp: one_shot_or_later_def)
  from processor_runs_due_events [OF wf ex, of 5] show ?thesis
    by (auto simp: Let_def call_of_def added_again_def BasicEvent_new_def mm_insert_def)
qed

text \<open>
  Killing the events. \<^verbatim>\<open>KillAllEvents\<close> aborts every event of the queue once, in
  order, and deletes it, unless it is not forced and the event is not deletable: those stay in
  the queue, marked, and alive. Nothing is deleted twice. The flag it sets against insertions is
  tested nowhere: \<^verbatim>\<open>AddEvent\<close> works as before.
\<close>

theorem kill_aborts_all:
  assumes "ep_wf p"
  shows "\<exists>q. EventProcessor_KillAllEvents deletable force p = Some q \<and> ep_aborting q \<and>
    ep_calls q = ep_calls p @ map (\<lambda>i. Aborted (snd i) (ep_time p)) (ep_events p) \<and>
    ep_events q = (if force then [] else [i \<leftarrow> ep_events p. \<not> deletable (snd i)]) \<and>
    ep_objects q = killed deletable force (snd ` set (ep_events p)) (ep_objects p) \<and> ep_wf q \<and>
    (\<forall>a e t. ep_objects q a = Some e \<longrightarrow>
      (\<exists>r. EventProcessor_AddEvent a t True q = Some r \<and> (t, a) \<in> set (ep_events r)))"
proof -
  have wf: "mm_sorted (ep_events p)" "distinct (map snd (ep_events p))"
    "\<forall>i \<in> set (ep_events p). ep_objects p (snd i) \<noteq> None"
    using assms by (auto simp: ep_wf_def)
  let ?p = "p\<lparr>ep_aborting := True\<rparr>"
  let ?kept = "if force then [] else [i \<leftarrow> ep_events p. \<not> deletable (snd i)]"
  have "mm_sorted ?kept" "distinct (map snd ?kept)"
    "\<forall>i \<in> set ?kept. killed deletable force (snd ` set (ep_events p)) (ep_objects p) (snd i) \<noteq> None"
    using wf by (auto simp: mm_sorted_filter distinct_map_filter killed_def)
  then show ?thesis
    using kill_loop_eq [OF wf(2), of ?p deletable force] wf(3)
    by (cases force) (auto simp: EventProcessor_KillAllEvents_def ep_wf_def EventProcessor_AddEvent_def Let_def)
qed

theorem kill_aborts_all_witness:
  "\<exists>q. EventProcessor_KillAllEvents (\<lambda>a. a = 2) False
      \<lparr>ep_time = 0, ep_events = [(3, 1), (4, 2)], ep_aborting = False,
       ep_objects = (\<lambda>a. Some BasicEvent_new), ep_calls = []\<rparr> = Some q \<and>
    ep_events q = [(3, 1)] \<and> ep_objects q 2 = None"
proof -
  let ?p = "\<lparr>ep_time = 0, ep_events = [(3, 1), (4, 2)], ep_aborting = False,
       ep_objects = (\<lambda>a. Some BasicEvent_new), ep_calls = []\<rparr>"
  have "ep_wf ?p" by (simp add: ep_wf_def mm_sorted_def)
  from kill_aborts_all [OF this, of "\<lambda>a. a = 2" False] show ?thesis
    by (auto simp: killed_def)
qed

end
