(* ===== verification/Text.thy ===== *)
theory Text
  imports Prelude "HOL-Library.Sublist"
begin

text \<open>
  The text functions of \<^verbatim>\<open>src/server/shared/Utilities/Util.cpp\<close>: splitting a line
  into tokens, squeezing invisible characters, times and amounts of money as text and back, and
  hexadecimal dumps. A \<^verbatim>\<open>std::string\<close> is a list of characters; a C string ends at the
  first NUL. \<open>None\<close> is a read past the end of an array, or another undefined operation.
\<close>

section \<open>Tokens\<close>

text \<open>
  The loop of the constructor runs over the copied characters and the NUL behind them.
  \<open>old\<close> are the characters from \<^verbatim>\<open>posold\<close> to \<^verbatim>\<open>posnew\<close>, \<open>st\<close> is
  \<^verbatim>\<open>m_storage\<close>.
\<close>

fun tokens_loop :: "char \<Rightarrow> string \<Rightarrow> string \<Rightarrow> string list \<Rightarrow> string list option" where
  "tokens_loop sep [] old st = None"
| "tokens_loop sep (c # cs) old st =
     (if c = sep then tokens_loop sep cs [] (st @ [old])
      else if c = CHR 0x00 then Some (if old \<noteq> [] then st @ [old] else st)
      else tokens_loop sep cs (old @ [c]) st)"

definition Tokenizer :: "string \<Rightarrow> char \<Rightarrow> string list option" where
  "Tokenizer src sep = tokens_loop sep (src @ [CHR 0x00]) [] []"

section \<open>Invisible characters\<close>

definition invChars :: string where
  "invChars = [CHR '' '', CHR 0x09, CHR 0x07, CHR 0x0A]"

function strip_loop :: "nat \<Rightarrow> nat \<Rightarrow> bool \<Rightarrow> string \<Rightarrow> nat \<times> string" where
  "strip_loop pos wpos space str =
     (if pos < length str then
        if str ! pos \<in> set invChars then
          if \<not> space then strip_loop (Suc pos) (Suc wpos) True (str[wpos := CHR '' ''])
          else strip_loop (Suc pos) wpos space str
        else
          strip_loop (Suc pos) (Suc wpos) False (if wpos \<noteq> pos then str[wpos := str ! pos] else str)
      else (wpos, str))"
  by pat_completeness auto
termination
  by (relation "measure (\<lambda>(pos, wpos, space, str). length str - pos)") auto

declare strip_loop.simps [simp del]

definition stripLineInvisibleChars :: "string \<Rightarrow> string" where
  "stripLineInvisibleChars str =
     (let (wpos, str) = strip_loop 0 0 False str;
          str = (if wpos < length str then take wpos str else str)
      in if sublist ''|TInterface'' str then [] else str)"

section \<open>Times\<close>

definition MINUTE :: nat where "MINUTE = 60"
definition HOUR :: nat where "HOUR = MINUTE * 60"
definition DAY :: nat where "DAY = HOUR * 24"

definition digit_char :: "nat \<Rightarrow> char" where
  "digit_char d = char_of (48 + d)"

text \<open>\<^verbatim>\<open>ss << number\<close>.\<close>

fun digits :: "nat \<Rightarrow> string" where
  "digits n = (if n < 10 then [digit_char n] else digits (n div 10) @ [digit_char (n mod 10)])"

declare digits.simps [simp del]

definition secsToTimeString :: "u64 \<Rightarrow> bool \<Rightarrow> bool \<Rightarrow> string" where
  "secsToTimeString timeInSecs shortText hoursOnly =
     (let secs = unat timeInSecs mod MINUTE;
          minutes = unat timeInSecs mod HOUR div MINUTE;
          hours = unat timeInSecs mod DAY div HOUR;
          days = unat timeInSecs div DAY
      in (if days \<noteq> 0 then digits days @ (if shortText then ''d'' else '' Day(s) '') else []) @
         (if hours \<noteq> 0 \<or> hoursOnly then digits hours @ (if shortText then ''h'' else '' Hour(s) '') else []) @
         (if \<not> hoursOnly then
            (if minutes \<noteq> 0 then digits minutes @ (if shortText then ''m'' else '' Minute(s) '') else []) @
            (if secs \<noteq> 0 \<or> days = 0 \<and> hours = 0 \<and> minutes = 0
             then digits secs @ (if shortText then ''s'' else '' Second(s).'') else [])
          else []))"

definition isdigit :: "char \<Rightarrow> bool" where
  "isdigit c \<longleftrightarrow> 48 \<le> (of_char c :: nat) \<and> (of_char c :: nat) \<le> 57"

definition digit_value :: "char \<Rightarrow> nat" where
  "digit_value c = of_char c - 48"

definition unit_of :: "char \<Rightarrow> nat option" where
  "unit_of c =
     (if c = CHR ''d'' then Some DAY else if c = CHR ''h'' then Some HOUR
      else if c = CHR ''m'' then Some MINUTE else if c = CHR ''s'' then Some 1 else None)"

fun time_loop :: "string \<Rightarrow> u32 \<Rightarrow> u32 \<Rightarrow> u32" where
  "time_loop [] secs buffer = secs"
| "time_loop (c # cs) secs buffer =
     (if isdigit c then time_loop cs secs (buffer * 10 + word_of_nat (digit_value c))
      else case unit_of c of
             Some multiplier \<Rightarrow> time_loop cs (secs + buffer * word_of_nat multiplier) 0
           | None \<Rightarrow> 0)"

definition TimeStringToSecs :: "string \<Rightarrow> u32" where
  "TimeStringToSecs timestring = time_loop timestring 0 0"

section \<open>Money\<close>

definition isspace :: "char \<Rightarrow> bool" where
  "isspace c \<longleftrightarrow> c = CHR '' '' \<or> 9 \<le> (of_char c :: nat) \<and> (of_char c :: nat) \<le> 13"

definition number_of :: "string \<Rightarrow> nat" where
  "number_of ds = fold (\<lambda>c n. n * 10 + digit_value c) ds 0"

text \<open>\<^verbatim>\<open>atoi\<close>; a number that is no \<^verbatim>\<open>int\<close> is undefined.\<close>

definition atoi :: "string \<Rightarrow> int option" where
  "atoi str =
     (let str = dropWhile isspace str;
          (neg, str) = (case str of c # cs \<Rightarrow> (if c = CHR ''-'' then (True, cs)
                                             else if c = CHR ''+'' then (False, cs) else (False, str))
                          | [] \<Rightarrow> (False, str));
          n = int (number_of (takeWhile isdigit str));
          i = (if neg then - n else n)
      in if - (2 ^ 31) \<le> i \<and> i < 2 ^ 31 then Some i else None)"

fun money_loop :: "string list \<Rightarrow> i32 \<Rightarrow> i32 option" where
  "money_loop [] money = Some money"
| "money_loop (tokenString # rest) money =
     (let gCount = count_list tokenString CHR ''g'';
          sCount = count_list tokenString CHR ''s'';
          cCount = count_list tokenString CHR ''c''
      in if gCount + sCount + cCount \<noteq> 1 then Some 0
         else do {
           i \<leftarrow> atoi tokenString;
           let amount = (word_of_int i :: u32);
           money_loop rest
             (if gCount = 1 then money + amount * 100 * 100
              else if sCount = 1 then money + amount * 100
              else if cCount = 1 then money + amount
              else money)
         })"

definition MoneyStringToMoney :: "string \<Rightarrow> i32 option" where
  "MoneyStringToMoney moneyString =
     (if \<not> (count_list moneyString CHR ''g'' = 1 \<or> count_list moneyString CHR ''s'' = 1 \<or>
             count_list moneyString CHR ''c'' = 1) then Some 0
      else do { tokens \<leftarrow> Tokenizer moneyString CHR '' ''; money_loop tokens 0 })"

section \<open>Hexadecimal dumps\<close>

definition hex_digit :: "nat \<Rightarrow> char" where
  "hex_digit d = char_of (if d < 10 then 48 + d else 55 + d)"

text \<open>\<^verbatim>\<open>sprintf(buffer, "%02X", byte)\<close>.\<close>

definition hex_byte :: "u8 \<Rightarrow> string" where
  "hex_byte b = [hex_digit (unat b div 16), hex_digit (unat b mod 16)]"

function hex_loop :: "u8 list \<Rightarrow> bool \<Rightarrow> int \<Rightarrow> int \<Rightarrow> string option" where
  "hex_loop bytes reverse i end_i =
     (if i = end_i then Some []
      else if i < 0 \<or> i \<ge> int (length bytes) then None
      else do {
        r \<leftarrow> hex_loop bytes reverse (if reverse then i - 1 else i + 1) end_i;
        Some (hex_byte (bytes ! nat i) @ r)
      })"
  by pat_completeness auto
termination
  by (relation "measure (\<lambda>(bytes, reverse, i, e). if reverse then nat (i + 1) else nat (int (length bytes) - i))") auto

declare hex_loop.simps [simp del]

text \<open>\<open>arrayLen\<close> is a \<^verbatim>\<open>uint32\<close> that the code keeps in an \<^verbatim>\<open>int32\<close>.\<close>

definition ByteArrayToHexStr :: "u8 list \<Rightarrow> u32 \<Rightarrow> bool \<Rightarrow> string option" where
  "ByteArrayToHexStr bytes arrayLen reverse =
     (if reverse then hex_loop bytes True (sint (arrayLen - 1)) (- 1)
      else hex_loop bytes False 0 (sint arrayLen))"

definition isNumeric :: "string \<Rightarrow> bool" where
  "isNumeric str = list_all isdigit (takeWhile (\<lambda>c. c \<noteq> CHR 0x00) str)"

section \<open>Lemmas on tokens\<close>

lemma tokens_loop_spec:
  assumes "sep \<noteq> CHR 0x00" and "CHR 0x00 \<notin> set src" and "sep \<notin> set old"
  shows "\<exists>ts. tokens_loop sep (src @ [CHR 0x00]) old st = Some (st @ ts) \<and>
    (\<forall>t \<in> set ts. sep \<notin> set t) \<and>
    concat (map (\<lambda>t. t @ [sep]) ts) =
      (if old @ src = [] \<or> src \<noteq> [] \<and> last src = sep then old @ src else old @ src @ [sep])"
  using assms(2,3)
proof (induction src arbitrary: old st)
  case Nil
  then show ?case using assms(1) by (cases "old = []") auto
next
  case (Cons c src)
  show ?case
  proof (cases "c = sep")
    case True
    obtain ts where "tokens_loop sep (src @ [CHR 0x00]) [] (st @ [old]) = Some ((st @ [old]) @ ts)"
      "\<forall>t \<in> set ts. sep \<notin> set t"
      "concat (map (\<lambda>t. t @ [sep]) ts) =
        (if src = [] \<or> src \<noteq> [] \<and> last src = sep then src else src @ [sep])"
      using Cons.IH [of "[]" "st @ [old]"] Cons.prems by auto
    then show ?thesis using True Cons.prems by (intro exI [of _ "old # ts"]) auto
  next
    case False
    then obtain ts where "tokens_loop sep (src @ [CHR 0x00]) (old @ [c]) st = Some (st @ ts)"
      "\<forall>t \<in> set ts. sep \<notin> set t"
      "concat (map (\<lambda>t. t @ [sep]) ts) =
        (if src \<noteq> [] \<and> last src = sep then (old @ [c]) @ src else (old @ [c]) @ src @ [sep])"
      using Cons.IH [of "old @ [c]" st] Cons.prems by auto
    then show ?thesis using False Cons.prems by (intro exI [of _ ts]) auto
  qed
qed

lemma tokens_loop_join:
  assumes "sep \<noteq> CHR 0x00" and "\<forall>t \<in> set ts. sep \<notin> set t \<and> CHR 0x00 \<notin> set t"
    and "sep \<notin> set l" and "CHR 0x00 \<notin> set l" and "l \<noteq> []"
  shows "tokens_loop sep (concat (map (\<lambda>t. t @ [sep]) ts) @ l @ [CHR 0x00]) [] st = Some (st @ ts @ [l])"
proof -
  have word: "tokens_loop sep (t @ rest) old st = tokens_loop sep rest (old @ t) st"
    if "sep \<notin> set t" "CHR 0x00 \<notin> set t" for t rest old st
    using that by (induction t arbitrary: old) auto
  show ?thesis using assms(2)
  proof (induction ts arbitrary: st)
    case Nil
    then show ?case using word [OF assms(3,4)] assms(1,5) by simp
  next
    case (Cons t ts)
    then show ?case using word [of t] by simp
  qed
qed

section \<open>Lemmas on invisible characters\<close>

text \<open>The reference: a run of invisible characters becomes one space.\<close>

fun squeeze :: "bool \<Rightarrow> string \<Rightarrow> string" where
  "squeeze space [] = []"
| "squeeze space (c # cs) =
     (if c \<in> set invChars then (if space then squeeze True cs else CHR '' '' # squeeze True cs)
      else c # squeeze False cs)"

lemma strip_loop_squeeze:
  assumes "wpos \<le> pos" and "pos \<le> length str"
  shows "case strip_loop pos wpos space str of (w, str') \<Rightarrow>
    w \<le> length str' \<and> length str' = length str \<and>
    take w str' = take wpos str @ squeeze space (drop pos str)"
  using assms
proof (induction pos wpos space str rule: strip_loop.induct)
  case (1 pos wpos space str)
  show ?case
  proof (cases "pos < length str")
    case False
    with 1 show ?thesis by (subst strip_loop.simps) simp
  next
    case True
    then have rest: "drop pos str = str ! pos # drop (Suc pos) str" by (simp add: Cons_nth_drop_Suc)
    have same: "drop (Suc pos) (str[wpos := c]) = drop (Suc pos) str"
      "take (Suc wpos) (str[wpos := c]) = take wpos str @ [c]" for c
      using 1(4) True by (simp_all add: take_Suc_conv_app_nth)
    have keep: "take (Suc pos) str = take pos str @ [str ! pos]"
      using True by (rule take_Suc_conv_app_nth)
    show ?thesis
    proof (cases "str ! pos \<in> set invChars")
      case inv: True
      show ?thesis
      proof (cases space)
        case True
        have "strip_loop pos wpos space str = strip_loop (Suc pos) wpos space str"
          using \<open>pos < length str\<close> inv True by (subst strip_loop.simps) simp
        then show ?thesis
          using 1(2) \<open>pos < length str\<close> inv True 1(4) rest by (auto split: prod.splits)
      next
        case False
        have "strip_loop pos wpos space str = strip_loop (Suc pos) (Suc wpos) True (str[wpos := CHR '' ''])"
          using \<open>pos < length str\<close> inv False by (subst strip_loop.simps) simp
        then show ?thesis
          using 1(1) \<open>pos < length str\<close> inv False 1(4) rest same by (auto split: prod.splits)
      qed
    next
      case vis: False
      let ?str = "if wpos \<noteq> pos then str[wpos := str ! pos] else str"
      have "strip_loop pos wpos space str = strip_loop (Suc pos) (Suc wpos) False ?str"
        using True vis by (subst strip_loop.simps) simp
      moreover have "take (Suc wpos) ?str = take wpos str @ [str ! pos]" "drop (Suc pos) ?str = drop (Suc pos) str"
        "length ?str = length str"
        using same keep by auto
      ultimately show ?thesis
        using 1(3) True vis 1(4) rest by (auto simp del: if_split split: prod.splits)
    qed
  qed
qed

section \<open>Lemmas on numbers\<close>

lemma digit_char_simps [simp]:
  assumes "d < 10"
  shows "isdigit (digit_char d)" and "digit_value (digit_char d) = d"
  using assms by (simp_all add: isdigit_def digit_value_def digit_char_def of_char_of take_bit_nat_eq_self)

lemma digits_isdigit: "c \<in> set (digits n) \<Longrightarrow> isdigit c"
  by (induction n rule: digits.induct) (subst (asm) digits.simps, auto split: if_splits)

lemma digits_nonempty [simp]: "digits n \<noteq> []"
  by (subst digits.simps) simp

lemma isdigit_neq: "isdigit c \<Longrightarrow> c \<notin> {CHR ''d'', CHR ''h'', CHR ''m'', CHR ''s'', CHR ''g'', CHR ''c'', CHR '' '', CHR 0x00, CHR ''-'', CHR ''+''}"
  by (auto simp: isdigit_def)

lemma number_of_digits [simp]: "number_of (digits n) = n"
proof (induction n rule: digits.induct)
  case (1 n)
  then show ?case by (subst digits.simps) (auto simp: number_of_def)
qed

lemma time_loop_digits:
  "time_loop (digits n @ rest) secs 0 = time_loop rest secs (word_of_nat n)"
proof -
  have "time_loop (digits n @ rest) secs b = time_loop rest secs (b * 10 ^ length (digits n) + word_of_nat n)" for b
  proof (induction n arbitrary: b rest rule: digits.induct)
    case (1 n)
    show ?case
    proof (cases "n < 10")
      case True
      then show ?thesis by (subst (1 2) digits.simps) simp
    next
      case False
      have n: "word_of_nat n = (word_of_nat (n div 10) * 10 + word_of_nat (n mod 10) :: u32)"
        by (metis div_mult_mod_eq of_nat_add of_nat_mult of_nat_numeral)
      show ?thesis
        using False 1 [OF False, of "digit_char (n mod 10) # rest" b]
        by (subst (1 2) digits.simps) (simp add: n algebra_simps)
    qed
  qed
  from this [of 0] show ?thesis by simp
qed

lemma time_loop_part:
  assumes "unit_of u = Some m"
  shows "time_loop (digits n @ u # rest) secs 0 = time_loop rest (secs + word_of_nat (n * m)) 0"
proof -
  have "\<not> isdigit u" using assms by (auto simp: unit_of_def isdigit_def split: if_splits)
  then show ?thesis using assms by (simp add: time_loop_digits)
qed

lemmas time_units = MINUTE_def HOUR_def DAY_def

lemma unit_of_simps [simp]:
  "unit_of CHR ''d'' = Some DAY" "unit_of CHR ''h'' = Some HOUR"
  "unit_of CHR ''m'' = Some MINUTE" "unit_of CHR ''s'' = Some 1"
  by (simp_all add: unit_of_def)

lemma day_hours: "(t :: nat) div DAY * DAY + t mod DAY div HOUR * HOUR = t - t mod HOUR"
proof -
  have "t mod DAY mod HOUR = t mod HOUR" by (rule mod_mod_cancel) (simp add: time_units)
  then have "t mod DAY div HOUR * HOUR + t mod HOUR = t mod DAY" by (metis div_mult_mod_eq)
  then have "t div DAY * DAY + t mod DAY div HOUR * HOUR + t mod HOUR = t"
    by (metis add.assoc div_mult_mod_eq)
  then show ?thesis by simp
qed

lemma time_split:
  "(t :: nat) div DAY * DAY + t mod DAY div HOUR * HOUR + t mod HOUR div MINUTE * MINUTE + t mod MINUTE = t"
proof -
  have "t mod HOUR mod MINUTE = t mod MINUTE" by (rule mod_mod_cancel) (simp add: time_units)
  then have "t mod HOUR div MINUTE * MINUTE + t mod MINUTE = t mod HOUR" by (metis div_mult_mod_eq)
  moreover have "t mod HOUR \<le> t" by simp
  ultimately show ?thesis using day_hours [of t] by linarith
qed

text \<open>The short text of the four parts, and what the reader makes of it.\<close>

lemma time_text:
  "time_loop ((if d \<noteq> 0 then digits d @ ''d'' else []) @ (if h \<noteq> 0 then digits h @ ''h'' else []) @
     (if m \<noteq> 0 then digits m @ ''m'' else []) @
     (if s \<noteq> 0 \<or> d = 0 \<and> h = 0 \<and> m = 0 then digits s @ ''s'' else [])) 0 0 =
   word_of_nat (d * DAY + h * HOUR + m * MINUTE + s)"
  by (simp add: time_loop_part add.assoc)

lemma time_text_hours:
  "time_loop ((if d \<noteq> 0 then digits d @ ''d'' else []) @ digits h @ ''h'') 0 0 =
   word_of_nat (d * DAY + h * HOUR)"
  by (simp add: time_loop_part)

section \<open>Lemmas on money\<close>

lemma count_list_absent: "c \<notin> set xs \<Longrightarrow> count_list xs c = 0"
  by (simp add: count_list_0_iff)

lemma digits_counts [simp]:
  "count_list (digits n) CHR ''g'' = 0" "count_list (digits n) CHR ''s'' = 0" "count_list (digits n) CHR ''c'' = 0"
  using digits_isdigit isdigit_neq by (blast intro: count_list_absent)+

lemma atoi_digits:
  assumes "n < 2 ^ 31" and "\<not> isdigit u"
  shows "atoi (digits n @ [u]) = Some (int n)"
proof -
  obtain c cs where c: "digits n = c # cs" by (cases "digits n") auto
  have d: "isdigit c" using digits_isdigit [of c n] c by simp
  have s: "\<not> isspace c" using d by (auto simp: isspace_def isdigit_def)
  have "takeWhile isdigit (digits n @ [u]) = digits n"
    using digits_isdigit assms(2) by (simp add: takeWhile_append2)
  then show ?thesis
    using assms(1) isdigit_neq [OF d] s number_of_digits [of n] c
    by (simp add: atoi_def Let_def dropWhile_append1)
qed

section \<open>Lemmas on dumps\<close>

lemma hex_loop_up:
  "i \<le> length bytes \<Longrightarrow>
   hex_loop bytes False (int i) (int (length bytes)) = Some (concat (map hex_byte (drop i bytes)))"
proof (induction "length bytes - i" arbitrary: i)
  case 0
  then show ?case by (simp add: hex_loop.simps)
next
  case (Suc k)
  then have i: "i < length bytes" by simp
  then have "hex_loop bytes False (int (Suc i)) (int (length bytes)) = Some (concat (map hex_byte (drop (Suc i) bytes)))"
    using Suc by (intro Suc.hyps(1)) auto
  then show ?case using i
    by (subst hex_loop.simps) (simp add: Cons_nth_drop_Suc [symmetric] add.commute)
qed

lemma hex_loop_down:
  "i \<le> length bytes \<Longrightarrow>
   hex_loop bytes True (int i - 1) (- 1) = Some (concat (map hex_byte (rev (take i bytes))))"
proof (induction i)
  case 0
  then show ?case by (simp add: hex_loop.simps)
next
  case (Suc i)
  then show ?case by (subst hex_loop.simps) (simp add: take_Suc_conv_app_nth)
qed

section \<open>Properties\<close>

text \<open>
  Tokens. For a separator other than NUL and a text without NUL the tokenizer stays inside
  its copy of the text and loses nothing: no token contains the separator, and the tokens, each
  followed by it, give back the text (with a separator at the end when the text, not being empty,
  had none); so the tokens are determined by the text, empty ones included, except one behind
  the last separator.
\<close>

theorem tokenizer_lossless:
  assumes "sep \<noteq> CHR 0x00" and "CHR 0x00 \<notin> set src"
  shows "\<exists>ts. Tokenizer src sep = Some ts \<and> (\<forall>t \<in> set ts. sep \<notin> set t) \<and>
    concat (map (\<lambda>t. t @ [sep]) ts) = (if src = [] \<or> last src = sep then src else src @ [sep])"
  using tokens_loop_spec [OF assms, of "[]" "[]"] by (auto simp: Tokenizer_def)

theorem tokenizer_lossless_witness:
  "\<exists>ts. Tokenizer ''a  bc'' CHR '' '' = Some ts \<and> concat (map (\<lambda>t. t @ '' '') ts) = ''a  bc ''"
  using tokenizer_lossless [of "CHR '' ''" "''a  bc''"] by auto

text \<open>
  Invisible characters. The loop that squeezes the line in place, with its two positions,
  equals the function that replaces every run of blanks, tabs, bells and line feeds by one blank;
  a line that then contains the marker of an interface is emptied.
\<close>

theorem strip_is_squeeze:
  "stripLineInvisibleChars str =
     (if sublist ''|TInterface'' (squeeze False str) then [] else squeeze False str)"
proof -
  obtain w str' where l: "strip_loop 0 0 False str = (w, str')" by (cases "strip_loop 0 0 False str")
  then have "w \<le> length str'" "take w str' = squeeze False str"
    using strip_loop_squeeze [of 0 0 str False] by simp_all
  then have "(if w < length str' then take w str' else str') = squeeze False str" by auto
  then show ?thesis by (simp add: stripLineInvisibleChars_def l)
qed

text \<open>
  C33. Times. The short text of any number of seconds is read back by \<^verbatim>\<open>TimeStringToSecs\<close>
  as the number, modulo the \<open>2 ^ 32\<close> of its result; with \<^verbatim>\<open>hoursOnly\<close> as the number
  of seconds of the full hours.
\<close>

theorem time_text_roundtrip:
  "TimeStringToSecs (secsToTimeString t True False) = ucast t \<and>
   TimeStringToSecs (secsToTimeString t True True) = word_of_nat (unat t - unat t mod HOUR)"
proof -
  let ?t = "unat t"
  have "TimeStringToSecs (secsToTimeString t True False) = word_of_nat ?t"
    using time_text [of "?t div DAY" "?t mod DAY div HOUR" "?t mod HOUR div MINUTE" "?t mod MINUTE"]
    unfolding time_split by (simp only: TimeStringToSecs_def secsToTimeString_def Let_def if_True
        not_False_eq_True simp_thms)
  moreover have "TimeStringToSecs (secsToTimeString t True True) = word_of_nat (?t - ?t mod HOUR)"
    using time_text_hours [of "?t div DAY" "?t mod DAY div HOUR"]
    unfolding day_hours by (simp only: TimeStringToSecs_def secsToTimeString_def Let_def if_True
        if_False simp_thms append_Nil2)
  ultimately show ?thesis by (simp add: unsigned_def)
qed

text \<open>
  Money. An amount written as gold, silver and copper is read back as
  \<open>10000 * gold + 100 * silver + copper\<close>, modulo the \<open>2 ^ 32\<close> of the result.
\<close>

theorem money_text_read:
  assumes "g < 2 ^ 31" and "s < 2 ^ 31" and "c < 2 ^ 31"
  shows "MoneyStringToMoney (digits g @ ''g '' @ digits s @ ''s '' @ digits c @ ''c'') =
    Some (word_of_nat (g * 10000 + s * 100 + c))"
proof -
  have free: "CHR '' '' \<notin> set (digits n)" "CHR 0x00 \<notin> set (digits n)" for n
    using digits_isdigit isdigit_neq by blast+
  have "Tokenizer (digits g @ ''g '' @ digits s @ ''s '' @ digits c @ ''c'') CHR '' '' =
      Some [digits g @ ''g'', digits s @ ''s'', digits c @ ''c'']"
    using tokens_loop_join [of "CHR '' ''" "[digits g @ ''g'', digits s @ ''s'']" "digits c @ ''c''" "[]"] free
    by (simp add: Tokenizer_def)
  moreover have "\<not> isdigit CHR ''g''" "\<not> isdigit CHR ''s''" "\<not> isdigit CHR ''c''"
    by (simp_all add: isdigit_def)
  ultimately show ?thesis
    using assms by (simp add: MoneyStringToMoney_def atoi_digits algebra_simps)
qed

theorem money_text_read_witness: "MoneyStringToMoney ''5g 30s 2c'' = Some 53002"
proof -
  have "digits 5 = ''5''" "digits 30 = ''30''" "digits 2 = ''2''" by code_simp+
  then show ?thesis using money_text_read [of 5 30 2] by simp
qed

text \<open>
  Hexadecimal dumps. For an array shorter than \<open>2 ^ 31\<close> bytes, the empty one included, the
  counting loop, up or down, stays inside the array and writes two upper-case digits for every
  byte, in the order asked for.
\<close>

theorem hex_dump_of_bytes:
  assumes "length bytes = unat arrayLen" and "unat arrayLen < 2 ^ 31"
  shows "ByteArrayToHexStr bytes arrayLen reverse =
    Some (concat (map hex_byte (if reverse then rev bytes else bytes)))"
proof -
  have u: "uint arrayLen = int (length bytes)" using assms(1) by (metis uint_nat)
  have l: "length bytes < 2 ^ 31" using assms by simp
  have len: "sint arrayLen = int (length bytes)"
    unfolding sint_uint u using l by (simp add: signed_take_bit_int_eq_self)
  have "sint (arrayLen - 1) = int (length bytes) - 1"
    unfolding sint_word_diff len using l by (simp add: signed_take_bit_int_eq_self)
  then show ?thesis
    using len hex_loop_up [of 0 bytes] hex_loop_down [of "length bytes" bytes]
    by (simp add: ByteArrayToHexStr_def)
qed

theorem hex_dump_of_bytes_witness: "ByteArrayToHexStr [0x0A, 0xFF] 2 True = Some ''FF0A''"
proof -
  have "hex_byte 0x0A = ''0A''" "hex_byte 0xFF = ''FF''" by code_simp+
  then show ?thesis using hex_dump_of_bytes [of "[0x0A, 0xFF]" 2 True] by simp
qed

end
