(* ===== verification/WideChars.thy ===== *)
theory WideChars
  imports Prelude
begin

text \<open>
  The functions on wide characters and strings of \<^verbatim>\<open>src/server/shared/Utilities/Util.h\<close>
  and \<^verbatim>\<open>Util.cpp\<close>: classes of characters, upper and lower case, and the main part of a
  Cyrillic name. A \<^verbatim>\<open>wchar_t\<close> is a 32-bit word; all ranges lie below \<open>2 ^ 16\<close>, so
  that the comparisons are the same for a signed and an unsigned \<^verbatim>\<open>wchar_t\<close>.
\<close>

section \<open>Classes of characters\<close>

type_synonym wchar = "32 word"

definition isBasicLatinCharacter :: "wchar \<Rightarrow> bool" where
  "isBasicLatinCharacter c \<longleftrightarrow> c \<ge> 0x61 \<and> c \<le> 0x7A \<or> c \<ge> 0x41 \<and> c \<le> 0x5A"

definition isExtendedLatinCharacter :: "wchar \<Rightarrow> bool" where
  "isExtendedLatinCharacter c \<longleftrightarrow>
     isBasicLatinCharacter c \<or> c \<ge> 0x00C0 \<and> c \<le> 0x00D6 \<or> c \<ge> 0x00D8 \<and> c \<le> 0x00DE \<or>
     c = 0x00DF \<or> c \<ge> 0x00E0 \<and> c \<le> 0x00F6 \<or> c \<ge> 0x00F8 \<and> c \<le> 0x00FE \<or>
     c \<ge> 0x0100 \<and> c \<le> 0x012F \<or> c = 0x1E9E"

definition isCyrillicCharacter :: "wchar \<Rightarrow> bool" where
  "isCyrillicCharacter c \<longleftrightarrow> c \<ge> 0x0410 \<and> c \<le> 0x044F \<or> c = 0x0401 \<or> c = 0x0451"

definition isEastAsianCharacter :: "wchar \<Rightarrow> bool" where
  "isEastAsianCharacter c \<longleftrightarrow>
     c \<ge> 0x1100 \<and> c \<le> 0x11F9 \<or> c \<ge> 0x3041 \<and> c \<le> 0x30FF \<or> c \<ge> 0x3131 \<and> c \<le> 0x318E \<or>
     c \<ge> 0x31F0 \<and> c \<le> 0x31FF \<or> c \<ge> 0x3400 \<and> c \<le> 0x4DB5 \<or> c \<ge> 0x4E00 \<and> c \<le> 0x9FC3 \<or>
     c \<ge> 0xAC00 \<and> c \<le> 0xD7A3 \<or> c \<ge> 0xFF01 \<and> c \<le> 0xFFEE"

definition isNumericWide :: "wchar \<Rightarrow> bool" where
  "isNumericWide c \<longleftrightarrow> c \<ge> 0x30 \<and> c \<le> 0x39"

definition isNumericOrSpace :: "wchar \<Rightarrow> bool" where
  "isNumericOrSpace c \<longleftrightarrow> isNumericWide c \<or> c = 0x20"

text \<open>The loop the four functions on strings share; the first character that fails ends it.\<close>

fun all_characters :: "(wchar \<Rightarrow> bool) \<Rightarrow> bool \<Rightarrow> wchar list \<Rightarrow> bool" where
  "all_characters isC numericOrSpace [] = True"
| "all_characters isC numericOrSpace (c # cs) =
     (if \<not> isC c \<and> (\<not> numericOrSpace \<or> \<not> isNumericOrSpace c) then False
      else all_characters isC numericOrSpace cs)"

definition isBasicLatinString :: "wchar list \<Rightarrow> bool \<Rightarrow> bool" where
  "isBasicLatinString wstr numericOrSpace = all_characters isBasicLatinCharacter numericOrSpace wstr"

definition isExtendedLatinString :: "wchar list \<Rightarrow> bool \<Rightarrow> bool" where
  "isExtendedLatinString wstr numericOrSpace = all_characters isExtendedLatinCharacter numericOrSpace wstr"

definition isCyrillicString :: "wchar list \<Rightarrow> bool \<Rightarrow> bool" where
  "isCyrillicString wstr numericOrSpace = all_characters isCyrillicCharacter numericOrSpace wstr"

definition isEastAsianString :: "wchar list \<Rightarrow> bool \<Rightarrow> bool" where
  "isEastAsianString wstr numericOrSpace = all_characters isEastAsianCharacter numericOrSpace wstr"

section \<open>Upper and lower case\<close>

text \<open>\<^verbatim>\<open>wchar_t(uint16(wchar) - n)\<close>: the low half, and an \<^verbatim>\<open>int\<close> difference.\<close>

definition low16 :: "wchar \<Rightarrow> wchar" where
  "low16 c = ucast (ucast c :: 16 word)"

definition wcharToUpper :: "wchar \<Rightarrow> wchar" where
  "wcharToUpper c =
     (if c \<ge> 0x61 \<and> c \<le> 0x7A then low16 c - 0x20
      else if c = 0x00DF then 0x1E9E
      else if c \<ge> 0x00E0 \<and> c \<le> 0x00F6 then low16 c - 0x20
      else if c \<ge> 0x00F8 \<and> c \<le> 0x00FE then low16 c - 0x20
      else if c \<ge> 0x0101 \<and> c \<le> 0x012F \<and> c mod 2 = 1 then low16 c - 1
      else if c \<ge> 0x0430 \<and> c \<le> 0x044F then low16 c - 0x20
      else if c = 0x0451 then 0x0401
      else c)"

definition wcharToUpperOnlyLatin :: "wchar \<Rightarrow> wchar" where
  "wcharToUpperOnlyLatin c = (if isBasicLatinCharacter c then wcharToUpper c else c)"

definition wcharToLower :: "wchar \<Rightarrow> wchar" where
  "wcharToLower c =
     (if c \<ge> 0x41 \<and> c \<le> 0x5A then low16 c + 0x20
      else if c \<ge> 0x00C0 \<and> c \<le> 0x00D6 then low16 c + 0x20
      else if c \<ge> 0x00D8 \<and> c \<le> 0x00DE then low16 c + 0x20
      else if c \<ge> 0x0100 \<and> c \<le> 0x012E \<and> c mod 2 = 0 then low16 c + 1
      else if c = 0x1E9E then 0x00DF
      else if c = 0x0401 then 0x0451
      else if c \<ge> 0x0410 \<and> c \<le> 0x042F then low16 c + 0x20
      else c)"

definition wstrToUpper :: "wchar list \<Rightarrow> wchar list" where
  "wstrToUpper str = map wcharToUpper str"

definition wstrToLower :: "wchar list \<Rightarrow> wchar list" where
  "wstrToLower str = map wcharToLower str"

section \<open>The main part of a name\<close>

text \<open>
  The endings, without the length in front and the zero behind; \<^verbatim>\<open>dropEnds\<close> for each
  declension, up to the \<^verbatim>\<open>NULL\<close>.
\<close>

definition dropEnds :: "wchar list list list" where
  "dropEnds =
     (let a_End = [0x0430]; o_End = [0x043E]; ya_End = [0x044F]; ie_End = [0x0435]; i_End = [0x0438];
          yeru_End = [0x044B]; u_End = [0x0443]; yu_End = [0x044E]; oj_End = [0x043E, 0x0439];
          ie_j_End = [0x0435, 0x0439]; io_j_End = [0x0451, 0x0439]; o_m_End = [0x043E, 0x043C];
          io_m_End = [0x0451, 0x043C]; ie_m_End = [0x0435, 0x043C]; soft_End = [0x044C]; j_End = [0x0439]
      in [[a_End, o_End, ya_End, ie_End, soft_End, j_End],
          [a_End, ya_End, yeru_End, i_End],
          [ie_End, u_End, yu_End, i_End],
          [u_End, yu_End, o_End, ie_End, soft_End, ya_End, a_End],
          [oj_End, io_j_End, ie_j_End, o_m_End, io_m_End, ie_m_End, yu_End],
          [ie_End, i_End]])"

text \<open>
  \<^verbatim>\<open>substr\<close> raises \<^verbatim>\<open>out_of_range\<close>, here \<open>None\<close>, for a position behind the
  end; the position is a difference in \<^verbatim>\<open>size_t\<close>.
\<close>

definition substr :: "nat \<Rightarrow> nat \<Rightarrow> 'a list \<Rightarrow> 'a list option" where
  "substr pos len str = (if pos > length str then None else Some (take len (drop pos str)))"

definition size_minus :: "nat \<Rightarrow> nat \<Rightarrow> nat" where
  "size_minus a b = (if b \<le> a then a - b else 2 ^ 64 + a - b)"

fun drop_end_loop :: "wchar list list \<Rightarrow> wchar list \<Rightarrow> wchar list option" where
  "drop_end_loop [] wname = Some wname"
| "drop_end_loop (ending # endings) wname = do {
     let len = length ending;
     tail \<leftarrow> substr (size_minus (length wname) len) len wname;
     if tail = ending then substr 0 (size_minus (length wname) len) wname
     else drop_end_loop endings wname
   }"

definition GetMainPartOfName :: "wchar list \<Rightarrow> u32 \<Rightarrow> wchar list option" where
  "GetMainPartOfName wname declension =
     (if length wname < 1 \<or> \<not> isCyrillicCharacter (wname ! 0) \<or> declension > 5 then Some wname
      else drop_end_loop (dropEnds ! unat declension) wname)"

section \<open>Lemmas on case\<close>

text \<open>The two mappings on the numbers of the characters.\<close>

definition upper_nat :: "nat \<Rightarrow> nat" where
  "upper_nat n =
     (if 0x61 \<le> n \<and> n \<le> 0x7A then n - 0x20 else if n = 0xDF then 0x1E9E
      else if 0xE0 \<le> n \<and> n \<le> 0xF6 then n - 0x20 else if 0xF8 \<le> n \<and> n \<le> 0xFE then n - 0x20
      else if 0x101 \<le> n \<and> n \<le> 0x12F \<and> n mod 2 = 1 then n - 1
      else if 0x430 \<le> n \<and> n \<le> 0x44F then n - 0x20 else if n = 0x451 then 0x401 else n)"

definition lower_nat :: "nat \<Rightarrow> nat" where
  "lower_nat n =
     (if 0x41 \<le> n \<and> n \<le> 0x5A then n + 0x20 else if 0xC0 \<le> n \<and> n \<le> 0xD6 then n + 0x20
      else if 0xD8 \<le> n \<and> n \<le> 0xDE then n + 0x20
      else if 0x100 \<le> n \<and> n \<le> 0x12E \<and> n mod 2 = 0 then n + 1
      else if n = 0x1E9E then 0xDF else if n = 0x401 then 0x451
      else if 0x410 \<le> n \<and> n \<le> 0x42F then n + 0x20 else n)"

text \<open>The pairs of ranges the mappings exchange, and the characters they leave alone.\<close>

definition cased_pair :: "nat \<Rightarrow> nat \<Rightarrow> bool" where
  "cased_pair u l \<longleftrightarrow>
     l = u + 0x20 \<and> (0x41 \<le> u \<and> u \<le> 0x5A \<or> 0xC0 \<le> u \<and> u \<le> 0xD6 \<or> 0xD8 \<le> u \<and> u \<le> 0xDE \<or>
                      0x410 \<le> u \<and> u \<le> 0x42F) \<or>
     (\<exists>k. u = 2 * k \<and> l = 2 * k + 1 \<and> 0x80 \<le> k \<and> k \<le> 0x97) \<or>
     u = 0x1E9E \<and> l = 0xDF \<or> u = 0x401 \<and> l = 0x451"

lemma cased_pair_maps:
  assumes "cased_pair u l"
  shows "upper_nat u = u" "upper_nat l = u" "lower_nat u = l" "lower_nat l = l"
proof -
  consider "l = u + 0x20" "0x41 \<le> u" "u \<le> 0x5A" | "l = u + 0x20" "0xC0 \<le> u" "u \<le> 0xD6"
    | "l = u + 0x20" "0xD8 \<le> u" "u \<le> 0xDE" | "l = u + 0x20" "0x410 \<le> u" "u \<le> 0x42F"
    | k where "u = 2 * k" "l = 2 * k + 1" "0x80 \<le> k" "k \<le> 0x97"
    | "u = 0x1E9E" "l = 0xDF" | "u = 0x401" "l = 0x451"
    using assms unfolding cased_pair_def by blast
  then have "upper_nat u = u \<and> upper_nat l = u \<and> lower_nat u = l \<and> lower_nat l = l"
    by cases (simp_all add: upper_nat_def lower_nat_def)
  then show "upper_nat u = u" "upper_nat l = u" "lower_nat u = l" "lower_nat l = l" by blast+
qed

lemma upper_pair: "upper_nat n \<noteq> n \<Longrightarrow> cased_pair (upper_nat n) n"
  unfolding upper_nat_def cased_pair_def by (auto split: if_splits) presburger?

lemma lower_pair: "lower_nat n \<noteq> n \<Longrightarrow> cased_pair n (lower_nat n)"
  unfolding lower_nat_def cased_pair_def by (auto split: if_splits) presburger?

lemma upper_lower_nat:
  "lower_nat (upper_nat n) = lower_nat n" "upper_nat (lower_nat n) = upper_nat n"
proof -
  show "lower_nat (upper_nat n) = lower_nat n"
    using cased_pair_maps [OF upper_pair, of n] by (cases "upper_nat n = n") auto
  show "upper_nat (lower_nat n) = upper_nat n"
    using cased_pair_maps [OF lower_pair, of n] by (cases "lower_nat n = n") auto
qed

lemma low16_small: "c \<le> 0xFFFF \<Longrightarrow> low16 c = c"
proof -
  assume "c \<le> 0xFFFF"
  then have "unat (low16 c) = unat c"
    by (simp add: low16_def unsigned_ucast_eq unsigned_take_bit_eq word_le_nat_alt take_bit_nat_eq_self)
  then show ?thesis by (simp only: word_unat_eq_iff)
qed

lemma unat_upper: "unat (wcharToUpper c) = upper_nat (unat c)"
proof -
  have "unat (c mod 2) = unat c mod 2" by (simp add: unat_mod_distrib)
  then have odd: "c mod 2 = 1 \<longleftrightarrow> unat c mod 2 = 1" by (metis unat_1 word_unat_eq_iff)
  show ?thesis
    unfolding wcharToUpper_def upper_nat_def odd
    by (simp add: word_le_nat_alt word_unat_eq_iff low16_small unat_sub)
qed

lemma unat_lower: "unat (wcharToLower c) = lower_nat (unat c)"
proof -
  have "unat (c mod 2) = unat c mod 2" by (simp add: unat_mod_distrib)
  then have even: "c mod 2 = 0 \<longleftrightarrow> unat c mod 2 = 0" by (metis unat_0 word_unat_eq_iff)
  show ?thesis
    unfolding wcharToLower_def lower_nat_def even
    by (simp add: word_le_nat_alt word_unat_eq_iff low16_small unat_word_ariths)
qed

lemma cased_pair_class:
  assumes "cased_pair (unat u) (unat l)"
  shows "isExtendedLatinCharacter u = isExtendedLatinCharacter l \<and> isCyrillicCharacter u = isCyrillicCharacter l"
  using assms unfolding cased_pair_def isExtendedLatinCharacter_def isBasicLatinCharacter_def
    isCyrillicCharacter_def
  by (elim disjE conjE exE) (simp_all add: word_le_nat_alt word_unat_eq_iff)

lemma upper_class:
  "isExtendedLatinCharacter (wcharToUpper c) = isExtendedLatinCharacter c"
  "isCyrillicCharacter (wcharToUpper c) = isCyrillicCharacter c"
proof -
  have "cased_pair (unat (wcharToUpper c)) (unat c) \<or> wcharToUpper c = c"
    using upper_pair [of "unat c"] by (metis unat_upper word_unat_eq_iff)
  then show "isExtendedLatinCharacter (wcharToUpper c) = isExtendedLatinCharacter c"
    "isCyrillicCharacter (wcharToUpper c) = isCyrillicCharacter c"
    using cased_pair_class by auto
qed

lemma wchar_case:
  "wcharToLower (wcharToUpper c) = wcharToLower c" "wcharToUpper (wcharToLower c) = wcharToUpper c"
  by (simp_all add: word_unat_eq_iff unat_upper unat_lower upper_lower_nat)

section \<open>Lemmas on names\<close>

lemma substr_tail: "length e \<le> length w \<Longrightarrow>
    substr (size_minus (length w) (length e)) (length e) w = Some (drop (length w - length e) w)"
  by (simp add: substr_def size_minus_def)

lemma drop_end_loop_fits:
  "\<forall>e \<in> set es. length e \<le> length w \<Longrightarrow>
   \<exists>r. drop_end_loop es w = Some r \<and> (r = w \<or> (\<exists>e \<in> set es. w = r @ e))"
proof (induction es)
  case (Cons e es)
  show ?case
  proof (cases "drop (length w - length e) w = e")
    case True
    then have "w = take (length w - length e) w @ e" by (metis append_take_drop_id)
    then show ?thesis using True Cons.prems
      by (auto simp: substr_tail substr_def size_minus_def Let_def)
  next
    case False
    then show ?thesis using Cons by (auto simp: substr_tail Let_def)
  qed
qed simp

lemma dropEnds_lengths:
  "\<forall>e \<in> set (dropEnds ! 0) \<union> set (dropEnds ! 1) \<union> set (dropEnds ! 2) \<union> set (dropEnds ! 3) \<union>
     set (dropEnds ! 5). length e = 1"
  "\<forall>e \<in> set (dropEnds ! 4). length e \<le> 2"
  by (simp_all add: dropEnds_def Let_def)

lemma declension_cases:
  assumes "(d :: u32) \<le> 5"
  shows "unat d \<in> {0, 1, 2, 3, 4, 5}"
proof -
  have "unat d \<le> 5" using assms by (simp add: word_le_nat_alt)
  then show ?thesis by auto
qed

section \<open>Properties\<close>

text \<open>
  Upper and lower case agree: on every character the two mappings undo each other up to the
  case, and neither changes the class of a letter; so two strings are equal without regard to case
  when their upper-case forms are equal, or, just as well, their lower-case forms.
\<close>

theorem case_mappings_agree:
  "wcharToLower (wcharToUpper c) = wcharToLower c \<and> wcharToUpper (wcharToLower c) = wcharToUpper c \<and>
   isExtendedLatinCharacter (wcharToUpper c) = isExtendedLatinCharacter c \<and>
   isCyrillicCharacter (wcharToUpper c) = isCyrillicCharacter c \<and>
   (wstrToLower a = wstrToLower b \<longleftrightarrow> wstrToUpper a = wstrToUpper b)"
proof -
  have same: "wcharToLower x = wcharToLower y \<longleftrightarrow> wcharToUpper x = wcharToUpper y" for x y
    by (metis wchar_case)
  have "map wcharToLower a = map wcharToLower b \<longleftrightarrow> map wcharToUpper a = map wcharToUpper b"
  proof (induction a arbitrary: b)
    case (Cons x xs)
    then show ?case using same by (cases b) auto
  qed simp
  then have "wstrToLower a = wstrToLower b \<longleftrightarrow> wstrToUpper a = wstrToUpper b"
    by (simp only: wstrToLower_def wstrToUpper_def)
  then show ?thesis using wchar_case upper_class by simp
qed

text \<open>
  The main part of a name. The function returns the name or the name without one of the
  endings of the declension; but a Cyrillic name of one letter in the declension 4, whose first
  ending has two letters, raises \<^verbatim>\<open>out_of_range\<close>: the position \<^verbatim>\<open>size - 2\<close>
  wraps. That is the only case.
\<close>

theorem main_part_of_name:
  "(GetMainPartOfName wname d = None \<longleftrightarrow> (\<exists>c. wname = [c] \<and> isCyrillicCharacter c \<and> d = 4)) \<and>
   (GetMainPartOfName wname d = Some r \<longrightarrow>
      r = wname \<or> (d \<le> 5 \<and> (\<exists>e \<in> set (dropEnds ! unat d). wname = r @ e)))"
proof (cases "length wname < 1 \<or> \<not> isCyrillicCharacter (wname ! 0) \<or> d > 5")
  case True
  then show ?thesis by (auto simp: GetMainPartOfName_def)
next
  case False
  then have d: "d \<le> 5" and cyr: "isCyrillicCharacter (wname ! 0)" and l: "1 \<le> length wname"
    by (auto simp: Suc_le_eq)
  have run: "GetMainPartOfName wname d = drop_end_loop (dropEnds ! unat d) wname"
    using False by (simp add: GetMainPartOfName_def)
  have four: "d = 4 \<longleftrightarrow> unat d = 4" by (simp add: word_unat_eq_iff)
  show ?thesis
  proof (cases "length wname = 1 \<and> d = 4")
    case True
    then obtain c where c: "wname = [c]" "isCyrillicCharacter c" using cyr by (cases wname) auto
    have "drop_end_loop (dropEnds ! 4) [c] = None"
      by (simp add: dropEnds_def Let_def substr_def size_minus_def)
    then show ?thesis using True c run by simp
  next
    case False
    have "\<forall>e \<in> set (dropEnds ! unat d). length e \<le> length wname"
      using declension_cases [OF d] dropEnds_lengths l False four by (cases "unat d = 4") fastforce+
    from drop_end_loop_fits [OF this] show ?thesis using False d by (auto simp: run)
  qed
qed

theorem main_part_of_name_witness:
  "\<exists>r. GetMainPartOfName [0x410, 0x430] 0 = Some r \<and>
     (r = [0x410, 0x430] \<or> (\<exists>e \<in> set (dropEnds ! 0). [0x410, 0x430] = r @ e))"
proof -
  have ex: "GetMainPartOfName [0x410, 0x430] 0 \<noteq> None"
    using main_part_of_name [of "[0x410, 0x430]" 0] by simp
  then obtain r where r: "GetMainPartOfName [0x410, 0x430] 0 = Some r" by blast
  then show ?thesis using main_part_of_name [of "[0x410, 0x430]" 0 r] by auto
qed

end
