(* ===== verification/Flags.thy ===== *)
theory Flags
  imports Prelude
begin

text \<open>
  The small value classes of \<^verbatim>\<open>src/server/shared/Utilities/Util.h\<close>: \<^verbatim>\<open>flag96\<close>,
  a set of 96 flags in three words with an order, \<^verbatim>\<open>CompareValues\<close>,
  \<^verbatim>\<open>HookList\<close> and \<^verbatim>\<open>RoundToInterval\<close>.
\<close>

unbundle bit_operations_syntax

section \<open>flag96\<close>

datatype flag96 = Flag96 (part0: u32) (part1: u32) (part2: u32)

definition flag96_IsEqual :: "u32 \<Rightarrow> u32 \<Rightarrow> u32 \<Rightarrow> flag96 \<Rightarrow> bool" where
  "flag96_IsEqual p1 p2 p3 f \<longleftrightarrow> part0 f = p1 \<and> part1 f = p2 \<and> part2 f = p3"

definition flag96_HasFlag :: "u32 \<Rightarrow> u32 \<Rightarrow> u32 \<Rightarrow> flag96 \<Rightarrow> bool" where
  "flag96_HasFlag p1 p2 p3 f \<longleftrightarrow> part0 f AND p1 \<noteq> 0 \<or> part1 f AND p2 \<noteq> 0 \<or> part2 f AND p3 \<noteq> 0"

definition flag96_Set :: "u32 \<Rightarrow> u32 \<Rightarrow> u32 \<Rightarrow> flag96 \<Rightarrow> flag96" where
  "flag96_Set p1 p2 p3 f = Flag96 p1 p2 p3"

text \<open>\<^verbatim>\<open>operator[]\<close>; an index above 2 is outside the array.\<close>

definition flag96_index :: "u8 \<Rightarrow> flag96 \<Rightarrow> u32 option" where
  "flag96_index el f =
     (if el = 0 then Some (part0 f) else if el = 1 then Some (part1 f) else if el = 2 then Some (part2 f)
      else None)"

text \<open>The loop of \<^verbatim>\<open>operator<\<close>, from the last part to the first.\<close>

fun flag96_less_loop :: "(u32 \<times> u32) list \<Rightarrow> bool" where
  "flag96_less_loop [] = False"
| "flag96_less_loop ((l, r) # ps) = (if l < r then True else if l > r then False else flag96_less_loop ps)"

definition flag96_less :: "flag96 \<Rightarrow> flag96 \<Rightarrow> bool" where
  "flag96_less f g = flag96_less_loop [(part2 f, part2 g), (part1 f, part1 g), (part0 f, part0 g)]"

definition flag96_eq :: "flag96 \<Rightarrow> flag96 \<Rightarrow> bool" where
  "flag96_eq f g \<longleftrightarrow> part0 f = part0 g \<and> part1 f = part1 g \<and> part2 f = part2 g"

definition flag96_and :: "flag96 \<Rightarrow> flag96 \<Rightarrow> flag96" where
  "flag96_and f g = Flag96 (part0 f AND part0 g) (part1 f AND part1 g) (part2 f AND part2 g)"

definition flag96_or :: "flag96 \<Rightarrow> flag96 \<Rightarrow> flag96" where
  "flag96_or f g = Flag96 (part0 f OR part0 g) (part1 f OR part1 g) (part2 f OR part2 g)"

definition flag96_xor :: "flag96 \<Rightarrow> flag96 \<Rightarrow> flag96" where
  "flag96_xor f g = Flag96 (part0 f XOR part0 g) (part1 f XOR part1 g) (part2 f XOR part2 g)"

definition flag96_not :: "flag96 \<Rightarrow> flag96" where
  "flag96_not f = Flag96 (NOT (part0 f)) (NOT (part1 f)) (NOT (part2 f))"

definition flag96_bool :: "flag96 \<Rightarrow> bool" where
  "flag96_bool f \<longleftrightarrow> part0 f \<noteq> 0 \<or> part1 f \<noteq> 0 \<or> part2 f \<noteq> 0"

section \<open>The other classes\<close>

datatype ComparisionType =
  COMP_TYPE_EQ | COMP_TYPE_HIGH | COMP_TYPE_LOW | COMP_TYPE_HIGH_EQ | COMP_TYPE_LOW_EQ | COMP_TYPE_MAX

text \<open>The default case is a failed assertion.\<close>

fun CompareValues :: "ComparisionType \<Rightarrow> 'a::linorder \<Rightarrow> 'a \<Rightarrow> bool option" where
  "CompareValues COMP_TYPE_EQ val1 val2 = Some (val1 = val2)"
| "CompareValues COMP_TYPE_HIGH val1 val2 = Some (val1 > val2)"
| "CompareValues COMP_TYPE_LOW val1 val2 = Some (val1 < val2)"
| "CompareValues COMP_TYPE_HIGH_EQ val1 val2 = Some (val1 \<ge> val2)"
| "CompareValues COMP_TYPE_LOW_EQ val1 val2 = Some (val1 \<le> val2)"
| "CompareValues COMP_TYPE_MAX val1 val2 = None"

definition HookList_add :: "'a \<Rightarrow> 'a list \<Rightarrow> 'a list" where
  "HookList_add t l = l @ [t]"

definition HookList_remove :: "'a \<Rightarrow> 'a list \<Rightarrow> 'a list" where
  "HookList_remove t l = removeAll t l"

definition RoundToInterval :: "'a::linorder \<Rightarrow> 'a \<Rightarrow> 'a \<Rightarrow> 'a" where
  "RoundToInterval num floor ceil = min (max num floor) ceil"

section \<open>The order\<close>

instantiation flag96 :: linorder
begin

definition less_flag96 :: "flag96 \<Rightarrow> flag96 \<Rightarrow> bool" where
  "f < g \<longleftrightarrow> flag96_less f g"

definition less_eq_flag96 :: "flag96 \<Rightarrow> flag96 \<Rightarrow> bool" where
  "f \<le> g \<longleftrightarrow> flag96_less f g \<or> flag96_eq f g"

instance
proof
  fix f g h :: flag96
  show "f < g \<longleftrightarrow> f \<le> g \<and> \<not> g \<le> f"
    by (auto simp: less_flag96_def less_eq_flag96_def flag96_less_def flag96_eq_def split: if_splits)
  show "f \<le> f" by (simp add: less_eq_flag96_def flag96_eq_def)
  show "f \<le> h" if "f \<le> g" "g \<le> h"
    using that by (auto simp: less_eq_flag96_def flag96_less_def flag96_eq_def split: if_splits)
  show "f = g" if "f \<le> g" "g \<le> f"
    using that by (auto simp: less_eq_flag96_def flag96_less_def flag96_eq_def flag96.expand split: if_splits)
  show "f \<le> g \<or> g \<le> f"
    by (auto simp: less_eq_flag96_def flag96_less_def flag96_eq_def)
qed

end

section \<open>The number of a set of flags\<close>

text \<open>The abstract value: the three parts as one word of 96 bits.\<close>

definition flag96_value :: "flag96 \<Rightarrow> 96 word" where
  "flag96_value f = ucast (part0 f) OR push_bit 32 (ucast (part1 f)) OR push_bit 64 (ucast (part2 f))"

lemma bit_flag96_value:
  "n < 96 \<Longrightarrow> bit (flag96_value f) n =
    (if n < 32 then bit (part0 f) n else if n < 64 then bit (part1 f) (n - 32) else bit (part2 f) (n - 64))"
  by (auto simp: flag96_value_def bit_or_iff bit_push_bit_iff bit_ucast_iff dest: bit_imp_le_length)

lemma flag96_value_inject: "flag96_value f = flag96_value g \<longleftrightarrow> f = g"
proof
  assume "flag96_value f = flag96_value g"
  then have b: "bit (flag96_value f) n = bit (flag96_value g) n" for n by simp
  have "part0 f = part0 g"
  proof (rule bit_word_eqI)
    show "bit (part0 f) n = bit (part0 g) n" if "n < LENGTH(32)" for n
      using b [of n] bit_flag96_value [of n] that by simp
  qed
  moreover have "part1 f = part1 g"
  proof (rule bit_word_eqI)
    show "bit (part1 f) n = bit (part1 g) n" if "n < LENGTH(32)" for n
      using b [of "n + 32"] bit_flag96_value [of "n + 32"] that by simp
  qed
  moreover have "part2 f = part2 g"
  proof (rule bit_word_eqI)
    show "bit (part2 f) n = bit (part2 g) n" if "n < LENGTH(32)" for n
      using b [of "n + 64"] bit_flag96_value [of "n + 64"] that by simp
  qed
  ultimately show "f = g" by (simp add: flag96.expand)
qed simp

lemma high_bit_u32: "32 \<le> n \<Longrightarrow> \<not> bit (w :: u32) n"
  by (auto dest: bit_imp_le_length)

lemma or_is_plus: "(x :: 96 word) AND y = 0 \<Longrightarrow> x OR y = x + y"
  by (metis add.left_neutral word_plus_and_or)

lemma unat_shifted: "n + 32 \<le> 96 \<Longrightarrow> unat (push_bit n (ucast (p :: u32)) :: 96 word) = unat p * 2 ^ n"
proof -
  assume n: "n + 32 \<le> 96"
  have "unat p * 2 ^ n < 2 ^ 32 * 2 ^ n" using unat_u32_less [of p] by simp
  also have "\<dots> = 2 ^ (n + 32)" by (simp only: power_add mult.commute)
  also have "\<dots> \<le> 2 ^ 96" using n by (rule power_increasing) simp
  finally have b: "unat p * 2 ^ n < 2 ^ 96" .
  have "unat p < 2 ^ 96" using less_trans [OF unat_u32_less [of p], of "2 ^ 96"] by simp
  then have "unat (ucast p :: 96 word) = unat p" by (simp add: unsigned_ucast_eq take_bit_nat_eq_self)
  then have "unat (push_bit n (ucast p) :: 96 word) = take_bit 96 (unat p * 2 ^ n)"
    by (subst unsigned_push_bit_eq) (simp add: push_bit_eq_mult)
  then show ?thesis using b by (simp add: take_bit_nat_eq_self)
qed

lemma unat_flag96_value:
  "unat (flag96_value f) = unat (part0 f) + unat (part1 f) * 2 ^ 32 + unat (part2 f) * 2 ^ 64"
proof -
  let ?a = "ucast (part0 f) :: 96 word" and ?b = "push_bit 32 (ucast (part1 f)) :: 96 word"
    and ?c = "push_bit 64 (ucast (part2 f)) :: 96 word"
  have u: "unat ?a = unat (part0 f)" "unat ?b = unat (part1 f) * 2 ^ 32" "unat ?c = unat (part2 f) * 2 ^ 64"
    using unat_shifted [of 0 "part0 f"] unat_shifted [of 32 "part1 f"] unat_shifted [of 64 "part2 f"] by simp_all
  have "?a AND ?b = 0" "(?a OR ?b) AND ?c = 0"
    by (auto intro!: bit_word_eqI simp: bit_and_iff bit_or_iff bit_push_bit_iff bit_ucast_iff high_bit_u32
        dest: bit_imp_le_length)
  then have "(?a OR ?b) OR ?c = ?a + ?b + ?c" using or_is_plus [of ?a ?b] or_is_plus [of "?a OR ?b" ?c] by simp
  then have v: "flag96_value f = ?a + ?b + ?c" unfolding flag96_value_def by (simp only: or.assoc)
  have "unat ?a + unat ?b + unat ?c < 2 ^ 96"
    unfolding u using unat_u32_less [of "part0 f"] unat_u32_less [of "part1 f"] unat_u32_less [of "part2 f"]
    by (simp del: unat_u32_less)
  then show ?thesis unfolding v by (simp add: u unat_word_ariths)
qed

lemma digit_less:
  "a < B \<Longrightarrow> b < B \<Longrightarrow> a + m * B < b + k * B \<longleftrightarrow> m < k \<or> m = k \<and> a < (b :: nat)"
proof (cases m k rule: linorder_cases)
  case less
  then have "m * B + B \<le> k * B" by (metis Suc_leI add.commute mult_Suc mult_le_mono1)
  then show "a < B \<Longrightarrow> b < B \<Longrightarrow> ?thesis" using less by simp
next
  case greater
  then have "k * B + B \<le> m * B" by (metis Suc_leI add.commute mult_Suc mult_le_mono1)
  then show "a < B \<Longrightarrow> b < B \<Longrightarrow> ?thesis" using greater by simp
qed simp

lemma digit_eq:
  "a < B \<Longrightarrow> b < B \<Longrightarrow> a + m * B = b + k * B \<longleftrightarrow> m = k \<and> a = (b :: nat)"
  using digit_less [of a B b m k] digit_less [of b B a k m] by auto

lemma flag96_less_value: "flag96_less f g \<longleftrightarrow> flag96_value f < flag96_value g"
proof -
  have v: "unat (flag96_value h) = unat (part0 h) + (unat (part1 h) + unat (part2 h) * 4294967296) * 4294967296" for h
    by (simp add: unat_flag96_value)
  show ?thesis
    unfolding word_less_nat_alt v
    by (simp only: digit_less digit_eq unat_u32_less) (auto simp: flag96_less_def word_less_nat_alt)
qed

section \<open>Properties\<close>

text \<open>
  C31. The flags are one word of 96 bits: with the three parts put together, the bitwise
  operators, the tests and the order of \<^verbatim>\<open>flag96\<close> are those of the number; and
  \<^verbatim>\<open>HasFlag\<close> is the test of an intersection.
\<close>

theorem flag96_is_word:
  "flag96_value (flag96_and f g) = flag96_value f AND flag96_value g \<and>
   flag96_value (flag96_or f g) = flag96_value f OR flag96_value g \<and>
   flag96_value (flag96_xor f g) = flag96_value f XOR flag96_value g \<and>
   flag96_value (flag96_not f) = NOT (flag96_value f) \<and>
   (flag96_bool f \<longleftrightarrow> flag96_value f \<noteq> 0) \<and>
   (flag96_eq f g \<longleftrightarrow> flag96_value f = flag96_value g) \<and>
   (flag96_less f g \<longleftrightarrow> flag96_value f < flag96_value g) \<and>
   (flag96_HasFlag p1 p2 p3 f \<longleftrightarrow> flag96_value f AND flag96_value (Flag96 p1 p2 p3) \<noteq> 0)"
proof -
  note bits = bit_flag96_value bit_and_iff bit_or_iff bit_xor_iff bit_not_iff
  have ops: "flag96_value (flag96_and f g) = flag96_value f AND flag96_value g" for f g
    by (rule bit_word_eqI) (simp add: bits flag96_and_def)
  moreover have "flag96_value (flag96_or f g) = flag96_value f OR flag96_value g"
    "flag96_value (flag96_xor f g) = flag96_value f XOR flag96_value g"
    "flag96_value (flag96_not f) = NOT (flag96_value f)"
    by (rule bit_word_eqI, auto simp: bits flag96_or_def flag96_xor_def flag96_not_def)+
  moreover have zero: "flag96_bool h \<longleftrightarrow> flag96_value h \<noteq> 0" for h
    using flag96_value_inject [of h "Flag96 0 0 0"]
    by (cases h) (simp add: flag96_bool_def flag96_value_def [of "Flag96 0 0 0"])
  moreover have "flag96_eq f g \<longleftrightarrow> flag96_value f = flag96_value g"
    unfolding flag96_value_inject by (cases f, cases g) (auto simp: flag96_eq_def)
  moreover have "flag96_HasFlag p1 p2 p3 f \<longleftrightarrow> flag96_bool (flag96_and f (Flag96 p1 p2 p3))"
    by (simp add: flag96_HasFlag_def flag96_bool_def flag96_and_def)
  ultimately show ?thesis by (simp add: flag96_less_value)
qed

end
