(* ===== verification/Utf8.thy ===== *)
theory Utf8
  imports Prelude
begin

text \<open>
  The UTF-8 library in \<^verbatim>\<open>dep/utf8cpp/utf8\<close> (\<^verbatim>\<open>core.h\<close>, \<^verbatim>\<open>checked.h\<close>). A pair
  of iterators is the list of the octets between them, an output iterator the list of what is
  written through it. An exception is \<open>Inl\<close>; so is an error code other than
  \<^verbatim>\<open>UTF8_OK\<close>, which is \<open>Inr\<close> with the results.
\<close>

unbundle bit_operations_syntax

lemma bind_sum_cong [fundef_cong]:
  "m = m' \<Longrightarrow> (\<And>x. m' = Inr x \<Longrightarrow> f x = f' x) \<Longrightarrow> bind_sum m f = bind_sum m' f'"
  by (cases m') simp_all

section \<open>Constants and classes of code points\<close>

definition LEAD_SURROGATE_MIN :: u16 where "LEAD_SURROGATE_MIN = 0xd800"
definition LEAD_SURROGATE_MAX :: u16 where "LEAD_SURROGATE_MAX = 0xdbff"
definition TRAIL_SURROGATE_MIN :: u16 where "TRAIL_SURROGATE_MIN = 0xdc00"
definition TRAIL_SURROGATE_MAX :: u16 where "TRAIL_SURROGATE_MAX = 0xdfff"
definition LEAD_OFFSET :: u16 where "LEAD_OFFSET = LEAD_SURROGATE_MIN - ucast (drop_bit 10 (0x10000 :: u32))"

definition SURROGATE_OFFSET :: u32 where
  "SURROGATE_OFFSET = 0x10000 - push_bit 10 (ucast LEAD_SURROGATE_MIN) - ucast TRAIL_SURROGATE_MIN"

definition CODE_POINT_MAX :: u32 where "CODE_POINT_MAX = 0x0010ffff"

definition mask8 :: "u8 \<Rightarrow> u8" where "mask8 oc = 0xff AND oc"

definition mask16 :: "'a::len word \<Rightarrow> u16" where "mask16 oc = ucast (0xffff AND oc)"

definition is_trail :: "u8 \<Rightarrow> bool" where "is_trail oc \<longleftrightarrow> drop_bit 6 (mask8 oc) = 0x2"

definition is_lead_surrogate :: "u32 \<Rightarrow> bool" where
  "is_lead_surrogate cp \<longleftrightarrow> cp \<ge> ucast LEAD_SURROGATE_MIN \<and> cp \<le> ucast LEAD_SURROGATE_MAX"

definition is_trail_surrogate :: "u32 \<Rightarrow> bool" where
  "is_trail_surrogate cp \<longleftrightarrow> cp \<ge> ucast TRAIL_SURROGATE_MIN \<and> cp \<le> ucast TRAIL_SURROGATE_MAX"

definition is_surrogate :: "u32 \<Rightarrow> bool" where
  "is_surrogate cp \<longleftrightarrow> cp \<ge> ucast LEAD_SURROGATE_MIN \<and> cp \<le> ucast TRAIL_SURROGATE_MAX"

definition is_code_point_valid :: "u32 \<Rightarrow> bool" where
  "is_code_point_valid cp \<longleftrightarrow> cp \<le> CODE_POINT_MAX \<and> \<not> is_surrogate cp"

definition sequence_length :: "u8 \<Rightarrow> nat" where
  "sequence_length oc =
     (let lead = mask8 oc
      in if lead < 0x80 then 1
         else if drop_bit 5 lead = 0x6 then 2
         else if drop_bit 4 lead = 0xe then 3
         else if drop_bit 3 lead = 0x1e then 4
         else 0)"

definition is_overlong_sequence :: "u32 \<Rightarrow> nat \<Rightarrow> bool" where
  "is_overlong_sequence cp len \<longleftrightarrow>
     (if cp < 0x80 then len \<noteq> 1 else if cp < 0x800 then len \<noteq> 2 else if cp < 0x10000 then len \<noteq> 3 else False)"

section \<open>Decoding a sequence\<close>

datatype utf_error =
  NOT_ENOUGH_ROOM | INVALID_LEAD | INCOMPLETE_SEQUENCE | OVERLONG_SEQUENCE | INVALID_CODE_POINT

text \<open>\<^verbatim>\<open>++it\<close> on the octets from \<^verbatim>\<open>it\<close> on.\<close>

definition increase_safely :: "u8 list \<Rightarrow> utf_error + u8 list" where
  "increase_safely it =
     (case tl it of [] \<Rightarrow> Inl NOT_ENOUGH_ROOM
      | oc # _ \<Rightarrow> if \<not> is_trail oc then Inl INCOMPLETE_SEQUENCE else Inr (tl it))"

text \<open>The results are the code point and the iterator, which is at the sequence's last octet.\<close>

definition get_sequence_1 :: "u8 list \<Rightarrow> utf_error + u32 \<times> u8 list" where
  "get_sequence_1 it = (if it = [] then Inl NOT_ENOUGH_ROOM else Inr (ucast (mask8 (hd it)), it))"

definition get_sequence_2 :: "u8 list \<Rightarrow> utf_error + u32 \<times> u8 list" where
  "get_sequence_2 it =
     (if it = [] then Inl NOT_ENOUGH_ROOM
      else let code_point = ucast (mask8 (hd it))
           in bind_sum (increase_safely it) (\<lambda>it.
                Inr ((push_bit 6 code_point AND 0x7ff) + (ucast (hd it) AND 0x3f), it)))"

definition get_sequence_3 :: "u8 list \<Rightarrow> utf_error + u32 \<times> u8 list" where
  "get_sequence_3 it =
     (if it = [] then Inl NOT_ENOUGH_ROOM
      else let code_point = ucast (mask8 (hd it))
           in bind_sum (increase_safely it) (\<lambda>it.
              let code_point = (push_bit 12 code_point AND 0xffff) + (push_bit 6 (ucast (mask8 (hd it))) AND 0xfff)
              in bind_sum (increase_safely it) (\<lambda>it. Inr (code_point + (ucast (hd it) AND 0x3f), it))))"

definition get_sequence_4 :: "u8 list \<Rightarrow> utf_error + u32 \<times> u8 list" where
  "get_sequence_4 it =
     (if it = [] then Inl NOT_ENOUGH_ROOM
      else let code_point = ucast (mask8 (hd it))
           in bind_sum (increase_safely it) (\<lambda>it.
              let code_point =
                (push_bit 18 code_point AND 0x1fffff) + (push_bit 12 (ucast (mask8 (hd it))) AND 0x3ffff)
              in bind_sum (increase_safely it) (\<lambda>it.
                 let code_point = code_point + (push_bit 6 (ucast (mask8 (hd it))) AND 0xfff)
                 in bind_sum (increase_safely it) (\<lambda>it. Inr (code_point + (ucast (hd it) AND 0x3f), it)))))"

text \<open>
  On success the code point and the octets behind the sequence; on failure the iterator is where
  it was. The callers have tested that there is an octet.
\<close>

definition validate_next :: "u8 list \<Rightarrow> utf_error + u32 \<times> u8 list" where
  "validate_next it =
     (let len = sequence_length (hd it);
          err = (if len = 0 then Inl INVALID_LEAD
                 else if len = 1 then get_sequence_1 it
                 else if len = 2 then get_sequence_2 it
                 else if len = 3 then get_sequence_3 it
                 else get_sequence_4 it)
      in bind_sum err (\<lambda>(cp, it).
           if is_code_point_valid cp then
             if \<not> is_overlong_sequence cp len then Inr (cp, tl it) else Inl OVERLONG_SEQUENCE
           else Inl INVALID_CODE_POINT))"

section \<open>The functions with exceptions\<close>

datatype utf8_exception =
  invalid_code_point u32 | invalid_utf8 u8 | invalid_utf16 u16 | not_enough_room

definition utf8_append :: "u32 \<Rightarrow> utf8_exception + u8 list" where
  "utf8_append cp =
     (if \<not> is_code_point_valid cp then Inl (invalid_code_point cp)
      else if cp < 0x80 then Inr [ucast cp]
      else if cp < 0x800 then
        Inr [ucast (drop_bit 6 cp OR 0xc0), ucast ((cp AND 0x3f) OR 0x80)]
      else if cp < 0x10000 then
        Inr [ucast (drop_bit 12 cp OR 0xe0), ucast ((drop_bit 6 cp AND 0x3f) OR 0x80),
             ucast ((cp AND 0x3f) OR 0x80)]
      else
        Inr [ucast (drop_bit 18 cp OR 0xf0), ucast ((drop_bit 12 cp AND 0x3f) OR 0x80),
             ucast ((drop_bit 6 cp AND 0x3f) OR 0x80), ucast ((cp AND 0x3f) OR 0x80)])"

text \<open>
  The code point in \<^verbatim>\<open>invalid_code_point\<close> is always 0: \<^verbatim>\<open>validate_next\<close> sets its
  argument on success only.
\<close>

definition utf8_next :: "u8 list \<Rightarrow> utf8_exception + u32 \<times> u8 list" where
  "utf8_next it =
     (case validate_next it of
        Inr r \<Rightarrow> Inr r
      | Inl NOT_ENOUGH_ROOM \<Rightarrow> Inl not_enough_room
      | Inl INVALID_LEAD \<Rightarrow> Inl (invalid_utf8 (hd it))
      | Inl INCOMPLETE_SEQUENCE \<Rightarrow> Inl (invalid_utf8 (hd it))
      | Inl OVERLONG_SEQUENCE \<Rightarrow> Inl (invalid_utf8 (hd it))
      | Inl INVALID_CODE_POINT \<Rightarrow> Inl (invalid_code_point 0))"

lemma increase_safely_Inr: "increase_safely it = Inr r \<Longrightarrow> r = tl it \<and> tl it \<noteq> []"
  by (auto simp: increase_safely_def split: list.splits if_splits)

lemma validate_next_shorter: "it \<noteq> [] \<Longrightarrow> validate_next it = Inr (cp, r) \<Longrightarrow> length r < length it"
  by (auto simp: validate_next_def get_sequence_1_def get_sequence_2_def get_sequence_3_def
      get_sequence_4_def Let_def bind_sum_Inr_iff dest!: increase_safely_Inr split: if_splits)

lemma utf8_next_Inr: "utf8_next it = Inr r \<longleftrightarrow> validate_next it = Inr r"
  by (auto simp: utf8_next_def split: sum.splits utf_error.splits)

lemma utf8_next_shorter: "it \<noteq> [] \<Longrightarrow> utf8_next it = Inr (cp, r) \<Longrightarrow> length r < length it"
  by (simp add: utf8_next_Inr validate_next_shorter)

definition peek_next :: "u8 list \<Rightarrow> utf8_exception + u32" where
  "peek_next it = bind_sum (utf8_next it) (\<lambda>(cp, it). Inr cp)"

text \<open>
  \<^verbatim>\<open>prior\<close> walks back from the end of \<open>before\<close>, the octets from \<^verbatim>\<open>start\<close> to
  \<^verbatim>\<open>it\<close>. The results are the code point and the octets before the new position.
\<close>

fun prior_loop :: "u8 list \<Rightarrow> u8 list \<Rightarrow> utf8_exception + u8 list \<times> u8 list" where
  "prior_loop [] sequence = Inr ([], sequence)"
| "prior_loop (oc # rev_before) sequence =
     (if is_trail oc then
        if rev_before = [] then Inl (invalid_utf8 oc) else prior_loop rev_before (oc # sequence)
      else Inr (rev_before, oc # sequence))"

definition prior :: "u8 list \<Rightarrow> utf8_exception + u32 \<times> u8 list" where
  "prior before =
     (if before = [] then Inl not_enough_room
      else bind_sum (prior_loop (rev before) []) (\<lambda>(rev_before, sequence).
             bind_sum (peek_next sequence) (\<lambda>cp. Inr (cp, rev rev_before))))"

function utf8_distance :: "u8 list \<Rightarrow> utf8_exception + nat" where
  "utf8_distance it =
     (if it = [] then Inr 0
      else bind_sum (utf8_next it) (\<lambda>(cp, it). bind_sum (utf8_distance it) (\<lambda>dist. Inr (dist + 1))))"
  by pat_completeness auto
termination by (relation "measure length") (auto simp: utf8_next_shorter)

function utf8to32 :: "u8 list \<Rightarrow> utf8_exception + u32 list" where
  "utf8to32 it =
     (if it = [] then Inr []
      else bind_sum (utf8_next it) (\<lambda>(cp, it). bind_sum (utf8to32 it) (\<lambda>result. Inr (cp # result))))"
  by pat_completeness auto
termination by (relation "measure length") (auto simp: utf8_next_shorter)

fun utf32to8 :: "u32 list \<Rightarrow> utf8_exception + u8 list" where
  "utf32to8 [] = Inr []"
| "utf32to8 (cp # it) =
     bind_sum (utf8_append cp) (\<lambda>ocs. bind_sum (utf32to8 it) (\<lambda>result. Inr (ocs @ result)))"

text \<open>One code point of a UTF-16 text, and what \<^verbatim>\<open>utf8to16\<close> writes for one.\<close>

definition utf16_next :: "'a::len word list \<Rightarrow> utf8_exception + u32 \<times> 'a word list" where
  "utf16_next it =
     (let cp = ucast (mask16 (hd it)); it = tl it
      in if is_lead_surrogate cp then
           if it \<noteq> [] then
             let trail_surrogate = ucast (mask16 (hd it)); it = tl it
             in if is_trail_surrogate trail_surrogate
                then Inr (push_bit 10 cp + trail_surrogate + SURROGATE_OFFSET, it)
                else Inl (invalid_utf16 (ucast trail_surrogate))
           else Inl (invalid_utf16 (ucast cp))
         else if is_trail_surrogate cp then Inl (invalid_utf16 (ucast cp))
         else Inr (cp, it))"

definition utf16_put :: "u32 \<Rightarrow> u16 list" where
  "utf16_put cp =
     (if cp > 0xffff
      then [ucast (drop_bit 10 cp + ucast LEAD_OFFSET), ucast ((cp AND 0x3ff) + ucast TRAIL_SURROGATE_MIN)]
      else [ucast cp])"

lemma utf16_next_shorter: "it \<noteq> [] \<Longrightarrow> utf16_next it = Inr (cp, r) \<Longrightarrow> length r < length it"
  by (auto simp: utf16_next_def Let_def split: if_splits)

function utf16to8 :: "'a::len word list \<Rightarrow> utf8_exception + u8 list" where
  "utf16to8 it =
     (if it = [] then Inr []
      else bind_sum (utf16_next it) (\<lambda>(cp, it).
             bind_sum (utf8_append cp) (\<lambda>ocs. bind_sum (utf16to8 it) (\<lambda>result. Inr (ocs @ result)))))"
  by pat_completeness auto
termination by (relation "measure length") (auto simp: utf16_next_shorter)

function utf8to16 :: "u8 list \<Rightarrow> utf8_exception + u16 list" where
  "utf8to16 it =
     (if it = [] then Inr []
      else bind_sum (utf8_next it) (\<lambda>(cp, it). bind_sum (utf8to16 it) (\<lambda>result. Inr (utf16_put cp @ result))))"
  by pat_completeness auto
termination by (relation "measure length") (auto simp: utf8_next_shorter)

text \<open>What \<^verbatim>\<open>find_invalid\<close> returns, as the octets from there to the end.\<close>

function find_invalid :: "u8 list \<Rightarrow> u8 list" where
  "find_invalid it =
     (if it = [] then []
      else case validate_next it of Inl err \<Rightarrow> it | Inr (cp, rest) \<Rightarrow> find_invalid rest)"
  by pat_completeness auto
termination by (relation "measure length") (auto simp: validate_next_shorter)

definition is_valid :: "u8 list \<Rightarrow> bool" where
  "is_valid it \<longleftrightarrow> find_invalid it = []"

function replace_invalid :: "u32 \<Rightarrow> u8 list \<Rightarrow> utf8_exception + u8 list" where
  "replace_invalid replacement start =
     (if start = [] then Inr []
      else case validate_next start of
          Inr (cp, rest) \<Rightarrow>
            bind_sum (replace_invalid replacement rest)
              (\<lambda>out. Inr (take (length start - length rest) start @ out))
        | Inl err \<Rightarrow>
            if err = NOT_ENOUGH_ROOM then Inl not_enough_room
            else if err = INVALID_LEAD then
              bind_sum (utf8_append replacement) (\<lambda>mark.
                bind_sum (replace_invalid replacement (tl start)) (\<lambda>out. Inr (mark @ out)))
            else
              bind_sum (utf8_append replacement) (\<lambda>mark.
                bind_sum (replace_invalid replacement (dropWhile is_trail (tl start))) (\<lambda>out. Inr (mark @ out))))"
  by pat_completeness auto
termination
  by (relation "measure (\<lambda>(r, start). length start)")
    (auto simp: validate_next_shorter le_less_trans [OF length_dropWhile_le])

definition replace_invalid_default :: "u8 list \<Rightarrow> utf8_exception + u8 list" where
  "replace_invalid_default start = replace_invalid (ucast (mask16 (0xfffd :: u32))) start"

definition bom :: "u8 list" where "bom = [0xef, 0xbb, 0xbf]"

definition starts_with_bom :: "u8 list \<Rightarrow> bool" where
  "starts_with_bom it \<longleftrightarrow>
     it \<noteq> [] \<and> mask8 (hd it) = bom ! 0 \<and>
     tl it \<noteq> [] \<and> mask8 (hd (tl it)) = bom ! 1 \<and>
     tl (tl it) \<noteq> [] \<and> mask8 (hd (tl (tl it))) = bom ! 2"

text \<open>The deprecated variant knows no end: reading past it is \<open>None\<close>. It agrees wherever it is defined.\<close>

definition is_bom :: "u8 list \<Rightarrow> bool option" where
  "is_bom it =
     (case it of
        [] \<Rightarrow> None
      | a # it \<Rightarrow>
          if mask8 a \<noteq> bom ! 0 then Some False
          else case it of
              [] \<Rightarrow> None
            | b # it \<Rightarrow>
                if mask8 b \<noteq> bom ! 1 then Some False
                else case it of [] \<Rightarrow> None | c # it \<Rightarrow> Some (mask8 c = bom ! 2))"

declare utf8_distance.simps [simp del] utf8to32.simps [simp del] utf16to8.simps [simp del]
  utf8to16.simps [simp del] find_invalid.simps [simp del] replace_invalid.simps [simp del]

section \<open>The octets of a code point by arithmetic\<close>

text \<open>The encoding form of the Unicode standard, on numbers.\<close>

definition octets :: "nat \<Rightarrow> nat list" where
  "octets n =
     (if n < 0x80 then [n]
      else if n < 0x800 then [192 + n div 64, 128 + n mod 64]
      else if n < 0x10000 then [224 + n div 4096, 128 + n div 64 mod 64, 128 + n mod 64]
      else [240 + n div 262144, 128 + n div 4096 mod 64, 128 + n div 64 mod 64, 128 + n mod 64])"

definition scalar_value :: "nat \<Rightarrow> bool" where
  "scalar_value n \<longleftrightarrow> n \<le> 0x10ffff \<and> \<not> (0xd800 \<le> n \<and> n \<le> 0xdfff)"

lemma valid_iff_scalar: "is_code_point_valid cp \<longleftrightarrow> scalar_value (unat cp)"
  by (simp add: is_code_point_valid_def is_surrogate_def scalar_value_def CODE_POINT_MAX_def
      LEAD_SURROGATE_MIN_def TRAIL_SURROGATE_MAX_def word_le_nat_alt)

lemma mask8_id [simp]: "mask8 oc = oc"
proof -
  have "(0xff :: u8) = - 1" by simp
  then show ?thesis by (simp only: mask8_def and.left_neutral)
qed

lemma is_bom_starts: "is_bom it = Some r \<Longrightarrow> r = starts_with_bom it"
  by (auto simp: is_bom_def starts_with_bom_def split: list.splits if_splits)

lemma is_bom_reads_past: "is_bom it = None \<longleftrightarrow> it \<in> {[], [0xef], [0xef, 0xbb]}"
  by (auto simp: is_bom_def bom_def split: list.splits if_splits)

lemma nat_or_add: "n < 2 ^ k \<Longrightarrow> n OR m * 2 ^ k = n + m * (2 ^ k :: nat)"
proof -
  assume n: "n < 2 ^ k"
  have "n AND m * 2 ^ k = 0"
  proof (rule bit_eqI)
    fix i
    have "bit n i \<Longrightarrow> i < k"
    proof (rule ccontr)
      assume "bit n i" "\<not> i < k"
      then have "2 ^ k \<le> (2 :: nat) ^ i" by simp
      then have "n < 2 ^ i" using n by (rule less_le_trans [rotated])
      then show False using \<open>bit n i\<close> by (simp add: bit_iff_odd)
    qed
    then show "bit (n AND m * 2 ^ k) i = bit 0 i"
      by (auto simp: bit_and_iff push_bit_eq_mult [symmetric] bit_push_bit_iff)
  qed
  then show ?thesis by (rule disjunctive_add_eq_or [symmetric])
qed

lemma unat_and_low:
  "unat (w AND 0x3f :: u32) = unat w mod 64" "unat (w AND 0x7ff :: u32) = unat w mod 2048"
  "unat (w AND 0x3ff :: u32) = unat w mod 1024"
  "unat (w AND 0xfff :: u32) = unat w mod 4096" "unat (w AND 0xffff :: u32) = unat w mod 65536"
  "unat (w AND 0x3ffff :: u32) = unat w mod 262144" "unat (w AND 0x1fffff :: u32) = unat w mod 2097152"
proof -
  have low: "unat (w AND mask k) = unat w mod 2 ^ k" for k
    by (simp only: take_bit_eq_mask [symmetric] unsigned_take_bit_eq) (rule take_bit_eq_mod)
  show "unat (w AND 0x3f :: u32) = unat w mod 64" using low [of 6] by (simp add: mask_eq_exp_minus_1)
  show "unat (w AND 0x7ff :: u32) = unat w mod 2048" using low [of 11] by (simp add: mask_eq_exp_minus_1)
  show "unat (w AND 0x3ff :: u32) = unat w mod 1024" using low [of 10] by (simp add: mask_eq_exp_minus_1)
  show "unat (w AND 0xfff :: u32) = unat w mod 4096" using low [of 12] by (simp add: mask_eq_exp_minus_1)
  show "unat (w AND 0xffff :: u32) = unat w mod 65536" using low [of 16] by (simp add: mask_eq_exp_minus_1)
  show "unat (w AND 0x3ffff :: u32) = unat w mod 262144" using low [of 18] by (simp add: mask_eq_exp_minus_1)
  show "unat (w AND 0x1fffff :: u32) = unat w mod 2097152" using low [of 21] by (simp add: mask_eq_exp_minus_1)
qed

lemma unat_drop: "unat (drop_bit k (w :: 'a::len word)) = unat w div 2 ^ k"
  by (subst unat_drop_bit_eq) (rule drop_bit_eq_div)

lemma unat_oct: "unat (ucast oc :: u32) = unat (oc :: u8)"
  by (simp add: unsigned_ucast_eq take_bit_nat_eq_self less_trans [OF unat_byte_less])

lemma unat_push_oct: "k \<le> 24 \<Longrightarrow> unat (push_bit k (ucast oc) :: u32) = unat (oc :: u8) * 2 ^ k"
proof -
  assume k: "k \<le> 24"
  have "unat oc * 2 ^ k < 2 ^ 8 * 2 ^ k" using unat_byte_less [of oc] by simp
  also have "\<dots> = 2 ^ (k + 8)" by (simp only: power_add mult.commute)
  also have "\<dots> \<le> 2 ^ 32" using k by (intro power_increasing) simp_all
  finally have b: "unat oc * 2 ^ k < 2 ^ 32" .
  have "unat (push_bit k (ucast oc) :: u32) = take_bit 32 (push_bit k (unat (ucast oc :: u32)))"
    by (subst unsigned_push_bit_eq) simp
  then show ?thesis using b by (simp only: unat_oct push_bit_eq_mult take_bit_nat_eq_self)
qed

lemma unat_sum: "unat a + unat b < 2 ^ 32 \<Longrightarrow> unat (a + b :: u32) = unat a + unat b"
  by (simp add: unat_word_ariths)

lemma div_eq_iff: "0 < k \<Longrightarrow> (n :: nat) div k = m \<longleftrightarrow> (\<exists>y < k. n = m * k + y)"
proof
  assume "0 < k" "n div k = m"
  then have "n = m * k + n mod k" "n mod k < k" using div_mult_mod_eq [of n k] by simp_all
  then show "\<exists>y < k. n = m * k + y" by blast
qed auto

lemma is_trail_iff: "is_trail oc \<longleftrightarrow> (\<exists>y < 64. unat oc = 128 + y)"
proof -
  have "is_trail oc \<longleftrightarrow> unat oc div 64 = 2"
    by (simp add: is_trail_def word_unat_eq_iff unat_drop)
  also have "\<dots> \<longleftrightarrow> (\<exists>y < 64. unat oc = 128 + y)" by (subst div_eq_iff) simp_all
  finally show ?thesis .
qed

lemma sequence_length_nat:
  "sequence_length oc =
     (if unat oc < 128 then 1 else if \<exists>x < 32. unat oc = 192 + x then 2
      else if \<exists>x < 16. unat oc = 224 + x then 3 else if \<exists>x < 8. unat oc = 240 + x then 4 else 0)"
proof -
  have "drop_bit 5 oc = 6 \<longleftrightarrow> unat oc div 2 ^ 5 = 6" "drop_bit 4 oc = 0xe \<longleftrightarrow> unat oc div 2 ^ 4 = 14"
    "drop_bit 3 oc = 0x1e \<longleftrightarrow> unat oc div 2 ^ 3 = 30"
    by (simp_all only: word_unat_eq_iff unat_drop) simp_all
  then have d: "drop_bit 5 oc = 6 \<longleftrightarrow> (\<exists>x < 32. unat oc = 192 + x)"
    "drop_bit 4 oc = 0xe \<longleftrightarrow> (\<exists>x < 16. unat oc = 224 + x)"
    "drop_bit 3 oc = 0x1e \<longleftrightarrow> (\<exists>x < 8. unat oc = 240 + x)"
    by (simp_all add: div_eq_iff)
  have l: "oc < 0x80 \<longleftrightarrow> unat oc < 128" by (simp add: word_less_nat_alt)
  show ?thesis unfolding sequence_length_def Let_def mask8_id l d ..
qed

lemma sequence_length_cases:
  "sequence_length oc = 1 \<longleftrightarrow> unat oc < 128"
  "sequence_length oc = 2 \<longleftrightarrow> (\<exists>x < 32. unat oc = 192 + x)"
  "sequence_length oc = 3 \<longleftrightarrow> (\<exists>x < 16. unat oc = 224 + x)"
  "sequence_length oc = 4 \<longleftrightarrow> (\<exists>x < 8. unat oc = 240 + x)"
  "sequence_length oc \<in> {0, 1, 2, 3, 4}"
  unfolding sequence_length_nat by auto

lemma joined_octets:
  "x < 32 \<Longrightarrow> (192 + x) * 64 mod 2048 = x * (64 :: nat)"
  "x < 16 \<Longrightarrow> (224 + x) * 4096 mod 65536 = x * (4096 :: nat)"
  "x < 8 \<Longrightarrow> (240 + x) * 262144 mod 2097152 = x * (262144 :: nat)"
  "y < 64 \<Longrightarrow> (128 + y) * 4096 mod 262144 = y * (4096 :: nat)"
  "y < 64 \<Longrightarrow> (128 + y) * 64 mod 4096 = y * (64 :: nat)"
  "y < 64 \<Longrightarrow> (128 + y) mod 64 = (y :: nat)"
proof -
  have m: "a = b + c * k \<Longrightarrow> b < k \<Longrightarrow> a mod k = b" for a b c k :: nat by simp
  show "x < 32 \<Longrightarrow> (192 + x) * 64 mod 2048 = x * 64" by (rule m [where c = 6]) simp_all
  show "x < 16 \<Longrightarrow> (224 + x) * 4096 mod 65536 = x * 4096" by (rule m [where c = 14]) simp_all
  show "x < 8 \<Longrightarrow> (240 + x) * 262144 mod 2097152 = x * 262144" by (rule m [where c = 30]) simp_all
  show "y < 64 \<Longrightarrow> (128 + y) * 4096 mod 262144 = y * 4096" by (rule m [where c = 2]) simp_all
  show "y < 64 \<Longrightarrow> (128 + y) * 64 mod 4096 = y * 64" by (rule m [where c = 2]) simp_all
  show "y < 64 \<Longrightarrow> (128 + y) mod 64 = y" by (rule m [where c = 2]) simp_all
qed

lemma increase_trail: "is_trail b \<Longrightarrow> increase_safely (a # b # r) = Inr (b # r)"
  by (simp add: increase_safely_def)

lemma get_2:
  assumes "unat a = 192 + x" "unat b = 128 + y" "x < 32" "y < 64"
  shows "\<exists>cp. get_sequence_2 (a # b # r) = Inr (cp, b # r) \<and> unat cp = x * 64 + y"
proof -
  have t: "is_trail b" using assms by (auto simp: is_trail_iff)
  have "unat (push_bit 6 (ucast a :: u32) AND 0x7ff) = x * 64" "unat (ucast b AND 0x3f :: u32) = y"
    using assms joined_octets(1) [of x] joined_octets(6) [of y]
    by (simp_all add: unat_and_low unat_push_oct unat_oct)
  then have "unat ((push_bit 6 (ucast a :: u32) AND 0x7ff) + (ucast b AND 0x3f)) = x * 64 + y"
    using assms by (subst unat_sum) simp_all
  then show ?thesis by (simp add: get_sequence_2_def increase_trail [OF t])
qed

lemma get_3:
  assumes "unat a = 224 + x" "unat b = 128 + y" "unat c = 128 + z" "x < 16" "y < 64" "z < 64"
  shows "\<exists>cp. get_sequence_3 (a # b # c # r) = Inr (cp, c # r) \<and> unat cp = x * 4096 + y * 64 + z"
proof -
  have t: "is_trail b" "is_trail c" using assms by (auto simp: is_trail_iff)
  let ?h = "push_bit 12 (ucast a :: u32) AND 0xffff" and ?m = "push_bit 6 (ucast b :: u32) AND 0xfff"
  have "unat ?h = x * 4096" "unat ?m = y * 64" "unat (ucast c AND 0x3f :: u32) = z"
    using assms joined_octets(2) [of x] joined_octets(5) [of y] joined_octets(6) [of z]
    by (simp_all add: unat_and_low unat_push_oct unat_oct)
  then have "unat (?h + ?m + (ucast c AND 0x3f)) = x * 4096 + y * 64 + z"
    using assms by (simp add: unat_sum)
  then show ?thesis
    by (simp add: get_sequence_3_def increase_trail [OF t(1)] increase_trail [OF t(2)])
qed

lemma get_4:
  assumes "unat a = 240 + x" "unat b = 128 + y" "unat c = 128 + z" "unat d = 128 + w"
    "x < 8" "y < 64" "z < 64" "w < 64"
  shows "\<exists>cp. get_sequence_4 (a # b # c # d # r) = Inr (cp, d # r) \<and>
    unat cp = x * 262144 + y * 4096 + z * 64 + w"
proof -
  have t: "is_trail b" "is_trail c" "is_trail d" using assms by (auto simp: is_trail_iff)
  let ?h = "push_bit 18 (ucast a :: u32) AND 0x1fffff" and ?m = "push_bit 12 (ucast b :: u32) AND 0x3ffff"
    and ?l = "push_bit 6 (ucast c :: u32) AND 0xfff"
  have "unat ?h = x * 262144" "unat ?m = y * 4096" "unat ?l = z * 64" "unat (ucast d AND 0x3f :: u32) = w"
    using assms joined_octets(3) [of x] joined_octets(4) [of y] joined_octets(5) [of z] joined_octets(6) [of w]
    by (simp_all add: unat_and_low unat_push_oct unat_oct)
  then have "unat (?h + ?m + ?l + (ucast d AND 0x3f)) = x * 262144 + y * 4096 + z * 64 + w"
    using assms by (simp add: unat_sum)
  then show ?thesis
    by (simp add: get_sequence_4_def increase_trail [OF t(1)] increase_trail [OF t(2)] increase_trail [OF t(3)])
qed

lemma get_sequence_inv:
  "get_sequence_2 it = Inr (cp, it') \<Longrightarrow> \<exists>a b r. it = a # b # r \<and> it' = b # r \<and> is_trail b"
  "get_sequence_3 it = Inr (cp, it') \<Longrightarrow>
    \<exists>a b c r. it = a # b # c # r \<and> it' = c # r \<and> is_trail b \<and> is_trail c"
  "get_sequence_4 it = Inr (cp, it') \<Longrightarrow>
    \<exists>a b c d r. it = a # b # c # d # r \<and> it' = d # r \<and> is_trail b \<and> is_trail c \<and> is_trail d"
proof -
  have inc: "increase_safely it = Inr r \<longleftrightarrow> (\<exists>b bs. tl it = b # bs \<and> r = b # bs \<and> is_trail b)" for it r
    by (auto simp: increase_safely_def split: list.splits)
  have tl: "tl it = b # bs \<longleftrightarrow> (\<exists>a. it = a # b # bs)" for it and b :: u8 and bs by (cases it) auto
  show "get_sequence_2 it = Inr (cp, it') \<Longrightarrow> \<exists>a b r. it = a # b # r \<and> it' = b # r \<and> is_trail b"
    by (auto simp: get_sequence_2_def bind_sum_Inr_iff inc tl Let_def split: if_splits)
  show "get_sequence_3 it = Inr (cp, it') \<Longrightarrow>
    \<exists>a b c r. it = a # b # c # r \<and> it' = c # r \<and> is_trail b \<and> is_trail c"
    by (auto simp: get_sequence_3_def bind_sum_Inr_iff inc tl Let_def split: if_splits)
  show "get_sequence_4 it = Inr (cp, it') \<Longrightarrow>
    \<exists>a b c d r. it = a # b # c # d # r \<and> it' = d # r \<and> is_trail b \<and> is_trail c \<and> is_trail d"
    by (auto simp: get_sequence_4_def bind_sum_Inr_iff inc tl Let_def split: if_splits)
qed

lemma overlong_nat:
  "is_overlong_sequence cp len \<longleftrightarrow>
     (if unat cp < 128 then len \<noteq> 1 else if unat cp < 2048 then len \<noteq> 2
      else if unat cp < 65536 then len \<noteq> 3 else False)"
  by (simp add: is_overlong_sequence_def word_less_nat_alt)

lemma validate_next_len:
  assumes "sequence_length a = len"
    and "get = (if len = 1 then get_sequence_1 else if len = 2 then get_sequence_2
      else if len = 3 then get_sequence_3 else get_sequence_4)" "len \<noteq> 0"
  shows "validate_next (a # r) = Inr (cp, rest) \<longleftrightarrow>
    (\<exists>it'. get (a # r) = Inr (cp, it') \<and> rest = tl it' \<and> is_code_point_valid cp \<and> \<not> is_overlong_sequence cp len)"
  using assms by (auto simp: validate_next_def bind_sum_Inr_iff split: if_splits)

lemma octets_2: "y < 64 \<Longrightarrow> 128 \<le> x * 64 + y \<Longrightarrow> x < 32 \<Longrightarrow> octets (x * 64 + y) = [192 + x, 128 + y]"
  by (simp add: octets_def)

lemma low_digit: "w < 64 \<Longrightarrow> n = m * 64 + w \<Longrightarrow> n mod 64 = (w :: nat) \<and> n div 64 = m"
  by simp

lemma octets_3:
  assumes "y < 64" "z < 64" "2048 \<le> x * 4096 + y * 64 + z" "x < 16"
  shows "octets (x * 4096 + y * 64 + z) = [224 + x, 128 + y, 128 + z]"
proof -
  let ?n = "x * 4096 + y * 64 + z"
  have "?n mod 64 = z \<and> ?n div 64 = x * 64 + y" by (rule low_digit) (use assms in simp_all)
  moreover have "?n div 4096 = x" using assms by simp
  ultimately show ?thesis using assms by (simp add: octets_def)
qed

lemma octets_4:
  assumes "y < 64" "z < 64" "w < 64" "65536 \<le> x * 262144 + y * 4096 + z * 64 + w"
  shows "octets (x * 262144 + y * 4096 + z * 64 + w) = [240 + x, 128 + y, 128 + z, 128 + w]"
proof -
  let ?n = "x * 262144 + y * 4096 + z * 64 + w"
  have "?n mod 64 = w \<and> ?n div 64 = x * 4096 + y * 64 + z" by (rule low_digit) (use assms in simp_all)
  moreover have "(x * 4096 + y * 64 + z) mod 64 = z \<and> (x * 4096 + y * 64 + z) div 64 = x * 64 + y"
    by (rule low_digit) (use assms in simp_all)
  moreover have "?n div 4096 = x * 64 + y" "?n div 262144 = x" using assms by simp_all
  ultimately show ?thesis using assms by (simp add: octets_def)
qed

lemma validate_next_sound:
  assumes "validate_next (a # r) = Inr (cp, rest)"
  shows "scalar_value (unat cp) \<and> (\<exists>ocs. a # r = ocs @ rest \<and> map unat ocs = octets (unat cp))"
proof -
  note len = validate_next_len [OF _ refl, of a _ r cp rest]
  consider "sequence_length a = 0" | "sequence_length a = 1" | "sequence_length a = 2" |
    "sequence_length a = 3" | "sequence_length a = 4"
    using sequence_length_cases(5) [of a] by auto
  then show ?thesis
  proof cases
    case 1
    then show ?thesis using assms by (simp add: validate_next_def)
  next
    case 2
    then have a: "unat a < 128" by (simp only: sequence_length_cases)
    have "cp = ucast a" "rest = r" "is_code_point_valid cp"
      using assms len [OF 2] by (auto simp: get_sequence_1_def)
    then show ?thesis using a by (auto simp: octets_def unat_oct valid_iff_scalar intro: exI [of _ "[a]"])
  next
    case 3
    then obtain x where x: "unat a = 192 + x" "x < 32" by (auto simp: sequence_length_cases)
    obtain it' where g: "get_sequence_2 (a # r) = Inr (cp, it')" "rest = tl it'" "is_code_point_valid cp"
      "\<not> is_overlong_sequence cp 2" using assms len [OF 3] by auto
    from get_sequence_inv(1) [OF g(1)] obtain b s where b: "r = b # s" "it' = b # s" "is_trail b" by auto
    then obtain y where y: "unat b = 128 + y" "y < 64" by (auto simp: is_trail_iff)
    have "unat cp = x * 64 + y" using get_2 [OF x(1) y(1) x(2) y(2), of s] g(1) b(1) by simp
    then have "octets (unat cp) = map unat [a, b]"
      using g(4) x y by (simp add: octets_2 overlong_nat split: if_splits)
    then show ?thesis using g b valid_iff_scalar by (auto intro!: exI [of _ "[a, b]"])
  next
    case 4
    then obtain x where x: "unat a = 224 + x" "x < 16" by (auto simp: sequence_length_cases)
    obtain it' where g: "get_sequence_3 (a # r) = Inr (cp, it')" "rest = tl it'" "is_code_point_valid cp"
      "\<not> is_overlong_sequence cp 3" using assms len [OF 4] by auto
    from get_sequence_inv(2) [OF g(1)] obtain b c s
      where b: "r = b # c # s" "it' = c # s" "is_trail b" "is_trail c" by auto
    then obtain y z where y: "unat b = 128 + y" "y < 64" "unat c = 128 + z" "z < 64"
      by (auto simp: is_trail_iff)
    have "unat cp = x * 4096 + y * 64 + z"
      using get_3 [OF x(1) y(1) y(3) x(2) y(2) y(4), of s] g(1) b(1) by simp
    then have "octets (unat cp) = map unat [a, b, c]"
      using g(4) x y by (simp add: octets_3 overlong_nat split: if_splits)
    then show ?thesis using g b valid_iff_scalar by (auto intro!: exI [of _ "[a, b, c]"])
  next
    case 5
    then obtain x where x: "unat a = 240 + x" "x < 8" by (auto simp: sequence_length_cases)
    obtain it' where g: "get_sequence_4 (a # r) = Inr (cp, it')" "rest = tl it'" "is_code_point_valid cp"
      "\<not> is_overlong_sequence cp 4" using assms len [OF 5] by auto
    from get_sequence_inv(3) [OF g(1)] obtain b c d s
      where b: "r = b # c # d # s" "it' = d # s" "is_trail b" "is_trail c" "is_trail d" by auto
    then obtain y z w where y: "unat b = 128 + y" "y < 64" "unat c = 128 + z" "z < 64" "unat d = 128 + w" "w < 64"
      by (auto simp: is_trail_iff)
    have "unat cp = x * 262144 + y * 4096 + z * 64 + w"
      using get_4 [OF x(1) y(1) y(3) y(5) x(2) y(2) y(4) y(6), of s] g(1) b(1) by simp
    then have "octets (unat cp) = map unat [a, b, c, d]"
      using g(4) x y by (simp add: octets_4 overlong_nat split: if_splits)
    then show ?thesis using g b valid_iff_scalar by (auto intro!: exI [of _ "[a, b, c, d]"])
  qed
qed

lemma scalar_bound: "scalar_value n \<Longrightarrow> n < 0x110000"
  by (simp add: scalar_value_def)

lemma base_64: "n div 4096 * 4096 + n div 64 mod 64 * 64 + n mod 64 = (n :: nat)"
  "n div 262144 * 262144 + n div 4096 mod 64 * 4096 + n div 64 mod 64 * 64 + n mod 64 = n"
proof -
  have d: "n div 4096 = n div 64 div 64" "n div 262144 = n div 4096 div 64"
    by (simp_all add: div_mult2_eq [symmetric])
  have m: "m div 64 * 64 + m mod 64 = m" for m :: nat by simp
  show three: "n div 4096 * 4096 + n div 64 mod 64 * 64 + n mod 64 = n"
    using m [of n] m [of "n div 64"] unfolding d by linarith
  show "n div 262144 * 262144 + n div 4096 mod 64 * 4096 + n div 64 mod 64 * 64 + n mod 64 = n"
    using three m [of "n div 4096"] unfolding d(2) by linarith
qed

lemma validate_next_complete:
  assumes s: "scalar_value (unat cp)" and ocs: "map unat ocs = octets (unat cp)"
  shows "validate_next (ocs @ rest) = Inr (cp, rest)"
proof -
  let ?n = "unat cp"
  have v: "is_code_point_valid cp" using s by (simp add: valid_iff_scalar)
  have same: "unat cp' = ?n \<Longrightarrow> cp' = cp" for cp' by (simp add: word_unat_eq_iff)
  consider "?n < 128" | "128 \<le> ?n" "?n < 2048" | "2048 \<le> ?n" "?n < 65536" | "65536 \<le> ?n" by linarith
  then show ?thesis
  proof cases
    case 1
    then obtain a where a: "ocs = [a]" "unat a = ?n" using ocs by (auto simp: octets_def)
    then have "sequence_length a = 1" "ucast a = cp"
      using 1 by (simp_all only: sequence_length_cases) (simp add: same unat_oct)
    then show ?thesis using a 1 v
      by (auto simp: validate_next_len [OF _ refl, of a 1] get_sequence_1_def overlong_nat)
  next
    case 2
    then obtain a b where a: "ocs = [a, b]" "unat a = 192 + ?n div 64" "unat b = 128 + ?n mod 64"
      using ocs by (auto simp: octets_def)
    have "sequence_length a = 2" using a 2 by (auto simp: sequence_length_cases)
    moreover have x: "?n div 64 < 32" using 2 by simp
    moreover obtain cp' where g: "get_sequence_2 (a # b # rest) = Inr (cp', b # rest)"
      "unat cp' = ?n div 64 * 64 + ?n mod 64" using get_2 [OF a(2,3) x, of rest] by auto
    have "cp' = cp" using g(2) same by simp
    ultimately show ?thesis using a g 2 v
      by (auto simp: validate_next_len [OF _ refl, of a 2] overlong_nat)
  next
    case 3
    then obtain a b c where a: "ocs = [a, b, c]" "unat a = 224 + ?n div 4096"
      "unat b = 128 + ?n div 64 mod 64" "unat c = 128 + ?n mod 64"
      using ocs by (auto simp: octets_def)
    have "sequence_length a = 3" using a 3 by (auto simp: sequence_length_cases)
    moreover have x: "?n div 4096 < 16" using 3 by simp
    moreover obtain cp' where g: "get_sequence_3 (a # b # c # rest) = Inr (cp', c # rest)"
      "unat cp' = ?n div 4096 * 4096 + ?n div 64 mod 64 * 64 + ?n mod 64" using get_3 [OF a(2,3,4) x, of rest] by auto
    have "cp' = cp" using g(2) same base_64(1) [of ?n] by simp
    ultimately show ?thesis using a g 3 v
      by (auto simp: validate_next_len [OF _ refl, of a 3] overlong_nat)
  next
    case 4
    then obtain a b c d where a: "ocs = [a, b, c, d]" "unat a = 240 + ?n div 262144"
      "unat b = 128 + ?n div 4096 mod 64" "unat c = 128 + ?n div 64 mod 64" "unat d = 128 + ?n mod 64"
      using ocs by (auto simp: octets_def)
    have x: "?n div 262144 < 8" using scalar_bound [OF s] by simp
    then have "sequence_length a = 4" using a by (auto simp: sequence_length_cases)
    moreover obtain cp' where g: "get_sequence_4 (a # b # c # d # rest) = Inr (cp', d # rest)"
      "unat cp' = ?n div 262144 * 262144 + ?n div 4096 mod 64 * 4096 + ?n div 64 mod 64 * 64 + ?n mod 64"
      using get_4 [OF a(2-5) x, of rest] by auto
    have "cp' = cp" using g(2) same base_64(2) [of ?n] by simp
    ultimately show ?thesis using a g 4 v
      by (auto simp: validate_next_len [OF _ refl, of a 4] overlong_nat)
  qed
qed

lemma unat_low_octet: "unat w < 256 \<Longrightarrow> unat (ucast (w :: u32) :: u8) = unat w"
  by (simp add: unsigned_ucast_eq take_bit_nat_eq_self)

lemma unat_or: "unat (v OR w :: 'a::len word) = unat v OR unat w"
  by (rule unsigned_or_eq)

lemma utf8_append_octets:
  "utf8_append cp = Inr ocs \<longleftrightarrow> scalar_value (unat cp) \<and> map unat ocs = octets (unat cp)"
proof (cases "scalar_value (unat cp)")
  case True
  let ?n = "unat cp"
  have n: "?n < 0x110000" using True by (rule scalar_bound)
  have t: "unat (ucast ((w AND 0x3f) OR 0x80) :: u8) = 128 + unat w mod 64" for w :: u32
    using nat_or_add [of "unat w mod 64" 6 2] by (subst unat_low_octet) (simp_all add: unat_or unat_and_low)
  have h: "unat (ucast (drop_bit 6 cp OR 0xc0) :: u8) = 192 + ?n div 64" if "?n < 2048"
    using that nat_or_add [of "?n div 64" 6 3] by (subst unat_low_octet) (simp_all add: unat_or unat_drop)
  have h3: "unat (ucast (drop_bit 12 cp OR 0xe0) :: u8) = 224 + ?n div 4096" if "?n < 65536"
    using that nat_or_add [of "?n div 4096" 4 14] by (subst unat_low_octet) (simp_all add: unat_or unat_drop)
  have h4: "unat (ucast (drop_bit 18 cp OR 0xf0) :: u8) = 240 + ?n div 262144"
    using n nat_or_add [of "?n div 262144" 3 30] by (subst unat_low_octet) (simp_all add: unat_or unat_drop)
  obtain bs where bs: "utf8_append cp = Inr bs" using True
    by (cases "utf8_append cp") (auto simp: utf8_append_def valid_iff_scalar split: if_splits)
  then have "map unat bs = octets ?n"
    using True n by (auto simp: utf8_append_def valid_iff_scalar octets_def t h h3 h4 unat_low_octet
        word_less_nat_alt unat_drop split: if_splits)
  then show ?thesis using True bs by (metis Inr_inject inj_map_eq_map inj_unsigned)
qed (simp add: utf8_append_def valid_iff_scalar)

section \<open>Prefix codes\<close>

text \<open>
  What an encoder and a decoder of single values promise each other, and the loops on sequences
  built on them: the loops are inverse to each other, and the encoding decides the sequence.
\<close>

locale prefix_code =
  fixes enc :: "'c \<Rightarrow> 'e + 'b list" and dec :: "'b list \<Rightarrow> 'e + 'c \<times> 'b list"
    and enc_all :: "'c list \<Rightarrow> 'e + 'b list" and dec_all :: "'b list \<Rightarrow> 'e + 'c list"
  assumes dec_enc: "enc c = Inr w \<Longrightarrow> dec (w @ rest) = Inr (c, rest)"
    and enc_dec: "it \<noteq> [] \<Longrightarrow> dec it = Inr (c, rest) \<Longrightarrow> \<exists>w. enc c = Inr w \<and> it = w @ rest"
    and enc_nonempty: "enc c = Inr w \<Longrightarrow> w \<noteq> []"
    and enc_all_Nil: "enc_all [] = Inr []"
    and enc_all_Cons: "enc_all (c # cs) = bind_sum (enc c) (\<lambda>w. bind_sum (enc_all cs) (\<lambda>ws. Inr (w @ ws)))"
    and dec_all_Nil: "dec_all [] = Inr []"
    and dec_all_step: "it \<noteq> [] \<Longrightarrow>
      dec_all it = bind_sum (dec it) (\<lambda>(c, rest). bind_sum (dec_all rest) (\<lambda>cs. Inr (c # cs)))"
begin

lemma dec_all_enc_all: "enc_all cs = Inr it \<Longrightarrow> dec_all it = Inr cs"
proof (induction cs arbitrary: it)
  case Nil
  then show ?case by (simp add: enc_all_Nil dec_all_Nil)
next
  case (Cons c cs)
  then obtain w ws where w: "enc c = Inr w" "enc_all cs = Inr ws" "it = w @ ws"
    by (auto simp: enc_all_Cons bind_sum_Inr_iff)
  then show ?case
    using enc_nonempty [OF w(1)] by (simp add: dec_all_step dec_enc [OF w(1)] Cons.IH [OF w(2)])
qed

lemma enc_all_dec_all: "dec_all it = Inr cs \<Longrightarrow> enc_all cs = Inr it"
proof (induction it arbitrary: cs rule: length_induct)
  case (1 it)
  show ?case
  proof (cases "it = []")
    case True
    then show ?thesis using 1 by (simp add: enc_all_Nil dec_all_Nil)
  next
    case False
    then obtain c rest ds where d: "dec it = Inr (c, rest)" "dec_all rest = Inr ds" "cs = c # ds"
      using 1 by (auto simp: dec_all_step bind_sum_Inr_iff)
    from enc_dec [OF False d(1)] obtain w where w: "enc c = Inr w" "it = w @ rest" by auto
    then have "enc_all ds = Inr rest" using 1 d enc_nonempty [OF w(1)] by simp
    then show ?thesis using w d by (simp add: enc_all_Cons)
  qed
qed

lemma inverse: "dec_all it = Inr cs \<longleftrightarrow> enc_all cs = Inr it"
  using dec_all_enc_all enc_all_dec_all by blast

lemma enc_all_map: "enc_all cs = Inr it \<longleftrightarrow> (\<exists>ws. map enc cs = map Inr ws \<and> it = concat ws)"
proof (induction cs arbitrary: it)
  case (Cons c cs)
  show ?case
    by (auto simp: enc_all_Cons bind_sum_Inr_iff Cons.IH Cons_eq_map_conv map_eq_Cons_conv)
qed (auto simp: enc_all_Nil)

lemma dec_prefix: "enc_all cs = Inr w \<Longrightarrow> dec_all (w @ rest) =
    bind_sum (dec_all rest) (\<lambda>ds. Inr (cs @ ds))"
proof (induction cs arbitrary: w)
  case Nil
  then show ?case by (cases "dec_all rest") (auto simp: enc_all_Nil)
next
  case (Cons c cs)
  then obtain v vs where w: "enc c = Inr v" "enc_all cs = Inr vs" "w = v @ vs"
    by (auto simp: enc_all_Cons bind_sum_Inr_iff)
  show ?case
    using enc_nonempty [OF w(1)] dec_enc [OF w(1), of "vs @ rest"] Cons.IH [OF w(2)]
    by (simp add: w(3) dec_all_step bind_sum_assoc)
qed

end

lemma utf8_next_octets:
  "it \<noteq> [] \<Longrightarrow> utf8_next it = Inr (cp, rest) \<longleftrightarrow> (\<exists>ocs. utf8_append cp = Inr ocs \<and> it = ocs @ rest)"
  using validate_next_sound [of "hd it" "tl it" cp rest] validate_next_complete
  by (auto simp: utf8_next_Inr utf8_append_octets)

lemma utf8_append_nonempty: "utf8_append cp = Inr ocs \<Longrightarrow> ocs \<noteq> []"
  by (auto simp: utf8_append_def split: if_splits)

interpretation utf8: prefix_code utf8_append utf8_next utf32to8 utf8to32
proof
  show "utf8_append c = Inr w \<Longrightarrow> utf8_next (w @ rest) = Inr (c, rest)" for c w rest
    using utf8_append_nonempty by (auto simp: utf8_next_octets)
  show "it \<noteq> [] \<Longrightarrow> utf8_next it = Inr (c, rest) \<Longrightarrow> \<exists>w. utf8_append c = Inr w \<and> it = w @ rest" for it c rest
    by (simp add: utf8_next_octets)
qed (simp_all add: utf8_append_nonempty utf8to32.simps)

section \<open>Valid texts\<close>

lemma validate_next_append:
  "it \<noteq> [] \<Longrightarrow> validate_next it = Inr (cp, rest) \<longleftrightarrow> (\<exists>ocs. utf8_append cp = Inr ocs \<and> it = ocs @ rest)"
  using utf8_next_octets by (simp add: utf8_next_Inr)

lemma utf8to32_step:
  "it \<noteq> [] \<Longrightarrow> validate_next it = Inr (cp, rest) \<Longrightarrow> utf8to32 it = Inr cps \<longleftrightarrow>
     (\<exists>ds. utf8to32 rest = Inr ds \<and> cps = cp # ds)"
  by (subst utf8to32.simps) (auto simp: utf8_next_Inr [THEN iffD2] bind_sum_Inr_iff)

lemma utf8to32_fails: "it \<noteq> [] \<Longrightarrow> validate_next it = Inl err \<Longrightarrow> utf8to32 it \<noteq> Inr cps"
  by (subst utf8to32.simps) (auto simp: bind_sum_Inr_iff utf8_next_Inr)

lemma is_valid_iff: "is_valid it \<longleftrightarrow> (\<exists>cps. utf8to32 it = Inr cps)"
proof (induction it rule: find_invalid.induct)
  case (1 it)
  show ?case
  proof (cases "it = []")
    case True
    then show ?thesis by (simp add: is_valid_def find_invalid.simps utf8to32.simps)
  next
    case False
    show ?thesis
    proof (cases "validate_next it")
      case (Inl err)
      then show ?thesis using False utf8to32_fails [OF False Inl]
        by (simp add: is_valid_def find_invalid.simps [of it])
    next
      case (Inr r)
      then obtain cp rest where r: "validate_next it = Inr (cp, rest)" by (cases r) auto
      have "is_valid it \<longleftrightarrow> is_valid rest"
        using False r by (simp add: is_valid_def find_invalid.simps [of it])
      then show ?thesis using 1 [OF False r refl] utf8to32_step [OF False r] by auto
    qed
  qed
qed

lemma replace_step:
  assumes "it \<noteq> []" "validate_next it = Inr (cp, rest)" "it = ocs @ rest"
  shows "replace_invalid r it = bind_sum (replace_invalid r rest) (\<lambda>out. Inr (ocs @ out))"
proof -
  have "replace_invalid r it = bind_sum (replace_invalid r rest)
      (\<lambda>out. Inr (take (length it - length rest) it @ out))"
    using assms(1,2) by (simp add: replace_invalid.simps [of r it])
  then show ?thesis by (simp add: assms(3))
qed

lemma replace_invalid_valid: "replace_invalid r it = Inr out \<Longrightarrow> \<exists>cps. utf32to8 cps = Inr out"
proof (induction r it arbitrary: out rule: replace_invalid.induct)
  case (1 r it)
  have more: "\<exists>cps. utf32to8 cps = Inr (w @ ws)"
    if "utf8_append c = Inr w" "\<exists>cs. utf32to8 cs = Inr ws" for c w ws
  proof -
    from that(2) obtain cs where "utf32to8 cs = Inr ws" ..
    then have "utf32to8 (c # cs) = Inr (w @ ws)" using that(1) by simp
    then show ?thesis ..
  qed
  show ?case
  proof (cases "it = []")
    case True
    then show ?thesis using "1.prems" by (auto simp: replace_invalid.simps intro: exI [of _ "[]"])
  next
    case False
    show ?thesis
    proof (cases "validate_next it")
      case (Inr q)
      then obtain cp rest where q: "q = (cp, rest)" "validate_next it = Inr (cp, rest)" by (cases q) auto
      obtain ocs where o: "utf8_append cp = Inr ocs" "it = ocs @ rest"
        using q False validate_next_append by auto
      obtain out' where out: "replace_invalid r rest = Inr out'" "out = ocs @ out'"
        using "1.prems" replace_step [OF False q(2) o(2), of r] by (auto simp: bind_sum_Inr_iff)
      show ?thesis unfolding out(2)
        by (rule more [OF o(1)]) (rule "1.IH"(3) [OF False Inr q(1) [symmetric] out(1)])
    next
      case (Inl err)
      have e: "err \<noteq> NOT_ENOUGH_ROOM"
        using "1.prems" False Inl by (auto simp: replace_invalid.simps [of r it])
      show ?thesis
      proof (cases "err = INVALID_LEAD")
        case True
        then obtain mark out' where out: "utf8_append r = Inr mark" "replace_invalid r (tl it) = Inr out'"
          "out = mark @ out'"
          using "1.prems" False Inl by (auto simp: replace_invalid.simps [of r it] bind_sum_Inr_iff)
        show ?thesis unfolding out(3)
          by (rule more [OF out(1)]) (rule "1.IH"(1) [OF False Inl e True out(1,2)])
      next
        case other: False
        then obtain mark out' where out: "utf8_append r = Inr mark"
          "replace_invalid r (dropWhile is_trail (tl it)) = Inr out'" "out = mark @ out'"
          using "1.prems" False Inl e by (auto simp: replace_invalid.simps [of r it] bind_sum_Inr_iff)
        show ?thesis unfolding out(3)
          by (rule more [OF out(1)]) (rule "1.IH"(2) [OF False Inl e other out(1,2)])
      qed
    qed
  qed
qed

lemma replace_invalid_id: "utf8to32 it = Inr cps \<Longrightarrow> replace_invalid r it = Inr it"
proof (induction it arbitrary: cps rule: length_induct)
  case (1 it)
  show ?case
  proof (cases "it = []")
    case False
    obtain c rest where v: "validate_next it = Inr (c, rest)"
      using 1 False utf8to32_fails by (cases "validate_next it") auto
    obtain ocs where o: "utf8_append c = Inr ocs" "it = ocs @ rest"
      using v False validate_next_append by auto
    obtain ds where "utf8to32 rest = Inr ds" using 1 utf8to32_step [OF False v] by blast
    moreover have "length rest < length it" using o utf8_append_nonempty [OF o(1)] by simp
    ultimately have "replace_invalid r rest = Inr rest" using 1 by blast
    then show ?thesis using replace_step [OF False v o(2), of r] o(2) by simp
  qed (simp add: replace_invalid.simps)
qed

lemma octets_lead_trail:
  assumes "scalar_value (unat cp)" "map unat ocs = octets (unat cp)"
  shows "\<exists>lead trails. ocs = lead # trails \<and> \<not> is_trail lead \<and> list_all is_trail trails"
proof -
  have bound: "unat cp < 0x110000" using assms(1) by (rule scalar_bound)
  have t: "is_trail oc" if "unat oc = 128 + n mod 64" for oc n
    using that by (auto simp: is_trail_iff intro: exI [of _ "n mod 64"])
  have l: "\<not> is_trail oc" if "unat oc < 128 \<or> 192 \<le> unat oc" for oc
    using that by (auto simp: is_trail_iff)
  show ?thesis
    using assms(2) bound by (auto simp: octets_def map_eq_Cons_conv t l split: if_splits)
qed

lemma prior_loop_trails:
  "list_all is_trail trails \<Longrightarrow> \<not> is_trail lead \<Longrightarrow>
   prior_loop (trails @ lead # before) acc = Inr (before, lead # rev trails @ acc)"
  by (induction trails arbitrary: acc) auto

lemma prior_undoes_append:
  assumes "utf8_append cp = Inr ocs"
  shows "prior (before @ ocs) = Inr (cp, before)"
proof -
  obtain lead trails where o: "ocs = lead # trails" "\<not> is_trail lead" "list_all is_trail trails"
    using assms octets_lead_trail utf8_append_octets by blast
  have "prior_loop (rev (before @ ocs)) [] = Inr (rev before, ocs)"
    using prior_loop_trails [of "rev trails" lead "rev before" "[]"] o by simp
  moreover have "peek_next ocs = Inr cp"
    using utf8.dec_enc [OF assms, of "[]"] by (simp add: peek_next_def)
  ultimately show ?thesis by (simp add: prior_def o(1))
qed

section \<open>Properties\<close>

text \<open>
  C34. The library decodes exactly the standard's UTF-8: an encoded text is the concatenation of
  the octets the Unicode standard gives its code points, all scalar values, and decoding is
  the inverse of encoding; every other text, the overlong, truncated and surrogate ones included,
  makes the decoder raise an exception.
\<close>

theorem utf8_is_standard:
  "(utf32to8 cps = Inr it \<longleftrightarrow>
      list_all (\<lambda>cp. scalar_value (unat cp)) cps \<and> map unat it = concat (map (\<lambda>cp. octets (unat cp)) cps)) \<and>
   (utf8to32 it = Inr cps \<longleftrightarrow> utf32to8 cps = Inr it) \<and>
   (is_valid it \<longleftrightarrow> (\<exists>cps. utf32to8 cps = Inr it))"
proof -
  have "utf32to8 cps = Inr it \<longleftrightarrow>
      list_all (\<lambda>cp. scalar_value (unat cp)) cps \<and> map unat it = concat (map (\<lambda>cp. octets (unat cp)) cps)"
  proof (induction cps arbitrary: it)
    case (Cons cp cps)
    have "utf32to8 (cp # cps) = Inr it \<longleftrightarrow>
        (\<exists>w ws. utf8_append cp = Inr w \<and> utf32to8 cps = Inr ws \<and> it = w @ ws)"
      by (auto simp: bind_sum_Inr_iff)
    also have "\<dots> \<longleftrightarrow> scalar_value (unat cp) \<and> list_all (\<lambda>cp. scalar_value (unat cp)) cps \<and>
        (\<exists>w ws. map unat w = octets (unat cp) \<and> map unat ws = concat (map (\<lambda>cp. octets (unat cp)) cps) \<and>
          it = w @ ws)"
      by (auto simp: utf8_append_octets Cons.IH)
    also have "\<dots> \<longleftrightarrow> list_all (\<lambda>cp. scalar_value (unat cp)) (cp # cps) \<and>
        map unat it = concat (map (\<lambda>cp. octets (unat cp)) (cp # cps))"
      by (simp add: map_eq_append_conv) metis
    finally show ?case .
  qed auto
  then show ?thesis using utf8.inverse is_valid_iff by simp
qed

text \<open>
  Repairing a text. When \<^verbatim>\<open>replace_invalid\<close> returns, its output is valid UTF-8, whatever
  the input; a valid input it copies.
\<close>

theorem replace_invalid_repairs:
  assumes "replace_invalid r it = Inr out"
  shows "is_valid out \<and> (is_valid it \<longrightarrow> out = it)"
  using assms replace_invalid_valid [OF assms] replace_invalid_id
  by (auto simp: is_valid_iff utf8.inverse)

theorem replace_invalid_repairs_witness:
  "is_valid [0x41, 0xef, 0xbf, 0xbd, 0x42]"
proof -
  have "replace_invalid 0xfffd [0x41, 0xff, 0x42] = Inr [0x41, 0xef, 0xbf, 0xbd, 0x42]"
    by code_simp
  from replace_invalid_repairs [OF this] show ?thesis ..
qed

end
