(* ===== verification/Unicode.thy ===== *)
theory Unicode
  imports Utf8 WideChars "HOL-Library.Sublist"
begin

text \<open>
  UTF-16 in \<^verbatim>\<open>dep/utf8cpp/utf8/checked.h\<close>, and the functions of
  \<^verbatim>\<open>src/server/shared/Utilities/Util.cpp\<close> on UTF-8 and wide strings. A
  \<^verbatim>\<open>std::string\<close> is the list of its octets, a \<^verbatim>\<open>std::wstring\<close> the list of its wide
  characters, of 32 bits. \<open>None\<close> is a write past the end of a string or an array.
\<close>

unbundle bit_operations_syntax

section \<open>The functions on strings\<close>

text \<open>
  \<^verbatim>\<open>resize\<close>, and the algorithms of the library writing through a pointer to the first character:
  the string must be long enough.
\<close>

definition resized :: "nat \<Rightarrow> 'a::zero list \<Rightarrow> 'a list" where
  "resized n str = take n str @ replicate (n - length str) 0"

definition write_first :: "'a list \<Rightarrow> 'a list \<Rightarrow> 'a list option" where
  "write_first out str = (if length out \<le> length str then Some (overwrite 0 out str) else None)"

definition utf8length :: "u8 list \<Rightarrow> nat \<times> u8 list" where
  "utf8length utf8str = (case utf8_distance utf8str of Inr dist \<Rightarrow> (dist, utf8str) | Inl e \<Rightarrow> (0, []))"

definition utf8truncate :: "u8 list \<Rightarrow> nat \<Rightarrow> u8 list option" where
  "utf8truncate utf8str len =
     (case utf8_distance utf8str of
        Inl e \<Rightarrow> Some []
      | Inr wlen \<Rightarrow>
          if wlen \<le> len then Some utf8str
          else case utf8to16 utf8str of
              Inl e \<Rightarrow> Some []
            | Inr out \<Rightarrow> do {
                wstr \<leftarrow> write_first (map ucast out) (resized wlen ([] :: wchar list));
                case utf16to8 (resized len wstr) of
                  Inl e \<Rightarrow> Some []
                | Inr octs \<Rightarrow> do {
                    str \<leftarrow> write_first octs utf8str;
                    Some (resized (length octs) str)
                  }
              })"

text \<open>
  The first variant writes into an array of the caller, the list \<open>wstr\<close>; \<open>wsize\<close> is its size
  according to the caller. The results are the value returned, the array and the size.
\<close>

definition put_at :: "nat \<Rightarrow> 'a \<Rightarrow> 'a list \<Rightarrow> 'a list option" where
  "put_at i x xs = (if i < length xs then Some (xs[i := x]) else None)"

definition Utf8toWStr_fails :: "wchar list \<Rightarrow> nat \<Rightarrow> (bool \<times> wchar list \<times> nat) option" where
  "Utf8toWStr_fails wstr wsize = do {
     wstr \<leftarrow> (if wsize > 0 then put_at 0 0 wstr else Some wstr);
     Some (False, wstr, 0)
   }"

definition Utf8toWStr_buffer :: "u8 list \<Rightarrow> wchar list \<Rightarrow> nat \<Rightarrow> (bool \<times> wchar list \<times> nat) option" where
  "Utf8toWStr_buffer utf8str wstr wsize =
     (case utf8_distance utf8str of
        Inl e \<Rightarrow> Utf8toWStr_fails wstr wsize
      | Inr len \<Rightarrow>
          if len > wsize then Utf8toWStr_fails wstr wsize
          else case utf8to16 utf8str of
              Inl e \<Rightarrow> Utf8toWStr_fails wstr len
            | Inr out \<Rightarrow> do {
                wstr \<leftarrow> write_first (map ucast out) wstr;
                wstr \<leftarrow> put_at len 0 wstr;
                Some (True, wstr, len)
              })"

text \<open>The second variant, into a \<^verbatim>\<open>std::wstring\<close>.\<close>

definition Utf8toWStr :: "u8 list \<Rightarrow> wchar list \<Rightarrow> (bool \<times> wchar list) option" where
  "Utf8toWStr utf8str wstr =
     (case utf8_distance utf8str of
        Inl e \<Rightarrow> Some (False, [])
      | Inr len \<Rightarrow>
          if len \<noteq> 0 then
            case utf8to16 utf8str of
              Inl e \<Rightarrow> Some (False, [])
            | Inr out \<Rightarrow> do {
                wstr \<leftarrow> write_first (map ucast out) (resized len wstr);
                Some (True, wstr)
              }
          else Some (True, wstr))"

text \<open>Both variants of \<^verbatim>\<open>WStrToUtf8\<close>; the argument \<open>utf8str\<close> is overwritten.\<close>

definition WStrToUtf8 :: "wchar list \<Rightarrow> (bool \<times> u8 list) option" where
  "WStrToUtf8 wstr =
     (let utf8str2 = resized (length wstr * 4) []
      in if wstr \<noteq> [] then
           case utf16to8 wstr of
             Inl e \<Rightarrow> Some (False, [])
           | Inr octs \<Rightarrow> do {
               utf8str2 \<leftarrow> write_first octs utf8str2;
               Some (True, resized (length octs) utf8str2)
             }
         else Some (True, utf8str2))"

definition Utf8FitTo :: "u8 list \<Rightarrow> wchar list \<Rightarrow> bool option" where
  "Utf8FitTo str search = do {
     (ok, temp) \<leftarrow> Utf8toWStr str [];
     if \<not> ok then Some False
     else if \<not> sublist search (wstrToLower temp) then Some False
     else Some True
   }"

section \<open>UTF-16\<close>

lemma mask16_id [simp]: "mask16 (w :: u16) = w"
proof -
  have "(0xffff :: u16) = - 1" by simp
  then show ?thesis by (simp only: mask16_def and.left_neutral) simp
qed

lemma unat_u16_less [simp]: "unat (w :: u16) < 65536"
  using unsigned_less [of w] by simp

lemma unat_wide: "unat (ucast (w :: u16) :: u32) = unat w"
  by (simp add: unsigned_ucast_eq take_bit_nat_eq_self less_trans [OF unat_u16_less])

lemma unat_narrow: "unat (ucast (w :: u32) :: u16) = unat w mod 65536"
  by (simp add: unsigned_ucast_eq take_bit_eq_mod)

lemma unat_mask16: "unat (mask16 (w :: u32)) = unat w mod 65536"
proof -
  have "mask16 w = ucast (w AND 0xffff)" by (simp only: mask16_def and.commute)
  then show ?thesis by (simp only: unat_narrow unat_and_low) simp
qed

lemma mask16_wide [simp]: "mask16 (ucast (w :: u16) :: u32) = w"
  by (simp add: word_unat_eq_iff unat_mask16 unat_wide)

text \<open>The wide characters that a conversion to UTF-16 wrote are read as the same code units.\<close>

lemma utf16_next_wide:
  "it \<noteq> [] \<Longrightarrow> utf16_next (map ucast (it :: u16 list) :: u32 list) =
     bind_sum (utf16_next it) (\<lambda>(cp, rest). Inr (cp, map ucast rest))"
  by (cases it; cases "tl it") (auto simp: utf16_next_def Let_def)

lemma utf16to8_wide: "utf16to8 (map ucast (it :: u16 list) :: u32 list) = utf16to8 it"
proof (induction it rule: length_induct)
  case (1 it)
  show ?case
  proof (cases "it = []")
    case False
    then have ne: "map ucast it \<noteq> ([] :: u32 list)" by simp
    show ?thesis
    proof (cases "utf16_next it")
      case (Inr r)
      then obtain cp rest where r: "utf16_next it = Inr (cp, rest)" by (cases r) auto
      have "utf16to8 (map ucast rest :: u32 list) = utf16to8 rest"
        using 1 utf16_next_shorter [OF False r] by simp
      then show ?thesis using False ne r
        by (simp add: utf16to8.simps [of it] utf16to8.simps [of "map ucast it"] utf16_next_wide)
    qed (use False ne in \<open>simp add: utf16to8.simps [of it] utf16to8.simps [of "map ucast it"] utf16_next_wide\<close>)
  qed (simp add: utf16to8.simps)
qed

lemma surrogate_nat:
  "is_lead_surrogate cp \<longleftrightarrow> 0xd800 \<le> unat cp \<and> unat cp \<le> 0xdbff"
  "is_trail_surrogate cp \<longleftrightarrow> 0xdc00 \<le> unat cp \<and> unat cp \<le> 0xdfff"
  by (simp_all add: is_lead_surrogate_def is_trail_surrogate_def word_le_nat_alt LEAD_SURROGATE_MIN_def
      LEAD_SURROGATE_MAX_def TRAIL_SURROGATE_MIN_def TRAIL_SURROGATE_MAX_def)

lemma joined_surrogates:
  assumes "is_lead_surrogate l" "is_trail_surrogate t"
  shows "unat (push_bit 10 l + t + SURROGATE_OFFSET) = (unat l - 0xd800) * 1024 + (unat t - 0xdc00) + 0x10000"
proof -
  have b: "0xd800 \<le> unat l" "unat l \<le> 0xdbff" "0xdc00 \<le> unat t" "unat t \<le> 0xdfff"
    using assms by (simp_all add: surrogate_nat)
  have wrap: "(n + 4294967296) mod 4294967296 = n" if "n < 4294967296" for n :: nat using that by simp
  have off: "unat SURROGATE_OFFSET = 4238353408"
    by (simp add: SURROGATE_OFFSET_def LEAD_SURROGATE_MIN_def TRAIL_SURROGATE_MIN_def)
  have "unat (push_bit 10 l) = take_bit 32 (push_bit 10 (unat l))"
    by (subst unsigned_push_bit_eq) simp
  then have p: "unat (push_bit 10 l) = unat l * 1024"
    using b by (simp add: push_bit_eq_mult take_bit_nat_eq_self)
  have "unat (push_bit 10 l + t) = unat l * 1024 + unat t" using b p by (simp add: unat_sum)
  then have "unat (push_bit 10 l + t + SURROGATE_OFFSET) = (unat l * 1024 + unat t + 4238353408) mod 4294967296"
    using off by (simp add: unat_word_ariths)
  also have "unat l * 1024 + unat t + 4238353408
      = (unat l - 0xd800) * 1024 + (unat t - 0xdc00) + 0x10000 + 4294967296"
    using b by (simp add: algebra_simps)
  also have "\<dots> mod 4294967296 = (unat l - 0xd800) * 1024 + (unat t - 0xdc00) + 0x10000"
    by (rule wrap) (use b in simp)
  finally show ?thesis .
qed

text \<open>UTF-16 as a prefix code: the code units of the scalar values, and the loops of both directions.\<close>

definition utf16_enc :: "u32 \<Rightarrow> utf8_exception + u16 list" where
  "utf16_enc cp = (if is_code_point_valid cp then Inr (utf16_put cp) else Inl (invalid_code_point cp))"

fun utf16_enc_all :: "u32 list \<Rightarrow> utf8_exception + u16 list" where
  "utf16_enc_all [] = Inr []"
| "utf16_enc_all (c # cs) = bind_sum (utf16_enc c) (\<lambda>w. bind_sum (utf16_enc_all cs) (\<lambda>ws. Inr (w @ ws)))"

function utf16_dec_all :: "u16 list \<Rightarrow> utf8_exception + u32 list" where
  "utf16_dec_all it =
     (if it = [] then Inr []
      else bind_sum (utf16_next it) (\<lambda>(c, rest). bind_sum (utf16_dec_all rest) (\<lambda>cs. Inr (c # cs))))"
  by pat_completeness auto
termination by (relation "measure length") (auto simp: utf16_next_shorter)

declare utf16_dec_all.simps [simp del]

lemma utf16_put_nat:
  "is_code_point_valid cp \<Longrightarrow> map unat (utf16_put cp) =
     (if unat cp > 0xffff then [unat cp div 1024 + 0xd7c0, unat cp mod 1024 + 0xdc00] else [unat cp])"
proof -
  assume "is_code_point_valid cp"
  then have n: "unat cp < 0x110000" by (simp add: valid_iff_scalar scalar_bound)
  have o: "unat (ucast LEAD_OFFSET :: u32) = 0xd7c0" "unat (ucast TRAIL_SURROGATE_MIN :: u32) = 0xdc00"
    by (simp_all add: LEAD_OFFSET_def LEAD_SURROGATE_MIN_def TRAIL_SURROGATE_MIN_def)
  have "unat (drop_bit 10 cp + ucast LEAD_OFFSET) = unat cp div 1024 + 0xd7c0"
    "unat ((cp AND 0x3ff) + ucast TRAIL_SURROGATE_MIN) = unat cp mod 1024 + 0xdc00"
    using n by (subst unat_sum; simp add: o unat_drop unat_and_low)+
  then show ?thesis using n
    by (simp add: utf16_put_def unat_narrow word_less_nat_alt del: unat_plus_if_size)
qed

lemma utf16_next_valid:
  assumes "it \<noteq> []" "utf16_next (it :: u16 list) = Inr (cp, rest)"
  shows "is_code_point_valid cp \<and> it = utf16_put cp @ rest"
proof -
  obtain u us where it: "it = u # us" using assms(1) by (cases it) auto
  have wide: "unat u < 0xd800 \<or> 0xdfff < unat u \<longleftrightarrow> is_code_point_valid (ucast u)"
    by (auto simp: valid_iff_scalar scalar_value_def unat_wide less_imp_le [OF less_trans [OF unat_u16_less]])
  show ?thesis
  proof (cases "is_lead_surrogate (ucast u)")
    case True
    then obtain v vs where v: "us = v # vs" "is_trail_surrogate (ucast v)"
      "cp = push_bit 10 (ucast u) + ucast v + SURROGATE_OFFSET" "rest = vs"
      using assms it by (cases us) (auto simp: utf16_next_def Let_def split: if_splits)
    have n: "unat cp = (unat u - 0xd800) * 1024 + (unat v - 0xdc00) + 0x10000"
      using joined_surrogates [OF True v(2)] v(3) by (simp add: unat_wide)
    have b: "0xd800 \<le> unat u" "unat u \<le> 0xdbff" "0xdc00 \<le> unat v" "unat v \<le> 0xdfff"
      using True v(2) by (simp_all add: surrogate_nat unat_wide)
    then have valid: "is_code_point_valid cp" by (simp add: valid_iff_scalar scalar_value_def n)
    have "unat cp = (unat u - 0xd7c0) * 1024 + (unat v - 0xdc00)" using n b by simp
    moreover have "unat v - 0xdc00 < 1024" using b by simp
    ultimately have "unat cp div 1024 = unat u - 0xd7c0 \<and> unat cp mod 1024 = unat v - 0xdc00"
      by (simp only: div_mult_self3 mod_mult_self3 div_less mod_less) simp
    then have "map unat (utf16_put cp) = map unat [u, v]"
      using utf16_put_nat [OF valid] n b by simp
    then have "utf16_put cp = [u, v]" by (metis inj_map_eq_map inj_unsigned)
    then show ?thesis using valid v it by simp
  next
    case False
    then have "cp = ucast u" "rest = us" "\<not> is_trail_surrogate (ucast u)"
      using assms it by (auto simp: utf16_next_def Let_def split: if_splits)
    then have valid: "is_code_point_valid cp" and cp: "unat cp = unat u"
      using False wide by (auto simp: surrogate_nat unat_wide)
    have "map unat (utf16_put cp) = map unat [u]"
      using utf16_put_nat [OF valid] cp unat_u16_less [of u] by simp
    then have "utf16_put cp = [u]" by (metis inj_map_eq_map inj_unsigned)
    then show ?thesis using valid it \<open>rest = us\<close> by simp
  qed
qed

lemma utf16_next_put:
  assumes "is_code_point_valid cp"
  shows "utf16_next (utf16_put cp @ rest) = Inr (cp, rest)"
proof (cases "unat cp > 0xffff")
  case True
  let ?n = "unat cp"
  have n: "?n < 0x110000" using assms by (simp add: valid_iff_scalar scalar_bound)
  obtain u v where u: "utf16_put cp = [u, v]" "unat u = ?n div 1024 + 0xd7c0" "unat v = ?n mod 1024 + 0xdc00"
    using utf16_put_nat [OF assms] True by (auto simp: map_eq_Cons_conv)
  have "64 \<le> ?n div 1024" "?n div 1024 < 1088" using True n by simp_all
  then have s: "is_lead_surrogate (ucast u)" "is_trail_surrogate (ucast v)"
    using u by (simp_all add: surrogate_nat unat_wide)
  have "(?n div 1024 - 64) * 1024 + ?n mod 1024 + 0x10000 = ?n"
    using \<open>64 \<le> ?n div 1024\<close> by (simp add: algebra_simps)
  then have "push_bit 10 (ucast u) + ucast v + SURROGATE_OFFSET = cp"
    using joined_surrogates [OF s] u by (simp add: word_unat_eq_iff unat_wide)
  then show ?thesis using s by (simp add: u(1) utf16_next_def)
next
  case False
  then obtain u where u: "utf16_put cp = [u]" "unat u = unat cp"
    using utf16_put_nat [OF assms] by (auto simp: map_eq_Cons_conv)
  then have "ucast u = cp" by (simp add: word_unat_eq_iff unat_wide)
  moreover have "\<not> is_lead_surrogate cp" "\<not> is_trail_surrogate cp"
    using assms by (auto simp: valid_iff_scalar scalar_value_def surrogate_nat)
  ultimately show ?thesis by (simp add: u(1) utf16_next_def)
qed

interpretation utf16: prefix_code utf16_enc "utf16_next :: u16 list \<Rightarrow> _" utf16_enc_all utf16_dec_all
proof
  show "utf16_enc c = Inr w \<Longrightarrow> utf16_next (w @ rest) = Inr (c, rest)" for c w rest
    by (auto simp: utf16_enc_def utf16_next_put split: if_splits)
  show "it \<noteq> [] \<Longrightarrow> utf16_next it = Inr (c, rest) \<Longrightarrow> \<exists>w. utf16_enc c = Inr w \<and> it = w @ rest"
    for it :: "u16 list" and c rest
    using utf16_next_valid by (auto simp: utf16_enc_def)
qed (auto simp: utf16_enc_def utf16_put_def utf16_dec_all.simps split: if_splits)

section \<open>The conversions through the code points\<close>

lemma utf32to8_valid: "utf32to8 cps = Inr it \<Longrightarrow> list_all is_code_point_valid cps"
  by (induction cps arbitrary: it) (auto simp: bind_sum_Inr_iff utf8_append_octets valid_iff_scalar)

lemma utf16_enc_all_put:
  "list_all is_code_point_valid cps \<Longrightarrow> utf16_enc_all cps = Inr (concat (map utf16_put cps))"
  by (induction cps) (auto simp: utf16_enc_def)

lemma utf8to16_decoded: "utf8to16 it = bind_sum (utf8to32 it) (\<lambda>cps. Inr (concat (map utf16_put cps)))"
proof (induction it rule: length_induct)
  case (1 it)
  show ?case
  proof (cases "it = []")
    case False
    show ?thesis
    proof (cases "utf8_next it")
      case (Inr r)
      then obtain cp rest where r: "utf8_next it = Inr (cp, rest)" by (cases r) auto
      then have IH: "utf8to16 rest = bind_sum (utf8to32 rest) (\<lambda>cps. Inr (concat (map utf16_put cps)))"
        using 1 utf8_next_shorter [OF False r] by simp
      show ?thesis
        using False r by (cases "utf8to32 rest")
          (simp_all add: utf8to16.simps [of it] utf8to32.simps [of it] IH)
    qed (use False in \<open>simp add: utf8to16.simps [of it] utf8to32.simps [of it]\<close>)
  qed (simp add: utf8to16.simps utf8to32.simps)
qed

lemma utf16to8_decoded: "utf16to8 ws = Inr it \<longleftrightarrow> (\<exists>cps. utf16_dec_all ws = Inr cps \<and> utf32to8 cps = Inr it)"
proof (induction ws arbitrary: it rule: length_induct)
  case (1 ws)
  show ?case
  proof (cases "ws = []")
    case False
    show ?thesis
    proof (cases "utf16_next ws")
      case (Inr r)
      then obtain cp rest where r: "utf16_next ws = Inr (cp, rest)" by (cases r) auto
      then have IH: "utf16to8 rest = Inr it \<longleftrightarrow>
          (\<exists>cps. utf16_dec_all rest = Inr cps \<and> utf32to8 cps = Inr it)" for it
        using 1 utf16_next_shorter [OF False r] by blast
      have "utf16to8 ws = Inr it \<longleftrightarrow>
          (\<exists>ocs octs. utf8_append cp = Inr ocs \<and> utf16to8 rest = Inr octs \<and> it = ocs @ octs)"
        using False r by (auto simp: utf16to8.simps [of ws] bind_sum_Inr_iff)
      also have "\<dots> \<longleftrightarrow> (\<exists>cps. utf16_dec_all rest = Inr cps \<and> utf32to8 (cp # cps) = Inr it)"
        unfolding IH by (auto simp: bind_sum_Inr_iff)
      also have "\<dots> \<longleftrightarrow> (\<exists>cps. utf16_dec_all ws = Inr cps \<and> utf32to8 cps = Inr it)"
        using False r by (auto simp: utf16_dec_all.simps [of ws] bind_sum_Inr_iff simp del: utf32to8.simps)
      finally show ?thesis .
    qed (use False in \<open>simp add: utf16to8.simps [of ws] utf16_dec_all.simps [of ws]\<close>)
  qed (auto simp: utf16to8.simps utf16_dec_all.simps)
qed

lemma distance_decoded: "utf8_distance it = bind_sum (utf8to32 it) (\<lambda>cps. Inr (length cps))"
proof (induction it rule: length_induct)
  case (1 it)
  show ?case
  proof (cases "it = []")
    case False
    show ?thesis
    proof (cases "utf8_next it")
      case (Inr r)
      then obtain cp rest where r: "utf8_next it = Inr (cp, rest)" by (cases r) auto
      then have IH: "utf8_distance rest = bind_sum (utf8to32 rest) (\<lambda>cps. Inr (length cps))"
        using 1 utf8_next_shorter [OF False r] by simp
      show ?thesis
        using False r by (cases "utf8to32 rest")
          (simp_all add: utf8_distance.simps [of it] utf8to32.simps [of it] IH)
    qed (use False in \<open>simp add: utf8_distance.simps [of it] utf8to32.simps [of it]\<close>)
  qed (simp add: utf8_distance.simps utf8to32.simps)
qed

text \<open>Without code points above \<open>0xffff\<close> the code units are the code points.\<close>

abbreviation in_plane_0 :: "u32 list \<Rightarrow> bool" where
  "in_plane_0 cps \<equiv> list_all (\<lambda>cp. cp \<le> 0xffff) cps"

lemma put_plane_0: "in_plane_0 cps \<Longrightarrow> concat (map utf16_put cps) = map ucast cps"
  by (induction cps) (auto simp: utf16_put_def)

lemma put_longer: "length cps \<le> length (concat (map utf16_put cps))"
  "\<not> in_plane_0 cps \<Longrightarrow> length cps < length (concat (map utf16_put cps))"
proof -
  have one: "length (utf16_put cp) = (if cp \<le> 0xffff then 1 else 2)" for cp
    by (auto simp: utf16_put_def)
  show l: "length cps \<le> length (concat (map utf16_put cps))" for cps
    by (induction cps) (auto simp: one)
  show "\<not> in_plane_0 cps \<Longrightarrow> length cps < length (concat (map utf16_put cps))"
  proof (induction cps)
    case (Cons cp cps)
    then show ?case using l [of cps] by (cases "in_plane_0 cps") (auto simp: one)
  qed simp
qed

lemma widen_plane_0: "in_plane_0 cps \<Longrightarrow> map (ucast \<circ> (ucast :: u32 \<Rightarrow> u16)) cps = cps"
proof (induction cps)
  case (Cons cp cps)
  then have "unat cp < 65536" by (simp add: word_le_nat_alt)
  then have "ucast (ucast cp :: u16) = cp" by (simp add: word_unat_eq_iff unat_wide unat_narrow)
  then show ?case using Cons by simp
qed simp

lemma length_resized [simp]: "length (resized n str) = n"
  by (simp add: resized_def)

lemma write_first_all: "length out = length str \<Longrightarrow> write_first out str = Some out"
  by (simp add: write_first_def overwrite_def)

lemma resized_take: "n \<le> length str \<Longrightarrow> resized n str = take n str"
  by (simp add: resized_def)

lemma write_resized:
  "length out \<le> length str \<Longrightarrow> \<exists>s. write_first out str = Some s \<and> resized (length out) s = out"
  by (simp add: write_first_def overwrite_def resized_def)

text \<open>What is written into a string with one place for each code point.\<close>

lemma write_decoded:
  "length str = length cps \<Longrightarrow>
   write_first (map ucast (concat (map utf16_put cps))) str = (if in_plane_0 cps then Some cps else None)"
  using put_longer(2) [of cps] widen_plane_0 [of cps] put_plane_0 [of cps]
  by (auto simp: write_first_all comp_def) (auto simp: write_first_def)

lemma dec_plane_0:
  assumes "in_plane_0 cps" "utf32to8 cps = Inr it"
  shows "utf16to8 cps = Inr it"
proof -
  have "utf16_enc_all cps = Inr (map ucast cps)"
    using assms utf16_enc_all_put utf32to8_valid put_plane_0 by metis
  then have "utf16to8 (map ucast cps :: u16 list) = Inr it"
    using assms(2) utf16.dec_all_enc_all utf16to8_decoded by blast
  then show ?thesis using utf16to8_wide [of "map ucast cps"] widen_plane_0 [OF assms(1)] by (simp add: comp_def)
qed

lemma utf32to8_take:
  "utf32to8 cps = Inr it \<Longrightarrow> \<exists>bs. utf32to8 (take n cps) = Inr bs \<and> length bs \<le> length it"
proof (induction cps arbitrary: it n)
  case (Cons cp cps)
  then obtain w ws where w: "utf8_append cp = Inr w" "utf32to8 cps = Inr ws" "it = w @ ws"
    by (auto simp: bind_sum_Inr_iff)
  show ?case
  proof (cases n)
    case (Suc m)
    from Cons.IH [OF w(2), of m] obtain bs where "utf32to8 (take m cps) = Inr bs" "length bs \<le> length ws" by blast
    then show ?thesis using w Suc by auto
  qed auto
qed simp

lemma utf16_octets: "utf16to8 ws = Inr it \<Longrightarrow> length it \<le> 4 * length (ws :: 'a::len word list)"
proof (induction ws arbitrary: it rule: length_induct)
  case (1 ws)
  show ?case
  proof (cases "ws = []")
    case False
    then obtain cp rest ocs octs where r: "utf16_next ws = Inr (cp, rest)" "utf8_append cp = Inr ocs"
      "utf16to8 rest = Inr octs" "it = ocs @ octs"
      using "1.prems" by (auto simp: utf16to8.simps [of ws] bind_sum_Inr_iff)
    have "length ocs \<le> 4" using r(2) by (auto simp: utf8_append_def split: if_splits)
    moreover have "length rest < length ws" using utf16_next_shorter [OF False r(1)] .
    moreover have "length octs \<le> 4 * length rest" using 1 r(3) \<open>length rest < length ws\<close> by blast
    ultimately show ?thesis using r(4) by simp
  qed (use 1 in \<open>simp add: utf16to8.simps\<close>)
qed

section \<open>Properties\<close>

text \<open>
  C36. UTF-8 and UTF-16. The two conversions are inverse to each other, on all texts: one
  succeeds with a result exactly when the other leads back, so no two texts are
  confused and no code point is lost, with surrogate pairs for those above \<open>0xffff\<close>.
\<close>

theorem utf16_roundtrip: "utf8to16 it = Inr ws \<longleftrightarrow> utf16to8 ws = Inr it"
proof
  assume "utf8to16 it = Inr ws"
  then obtain cps where cps: "utf8to32 it = Inr cps" "ws = concat (map utf16_put cps)"
    by (auto simp: utf8to16_decoded bind_sum_Inr_iff)
  then have e: "utf32to8 cps = Inr it" by (simp add: utf8.inverse)
  have "utf16_enc_all cps = Inr ws" using utf16_enc_all_put [OF utf32to8_valid [OF e]] cps(2) by simp
  then have "utf16_dec_all ws = Inr cps" by (rule utf16.dec_all_enc_all)
  then show "utf16to8 ws = Inr it" using e by (auto simp: utf16to8_decoded)
next
  assume "utf16to8 ws = Inr it"
  then obtain cps where cps: "utf16_dec_all ws = Inr cps" "utf32to8 cps = Inr it"
    by (auto simp: utf16to8_decoded)
  have "utf16_enc_all cps = Inr ws" using cps(1) by (rule utf16.enc_all_dec_all)
  then have "ws = concat (map utf16_put cps)"
    using utf16_enc_all_put [OF utf32to8_valid [OF cps(2)]] by simp
  then show "utf8to16 it = Inr ws" using cps(2) by (simp add: utf8to16_decoded utf8.dec_all_enc_all)
qed

text \<open>
  \<^verbatim>\<open>Utf8toWStr\<close>. An invalid text gives false and the empty string, a valid one its code
  points, with two exceptions: the empty text leaves the old contents in the string, and a code
  point above \<open>0xffff\<close> makes the function write past the end of the string, which has one
  place for each code point while \<^verbatim>\<open>utf8to16\<close> writes two code units for such a code point.
\<close>

theorem utf8_to_wide:
  "Utf8toWStr it old =
     (case utf8to32 it of
        Inl e \<Rightarrow> Some (False, [])
      | Inr cps \<Rightarrow>
          if cps = [] then Some (True, old)
          else if in_plane_0 cps then Some (True, cps) else None)"
  by (cases "utf8to32 it")
    (auto simp: Utf8toWStr_def distance_decoded utf8to16_decoded write_decoded simp del: map_map)

text \<open>
  \<^verbatim>\<open>Utf8toWStr\<close> into an array of the caller. A text that fits with a terminator is
  written with its terminator; a text that is too long gives false and the empty text; but a
  text of exactly the size of the array writes the terminator past its end.
\<close>

theorem utf8_to_buffer:
  assumes "utf32to8 cps = Inr it" and "in_plane_0 cps"
  shows "Utf8toWStr_buffer it wstr (length wstr) =
    (if length cps > length wstr then Some (False, wstr[0 := 0], 0)
     else if length cps = length wstr then None
     else Some (True, (cps @ drop (length cps) wstr)[length cps := 0], length cps))"
proof -
  have d: "utf8to32 it = Inr cps" using assms(1) by (simp add: utf8.inverse)
  have w: "map ucast (map ucast cps :: u16 list) = cps"
    using widen_plane_0 [OF assms(2)] by (simp add: comp_def)
  show ?thesis
    by (auto simp: Utf8toWStr_buffer_def distance_decoded utf8to16_decoded d put_plane_0 [OF assms(2)] w
        write_first_def overwrite_def Utf8toWStr_fails_def put_at_def simp del: map_map)
qed

theorem utf8_to_buffer_witness:
  "Utf8toWStr_buffer [0x41, 0xd0, 0x90] [7, 7, 7] 3 = Some (True, [0x41, 0x410, 0], 2) \<and>
   Utf8toWStr_buffer [0x41, 0xd0, 0x90] [7, 7] 2 = None"
proof -
  have e: "utf32to8 [0x41, 0x410] = Inr [0x41, 0xd0, 0x90]" by code_simp
  have p: "in_plane_0 [0x41, 0x410]" by simp
  show ?thesis using utf8_to_buffer [OF e p, of "[7, 7, 7]"] utf8_to_buffer [OF e p, of "[7, 7]"]
    by (simp add: eval_nat_numeral)
qed

text \<open>
  Truncation counts characters and never cuts one: the first \<open>len\<close> code points remain, as
  valid UTF-8; an invalid text becomes empty; a code point above \<open>0xffff\<close> in a text that is
  too long overruns the wide string in between.
\<close>

theorem truncate_by_characters:
  "utf8truncate it len =
     (case utf8to32 it of
        Inl e \<Rightarrow> Some []
      | Inr cps \<Rightarrow>
          if length cps \<le> len then Some it
          else if in_plane_0 cps then Some (projr (utf32to8 (take len cps))) else None)"
proof (cases "utf8to32 it")
  case (Inr cps)
  then have e: "utf32to8 cps = Inr it" by (simp add: utf8.inverse)
  show ?thesis
  proof (cases "length cps \<le> len \<or> \<not> in_plane_0 cps")
    case True
    then show ?thesis
      by (auto simp: Inr utf8truncate_def distance_decoded utf8to16_decoded write_decoded simp del: map_map)
  next
    case False
    then have p: "in_plane_0 (take len cps)" by (auto simp: list_all_iff dest: in_set_takeD)
    obtain bs where bs: "utf32to8 (take len cps) = Inr bs" "length bs \<le> length it"
      using utf32to8_take [OF e] by blast
    have "utf16to8 (take len cps) = Inr bs" using dec_plane_0 [OF p bs(1)] .
    moreover obtain s where "write_first bs it = Some s" "resized (length bs) s = bs"
      using write_resized [OF bs(2)] by blast
    ultimately show ?thesis using False bs
      by (auto simp: Inr utf8truncate_def distance_decoded utf8to16_decoded write_decoded resized_take
          simp del: map_map)
  qed
qed (simp add: utf8truncate_def distance_decoded)

text \<open>
  \<^verbatim>\<open>WStrToUtf8\<close> stays inside its buffer for every wide string, and it undoes
  \<^verbatim>\<open>Utf8toWStr\<close>.
\<close>

theorem wide_to_utf8:
  "WStrToUtf8 ws \<noteq> None \<and>
   (in_plane_0 cps \<and> utf32to8 cps = Inr it \<longrightarrow> WStrToUtf8 cps = Some (True, it))"
proof -
  have run: "WStrToUtf8 ws =
      (case utf16to8 ws of Inl e \<Rightarrow> Some (False, []) | Inr octs \<Rightarrow> Some (True, octs))" for ws
  proof (cases "ws = []")
    case True
    then show ?thesis by (simp add: WStrToUtf8_def utf16to8.simps resized_def)
  next
    case False
    show ?thesis
    proof (cases "utf16to8 ws")
      case (Inr octs)
      then have "length octs \<le> length (resized (length ws * 4) ([] :: u8 list))"
        using utf16_octets [OF Inr] by simp
      from write_resized [OF this] show ?thesis using False Inr by (auto simp: WStrToUtf8_def Let_def)
    qed (use False in \<open>simp add: WStrToUtf8_def\<close>)
  qed
  show ?thesis using dec_plane_0 by (auto simp: run split: sum.splits)
qed

theorem wide_to_utf8_witness: "WStrToUtf8 [0x41, 0x20AC] = Some (True, [0x41, 0xe2, 0x82, 0xac])"
proof -
  have "utf32to8 [0x41, 0x20AC] = Inr [0x41, 0xe2, 0x82, 0xac]" by code_simp
  then show ?thesis using wide_to_utf8 [of "[]" "[0x41, 0x20AC]"] by simp
qed

end
