(* ===== verification/Config.thy ===== *)
theory Config
  imports Text GameState
begin

text \<open>
  \<^verbatim>\<open>src/server/shared/Configuration/Config.cpp\<close>. The parser of the file and the property tree
  are Boost's and are parameters: a section is what the code asks of it, its keys in their
  order, and the values of paths as text, as an integer or as the bits of a \<^verbatim>\<open>float\<close>; a parser maps the name of
  a file to an error or to the sections. The mutex is held for one call and left out.
\<close>

section \<open>The configuration\<close>

record section_tree =
  st_keys :: "string list"
  st_get :: "string \<Rightarrow> string option"
  st_get_int :: "string \<Rightarrow> i32 option"
  st_get_float :: "string \<Rightarrow> u32 option"

text \<open>The error of the parser: its message, the file, and the line, 0 if there is none.\<close>

record ini_error =
  ie_message :: string
  ie_filename :: string
  ie_line :: nat

type_synonym ini_parser = "string \<Rightarrow> ini_error + section_tree list"

record config_mgr =
  cm_filename :: string
  cm_config :: section_tree

text \<open>The results are the value returned, the manager, and the error message if it is set.\<close>

definition ConfigMgr_LoadInitial ::
    "ini_parser \<Rightarrow> string \<Rightarrow> config_mgr \<Rightarrow> bool \<times> config_mgr \<times> string option" where
  "ConfigMgr_LoadInitial read_ini file m =
     (let m = m\<lparr>cm_filename := file\<rparr>
      in case read_ini file of
          Inl e \<Rightarrow>
            if ie_line e = 0 then (False, m, Some (ie_message e @ '' ('' @ ie_filename e @ '')''))
            else (False, m, Some (ie_message e @ '' ('' @ ie_filename e @ '':'' @ digits (ie_line e) @ '')''))
        | Inr fullTree \<Rightarrow>
            (case fullTree of
               [] \<Rightarrow> (False, m, Some (''empty file ('' @ file @ '')''))
             | first # _ \<Rightarrow> (True, m\<lparr>cm_config := first\<rparr>, None)))"

definition ConfigMgr_Reload :: "ini_parser \<Rightarrow> config_mgr \<Rightarrow> bool \<times> config_mgr \<times> string option" where
  "ConfigMgr_Reload read_ini m = ConfigMgr_LoadInitial read_ini (cm_filename m) m"

definition without_quotes :: "string \<Rightarrow> string" where
  "without_quotes value = removeAll (CHR 0x22) value"

definition ConfigMgr_GetStringDefault :: "string \<Rightarrow> string \<Rightarrow> config_mgr \<Rightarrow> string" where
  "ConfigMgr_GetStringDefault name defval m =
     (let value = (case st_get (cm_config m) name of Some v \<Rightarrow> v | None \<Rightarrow> defval) in without_quotes value)"

definition ConfigMgr_GetBoolDefault :: "string \<Rightarrow> bool \<Rightarrow> config_mgr \<Rightarrow> bool" where
  "ConfigMgr_GetBoolDefault name defval m =
     (case st_get (cm_config m) name of
        Some v \<Rightarrow> without_quotes v \<in> {''true'', ''TRUE'', ''yes'', ''YES'', ''1''}
      | None \<Rightarrow> defval)"

definition ConfigMgr_GetIntDefault :: "string \<Rightarrow> i32 \<Rightarrow> config_mgr \<Rightarrow> i32" where
  "ConfigMgr_GetIntDefault name defval m =
     (case st_get_int (cm_config m) name of Some v \<Rightarrow> v | None \<Rightarrow> defval)"

definition ConfigMgr_GetFloatDefault :: "string \<Rightarrow> u32 \<Rightarrow> config_mgr \<Rightarrow> u32" where
  "ConfigMgr_GetFloatDefault name defval m =
     (case st_get_float (cm_config m) name of Some v \<Rightarrow> v | None \<Rightarrow> defval)"

definition ConfigMgr_GetFilename :: "config_mgr \<Rightarrow> string" where
  "ConfigMgr_GetFilename m = cm_filename m"

definition ConfigMgr_GetKeysByString :: "string \<Rightarrow> config_mgr \<Rightarrow> string list" where
  "ConfigMgr_GetKeysByString name m =
     filter (\<lambda>key. take (length name) key = name) (st_keys (cm_config m))"

section \<open>The settings of the world\<close>

definition CONFIG_ROOM2_GOLD :: nat where "CONFIG_ROOM2_GOLD = 9"
definition CONFIG_ROOM3_GOLD :: nat where "CONFIG_ROOM3_GOLD = 10"
definition CONFIG_ROOM4_GOLD :: nat where "CONFIG_ROOM4_GOLD = 11"
definition CONFIG_ROOM5_GOLD :: nat where "CONFIG_ROOM5_GOLD = 12"
definition CONFIG_ROOM6_GOLD :: nat where "CONFIG_ROOM6_GOLD = 13"

text \<open>The assignments of \<^verbatim>\<open>World::LoadConfigSettings\<close>, in their order.\<close>

definition int_settings :: "(nat \<times> string \<times> i32) list" where
  "int_settings =
     [(CONFIG_SOCKET_TIMEOUTTIME, ''SocketTimeOutTime'', 30000),
      (CONFIG_INTERVAL_ROOMUPDATE, ''RoomUpdateInterval'', 100),
      (CONFIG_NUMTHREADS, ''RoomUpdate.Threads'', 1),
      (CONFIG_NUMBERROOMS, ''RoomNumbers'', 6),
      (CONFIG_BASICSCORE, ''RoomBasicScore'', 5000),
      (CONFIG_WAIT_TIME, ''waitTime'', 4000),
      (CONFIG_AI_PLAYER_COUNT, ''aiPlayerCount'', 10),
      (CONFIG_ROOM1_GOLD, ''room1.Gold'', 1000),
      (CONFIG_ROOM2_GOLD, ''room2.Gold'', 7000),
      (CONFIG_ROOM3_GOLD, ''room3.Gold'', 12000),
      (CONFIG_ROOM4_GOLD, ''room4.Gold'', 30000),
      (CONFIG_ROOM5_GOLD, ''room5.Gold'', 90000),
      (CONFIG_ROOM6_GOLD, ''room6.Gold'', 300000),
      (CONFIG_AI_DELAY, ''aiDelay'', 2000)]"

definition load_int :: "config_mgr \<Rightarrow> nat \<times> string \<times> i32 \<Rightarrow> u32 list \<Rightarrow> u32 list" where
  "load_int m = (\<lambda>(index, name, defval) cfg. cfg[index := ConfigMgr_GetIntDefault name defval m])"

end
