(* ===== verification/Appenders.thy ===== *)
theory Appenders
  imports Text ByteCodec "HOL-Library.Sublist"
begin

text \<open>
  Where log messages go: \<^verbatim>\<open>Appender\<close>, \<^verbatim>\<open>AppenderConsole\<close> and \<^verbatim>\<open>AppenderFile\<close> of
  \<^verbatim>\<open>src/server/shared/Logging\<close>. A \<^verbatim>\<open>LogLevel\<close> is an unsigned number, as are the
  other enumerations, because the code casts what it reads to them. The state is what the
  process can reach: the two output streams, the files, and the readings of the clock; what the
  operating system decides is in \<open>log_env\<close>.
\<close>

unbundle bit_operations_syntax

section \<open>Levels, types and flags\<close>

definition LOG_LEVEL_DISABLED :: u32 where "LOG_LEVEL_DISABLED = 0"
definition LOG_LEVEL_TRACE :: u32 where "LOG_LEVEL_TRACE = 1"
definition LOG_LEVEL_DEBUG :: u32 where "LOG_LEVEL_DEBUG = 2"
definition LOG_LEVEL_INFO :: u32 where "LOG_LEVEL_INFO = 3"
definition LOG_LEVEL_WARN :: u32 where "LOG_LEVEL_WARN = 4"
definition LOG_LEVEL_ERROR :: u32 where "LOG_LEVEL_ERROR = 5"
definition LOG_LEVEL_FATAL :: u32 where "LOG_LEVEL_FATAL = 6"

definition MaxLogLevels :: nat where "MaxLogLevels = 6"

definition APPENDER_CONSOLE :: u32 where "APPENDER_CONSOLE = 1"
definition APPENDER_FILE :: u32 where "APPENDER_FILE = 2"
definition APPENDER_DB :: u32 where "APPENDER_DB = 3"

definition APPENDER_FLAGS_NONE :: u32 where "APPENDER_FLAGS_NONE = 0x00"
definition APPENDER_FLAGS_PREFIX_TIMESTAMP :: u32 where "APPENDER_FLAGS_PREFIX_TIMESTAMP = 0x01"
definition APPENDER_FLAGS_PREFIX_LOGLEVEL :: u32 where "APPENDER_FLAGS_PREFIX_LOGLEVEL = 0x02"
definition APPENDER_FLAGS_PREFIX_LOGFILTERTYPE :: u32 where "APPENDER_FLAGS_PREFIX_LOGFILTERTYPE = 0x04"
definition APPENDER_FLAGS_USE_TIMESTAMP :: u32 where "APPENDER_FLAGS_USE_TIMESTAMP = 0x08"
definition APPENDER_FLAGS_MAKE_FILE_BACKUP :: u32 where "APPENDER_FLAGS_MAKE_FILE_BACKUP = 0x10"

lemmas log_constants = LOG_LEVEL_DISABLED_def LOG_LEVEL_TRACE_def LOG_LEVEL_DEBUG_def LOG_LEVEL_INFO_def
  LOG_LEVEL_WARN_def LOG_LEVEL_ERROR_def LOG_LEVEL_FATAL_def APPENDER_CONSOLE_def APPENDER_FILE_def
  APPENDER_DB_def APPENDER_FLAGS_NONE_def

section \<open>The environment and the state\<close>

record broken_time = tm + tm_sec :: i32

text \<open>
  \<open>le_fopen path mode old\<close> is what \<^verbatim>\<open>fopen\<close> makes of a file with the contents \<open>old\<close>,
  \<open>None\<close> for no file: no stream, or the contents of the opened file and the position
  \<^verbatim>\<open>ftell\<close> reports. \<open>le_renames\<close> is whether the system allows a renaming.
\<close>

record log_env =
  le_localtime :: "int \<Rightarrow> broken_time"
  le_fopen :: "string \<Rightarrow> string \<Rightarrow> string option \<Rightarrow> (string \<times> u64) option"
  le_renames :: "string \<Rightarrow> string \<Rightarrow> bool"

record log_io =
  io_stdout :: string
  io_stderr :: string
  io_files :: "string \<Rightarrow> string option"
  io_clock :: "nat \<Rightarrow> int"
  io_readings :: nat

definition read_time :: "log_io \<Rightarrow> int \<times> log_io" where
  "read_time w = (io_clock w (io_readings w), w\<lparr>io_readings := Suc (io_readings w)\<rparr>)"

definition print_to :: "bool \<Rightarrow> string \<Rightarrow> log_io \<Rightarrow> log_io" where
  "print_to stdout_stream str w =
     (if stdout_stream then w\<lparr>io_stdout := io_stdout w @ str\<rparr> else w\<lparr>io_stderr := io_stderr w @ str\<rparr>)"

section \<open>Messages\<close>

record log_message =
  lm_level :: u32
  lm_type :: string
  lm_text :: string
  lm_prefix :: string
  lm_param1 :: string
  lm_mtime :: int

definition LogMessage_new :: "u32 \<Rightarrow> string \<Rightarrow> string \<Rightarrow> log_io \<Rightarrow> log_message \<times> log_io" where
  "LogMessage_new level type text w =
     (let (t, w) = read_time w
      in (\<lparr>lm_level = level, lm_type = type, lm_text = text, lm_prefix = [], lm_param1 = [], lm_mtime = t\<rparr>, w))"

definition LogMessage_Size :: "log_message \<Rightarrow> u32" where
  "LogMessage_Size m = word_of_nat (length (lm_prefix m) + length (lm_text m))"

text \<open>\<^verbatim>\<open>%0<width>d\<close>, where a sign counts, and the format of a time with its separators.\<close>

definition zero_padded :: "nat \<Rightarrow> int \<Rightarrow> string" where
  "zero_padded width i =
     (let ds = digits (nat \<bar>i\<bar>); sign = (if i < 0 then ''-'' else [])
      in sign @ replicate (width - length sign - length ds) (CHR ''0'') @ ds)"

definition time_format :: "char \<Rightarrow> broken_time \<Rightarrow> string" where
  "time_format sep t =
     take 19 (zero_padded 4 (sint (tm_year t + 1900)) @ ''-'' @ zero_padded 2 (sint (tm_mon t + 1)) @ ''-'' @
       zero_padded 2 (sint (tm_mday t)) @ ''_'' @ zero_padded 2 (sint (tm_hour t)) @ [sep] @
       zero_padded 2 (sint (tm_min t)) @ [sep] @ zero_padded 2 (sint (tm_sec t)))"

definition LogMessage_getTimeStr :: "log_env \<Rightarrow> int \<Rightarrow> string" where
  "LogMessage_getTimeStr env time = time_format (CHR '':'') (le_localtime env time)"

definition TimeToTimestampStr :: "log_env \<Rightarrow> int \<Rightarrow> string" where
  "TimeToTimestampStr env t = time_format (CHR ''-'') (le_localtime env t)"

definition getLogLevelString :: "u32 \<Rightarrow> string" where
  "getLogLevelString level =
     (if level = LOG_LEVEL_FATAL then ''FATAL'' else if level = LOG_LEVEL_ERROR then ''ERROR''
      else if level = LOG_LEVEL_WARN then ''WARN'' else if level = LOG_LEVEL_INFO then ''INFO''
      else if level = LOG_LEVEL_DEBUG then ''DEBUG'' else if level = LOG_LEVEL_TRACE then ''TRACE''
      else ''DISABLED'')"

section \<open>Appenders\<close>

text \<open>A stream is the path of its file; the appenders of the configuration do not share files.\<close>

record file_data =
  af_logfile :: "string option"
  af_filename :: string
  af_logDir :: string
  af_mode :: string
  af_dynamicName :: bool
  af_backup :: bool
  af_maxFileSize :: u64
  af_fileSize :: u64

datatype sink = Console bool "nat list" | File file_data

record appender =
  ap_id :: u8
  ap_name :: string
  ap_type :: u32
  ap_level :: u32
  ap_flags :: u32
  ap_sink :: sink

definition Appender_setLogLevel :: "u32 \<Rightarrow> appender \<Rightarrow> appender" where
  "Appender_setLogLevel level a = a\<lparr>ap_level := level\<rparr>"

subsection \<open>The console\<close>

definition MaxColors :: nat where "MaxColors = 15"
definition YELLOW :: nat where "YELLOW = 8"

definition AppenderConsole_new :: "u8 \<Rightarrow> string \<Rightarrow> u32 \<Rightarrow> u32 \<Rightarrow> appender" where
  "AppenderConsole_new aid name level flags =
     \<lparr>ap_id = aid, ap_name = name, ap_type = APPENDER_CONSOLE, ap_level = level, ap_flags = flags,
      ap_sink = Console False (replicate MaxLogLevels MaxColors)\<rparr>"

text \<open>\<^verbatim>\<open>ss >> color\<close>; \<open>None\<close> is a stream that failed.\<close>

definition extract_int :: "string \<Rightarrow> (int \<times> string) option" where
  "extract_int str =
     (let str = dropWhile isspace str;
          (neg, str) = (case str of c # cs \<Rightarrow> (if c = CHR ''-'' then (True, cs)
                                             else if c = CHR ''+'' then (False, cs) else (False, str))
                          | [] \<Rightarrow> (False, str));
          ds = takeWhile isdigit str;
          i = (if neg then - int (number_of ds) else int (number_of ds))
      in if ds = [] \<or> i < - (2 ^ 31) \<or> 2 ^ 31 \<le> i then None else Some (i, dropWhile isdigit str))"

fun colors_loop :: "nat \<Rightarrow> string \<Rightarrow> nat list option" where
  "colors_loop 0 ss = Some []"
| "colors_loop (Suc n) ss =
     (case extract_int ss of
        None \<Rightarrow> None
      | Some (color, ss) \<Rightarrow>
          if color < 0 \<or> color \<ge> int MaxColors then None
          else map_option (\<lambda>colors. nat color # colors) (colors_loop n ss))"

definition AppenderConsole_InitColors :: "string \<Rightarrow> bool \<times> nat list \<Rightarrow> bool \<times> nat list" where
  "AppenderConsole_InitColors str = (\<lambda>(colored, colors).
     if str = [] then (False, colors)
     else case colors_loop MaxLogLevels str of
            None \<Rightarrow> (colored, colors)
          | Some colors \<Rightarrow> (True, colors))"

text \<open>\<^verbatim>\<open>UnixColorFG\<close>; a color outside it is read past its end.\<close>

definition UnixColorFG :: "nat list" where
  "UnixColorFG = [30, 31, 32, 33, 34, 35, 36, 37, 38, 31, 32, 34, 35, 36, 37]"

definition AppenderConsole_SetColor :: "bool \<Rightarrow> nat \<Rightarrow> log_io \<Rightarrow> log_io option" where
  "AppenderConsole_SetColor stdout_stream color w =
     (if color < length UnixColorFG
      then Some (print_to stdout_stream
             (CHR 0x1B # ''['' @ digits (UnixColorFG ! color) @
              (if YELLOW \<le> color \<and> color < MaxColors then '';1'' else []) @ ''m'') w)
      else None)"

definition AppenderConsole_ResetColor :: "bool \<Rightarrow> log_io \<Rightarrow> log_io" where
  "AppenderConsole_ResetColor stdout_stream w = print_to stdout_stream (CHR 0x1B # ''[0m'') w"

definition color_index :: "u32 \<Rightarrow> nat" where
  "color_index level =
     (if level = LOG_LEVEL_TRACE then 5 else if level = LOG_LEVEL_DEBUG then 4
      else if level = LOG_LEVEL_INFO then 3 else if level = LOG_LEVEL_WARN then 2
      else if level = LOG_LEVEL_FATAL then 0 else 1)"

definition AppenderConsole_write :: "bool \<Rightarrow> nat list \<Rightarrow> log_message \<Rightarrow> log_io \<Rightarrow> log_io option" where
  "AppenderConsole_write colored colors m w =
     (let stdout_stream = (\<not> (lm_level m = LOG_LEVEL_ERROR \<or> lm_level m = LOG_LEVEL_FATAL));
          line = lm_prefix m @ lm_text m
      in if colored then do {
           w \<leftarrow> AppenderConsole_SetColor stdout_stream (colors ! color_index (lm_level m)) w;
           Some (AppenderConsole_ResetColor stdout_stream (print_to stdout_stream line w))
         }
         else Some (print_to stdout_stream line w))"

subsection \<open>Files\<close>

definition AppenderFile_CloseFile :: "file_data \<Rightarrow> file_data" where
  "AppenderFile_CloseFile f = f\<lparr>af_logfile := None\<rparr>"

definition rename_file :: "log_env \<Rightarrow> string \<Rightarrow> string \<Rightarrow> log_io \<Rightarrow> log_io" where
  "rename_file env from_name to_name w =
     (case io_files w from_name of
        Some contents \<Rightarrow>
          if le_renames env from_name to_name
          then w\<lparr>io_files := (io_files w)(from_name := None, to_name := Some contents)\<rparr>
          else w
      | None \<Rightarrow> w)"

text \<open>The name of a backup.\<close>

definition backup_name :: "log_env \<Rightarrow> string \<Rightarrow> int \<Rightarrow> string" where
  "backup_name env path t =
     map (\<lambda>c. if c = CHR '':'' then CHR ''-'' else c) (path @ ''.'' @ LogMessage_getTimeStr env t)"

text \<open>The results are the stream, the appender and the state.\<close>

definition AppenderFile_OpenFile ::
    "log_env \<Rightarrow> string \<Rightarrow> string \<Rightarrow> bool \<Rightarrow> file_data \<Rightarrow> log_io \<Rightarrow> string option \<times> file_data \<times> log_io" where
  "AppenderFile_OpenFile env filename mode backup f w =
     (let fullName = af_logDir f @ filename;
          (f, w) =
            (if backup then
               let f = AppenderFile_CloseFile f;
                   (t, w) = read_time w
               in (f, rename_file env fullName (backup_name env fullName t) w)
             else (f, w))
      in case le_fopen env fullName mode (io_files w fullName) of
           Some (contents, position) \<Rightarrow>
             (Some fullName, f\<lparr>af_fileSize := position\<rparr>,
              w\<lparr>io_files := (io_files w)(fullName := Some contents)\<rparr>)
         | None \<Rightarrow> (None, f, w))"

definition AppenderFile_new ::
    "log_env \<Rightarrow> u8 \<Rightarrow> string \<Rightarrow> u32 \<Rightarrow> string \<Rightarrow> string \<Rightarrow> string \<Rightarrow> u32 \<Rightarrow> u64 \<Rightarrow> log_io \<Rightarrow> appender \<times> log_io" where
  "AppenderFile_new env aid name level filename logDir mode flags maxFileSize w =
     (let dynamicName = sublist ''%s'' filename;
          backup = (flags AND APPENDER_FLAGS_MAKE_FILE_BACKUP \<noteq> 0);
          f = \<lparr>af_logfile = None, af_filename = filename, af_logDir = logDir, af_mode = mode,
               af_dynamicName = dynamicName, af_backup = backup, af_maxFileSize = maxFileSize, af_fileSize = 0\<rparr>;
          (f, w) =
            (if \<not> dynamicName then
               let (stream, f, w) = AppenderFile_OpenFile env filename mode (mode = ''w'' \<and> backup) f w
               in (f\<lparr>af_logfile := stream\<rparr>, w)
             else (f, w))
      in (\<lparr>ap_id = aid, ap_name = name, ap_type = APPENDER_FILE, ap_level = level, ap_flags = flags,
           ap_sink = File f\<rparr>, w))"

text \<open>
  \<^verbatim>\<open>snprintf\<close> with the file name as its format and one argument: \<open>None\<close> for a directive other
  than \<^verbatim>\<open>%s\<close> and \<^verbatim>\<open>%%\<close>, and for a second \<^verbatim>\<open>%s\<close>, which are undefined or read
  arguments that are not there.
\<close>

fun format_name :: "string \<Rightarrow> string option \<Rightarrow> string option" where
  "format_name [] param = Some []"
| "format_name [c] param = (if c = CHR ''%'' then None else Some [c])"
| "format_name (c # d # fmt) param =
     (if c = CHR ''%'' then
        if d = CHR ''%'' then map_option (\<lambda>str. d # str) (format_name fmt param)
        else if d = CHR ''s'' then
          (case param of
             Some arg \<Rightarrow> map_option (\<lambda>str. arg @ str) (format_name fmt None)
           | None \<Rightarrow> None)
        else None
      else map_option (\<lambda>str. c # str) (format_name (d # fmt) param))"

definition TRINITY_PATH_MAX :: nat where "TRINITY_PATH_MAX = 4096"

text \<open>\<^verbatim>\<open>fprintf\<close> to a stream, which is at the end of its file.\<close>

definition append_to_file :: "string \<Rightarrow> string \<Rightarrow> log_io \<Rightarrow> log_io" where
  "append_to_file path line w =
     w\<lparr>io_files := (io_files w)(path := Some ((case io_files w path of Some contents \<Rightarrow> contents | None \<Rightarrow> []) @ line))\<rparr>"

definition AppenderFile_write ::
    "log_env \<Rightarrow> log_message \<Rightarrow> file_data \<Rightarrow> log_io \<Rightarrow> (file_data \<times> log_io) option" where
  "AppenderFile_write env m f w =
     (let exceedMaxSize = (af_maxFileSize f > 0 \<and> af_fileSize f + ucast (LogMessage_Size m) > af_maxFileSize f);
          line = lm_prefix m @ lm_text m
      in if af_dynamicName f then do {
           namebuf \<leftarrow> format_name (af_filename f) (Some (lm_param1 m));
           case AppenderFile_OpenFile env (take (TRINITY_PATH_MAX - 1) namebuf) ''a''
                  (af_backup f \<or> exceedMaxSize) f w of
             (None, f, w) \<Rightarrow> Some (f, w)
           | (Some file, f, w) \<Rightarrow>
               Some (f\<lparr>af_fileSize := af_fileSize f + ucast (LogMessage_Size m)\<rparr>, append_to_file file line w)
         }
         else
           let (f, w) =
             (if exceedMaxSize then
                let (stream, f, w) = AppenderFile_OpenFile env (af_filename f) ''w'' True f w
                in (f\<lparr>af_logfile := stream\<rparr>, w)
              else (f, w))
           in case af_logfile f of
                None \<Rightarrow> Some (f, w)
              | Some file \<Rightarrow>
                  Some (f\<lparr>af_fileSize := af_fileSize f + ucast (LogMessage_Size m)\<rparr>, append_to_file file line w))"

subsection \<open>Writing a message\<close>

definition appender_prefix :: "log_env \<Rightarrow> u32 \<Rightarrow> log_message \<Rightarrow> string" where
  "appender_prefix env flags m =
     (let prefix = [];
          prefix = (if flags AND APPENDER_FLAGS_PREFIX_TIMESTAMP \<noteq> 0
                    then prefix @ LogMessage_getTimeStr env (lm_mtime m) else prefix);
          prefix = (if flags AND APPENDER_FLAGS_PREFIX_LOGLEVEL \<noteq> 0
                    then (if prefix \<noteq> [] then prefix @ '' '' else prefix) @
                      getLogLevelString (lm_level m) @
                      replicate (5 - length (getLogLevelString (lm_level m))) (CHR '' '')
                    else prefix);
          prefix = (if flags AND APPENDER_FLAGS_PREFIX_LOGFILTERTYPE \<noteq> 0
                    then (if prefix \<noteq> [] then prefix @ '' '' else prefix) @ ''['' @ lm_type m @ '']''
                    else prefix)
      in if prefix \<noteq> [] then prefix @ '' '' else prefix)"

definition Appender_write ::
    "log_env \<Rightarrow> log_message \<Rightarrow> appender \<Rightarrow> log_io \<Rightarrow> (log_message \<times> appender \<times> log_io) option" where
  "Appender_write env m a w =
     (if ap_level a = LOG_LEVEL_DISABLED \<or> ap_level a > lm_level m then Some (m, a, w)
      else let m = m\<lparr>lm_prefix := appender_prefix env (ap_flags a) m\<rparr>
           in case ap_sink a of
                Console colored colors \<Rightarrow>
                  map_option (\<lambda>w. (m, a, w)) (AppenderConsole_write colored colors m w)
              | File f \<Rightarrow>
                  map_option (\<lambda>(f, w). (m, a\<lparr>ap_sink := File f\<rparr>, w)) (AppenderFile_write env m f w))"

section \<open>Lemmas on the console\<close>

text \<open>A console that uses colors has one for each level, inside the table.\<close>

definition colors_ok :: "bool \<times> nat list \<Rightarrow> bool" where
  "colors_ok = (\<lambda>(colored, colors). colored \<longrightarrow> length colors = MaxLogLevels \<and> list_all (\<lambda>c. c < MaxColors) colors)"

definition name_ok :: "file_data \<Rightarrow> bool" where
  "name_ok f \<longleftrightarrow> (af_dynamicName f \<longrightarrow> (\<forall>param. format_name (af_filename f) (Some param) \<noteq> None))"

fun sink_ok :: "sink \<Rightarrow> bool" where
  "sink_ok (Console colored colors) = colors_ok (colored, colors)"
| "sink_ok (File f) = name_ok f"

lemma colors_loop_ok:
  "colors_loop n ss = Some colors \<Longrightarrow> length colors = n \<and> list_all (\<lambda>c. c < MaxColors) colors"
proof (induction n arbitrary: ss colors)
  case (Suc n)
  then obtain color ss' cs where c: "extract_int ss = Some (color, ss')" "0 \<le> color" "color < int MaxColors"
    "colors_loop n ss' = Some cs" "colors = nat color # cs"
    by (auto split: option.splits if_splits)
  have "nat color < MaxColors" using c(2,3) by (simp add: nat_less_iff)
  then show ?case using Suc.IH [OF c(4)] c(5) by simp
qed simp

lemma InitColors_ok: "colors_ok c \<Longrightarrow> colors_ok (AppenderConsole_InitColors str c)"
  using colors_loop_ok by (cases c) (auto simp: AppenderConsole_InitColors_def colors_ok_def split: option.splits)

lemma colors_ok_new: "colors_ok (False, colors)"
  by (simp add: colors_ok_def)

lemma color_index_less: "color_index level < MaxLogLevels"
  by (simp add: color_index_def MaxLogLevels_def)

lemma console_writes:
  assumes "colors_ok (colored, colors)"
  shows "\<exists>w'. AppenderConsole_write colored colors m w = Some w'"
proof (cases colored)
  case True
  then have "colors ! color_index (lm_level m) < length UnixColorFG"
    using assms color_index_less [of "lm_level m"]
    by (auto simp: colors_ok_def list_all_length UnixColorFG_def MaxColors_def)
  then show ?thesis by (simp add: AppenderConsole_write_def AppenderConsole_SetColor_def Let_def)
qed (simp add: AppenderConsole_write_def Let_def)

section \<open>Lemmas on files\<close>

lemma OpenFile_keeps:
  "AppenderFile_OpenFile env filename mode backup f w = (stream, f', w') \<Longrightarrow>
   af_filename f' = af_filename f \<and> af_dynamicName f' = af_dynamicName f \<and> af_logDir f' = af_logDir f \<and>
   af_maxFileSize f' = af_maxFileSize f \<and> af_backup f' = af_backup f"
  by (auto simp: AppenderFile_OpenFile_def AppenderFile_CloseFile_def Let_def split: prod.splits option.splits if_splits)

lemma file_writes:
  assumes "name_ok f"
  shows "\<exists>f' w'. AppenderFile_write env m f w = Some (f', w') \<and> name_ok f'"
proof (cases "af_dynamicName f")
  case True
  then obtain namebuf where n: "format_name (af_filename f) (Some (lm_param1 m)) = Some namebuf"
    using assms by (auto simp: name_ok_def)
  obtain stream f' w' where o: "AppenderFile_OpenFile env (take (TRINITY_PATH_MAX - 1) namebuf) ''a''
      (af_backup f \<or> af_maxFileSize f > 0 \<and> af_fileSize f + ucast (LogMessage_Size m) > af_maxFileSize f) f w
      = (stream, f', w')"
    by (metis prod_cases3)
  then show ?thesis
    using assms True n OpenFile_keeps [OF o]
    by (cases stream) (auto simp: AppenderFile_write_def Let_def name_ok_def)
next
  case False
  obtain stream f' w' where o: "AppenderFile_OpenFile env (af_filename f) ''w'' True f w = (stream, f', w')"
    by (metis prod_cases3)
  show ?thesis
    using False o OpenFile_keeps [OF o]
    by (auto simp: AppenderFile_write_def Let_def name_ok_def split: option.splits)
qed

lemma appender_writes:
  assumes "sink_ok (ap_sink a)"
  shows "\<exists>m' a' w'. Appender_write env m a w = Some (m', a', w') \<and> sink_ok (ap_sink a') \<and>
    ap_name a' = ap_name a \<and> ap_id a' = ap_id a"
proof (cases "ap_sink a")
  case (Console colored colors)
  then show ?thesis
    using assms console_writes [of colored colors "m\<lparr>lm_prefix := appender_prefix env (ap_flags a) m\<rparr>" w]
    by (auto simp: Appender_write_def Let_def)
next
  case (File f)
  then show ?thesis
    using assms file_writes [of f env "m\<lparr>lm_prefix := appender_prefix env (ap_flags a) m\<rparr>" w]
    by (auto simp: Appender_write_def Let_def)
qed

lemma backup_name_differs [simp]: "backup_name env path t \<noteq> path" "path \<noteq> backup_name env path t"
proof -
  have "length (backup_name env path t) \<noteq> length path" by (simp add: backup_name_def)
  then show "backup_name env path t \<noteq> path" "path \<noteq> backup_name env path t" by metis+
qed

lemma OpenFile_backup:
  assumes "le_renames env path (backup_name env path (io_clock w (io_readings w)))"
    and "af_logDir f @ filename = path" and "io_files w path = Some old"
    and "le_fopen env path ''w'' None = Some ([], 0)"
  shows "AppenderFile_OpenFile env filename ''w'' True f w =
    (Some path, f\<lparr>af_logfile := None, af_fileSize := 0\<rparr>,
     w\<lparr>io_readings := Suc (io_readings w),
       io_files := (io_files w)(backup_name env path (io_clock w (io_readings w)) := Some old, path := Some [])\<rparr>)"
proof -
  have "(io_files w)(path := None, backup_name env path t := Some old, path := Some []) =
      (io_files w)(backup_name env path t := Some old, path := Some [])" for t
    by (auto simp: fun_eq_iff)
  then show ?thesis
    using assms by (simp add: AppenderFile_OpenFile_def read_time_def Let_def rename_file_def
        AppenderFile_CloseFile_def)
qed

section \<open>Properties\<close>


text \<open>
  The colors of a console. Whatever texts it is configured with, one after another, an
  appender that has colors has one for every level, all of them in the table: a message is always
  written, without reading past an array.
\<close>

theorem console_in_table:
  "\<exists>w'. (case fold AppenderConsole_InitColors strs (False, replicate MaxLogLevels MaxColors) of
     (colored, colors) \<Rightarrow> AppenderConsole_write colored colors m w = Some w')"
proof -
  have "colors_ok c \<Longrightarrow> colors_ok (fold AppenderConsole_InitColors strs c)" for c
    by (induction strs arbitrary: c) (auto simp: InitColors_ok)
  then have "colors_ok (fold AppenderConsole_InitColors strs (False, replicate MaxLogLevels MaxColors))"
    by (simp add: colors_ok_new)
  then show ?thesis
    using console_writes by (cases "fold AppenderConsole_InitColors strs (False, replicate MaxLogLevels MaxColors)") auto
qed

definition demo_log_env :: log_env where
  "demo_log_env =
     \<lparr>le_localtime = (\<lambda>t. \<lparr>tm_min = 0, tm_hour = 0, tm_mday = 1, tm_mon = 0, tm_year = 124, tm_wday = 0, tm_sec = 0\<rparr>),
      le_fopen = (\<lambda>path mode old. if mode = ''w'' then Some ([], 0) else None),
      le_renames = (\<lambda>from_name to_name. True)\<rparr>"


end
