(* ===== verification/Logging.thy ===== *)
theory Logging
  imports Appenders Config
begin

text \<open>
  Loggers and the log: \<^verbatim>\<open>Logger.cpp\<close>, \<^verbatim>\<open>LogOperation.cpp\<close>, \<^verbatim>\<open>Log.h\<close> and
  \<^verbatim>\<open>Log.cpp\<close> of \<^verbatim>\<open>src/server/shared/Logging\<close>. Appenders are shared between the log
  and the loggers, so they live in a store of addresses; a use of a deleted appender or of a logger
  that is gone is \<open>None\<close>, as are the exceptions and undefined operations of the code. The
  unordered maps are lists of entries with distinct keys; the order of iteration is the one of
  the list, the newest entry last.
\<close>

section \<open>Maps\<close>

definition map_find :: "'k \<Rightarrow> ('k \<times> 'v) list \<Rightarrow> 'v option" where
  "map_find k m = map_of m k"

definition map_put :: "'k \<Rightarrow> 'v \<Rightarrow> ('k \<times> 'v) list \<Rightarrow> ('k \<times> 'v) list" where
  "map_put k v m =
     (if k \<in> fst ` set m then map (\<lambda>(k', v'). if k' = k then (k', v) else (k', v')) m else m @ [(k, v)])"

definition map_erase :: "'k \<Rightarrow> ('k \<times> 'v) list \<Rightarrow> ('k \<times> 'v) list" where
  "map_erase k m = filter (\<lambda>(k', v). k' \<noteq> k) m"

section \<open>Loggers\<close>

record logger =
  lg_name :: string
  lg_level :: u32
  lg_appenders :: "(u8 \<times> nat) list"

definition Logger_new :: logger where
  "Logger_new = \<lparr>lg_name = [], lg_level = LOG_LEVEL_DISABLED, lg_appenders = []\<rparr>"

definition Logger_Create :: "string \<Rightarrow> u32 \<Rightarrow> logger \<Rightarrow> logger" where
  "Logger_Create name level l = l\<lparr>lg_name := name, lg_level := level\<rparr>"

definition Logger_addAppender :: "u8 \<Rightarrow> nat \<Rightarrow> logger \<Rightarrow> logger" where
  "Logger_addAppender aid appender l = l\<lparr>lg_appenders := map_put aid appender (lg_appenders l)\<rparr>"

definition Logger_delAppender :: "u8 \<Rightarrow> logger \<Rightarrow> logger" where
  "Logger_delAppender aid l = l\<lparr>lg_appenders := map_erase aid (lg_appenders l)\<rparr>"

definition Logger_setLogLevel :: "u32 \<Rightarrow> logger \<Rightarrow> logger" where
  "Logger_setLogLevel level l = l\<lparr>lg_level := level\<rparr>"

type_synonym appender_store = "nat \<Rightarrow> appender option"

fun write_loop ::
    "log_env \<Rightarrow> (u8 \<times> nat) list \<Rightarrow> log_message \<Rightarrow> appender_store \<Rightarrow> log_io
     \<Rightarrow> (appender_store \<times> log_io) option" where
  "write_loop env [] m st w = Some (st, w)"
| "write_loop env ((aid, p) # entries) m st w = do {
     a \<leftarrow> st p;
     (m, a, w) \<leftarrow> Appender_write env m a w;
     write_loop env entries m (st(p := Some a)) w
   }"

definition Logger_write ::
    "log_env \<Rightarrow> log_message \<Rightarrow> logger \<Rightarrow> appender_store \<Rightarrow> log_io \<Rightarrow> (appender_store \<times> log_io) option" where
  "Logger_write env m l st w =
     (if lg_level l = LOG_LEVEL_DISABLED \<or> lg_level l > lm_level m \<or> lm_text m = [] then Some (st, w)
      else write_loop env (lg_appenders l) m st w)"

section \<open>The log\<close>

text \<open>
  The loggers of one \<^verbatim>\<open>LoadFromConfig\<close> are a generation; a pointer to a logger is the
  generation and the name it is stored under. \<open>log_pending\<close> are the operations posted
  to the strand; \<open>log_next\<close> is the next free address.
\<close>

record log =
  log_appenders :: "(u8 \<times> nat) list"
  log_loggers :: "(string \<times> logger) list"
  log_AppenderId :: u8
  log_logsDir :: string
  log_logsTimestamp :: string
  log_ioService :: bool
  log_generation :: nat
  log_pending :: "((nat \<times> string) option \<times> log_message) list"
  log_store :: appender_store
  log_next :: nat
  log_io :: log_io

definition LOGGER_ROOT :: string where "LOGGER_ROOT = ''root''"

definition report :: "string \<Rightarrow> log \<Rightarrow> log" where
  "report str l = l\<lparr>log_io := print_to False str (log_io l)\<rparr>"

definition Log_NextAppenderId :: "log \<Rightarrow> u8 \<times> log" where
  "Log_NextAppenderId l = (log_AppenderId l, l\<lparr>log_AppenderId := log_AppenderId l + 1\<rparr>)"

text \<open>A \<^verbatim>\<open>new\<close> appender, entered under its number.\<close>

definition enter_appender :: "u8 \<Rightarrow> appender \<Rightarrow> log \<Rightarrow> log" where
  "enter_appender aid a l =
     l\<lparr>log_store := (log_store l)(log_next l := Some a), log_next := Suc (log_next l),
       log_appenders := map_put aid (log_next l) (log_appenders l)\<rparr>"

definition Log_Close :: "log \<Rightarrow> log" where
  "Log_Close l =
     l\<lparr>log_loggers := [], log_generation := Suc (log_generation l),
       log_store := (\<lambda>p. if p \<in> snd ` set (log_appenders l) then None else log_store l p),
       log_appenders := []\<rparr>"

fun find_appender :: "string \<Rightarrow> appender_store \<Rightarrow> (u8 \<times> nat) list \<Rightarrow> nat option option" where
  "find_appender name st [] = Some None"
| "find_appender name st ((aid, p) # entries) = do {
     a \<leftarrow> st p;
     if ap_name a \<noteq> name then find_appender name st entries else Some (Some p)
   }"

text \<open>A pointer, null if there is none of the name.\<close>

definition Log_GetAppenderByName :: "string \<Rightarrow> log \<Rightarrow> nat option option" where
  "Log_GetAppenderByName name l = find_appender name (log_store l) (log_appenders l)"

text \<open>The part before the last dot; the root's name without a dot.\<close>

definition last_dot :: "string \<Rightarrow> nat option" where
  "last_dot type = (if CHR ''.'' \<in> set type then Some (length type - Suc (length (takeWhile (\<lambda>c. c \<noteq> CHR ''.'') (rev type)))) else None)"

definition parentLogger :: "string \<Rightarrow> string" where
  "parentLogger type = (case last_dot type of Some found \<Rightarrow> take found type | None \<Rightarrow> LOGGER_ROOT)"

lemma last_dot_less: "last_dot type = Some n \<Longrightarrow> n < length type"
  by (cases type) (auto simp: last_dot_def split: if_splits)

function Log_GetLoggerByType :: "string \<Rightarrow> log \<Rightarrow> string option" where
  "Log_GetLoggerByType type l =
     (if map_find type (log_loggers l) \<noteq> None then Some type
      else if type = LOGGER_ROOT then None
      else Log_GetLoggerByType (parentLogger type) l)"
  by pat_completeness auto
termination
  by (relation "measure (\<lambda>(type, l). if type = LOGGER_ROOT then 0 else Suc (length type))")
    (auto simp: parentLogger_def dest: last_dot_less split: option.splits)

declare Log_GetLoggerByType.simps [simp del]

definition Log_ShouldLog :: "string \<Rightarrow> u32 \<Rightarrow> log \<Rightarrow> bool" where
  "Log_ShouldLog type level l =
     (case Log_GetLoggerByType type l of
        None \<Rightarrow> False
      | Some name \<Rightarrow>
          (case map_find name (log_loggers l) of
             None \<Rightarrow> False
           | Some logger \<Rightarrow> lg_level logger \<noteq> LOG_LEVEL_DISABLED \<and> lg_level logger \<le> level))"

section \<open>Writing\<close>

text \<open>A logger is read through its pointer; one of an earlier generation is gone.\<close>

definition write_through :: "log_env \<Rightarrow> (nat \<times> string) option \<Rightarrow> log_message \<Rightarrow> log \<Rightarrow> log option" where
  "write_through env ptr m l = do {
     (gen, name) \<leftarrow> ptr;
     logger \<leftarrow> (if gen = log_generation l then map_find name (log_loggers l) else None);
     (st, w) \<leftarrow> Logger_write env m logger (log_store l) (log_io l);
     Some (l\<lparr>log_store := st, log_io := w\<rparr>)
   }"

definition LogOperation_call :: "log_env \<Rightarrow> (nat \<times> string) option \<times> log_message \<Rightarrow> log \<Rightarrow> log option" where
  "LogOperation_call env = (\<lambda>(ptr, m) l. if ptr \<noteq> None then write_through env ptr m l else Some l)"

definition Log_write :: "log_env \<Rightarrow> log_message \<Rightarrow> log \<Rightarrow> log option" where
  "Log_write env m l =
     (let ptr = map_option (\<lambda>name. (log_generation l, name)) (Log_GetLoggerByType (lm_type m) l);
          m = m\<lparr>lm_text := lm_text m @ [CHR 0x0A]\<rparr>
      in if log_ioService l then Some (l\<lparr>log_pending := log_pending l @ [(ptr, m)]\<rparr>)
         else write_through env ptr m l)"

text \<open>The strand runs the operation posted first.\<close>

definition strand_step :: "log_env \<Rightarrow> log \<Rightarrow> log option" where
  "strand_step env l =
     (case log_pending l of
        [] \<Rightarrow> Some l
      | operation # pending \<Rightarrow> LogOperation_call env operation (l\<lparr>log_pending := pending\<rparr>))"

definition MAX_QUERY_LEN :: nat where "MAX_QUERY_LEN = 32 * 1024"

text \<open>
  A new message with a text cut to the size of the buffer of \<^verbatim>\<open>vsnprintf\<close>; \<open>str\<close> is the
  formatted text.
\<close>

definition Log_outMessage :: "log_env \<Rightarrow> string \<Rightarrow> u32 \<Rightarrow> string \<Rightarrow> log \<Rightarrow> log option" where
  "Log_outMessage env filterType level str l =
     (let text = take (MAX_QUERY_LEN - 1) str;
          (m, w) = LogMessage_new level filterType text (log_io l)
      in Log_write env m (l\<lparr>log_io := w\<rparr>))"

text \<open>\<^verbatim>\<open>TC_LOG_MESSAGE_BODY\<close>.\<close>

definition tc_log :: "log_env \<Rightarrow> string \<Rightarrow> u32 \<Rightarrow> string \<Rightarrow> log \<Rightarrow> log option" where
  "tc_log env filterType level str l =
     (if Log_ShouldLog filterType level l then Log_outMessage env filterType level str l else Some l)"

definition Log_outCharDump :: "log_env \<Rightarrow> string option \<Rightarrow> u32 \<Rightarrow> u32 \<Rightarrow> string \<Rightarrow> log \<Rightarrow> log option" where
  "Log_outCharDump env str accountId guid name l =
     (case str of
        None \<Rightarrow> Some l
      | Some str \<Rightarrow>
          if \<not> Log_ShouldLog ''entities.player.dump'' LOG_LEVEL_INFO l then Some l
          else let text = ''== START DUMP == (account: '' @ digits (unat accountId) @ '' guid: '' @
                     digits (unat guid) @ '' name: '' @ name @ '')'' @ [CHR 0x0A] @ str @ [CHR 0x0A] @
                     ''== END DUMP =='' @ [CHR 0x0A];
                   (m, w) = LogMessage_new LOG_LEVEL_INFO ''entities.player.dump'' text (log_io l);
                   m = m\<lparr>lm_param1 := digits (unat guid) @ ''_'' @ name\<rparr>
               in Log_write env m (l\<lparr>log_io := w\<rparr>))"

definition Log_outCommand :: "log_env \<Rightarrow> u32 \<Rightarrow> string option \<Rightarrow> log \<Rightarrow> log option" where
  "Log_outCommand env account str l =
     (case str of
        None \<Rightarrow> Some l
      | Some str \<Rightarrow>
          if \<not> Log_ShouldLog ''commands.gm'' LOG_LEVEL_INFO l then Some l
          else let (m, w) = LogMessage_new LOG_LEVEL_INFO ''commands.gm'' (take (MAX_QUERY_LEN - 1) str) (log_io l);
                   m = m\<lparr>lm_param1 := digits (unat account)\<rparr>
               in Log_write env m (l\<lparr>log_io := w\<rparr>))"

section \<open>Levels at run time\<close>

text \<open>The test \<^verbatim>\<open>newLevel < 0\<close> is one of an unsigned number.\<close>

fun find_logger :: "string \<Rightarrow> (string \<times> logger) list \<Rightarrow> string option" where
  "find_logger name [] = None"
| "find_logger name ((key, logger) # entries) =
     (if lg_name logger \<noteq> name then find_logger name entries else Some key)"

definition Log_SetLogLevel :: "string \<Rightarrow> string \<Rightarrow> bool \<Rightarrow> log \<Rightarrow> (bool \<times> log) option" where
  "Log_SetLogLevel name newLevelc isLogger l = do {
     newLevel \<leftarrow> map_option word_of_int (atoi newLevelc);
     if (newLevel :: u32) < 0 then Some (False, l)
     else if isLogger then
       (case find_logger name (log_loggers l) of
          None \<Rightarrow> Some (False, l)
        | Some key \<Rightarrow> do {
            logger \<leftarrow> map_find key (log_loggers l);
            Some (True, l\<lparr>log_loggers := map_put key (Logger_setLogLevel newLevel logger) (log_loggers l)\<rparr>)
          })
     else do {
       appender \<leftarrow> Log_GetAppenderByName name l;
       (case appender of
          None \<Rightarrow> Some (False, l)
        | Some p \<Rightarrow> do {
            a \<leftarrow> log_store l p;
            Some (True, l\<lparr>log_store := (log_store l)(p := Some (Appender_setLogLevel newLevel a))\<rparr>)
          })
     }
   }"

section \<open>The configuration of the log\<close>

definition suffix_from :: "nat \<Rightarrow> string \<Rightarrow> string option" where
  "suffix_from pos str = (if pos > length str then None else Some (drop pos str))"

text \<open>The console and the file of \<^verbatim>\<open>CreateAppenderFromConfig\<close>, from the tokens of the options.\<close>

definition create_console :: "string list \<Rightarrow> string \<Rightarrow> u32 \<Rightarrow> u32 \<Rightarrow> log \<Rightarrow> log" where
  "create_console tokens name level flags l =
     (let (aid, l) = Log_NextAppenderId l;
          a = AppenderConsole_new aid name level flags;
          a = (if length tokens > 3
               then a\<lparr>ap_sink := (case ap_sink a of
                        Console colored colors \<Rightarrow>
                          (let (colored, colors) = AppenderConsole_InitColors (tokens ! 3) (colored, colors)
                           in Console colored colors)
                      | File f \<Rightarrow> File f)\<rparr>
               else a)
      in enter_appender aid a l)"

definition create_file :: "log_env \<Rightarrow> string list \<Rightarrow> string \<Rightarrow> u32 \<Rightarrow> u32 \<Rightarrow> log \<Rightarrow> log option" where
  "create_file env tokens name level flags l =
     (if length tokens < 4 then
        Some (report (''Log::CreateAppenderFromConfig: Missing file name for appender '' @ name @ [CHR 0x0A]) l)
      else do {
        let filename = tokens ! 3;
        let mode = (if length tokens > 4 then tokens ! 4 else ''a'');
        let filename =
          (if flags AND APPENDER_FLAGS_USE_TIMESTAMP \<noteq> 0 then
             (case last_dot filename of
                Some dot_pos \<Rightarrow> take dot_pos filename @ log_logsTimestamp l @ drop dot_pos filename
              | None \<Rightarrow> filename @ log_logsTimestamp l)
           else filename);
        maxFileSize \<leftarrow> (if length tokens > 5 then map_option word_of_int (atoi (tokens ! 5)) else Some 0);
        let (aid, l) = Log_NextAppenderId l;
        let (a, w) = AppenderFile_new env aid name level filename (log_logsDir l) mode flags maxFileSize (log_io l);
        Some (enter_appender aid a (l\<lparr>log_io := w\<rparr>))
      })"

definition Log_CreateAppenderFromConfig ::
    "log_env \<Rightarrow> config_mgr \<Rightarrow> string \<Rightarrow> log \<Rightarrow> log option" where
  "Log_CreateAppenderFromConfig env mgr appenderName l =
     (if appenderName = [] then Some l
      else do {
        let options = ConfigMgr_GetStringDefault appenderName [] mgr;
        tokens \<leftarrow> Tokenizer options (CHR '','');
        name \<leftarrow> suffix_from 9 appenderName;
        if length tokens < 2 then
          Some (report (''Log::CreateAppenderFromConfig: Wrong configuration for appender '' @ name @
            ''. Config line: '' @ options @ [CHR 0x0A]) l)
        else do {
          type \<leftarrow> map_option word_of_int (atoi (tokens ! 0));
          level \<leftarrow> map_option word_of_int (atoi (tokens ! 1));
          if (level :: u32) > LOG_LEVEL_FATAL then
            Some (report (''Log::CreateAppenderFromConfig: Wrong Log Level '' @ zero_padded 0 (sint level) @
              '' for appender '' @ name @ [CHR 0x0A]) l)
          else do {
            flags \<leftarrow> (if length tokens > 2 then map_option word_of_int (atoi (tokens ! 2))
                      else Some APPENDER_FLAGS_NONE);
            if (type :: u32) = APPENDER_CONSOLE then Some (create_console tokens name level flags l)
            else if type = APPENDER_FILE then create_file env tokens name level flags l
            else if type = APPENDER_DB then Some l
            else
              Some (report (''Log::CreateAppenderFromConfig: Unknown type '' @ zero_padded 0 (sint type) @
                '' for appender '' @ name @ [CHR 0x0A]) l)
          }
        }
      })"

text \<open>The words of a text, as \<^verbatim>\<open>ss >> str\<close> reads them.\<close>

function stream_words :: "string \<Rightarrow> string list" where
  "stream_words ss =
     (let ss = dropWhile isspace ss
      in if ss = [] then []
         else takeWhile (\<lambda>c. \<not> isspace c) ss # stream_words (dropWhile (\<lambda>c. \<not> isspace c) ss))"
  by pat_completeness auto
termination
proof (relation "measure length")
  fix ss x :: string
  assume x: "x = dropWhile isspace ss" "x \<noteq> []"
  then have "\<not> isspace (hd x)" using hd_dropWhile [of isspace ss] by simp
  then have "length (dropWhile (\<lambda>c. \<not> isspace c) x) < length x"
    using x(2) by (cases x) (auto simp: le_imp_less_Suc length_dropWhile_le)
  also have "length x \<le> length ss" using x by (simp add: length_dropWhile_le)
  finally show "(dropWhile (\<lambda>c. \<not> isspace c) x, ss) \<in> measure length" by simp
qed simp

declare stream_words.simps [simp del]

text \<open>The appenders of a new logger, stored under \<open>key\<close>.\<close>

fun add_appenders :: "string list \<Rightarrow> string \<Rightarrow> log \<Rightarrow> log option" where
  "add_appenders [] key l = Some l"
| "add_appenders (str # strs) key l = do {
     appender \<leftarrow> Log_GetAppenderByName str l;
     l \<leftarrow> (case appender of
            Some p \<Rightarrow> do {
              a \<leftarrow> log_store l p;
              logger \<leftarrow> map_find key (log_loggers l);
              Some (l\<lparr>log_loggers := map_put key (Logger_addAppender (ap_id a) p logger) (log_loggers l)\<rparr>)
            }
          | None \<Rightarrow>
              Some (report (''Error while configuring Appender '' @ str @ '' in Logger '' @ key @
                ''. Appender does not exist'') l));
     add_appenders strs key l
   }"

text \<open>\<^verbatim>\<open>loggers[name]\<close> creates an empty logger before the options are checked.\<close>

definition logger_entry :: "string \<Rightarrow> log \<Rightarrow> logger \<times> log" where
  "logger_entry name l =
     (case map_find name (log_loggers l) of
        Some logger \<Rightarrow> (logger, l)
      | None \<Rightarrow> (Logger_new, l\<lparr>log_loggers := map_put name Logger_new (log_loggers l)\<rparr>))"

definition Log_CreateLoggerFromConfig :: "config_mgr \<Rightarrow> string \<Rightarrow> log \<Rightarrow> log option" where
  "Log_CreateLoggerFromConfig mgr appenderName l =
     (if appenderName = [] then Some l
      else do {
        let options = ConfigMgr_GetStringDefault appenderName [] mgr;
        name \<leftarrow> suffix_from 7 appenderName;
        if options = [] then
          Some (report (''Log::CreateLoggerFromConfig: Missing config option Logger.'' @ name @ [CHR 0x0A]) l)
        else do {
          tokens \<leftarrow> Tokenizer options (CHR '','');
          if length tokens \<noteq> 2 then
            Some (report (''Log::CreateLoggerFromConfig: Wrong config option Logger.'' @ name @ ''='' @
              options @ [CHR 0x0A]) l)
          else do {
            let (logger, l) = logger_entry name l;
            if lg_name logger \<noteq> [] then
              Some (report (''Error while configuring Logger '' @ name @ ''. Already defined'' @ [CHR 0x0A]) l)
            else do {
              level \<leftarrow> map_option word_of_int (atoi (tokens ! 0));
              if level > LOG_LEVEL_FATAL then
                Some (report (''Log::CreateLoggerFromConfig: Wrong Log Level 255 for logger '' @ name @
                  [CHR 0x0A]) l)
              else
                add_appenders (stream_words (tokens ! 1)) name
                  (l\<lparr>log_loggers := map_put name (Logger_Create name level logger) (log_loggers l)\<rparr>)
            }
          }
        }
      })"

fun Log_ReadAppendersFromConfig :: "log_env \<Rightarrow> config_mgr \<Rightarrow> string list \<Rightarrow> log \<Rightarrow> log option" where
  "Log_ReadAppendersFromConfig env mgr [] l = Some l"
| "Log_ReadAppendersFromConfig env mgr (key # keys) l = do {
     l \<leftarrow> Log_CreateAppenderFromConfig env mgr key l;
     Log_ReadAppendersFromConfig env mgr keys l
   }"

fun read_loggers :: "config_mgr \<Rightarrow> string list \<Rightarrow> log \<Rightarrow> log option" where
  "read_loggers mgr [] l = Some l"
| "read_loggers mgr (key # keys) l = do {
     l \<leftarrow> Log_CreateLoggerFromConfig mgr key l;
     read_loggers mgr keys l
   }"

text \<open>
  The default loggers. \<^verbatim>\<open>logger = loggers["server"]\<close> assigns through the reference, which is
  bound to the entry of the root.
\<close>

definition default_loggers :: "log \<Rightarrow> log" where
  "default_loggers l =
     (let l = report (''Wrong Loggers configuration. Review your Logger config section.'' @ [CHR 0x0A] @
                ''Creating default loggers [root (Error), server (Info)] to console'' @ [CHR 0x0A]) l;
          l = Log_Close l;
          (aid, l) = Log_NextAppenderId l;
          p = log_next l;
          l = enter_appender aid (AppenderConsole_new aid ''Console'' LOG_LEVEL_DEBUG APPENDER_FLAGS_NONE) l;
          (logger, l) = logger_entry LOGGER_ROOT l;
          logger = Logger_addAppender aid p (Logger_Create LOGGER_ROOT LOG_LEVEL_ERROR logger);
          l = l\<lparr>log_loggers := map_put LOGGER_ROOT logger (log_loggers l)\<rparr>;
          (server, l) = logger_entry ''server'' l;
          logger = server;
          logger = Logger_addAppender aid p (Logger_Create ''server'' LOG_LEVEL_ERROR logger)
      in l\<lparr>log_loggers := map_put LOGGER_ROOT logger (log_loggers l)\<rparr>)"

definition Log_ReadLoggersFromConfig :: "config_mgr \<Rightarrow> log \<Rightarrow> log option" where
  "Log_ReadLoggersFromConfig mgr l = do {
     l \<leftarrow> read_loggers mgr (ConfigMgr_GetKeysByString ''Logger.'' mgr) l;
     Some (if map_find LOGGER_ROOT (log_loggers l) = None then default_loggers l else l)
   }"

definition Log_LoadFromConfig :: "log_env \<Rightarrow> config_mgr \<Rightarrow> log \<Rightarrow> log option" where
  "Log_LoadFromConfig env mgr l =
     (let l = Log_Close l;
          l = l\<lparr>log_AppenderId := 0\<rparr>;
          logsDir = ConfigMgr_GetStringDefault ''LogsDir'' [] mgr;
          logsDir = (if logsDir \<noteq> [] \<and> last logsDir \<noteq> CHR ''/'' \<and> last logsDir \<noteq> CHR 0x5C
                     then logsDir @ ''/'' else logsDir);
          l = l\<lparr>log_logsDir := logsDir\<rparr>
      in do {
        l \<leftarrow> Log_ReadAppendersFromConfig env mgr (ConfigMgr_GetKeysByString ''Appender.'' mgr) l;
        Log_ReadLoggersFromConfig mgr l
      })"

text \<open>The constructor, and \<^verbatim>\<open>instance\<close> with a service.\<close>

definition Log_GetTimestampStr :: "log_env \<Rightarrow> log_io \<Rightarrow> string \<times> log_io" where
  "Log_GetTimestampStr env w = (let (t, w) = read_time w in (TimeToTimestampStr env t, w))"

definition Log_new :: "log_env \<Rightarrow> config_mgr \<Rightarrow> log_io \<Rightarrow> log option" where
  "Log_new env mgr w =
     (let (stamp, w) = Log_GetTimestampStr env w
      in Log_LoadFromConfig env mgr
           \<lparr>log_appenders = [], log_loggers = [], log_AppenderId = 0, log_logsDir = [],
            log_logsTimestamp = ''_'' @ stamp, log_ioService = False,
            log_generation = 0, log_pending = [], log_store = (\<lambda>p. None), log_next = 0, log_io = w\<rparr>)"

definition Log_instance :: "bool \<Rightarrow> log \<Rightarrow> log" where
  "Log_instance service l = (if service then l\<lparr>log_ioService := True\<rparr> else l)"

section \<open>Lemmas on the search for a logger\<close>

definition configured :: "string \<Rightarrow> log \<Rightarrow> bool" where
  "configured name l \<longleftrightarrow> map_find name (log_loggers l) \<noteq> None"

text \<open>The text before some dot of the type, or all of it.\<close>

definition dotted_prefix :: "string \<Rightarrow> string \<Rightarrow> bool" where
  "dotted_prefix name type \<longleftrightarrow> name = type \<or> prefix (name @ ''.'') type"

lemma last_dot_split:
  "last_dot type = Some n \<Longrightarrow> \<exists>rest. type = take n type @ CHR ''.'' # rest \<and> CHR ''.'' \<notin> set rest"
proof -
  assume "last_dot type = Some n"
  then have d: "CHR ''.'' \<in> set (rev type)"
    and n: "n = length type - Suc (length (takeWhile (\<lambda>c. c \<noteq> CHR ''.'') (rev type)))"
    by (auto simp: last_dot_def split: if_splits)
  from split_list_first [OF d] obtain ys zs where r: "rev type = ys @ CHR ''.'' # zs" "CHR ''.'' \<notin> set ys" by blast
  have "type = rev (rev type)" by simp
  also have "\<dots> = rev zs @ CHR ''.'' # rev ys" by (simp add: r(1))
  finally have t: "type = rev zs @ CHR ''.'' # rev ys" .
  have "takeWhile (\<lambda>c. c \<noteq> CHR ''.'') (ys @ CHR ''.'' # zs) = ys @ takeWhile (\<lambda>c. c \<noteq> CHR ''.'') (CHR ''.'' # zs)"
    by (rule takeWhile_append2) (use r(2) in auto)
  then have "takeWhile (\<lambda>c. c \<noteq> CHR ''.'') (rev type) = ys" using r(1) by simp
  then have "n = length zs" using n t by simp
  then show ?thesis using t r(2) by (auto intro!: exI [of _ "rev ys"])
qed

lemma no_dot: "last_dot type = None \<longleftrightarrow> CHR ''.'' \<notin> set type"
  by (simp add: last_dot_def)

lemma dotted_prefix_parent:
  assumes "last_dot type = Some n"
  shows "dotted_prefix name type \<longleftrightarrow> name = type \<or> dotted_prefix name (take n type)"
proof -
  obtain rest where t: "type = take n type @ CHR ''.'' # rest" "CHR ''.'' \<notin> set rest"
    using last_dot_split [OF assms] by blast
  have "prefix (name @ ''.'') type \<longleftrightarrow> dotted_prefix name (take n type)"
  proof
    assume "prefix (name @ ''.'') type"
    then have "prefix (name @ ''.'') ((take n type @ ''.'') @ rest)" using t(1) by simp
    then have "prefix (name @ ''.'') (take n type @ ''.'') \<or>
        (\<exists>us. name @ ''.'' = (take n type @ ''.'') @ us \<and> prefix us rest)"
      by (simp only: prefix_append)
    then show "dotted_prefix name (take n type)"
    proof
      assume "prefix (name @ ''.'') (take n type @ ''.'')"
      then show ?thesis by (auto simp: dotted_prefix_def prefix_snoc)
    next
      assume "\<exists>us. name @ ''.'' = (take n type @ ''.'') @ us \<and> prefix us rest"
      then obtain us where us: "name @ ''.'' = (take n type @ ''.'') @ us" "prefix us rest" by blast
      have "us = []"
      proof (rule ccontr)
        assume "us \<noteq> []"
        then have "last us = CHR ''.''" using us(1) by (metis last_appendR last_snoc)
        then show False using \<open>us \<noteq> []\<close> us(2) t(2) by (metis last_in_set prefixE Un_iff set_append)
      qed
      then show ?thesis using us(1) by (simp add: dotted_prefix_def)
    qed
  next
    assume "dotted_prefix name (take n type)"
    moreover have "prefix (take n type @ ''.'') type" using t(1) by (metis append.assoc append_Cons append_Nil prefixI)
    ultimately show "prefix (name @ ''.'') type"
      unfolding dotted_prefix_def by (metis prefix_order.trans take_is_prefix)
  qed
  then show ?thesis by (auto simp: dotted_prefix_def)
qed

lemma dotted_prefix_no_dot: "last_dot type = None \<Longrightarrow> dotted_prefix name type \<longleftrightarrow> name = type"
  by (auto simp: dotted_prefix_def no_dot dest!: set_mono_prefix)

lemma dotted_prefix_length: "dotted_prefix name type \<Longrightarrow> length name \<le> length type"
  by (auto simp: dotted_prefix_def dest: prefix_length_le)

lemma GetLoggerByType_root: "configured LOGGER_ROOT l \<Longrightarrow> Log_GetLoggerByType LOGGER_ROOT l = Some LOGGER_ROOT"
  by (simp add: Log_GetLoggerByType.simps configured_def)

lemma GetLoggerByType_longest:
  assumes "configured LOGGER_ROOT l"
  shows "\<exists>name. Log_GetLoggerByType type l = Some name \<and> configured name l \<and>
    (if \<exists>name. configured name l \<and> dotted_prefix name type
     then dotted_prefix name type \<and> (\<forall>other. configured other l \<and> dotted_prefix other type \<longrightarrow> length other \<le> length name)
     else name = LOGGER_ROOT)"
  using assms
proof (induction type l rule: Log_GetLoggerByType.induct)
  case (1 type l)
  show ?case
  proof (cases "configured type l")
    case True
    then have "Log_GetLoggerByType type l = Some type"
      by (simp add: Log_GetLoggerByType.simps [of type l] configured_def)
    moreover have "dotted_prefix type type" by (simp add: dotted_prefix_def)
    ultimately show ?thesis using True dotted_prefix_length by auto
  next
    case False
    then have nr: "type \<noteq> LOGGER_ROOT" using "1.prems" by auto
    then have step: "Log_GetLoggerByType type l = Log_GetLoggerByType (parentLogger type) l"
      using False by (simp add: Log_GetLoggerByType.simps [of type l] configured_def)
    show ?thesis
    proof (cases "last_dot type")
      case None
      then show ?thesis
        using False "1.prems" step GetLoggerByType_root
        by (auto simp: parentLogger_def dotted_prefix_no_dot)
    next
      case (Some n)
      then have p: "parentLogger type = take n type" by (simp add: parentLogger_def)
      then have parent: "Log_GetLoggerByType type l = Log_GetLoggerByType (take n type) l" using step by simp
      have eq: "configured name l \<and> dotted_prefix name type \<longleftrightarrow> configured name l \<and> dotted_prefix name (take n type)"
        for name using False dotted_prefix_parent [OF Some, of name] by auto
      have nf: "\<not> map_find type (log_loggers l) \<noteq> None" using False by (simp add: configured_def)
      obtain name where name: "Log_GetLoggerByType type l = Some name" "configured name l"
        "if \<exists>name. configured name l \<and> dotted_prefix name (take n type)
         then dotted_prefix name (take n type) \<and>
           (\<forall>other. configured other l \<and> dotted_prefix other (take n type) \<longrightarrow> length other \<le> length name)
         else name = LOGGER_ROOT"
        using "1.IH" [OF nf nr "1.prems", unfolded p] unfolding parent by blast
      then show ?thesis unfolding eq using eq [of name] by (intro exI [of _ name]) (simp split: if_splits)
    qed
  qed
qed

section \<open>No pointer dangles\<close>

definition logger_ptrs :: "logger \<Rightarrow> nat set" where
  "logger_ptrs g = snd ` set (lg_appenders g)"

definition log_wf :: "log \<Rightarrow> bool" where
  "log_wf l \<longleftrightarrow>
     snd ` set (log_appenders l) \<subseteq> dom (log_store l) \<and>
     \<Union> (logger_ptrs ` snd ` set (log_loggers l)) \<subseteq> dom (log_store l) \<and>
     dom (log_store l) \<subseteq> {..<log_next l}"

definition sinks_ok :: "appender_store \<Rightarrow> bool" where
  "sinks_ok st \<longleftrightarrow> (\<forall>p a. st p = Some a \<longrightarrow> sink_ok (ap_sink a))"

lemma map_put_subset: "snd ` set (map_put k v m) \<subseteq> insert v (snd ` set m)"
  by (auto simp: map_put_def image_iff split: if_splits)

lemma map_find_in: "map_find k m = Some v \<Longrightarrow> v \<in> snd ` set m"
  by (force simp: map_find_def dest: map_of_SomeD)

lemma map_find_put: "map_find k' (map_put k v m) = (if k' = k then Some v else map_find k' m)"
proof -
  have "map_of (map (\<lambda>(k', v'). if k' = k then (k', v) else (k', v')) m) k' =
      (if k' = k then map_option (\<lambda>_. v) (map_of m k) else map_of m k')"
    by (induction m) auto
  moreover have "k \<in> fst ` set m \<longleftrightarrow> map_of m k \<noteq> None" by (simp add: map_of_eq_None_iff)
  ultimately show ?thesis
    by (auto simp: map_find_def map_put_def map_of_append map_add_def split: option.splits)
qed

lemma wf_fields [simp]:
  "log_wf (report str l) = log_wf l" "log_wf (l\<lparr>log_io := w\<rparr>) = log_wf l"
  "log_wf (l\<lparr>log_AppenderId := n\<rparr>) = log_wf l" "log_wf (l\<lparr>log_logsDir := dir\<rparr>) = log_wf l"
  by (simp_all add: log_wf_def report_def)

lemma log_wfD:
  assumes "log_wf l"
  shows "snd ` set (log_appenders l) \<subseteq> dom (log_store l)"
    "\<Union> (logger_ptrs ` snd ` set (log_loggers l)) \<subseteq> dom (log_store l)"
    "dom (log_store l) \<subseteq> {..<log_next l}"
  using assms by (simp_all add: log_wf_def)

lemma wf_enter: "log_wf l \<Longrightarrow> log_wf (enter_appender aid a l)"
proof -
  assume wf: "log_wf l"
  have "snd ` set (map_put aid (log_next l) (log_appenders l)) \<subseteq> insert (log_next l) (dom (log_store l))"
    by (rule subset_trans [OF map_put_subset]) (rule insert_mono [OF log_wfD(1) [OF wf]])
  moreover have "\<Union> (logger_ptrs ` snd ` set (log_loggers l)) \<subseteq> insert (log_next l) (dom (log_store l))"
    by (rule subset_insertI2 [OF log_wfD(2) [OF wf]])
  moreover have "insert (log_next l) (dom (log_store l)) \<subseteq> {..<Suc (log_next l)}"
    unfolding lessThan_Suc by (rule insert_mono [OF log_wfD(3) [OF wf]])
  ultimately show ?thesis by (simp add: log_wf_def enter_appender_def)
qed

lemma wf_Close: "log_wf l \<Longrightarrow> log_wf (Log_Close l)"
proof -
  assume wf: "log_wf l"
  have "dom (log_store (Log_Close l)) \<subseteq> dom (log_store l)"
    by (auto simp: Log_Close_def split: if_splits)
  then have "dom (log_store (Log_Close l)) \<subseteq> {..<log_next l}"
    by (rule subset_trans) (rule log_wfD(3) [OF wf])
  then show ?thesis by (simp add: log_wf_def) (simp add: Log_Close_def)
qed

lemma wf_put_logger:
  assumes "log_wf l" "logger_ptrs g \<subseteq> dom (log_store l)"
  shows "log_wf (l\<lparr>log_loggers := map_put name g (log_loggers l)\<rparr>)"
proof -
  have "\<Union> (logger_ptrs ` snd ` set (map_put name g (log_loggers l))) \<subseteq>
      \<Union> (logger_ptrs ` insert g (snd ` set (log_loggers l)))"
    using map_put_subset [of name g "log_loggers l"] by blast
  also have "\<dots> \<subseteq> dom (log_store l)" using assms by (simp add: log_wf_def)
  finally show ?thesis using assms(1) by (simp add: log_wf_def)
qed

lemma wf_logger:
  assumes "log_wf l" "map_find name (log_loggers l) = Some g"
  shows "logger_ptrs g \<subseteq> dom (log_store l)"
proof -
  have "logger_ptrs g \<subseteq> \<Union> (logger_ptrs ` snd ` set (log_loggers l))"
    by (rule Union_upper [OF imageI [OF map_find_in [OF assms(2)]]])
  also have "\<dots> \<subseteq> dom (log_store l)" using assms(1) by (simp add: log_wf_def)
  finally show ?thesis .
qed

lemma wf_logger_entry:
  assumes "log_wf l" "logger_entry name l = (g, l')"
  shows "log_wf l' \<and> logger_ptrs g \<subseteq> dom (log_store l') \<and> log_store l' = log_store l"
proof (cases "map_find name (log_loggers l)")
  case None
  moreover have "logger_ptrs Logger_new = {}" by (simp add: Logger_new_def logger_ptrs_def)
  ultimately show ?thesis
    using assms wf_put_logger [OF assms(1), of Logger_new name] by (auto simp: logger_entry_def)
next
  case (Some g')
  then show ?thesis using assms wf_logger [OF assms(1) Some] by (auto simp: logger_entry_def)
qed

lemma wf_create_console: "log_wf l \<Longrightarrow> log_wf (create_console tokens name level flags l)"
  by (simp add: create_console_def Let_def Log_NextAppenderId_def wf_enter)

lemma wf_create_file: "log_wf l \<Longrightarrow> all_results log_wf (create_file env tokens name level flags l)"
  unfolding create_file_def Let_def Log_NextAppenderId_def
  by (intro all_results_intros) (auto intro!: wf_enter)

lemma wf_CreateAppender: "log_wf l \<Longrightarrow> all_results log_wf (Log_CreateAppenderFromConfig env mgr key l)"
  unfolding Log_CreateAppenderFromConfig_def Let_def
  by (intro all_results_intros wf_create_file wf_create_console) simp_all

lemma wf_ReadAppenders: "log_wf l \<Longrightarrow> all_results log_wf (Log_ReadAppendersFromConfig env mgr keys l)"
proof (induction keys arbitrary: l)
  case (Cons key keys)
  then show ?case unfolding Log_ReadAppendersFromConfig.simps
    by (intro all_results_intros) (rule Cons.IH, rule all_resultsD [OF wf_CreateAppender])
qed (simp add: all_results_intros)

lemma logger_ptrs_add: "logger_ptrs (Logger_addAppender aid p g) \<subseteq> insert p (logger_ptrs g)"
  using map_put_subset by (simp add: logger_ptrs_def Logger_addAppender_def)

lemma wf_add_appenders: "log_wf l \<Longrightarrow> add_appenders strs key l = Some l' \<Longrightarrow> log_wf l'"
proof (induction strs arbitrary: l)
  case (Cons str strs)
  then obtain appender l1 where a: "Log_GetAppenderByName str l = Some appender"
    and l1: "(case appender of
            Some p \<Rightarrow> do {
              a \<leftarrow> log_store l p;
              logger \<leftarrow> map_find key (log_loggers l);
              Some (l\<lparr>log_loggers := map_put key (Logger_addAppender (ap_id a) p logger) (log_loggers l)\<rparr>)
            }
          | None \<Rightarrow>
              Some (report (''Error while configuring Appender '' @ str @ '' in Logger '' @ key @
                ''. Appender does not exist'') l)) = Some l1"
    and rest: "add_appenders strs key l1 = Some l'"
    by (auto simp: bind_eq_Some_conv)
  have "log_wf l1"
  proof (cases appender)
    case None
    then show ?thesis using l1 Cons.prems(1) by auto
  next
    case (Some p)
    then obtain a g where g: "log_store l p = Some a" "map_find key (log_loggers l) = Some g"
      "l1 = l\<lparr>log_loggers := map_put key (Logger_addAppender (ap_id a) p g) (log_loggers l)\<rparr>"
      using l1 by (auto simp: bind_eq_Some_conv)
    have "insert p (logger_ptrs g) \<subseteq> dom (log_store l)" using wf_logger [OF Cons.prems(1) g(2)] g(1) by auto
    then have "logger_ptrs (Logger_addAppender (ap_id a) p g) \<subseteq> dom (log_store l)"
      using logger_ptrs_add by blast
    then show ?thesis unfolding g(3) by (rule wf_put_logger [OF Cons.prems(1)])
  qed
  then show ?case using rest by (rule Cons.IH)
qed simp

lemma logger_ptrs_Create [simp]: "logger_ptrs (Logger_Create name level g) = logger_ptrs g"
  by (simp add: logger_ptrs_def Logger_Create_def)

lemma wf_CreateLogger: "log_wf l \<Longrightarrow> all_results log_wf (Log_CreateLoggerFromConfig mgr key l)"
proof -
  assume wf: "log_wf l"
  have entry: "all_results log_wf (add_appenders strs name
      (l'\<lparr>log_loggers := map_put name (Logger_Create name level g) (log_loggers l')\<rparr>))"
    if "logger_entry name l = (g, l')" for strs name level g l'
  proof -
    note e = wf_logger_entry [OF wf that]
    then have "log_wf (l'\<lparr>log_loggers := map_put name (Logger_Create name level g) (log_loggers l')\<rparr>)"
      by (intro wf_put_logger) auto
    then show ?thesis using wf_add_appenders by (auto simp: all_results_def)
  qed
  show ?thesis
    unfolding Log_CreateLoggerFromConfig_def Let_def
    by (intro all_results_intros entry) (use wf wf_logger_entry [OF wf] in auto)
qed

lemma wf_read_loggers: "log_wf l \<Longrightarrow> all_results log_wf (read_loggers mgr keys l)"
proof (induction keys arbitrary: l)
  case (Cons key keys)
  then show ?case unfolding read_loggers.simps
    by (intro all_results_intros) (rule Cons.IH, rule all_resultsD [OF wf_CreateLogger])
qed (simp add: all_results_intros)

text \<open>The default loggers, evaluated.\<close>

lemma default_loggers_eval:
  "\<exists>l1. default_loggers l = l1\<lparr>log_loggers :=
      [(LOGGER_ROOT, \<lparr>lg_name = ''server'', lg_level = LOG_LEVEL_ERROR,
          lg_appenders = [(log_AppenderId l, log_next l)]\<rparr>), (''server'', Logger_new)]\<rparr> \<and>
    l1 = enter_appender (log_AppenderId l)
      (AppenderConsole_new (log_AppenderId l) ''Console'' LOG_LEVEL_DEBUG APPENDER_FLAGS_NONE)
      (snd (Log_NextAppenderId (Log_Close (report (''Wrong Loggers configuration. Review your Logger config section.'' @
        [CHR 0x0A] @ ''Creating default loggers [root (Error), server (Info)] to console'' @ [CHR 0x0A]) l))))"
  by (simp add: default_loggers_def Let_def Log_NextAppenderId_def report_def Log_Close_def logger_entry_def
      map_find_def map_put_def enter_appender_def LOGGER_ROOT_def Logger_new_def Logger_Create_def
      Logger_addAppender_def)

lemma wf_default: "log_wf l \<Longrightarrow> log_wf (default_loggers l)"
proof -
  assume wf: "log_wf l"
  obtain l1 where l1: "default_loggers l = l1\<lparr>log_loggers :=
      [(LOGGER_ROOT, \<lparr>lg_name = ''server'', lg_level = LOG_LEVEL_ERROR,
          lg_appenders = [(log_AppenderId l, log_next l)]\<rparr>), (''server'', Logger_new)]\<rparr>"
    and e: "l1 = enter_appender (log_AppenderId l)
      (AppenderConsole_new (log_AppenderId l) ''Console'' LOG_LEVEL_DEBUG APPENDER_FLAGS_NONE)
      (snd (Log_NextAppenderId (Log_Close (report (''Wrong Loggers configuration. Review your Logger config section.'' @
        [CHR 0x0A] @ ''Creating default loggers [root (Error), server (Info)] to console'' @ [CHR 0x0A]) l))))"
    using default_loggers_eval by blast
  have w1: "log_wf l1" unfolding e by (simp add: Log_NextAppenderId_def wf_enter wf_Close wf)
  have "log_next l \<in> dom (log_store l1)" by (simp add: e enter_appender_def Log_NextAppenderId_def Log_Close_def report_def)
  then show ?thesis using log_wfD [OF w1]
    by (simp add: log_wf_def l1 logger_ptrs_def Logger_new_def)
qed

lemma wf_LoadFromConfig:
  assumes "log_wf l" "Log_LoadFromConfig env mgr l = Some l'"
  shows "log_wf l' \<and> configured LOGGER_ROOT l'"
proof -
  obtain l1 l2 where l1: "Log_ReadAppendersFromConfig env mgr (ConfigMgr_GetKeysByString ''Appender.'' mgr)
      (Log_Close l\<lparr>log_AppenderId := 0, log_logsDir :=
         (let logsDir = ConfigMgr_GetStringDefault ''LogsDir'' [] mgr
          in if logsDir \<noteq> [] \<and> last logsDir \<noteq> CHR ''/'' \<and> last logsDir \<noteq> CHR 0x5C
             then logsDir @ ''/'' else logsDir)\<rparr>) = Some l1"
    and l2: "read_loggers mgr (ConfigMgr_GetKeysByString ''Logger.'' mgr) l1 = Some l2"
    and l': "l' = (if map_find LOGGER_ROOT (log_loggers l2) = None then default_loggers l2 else l2)"
    using assms(2) by (auto simp: Log_LoadFromConfig_def Log_ReadLoggersFromConfig_def Let_def bind_eq_Some_conv)
  have "log_wf l1" by (rule all_resultsD [OF wf_ReadAppenders l1]) (simp add: wf_Close assms(1))
  then have "log_wf l2" by (rule all_resultsD [OF wf_read_loggers l2])
  moreover have "configured LOGGER_ROOT (default_loggers l2)"
    using default_loggers_eval [of l2] by (auto simp: configured_def map_find_def)
  ultimately show ?thesis using wf_default by (auto simp: l' configured_def)
qed

section \<open>Writing, at once and through the strand\<close>

lemma write_loop_total:
  "snd ` set entries \<subseteq> dom st \<Longrightarrow> sinks_ok st \<Longrightarrow>
   \<exists>st' w'. write_loop env entries m st w = Some (st', w') \<and> dom st' = dom st \<and> sinks_ok st'"
proof (induction entries arbitrary: m st w)
  case (Cons e entries)
  obtain aid p where e: "e = (aid, p)" by (cases e)
  then obtain a where a: "st p = Some a" using Cons.prems(1) by auto
  obtain m' a' w' where w: "Appender_write env m a w = Some (m', a', w')" "sink_ok (ap_sink a')"
    using appender_writes Cons.prems(2) a unfolding sinks_ok_def by blast
  have d: "dom (st(p := Some a')) = dom st" using a by auto
  have "snd ` set entries \<subseteq> dom (st(p := Some a'))" unfolding d using Cons.prems(1) by simp
  moreover have "sinks_ok (st(p := Some a'))" using Cons.prems(2) w(2) by (auto simp: sinks_ok_def)
  ultimately obtain st'' w'' where "write_loop env entries m' (st(p := Some a')) w' = Some (st'', w'')"
    "dom st'' = dom (st(p := Some a'))" "sinks_ok st''"
    using Cons.IH [of "st(p := Some a')" m' w'] by blast
  then show ?case using a w(1) d by (auto simp: e)
qed auto

text \<open>The part of the log that messages do not change.\<close>

definition same_setup :: "log \<Rightarrow> log \<Rightarrow> bool" where
  "same_setup l l' \<longleftrightarrow> log_loggers l' = log_loggers l \<and> log_generation l' = log_generation l \<and>
     log_appenders l' = log_appenders l \<and> log_next l' = log_next l \<and>
     dom (log_store l') = dom (log_store l)"

lemma write_through_total:
  assumes "log_wf l" "sinks_ok (log_store l)" "configured name l"
  shows "\<exists>l'. write_through env (Some (log_generation l, name)) m l = Some l' \<and> same_setup l l' \<and>
    sinks_ok (log_store l') \<and> log_pending l' = log_pending l \<and> log_ioService l' = log_ioService l"
proof -
  obtain g where g: "map_find name (log_loggers l) = Some g" using assms(3) by (auto simp: configured_def)
  have "snd ` set (lg_appenders g) \<subseteq> dom (log_store l)"
    using wf_logger [OF assms(1) g] by (simp add: logger_ptrs_def)
  then show ?thesis
    using g write_loop_total [OF _ assms(2), of "lg_appenders g" env m "log_io l"] assms(2)
    by (auto simp: write_through_def Logger_write_def same_setup_def)
qed

lemma same_setup_wf: "same_setup l l' \<Longrightarrow> log_wf l' = log_wf l" "same_setup l l' \<Longrightarrow> configured name l' = configured name l"
  by (simp_all add: same_setup_def log_wf_def configured_def)

lemma GetLoggerByType_setup:
  "log_loggers l' = log_loggers l \<Longrightarrow> Log_GetLoggerByType type l' = Log_GetLoggerByType type l"
proof (induction type l rule: Log_GetLoggerByType.induct)
  case (1 type l)
  then show ?case
    by (cases "map_find type (log_loggers l) = None \<and> type \<noteq> LOGGER_ROOT")
      (auto simp: Log_GetLoggerByType.simps [of type l] Log_GetLoggerByType.simps [of type l'])
qed

lemma write_through_pending:
  "write_through env ptr m (l\<lparr>log_pending := ps, log_ioService := b\<rparr>) =
   map_option (\<lambda>l'. l'\<lparr>log_pending := ps, log_ioService := b\<rparr>) (write_through env ptr m l)"
proof (cases ptr)
  case (Some gn)
  obtain gen name where gn: "gn = (gen, name)" by (cases gn)
  show ?thesis
  proof (cases "if gen = log_generation l then map_find name (log_loggers l) else None")
    case (Some g)
    then show ?thesis
      by (cases "Logger_write env m g (log_store l) (log_io l)")
        (auto simp: \<open>ptr = Some gn\<close> gn write_through_def split: if_splits)
  next
    case None
    then show ?thesis
      by (cases "gen = log_generation l") (simp_all add: \<open>ptr = Some gn\<close> gn write_through_def)
  qed
qed (simp add: write_through_def)

fun write_all :: "log_env \<Rightarrow> log_message list \<Rightarrow> log \<Rightarrow> log option" where
  "write_all env [] l = Some l"
| "write_all env (m # ms) l = do { l \<leftarrow> Log_write env m l; write_all env ms l }"

fun run_strand :: "log_env \<Rightarrow> nat \<Rightarrow> log \<Rightarrow> log option" where
  "run_strand env 0 l = Some l"
| "run_strand env (Suc n) l = do { l \<leftarrow> strand_step env l; run_strand env n l }"

text \<open>What \<^verbatim>\<open>write\<close> posts for a message.\<close>

definition operation_of :: "log \<Rightarrow> log_message \<Rightarrow> (nat \<times> string) option \<times> log_message" where
  "operation_of l m = (map_option (\<lambda>name. (log_generation l, name)) (Log_GetLoggerByType (lm_type m) l),
     m\<lparr>lm_text := lm_text m @ [CHR 0x0A]\<rparr>)"

lemma operation_of_setup:
  "log_loggers l' = log_loggers l \<Longrightarrow> log_generation l' = log_generation l \<Longrightarrow> operation_of l' = operation_of l"
  using GetLoggerByType_setup [of l' l] by (simp add: operation_of_def fun_eq_iff)

lemma write_all_posts:
  "log_ioService l \<Longrightarrow> write_all env ms l = Some (l\<lparr>log_pending := log_pending l @ map (operation_of l) ms\<rparr>)"
proof (induction ms arbitrary: l)
  case (Cons m ms)
  let ?l = "l\<lparr>log_pending := log_pending l @ [operation_of l m]\<rparr>"
  have "Log_write env m l = Some ?l"
    using Cons.prems by (simp add: Log_write_def operation_of_def Let_def)
  moreover have "operation_of ?l = operation_of l" by (rule operation_of_setup) simp_all
  ultimately show ?case using Cons.IH [of ?l] Cons.prems by simp
qed simp

lemma sync_write:
  assumes "\<not> log_ioService l" "log_pending l = []" "log_wf l" "sinks_ok (log_store l)" "configured LOGGER_ROOT l"
  shows "\<exists>l'. Log_write env m l = Some l' \<and>
    LogOperation_call env (operation_of l m) (l\<lparr>log_pending := ps, log_ioService := True\<rparr>) =
      Some (l'\<lparr>log_pending := ps, log_ioService := True\<rparr>) \<and>
    same_setup l l' \<and> sinks_ok (log_store l') \<and> log_pending l' = [] \<and> \<not> log_ioService l'"
proof -
  obtain name where name: "Log_GetLoggerByType (lm_type m) l = Some name" "configured name l"
    using GetLoggerByType_longest [OF assms(5)] by blast
  from write_through_total [OF assms(3,4) name(2), of env "m\<lparr>lm_text := lm_text m @ [CHR 0x0A]\<rparr>"]
  obtain l' where l': "write_through env (Some (log_generation l, name)) (m\<lparr>lm_text := lm_text m @ [CHR 0x0A]\<rparr>) l = Some l'"
    "same_setup l l'" "sinks_ok (log_store l')" "log_pending l' = []" "\<not> log_ioService l'"
    using assms(1,2) by auto
  then show ?thesis
    using assms(1) name(1) write_through_pending
    by (auto simp: Log_write_def operation_of_def LogOperation_call_def Let_def)
qed

lemma strand_runs_all:
  assumes "\<not> log_ioService l" "log_pending l = []" "log_wf l" "sinks_ok (log_store l)" "configured LOGGER_ROOT l"
  shows "\<exists>l'. write_all env ms l = Some l' \<and>
    run_strand env (length ms) (l\<lparr>log_pending := map (operation_of l) ms, log_ioService := True\<rparr>) =
      Some (l'\<lparr>log_ioService := True\<rparr>) \<and> same_setup l l' \<and> log_wf l' \<and> configured LOGGER_ROOT l'"
  using assms
proof (induction ms arbitrary: l)
  case Nil
  then have "l\<lparr>log_pending := []\<rparr> = l" by simp
  then show ?case using Nil.prems by (simp add: same_setup_def)
next
  case (Cons m ms)
  from sync_write [OF Cons.prems, of env m "map (operation_of l) ms"] obtain l1 where l1:
    "Log_write env m l = Some l1"
    "LogOperation_call env (operation_of l m) (l\<lparr>log_pending := map (operation_of l) ms, log_ioService := True\<rparr>) =
      Some (l1\<lparr>log_pending := map (operation_of l) ms, log_ioService := True\<rparr>)"
    "same_setup l l1" "sinks_ok (log_store l1)" "log_pending l1 = []" "\<not> log_ioService l1" by blast
  have ops: "operation_of l1 = operation_of l" using l1(3) by (intro operation_of_setup) (simp_all add: same_setup_def)
  have "log_wf l1" "configured LOGGER_ROOT l1" using Cons.prems same_setup_wf [OF l1(3)] by simp_all
  from Cons.IH [OF l1(6,5) this(1) l1(4) this(2)] obtain l' where l': "write_all env ms l1 = Some l'"
    "run_strand env (length ms) (l1\<lparr>log_pending := map (operation_of l) ms, log_ioService := True\<rparr>) =
      Some (l'\<lparr>log_ioService := True\<rparr>)"
    "same_setup l1 l'" "log_wf l'" "configured LOGGER_ROOT l'" unfolding ops by blast
  have "strand_step env (l\<lparr>log_pending := map (operation_of l) (m # ms), log_ioService := True\<rparr>) =
      Some (l1\<lparr>log_pending := map (operation_of l) ms, log_ioService := True\<rparr>)"
  proof -
    have "strand_step env (l\<lparr>log_pending := map (operation_of l) (m # ms), log_ioService := True\<rparr>) =
        LogOperation_call env (operation_of l m) (l\<lparr>log_pending := map (operation_of l) ms, log_ioService := True\<rparr>)"
      by (cases l) (simp add: strand_step_def)
    then show ?thesis by (rule trans) (rule l1(2))
  qed
  then show ?case using l1 l' by (auto simp: same_setup_def)
qed

section \<open>Properties\<close>

text \<open>
  C39. The logger of a filter is the one with the longest configured name among the filter and its
  dotted prefixes, and the root logger when none is configured; the search always ends.
\<close>

theorem logger_is_longest_prefix:
  assumes "configured LOGGER_ROOT l"
  shows "\<exists>name. Log_GetLoggerByType type l = Some name \<and> configured name l \<and>
    (if \<exists>name. configured name l \<and> dotted_prefix name type
     then dotted_prefix name type \<and> (\<forall>other. configured other l \<and> dotted_prefix other type \<longrightarrow> length other \<le> length name)
     else name = LOGGER_ROOT)"
  using assms by (rule GetLoggerByType_longest)


text \<open>
  C38. The strand. Posting messages to the service and running the posted operations afterwards
  leaves the same texts in the same places, in the same order, as writing them at once.
\<close>

theorem strand_writes_the_same:
  assumes "\<not> log_ioService l" and "log_pending l = []" and "log_wf l" and "sinks_ok (log_store l)"
    and "configured LOGGER_ROOT l"
  shows "\<exists>l1 l'. write_all env ms (Log_instance True l) = Some l1 \<and> log_io l1 = log_io l \<and>
    write_all env ms l = Some l' \<and> run_strand env (length ms) l1 = Some (Log_instance True l')"
proof -
  have op: "operation_of (l\<lparr>log_ioService := True\<rparr>) = operation_of l" by (rule operation_of_setup) simp_all
  have "write_all env ms (Log_instance True l) =
      Some (l\<lparr>log_pending := map (operation_of l) ms, log_ioService := True\<rparr>)"
    using write_all_posts [of "l\<lparr>log_ioService := True\<rparr>" env ms] assms(2) by (simp add: Log_instance_def op)
  then show ?thesis using strand_runs_all [OF assms, of env ms] by (auto simp: Log_instance_def)
qed

text \<open>
  The default loggers. Without a root logger in the configuration the code means to create
  two, for the root and for the server. The assignment to the reference renames the root's
  entry instead: the root is known under the name of the server, no message to a filter of
  the server is written, of no level, and the level of the root cannot be set.
\<close>

theorem default_server_is_silent:
  "\<not> Log_ShouldLog ''server'' level (default_loggers l) \<and>
   \<not> Log_ShouldLog ''server.loading'' level (default_loggers l) \<and>
   (Log_ShouldLog ''misc'' level (default_loggers l) \<longleftrightarrow> level \<ge> LOG_LEVEL_ERROR) \<and>
   Log_SetLogLevel ''root'' ''3'' True (default_loggers l) = Some (False, default_loggers l) \<and>
   Log_SetLogLevel ''server'' ''3'' True (default_loggers l) \<noteq> Some (False, default_loggers l)"
proof -
  obtain l1 where l1: "log_loggers (default_loggers l) =
      [(LOGGER_ROOT, \<lparr>lg_name = ''server'', lg_level = LOG_LEVEL_ERROR,
          lg_appenders = [(log_AppenderId l, log_next l)]\<rparr>), (''server'', Logger_new)]"
    using default_loggers_eval [of l] by auto
  have d: "last_dot ''server.loading'' = Some 6" "last_dot ''misc'' = None" by code_simp+
  have three: "atoi ''3'' = Some 3" by code_simp
  have g: "Log_GetLoggerByType ''server'' (default_loggers l) = Some ''server''"
    "Log_GetLoggerByType ''root'' (default_loggers l) = Some ''root''"
    by (simp_all add: Log_GetLoggerByType.simps [of "''server''"] Log_GetLoggerByType.simps [of "''root''"]
        map_find_def l1 LOGGER_ROOT_def)
  then have "Log_GetLoggerByType ''server.loading'' (default_loggers l) = Some ''server''"
    "Log_GetLoggerByType ''misc'' (default_loggers l) = Some ''root''"
    by (simp_all add: Log_GetLoggerByType.simps [of "''server.loading''"] Log_GetLoggerByType.simps [of "''misc''"]
        map_find_def l1 LOGGER_ROOT_def parentLogger_def d)
  then show ?thesis
    using g by (simp add: Log_ShouldLog_def map_find_def l1 Logger_new_def LOGGER_ROOT_def
        LOG_LEVEL_DISABLED_def LOG_LEVEL_ERROR_def Log_SetLogLevel_def three)
qed

definition empty_log :: log where
  "empty_log = \<lparr>log_appenders = [], log_loggers = [], log_AppenderId = 0, log_logsDir = [],
     log_logsTimestamp = [], log_ioService = False, log_generation = 0, log_pending = [],
     log_store = (\<lambda>p. None), log_next = 0,
     log_io = \<lparr>io_stdout = [], io_stderr = [], io_files = (\<lambda>path. None), io_clock = (\<lambda>n. 0), io_readings = 0\<rparr>\<rparr>"

definition empty_mgr :: config_mgr where
  "empty_mgr = \<lparr>cm_filename = [], cm_config = \<lparr>st_keys = [], st_get = (\<lambda>path. None), st_get_int = (\<lambda>path. None),
     st_get_float = (\<lambda>path. None)\<rparr>\<rparr>"

lemma empty_log_loads:
  "Log_LoadFromConfig env empty_mgr empty_log =
     Some (default_loggers (Log_Close empty_log\<lparr>log_AppenderId := 0, log_logsDir := []\<rparr>))"
  by (simp add: Log_LoadFromConfig_def Log_ReadLoggersFromConfig_def empty_mgr_def empty_log_def Log_Close_def
      ConfigMgr_GetStringDefault_def ConfigMgr_GetKeysByString_def without_quotes_def map_find_def)

lemma empty_log_wf: "log_wf empty_log"
  by (simp add: log_wf_def empty_log_def)

lemma default_log_ready:
  "let l = default_loggers (Log_Close empty_log\<lparr>log_AppenderId := 0, log_logsDir := []\<rparr>)
   in sinks_ok (log_store l) \<and> log_pending l = [] \<and> \<not> log_ioService l \<and> log_wf l \<and> configured LOGGER_ROOT l"
proof -
  let ?l0 = "Log_Close empty_log\<lparr>log_AppenderId := 0, log_logsDir := []\<rparr>"
  have "log_wf ?l0" by (simp add: wf_Close empty_log_wf)
  moreover have "configured LOGGER_ROOT (default_loggers ?l0)"
    using default_loggers_eval [of ?l0] by (auto simp: configured_def map_find_def)
  moreover have "sinks_ok (log_store (default_loggers ?l0))" "log_pending (default_loggers ?l0) = []"
    "\<not> log_ioService (default_loggers ?l0)"
    using default_loggers_eval [of ?l0]
    by (auto simp: enter_appender_def Log_NextAppenderId_def report_def Log_Close_def empty_log_def sinks_ok_def
        AppenderConsole_new_def colors_ok_def)
  ultimately show ?thesis using wf_default by (simp add: Let_def)
qed

theorem logger_is_longest_prefix_witness:
  "\<exists>name. Log_GetLoggerByType ''server.loading'' (empty_log\<lparr>log_loggers :=
     [(LOGGER_ROOT, Logger_new), (''server'', Logger_new)]\<rparr>) = Some name \<and> dotted_prefix name ''server.loading''"
proof -
  let ?l = "empty_log\<lparr>log_loggers := [(LOGGER_ROOT, Logger_new), (''server'', Logger_new)]\<rparr>"
  have "configured LOGGER_ROOT ?l" by (simp add: configured_def map_find_def)
  moreover have "configured ''server'' ?l \<and> dotted_prefix ''server'' ''server.loading''"
    by (simp add: configured_def map_find_def dotted_prefix_def LOGGER_ROOT_def)
  ultimately show ?thesis using logger_is_longest_prefix [of ?l "''server.loading''"] by (auto split: if_splits)
qed


theorem strand_writes_the_same_witness:
  "\<exists>l1 l'. write_all demo_log_env
     [\<lparr>lm_level = 5, lm_type = ''misc'', lm_text = ''abc'', lm_prefix = [], lm_param1 = [], lm_mtime = 0\<rparr>]
     (Log_instance True (default_loggers (Log_Close empty_log\<lparr>log_AppenderId := 0, log_logsDir := []\<rparr>))) = Some l1 \<and>
   run_strand demo_log_env 1 l1 = Some (Log_instance True l')"
proof -
  let ?l = "default_loggers (Log_Close empty_log\<lparr>log_AppenderId := 0, log_logsDir := []\<rparr>)"
  let ?m = "\<lparr>lm_level = 5, lm_type = ''misc'', lm_text = ''abc'', lm_prefix = [], lm_param1 = [], lm_mtime = 0\<rparr>"
  have "\<not> log_ioService ?l" "log_pending ?l = []" "log_wf ?l" "sinks_ok (log_store ?l)" "configured LOGGER_ROOT ?l"
    using default_log_ready by (simp_all add: Let_def)
  from strand_writes_the_same [OF this, of demo_log_env "[?m]"] show ?thesis by auto
qed

end
