(* ===== verification/WorldConfig.thy ===== *)
theory WorldConfig
  imports Logging
begin

text \<open>
  \<^verbatim>\<open>World::LoadConfigSettings\<close> of \<^verbatim>\<open>src/server/game/World/World.cpp\<close>: the
  configuration, the log and the world's table of numbers together.
\<close>

definition World_LoadConfigSettings ::
    "ini_parser \<Rightarrow> log_env \<Rightarrow> bool \<Rightarrow> config_mgr \<Rightarrow> log \<Rightarrow> u32 list \<Rightarrow> (config_mgr \<times> log \<times> u32 list) option" where
  "World_LoadConfigSettings read_ini env reload m l cfg =
     (if reload then
        let (ok, m, configError) = ConfigMgr_Reload read_ini m
        in if \<not> ok then do {
             l \<leftarrow> tc_log env ''misc'' LOG_LEVEL_ERROR
                   (''World settings reload fail: '' @ (case configError of Some e \<Rightarrow> e | None \<Rightarrow> []) @ ''.'') l;
             Some (m, l, cfg)
           }
           else do {
             l \<leftarrow> Log_LoadFromConfig env m l;
             let val = ConfigMgr_GetIntDefault ''WorldServerPort'' 8085 m;
             l \<leftarrow> (if val \<noteq> cfg ! CONFIG_PORT_WORLD
                   then tc_log env ''server.loading'' LOG_LEVEL_ERROR
                     (''WorldServerPort option can'' @ [CHR 0x27] @
                      ''t be changed at worldserver.conf reload, using current value ('' @
                      digits (unat (cfg ! CONFIG_PORT_WORLD)) @ '').'') l
                   else Some l);
             Some (m, l, fold (load_int m) int_settings cfg)
           }
      else
        Some (m, l, fold (load_int m) int_settings
          (load_int m (CONFIG_PORT_WORLD, ''WorldServerPort'', 8085) cfg)))"

lemma load_ints_other:
  "i \<notin> fst ` set settings \<Longrightarrow> fold (load_int m) settings cfg ! i = cfg ! i"
  by (induction settings arbitrary: cfg) (auto simp: load_int_def)

lemma length_load_ints [simp]: "length (fold (load_int m) settings cfg) = length cfg"
  by (induction settings arbitrary: cfg) (auto simp: load_int_def split: prod.splits)

lemma load_ints_value:
  "distinct (map fst settings) \<Longrightarrow> (i, name, defval) \<in> set settings \<Longrightarrow> i < length cfg \<Longrightarrow>
   fold (load_int m) settings cfg ! i = ConfigMgr_GetIntDefault name defval m"
proof (induction settings arbitrary: cfg)
  case (Cons s settings)
  show ?case
  proof (cases "s = (i, name, defval)")
    case True
    then have "i \<notin> fst ` set settings" using Cons.prems(1) by simp
    have "fold (load_int m) (s # settings) cfg ! i = load_int m s cfg ! i"
      by (simp add: load_ints_other [OF \<open>i \<notin> fst ` set settings\<close>])
    then show ?thesis using Cons.prems(3) True by (simp add: load_int_def)
  next
    case False
    have "length (load_int m s cfg) = length cfg" by (simp add: load_int_def split: prod.splits)
    then show ?thesis using False Cons.IH [of "load_int m s cfg"] Cons.prems by auto
  qed
qed simp

lemmas config_indices = CONFIG_PORT_WORLD_def CONFIG_SOCKET_TIMEOUTTIME_def CONFIG_INTERVAL_ROOMUPDATE_def
  CONFIG_NUMTHREADS_def CONFIG_NUMBERROOMS_def CONFIG_BASICSCORE_def CONFIG_WAIT_TIME_def
  CONFIG_AI_PLAYER_COUNT_def CONFIG_ROOM1_GOLD_def CONFIG_ROOM2_GOLD_def CONFIG_ROOM3_GOLD_def
  CONFIG_ROOM4_GOLD_def CONFIG_ROOM5_GOLD_def CONFIG_ROOM6_GOLD_def CONFIG_AI_DELAY_def

lemma int_settings_indices: "map fst int_settings = [1..<15]"
proof -
  have "[1..<15] = [1, 2, 3, 4, 5, 6, 7, 8, 9, 10, 11, 12, 13, 14 :: nat]" by code_simp
  then show ?thesis by (simp add: int_settings_def config_indices)
qed

section \<open>Properties\<close>

text \<open>
  Loading the settings sets every number of the table to the value of its option, or to its
  default. A reload takes the values of the new file but keeps the port; a reload of a file that
  cannot be read keeps the whole table.
\<close>

theorem settings_loaded:
  assumes "length cfg = INT_CONFIG_VALUE_COUNT"
    and "World_LoadConfigSettings read_ini env reload m l cfg = Some (m', l', cfg')"
  shows "length cfg' = INT_CONFIG_VALUE_COUNT \<and>
    (if reload \<and> \<not> fst (ConfigMgr_Reload read_ini m) then cfg' = cfg
     else (\<forall>(i, name, defval) \<in> set int_settings. cfg' ! i = ConfigMgr_GetIntDefault name defval m') \<and>
       cfg' ! CONFIG_PORT_WORLD =
         (if reload then cfg ! CONFIG_PORT_WORLD else ConfigMgr_GetIntDefault ''WorldServerPort'' 8085 m'))"
proof -
  have d: "distinct (map fst int_settings)" by (simp add: int_settings_indices)
  have port: "CONFIG_PORT_WORLD \<notin> fst ` set int_settings"
    using int_settings_indices by (metis atLeastLessThan_iff CONFIG_PORT_WORLD_def list.set_map not_one_le_zero set_upt)
  have less: "i < INT_CONFIG_VALUE_COUNT" if "(i, name, defval) \<in> set int_settings" for i name defval
  proof -
    have "i \<in> set (map fst int_settings)" using that by force
    then show ?thesis unfolding int_settings_indices by (simp add: INT_CONFIG_VALUE_COUNT_def)
  qed
  have all: "\<forall>(i, name, defval) \<in> set int_settings.
      fold (load_int mgr) int_settings c ! i = ConfigMgr_GetIntDefault name defval mgr"
    if "length c = INT_CONFIG_VALUE_COUNT" for c mgr
    using load_ints_value [OF d] less that by auto
  obtain ok mr err where r: "ConfigMgr_Reload read_ini m = (ok, mr, err)" by (metis prod_cases3)
  show ?thesis
  proof (cases reload)
    case True
    show ?thesis
    proof (cases ok)
      case False
      then show ?thesis using assms True r
        by (auto simp: World_LoadConfigSettings_def bind_eq_Some_conv)
    next
      case ok: True
      then have "m' = mr" "cfg' = fold (load_int mr) int_settings cfg"
        using assms(2) True r by (auto simp: World_LoadConfigSettings_def bind_eq_Some_conv Let_def)
      then show ?thesis using True ok r assms(1) all [OF assms(1), of mr]
        by (simp add: load_ints_other [OF port])
    qed
  next
    case False
    then have res: "m' = m" "cfg' = fold (load_int m) int_settings
        (load_int m (CONFIG_PORT_WORLD, ''WorldServerPort'', 8085) cfg)"
      using assms(2) by (auto simp: World_LoadConfigSettings_def)
    then show ?thesis
      using False assms(1) all [of "load_int m (CONFIG_PORT_WORLD, ''WorldServerPort'', 8085) cfg" m]
      by (simp add: load_ints_other [OF port]) (simp add: load_int_def CONFIG_PORT_WORLD_def INT_CONFIG_VALUE_COUNT_def)
  qed
qed

theorem settings_loaded_witness:
  "\<exists>cfg'. World_LoadConfigSettings (\<lambda>file. Inr []) demo_log_env False empty_mgr empty_log (replicate 15 0) =
     Some (empty_mgr, empty_log, cfg') \<and> cfg' ! CONFIG_WAIT_TIME = 4000"
proof -
  let ?run = "World_LoadConfigSettings (\<lambda>file. Inr []) demo_log_env False empty_mgr empty_log (replicate 15 0)"
  obtain cfg' where r: "?run = Some (empty_mgr, empty_log, cfg')"
    by (simp add: World_LoadConfigSettings_def)
  have "(CONFIG_WAIT_TIME, ''waitTime'', 4000) \<in> set int_settings" by (simp add: int_settings_def)
  moreover have "ConfigMgr_GetIntDefault ''waitTime'' 4000 empty_mgr = 4000"
    by (simp add: ConfigMgr_GetIntDefault_def empty_mgr_def)
  ultimately have "cfg' ! CONFIG_WAIT_TIME = 4000"
    using settings_loaded [OF _ r] by (fastforce simp: INT_CONFIG_VALUE_COUNT_def)
  then show ?thesis using r by blast
qed

end
