(* ===== verification/Rng.thy ===== *)
theory Rng
  imports Complex_Main Prelude
begin

text \<open>
  The SIMD-oriented Fast Mersenne Twister of \<^verbatim>\<open>dep/SFMT/SFMT.h\<close> in the configuration the
  header selects (\<^verbatim>\<open>MEXP\<close> 11213), and the functions of \<^verbatim>\<open>Util.cpp\<close> and
  \<^verbatim>\<open>Util.h\<close> that draw from it. A 128-bit register is one word whose lane \<open>k\<close> is its
  \<open>k\<close>-th 32-bit word in memory; the members \<^verbatim>\<open>LastInterval\<close> and \<^verbatim>\<open>RLimit\<close> are
  never read and are left out. The reference definition is the recurrence of the generator on an
  endless sequence of words; \<open>Generate\<close> computes its next block in place. The lemmas show that the
  index stays inside the array, that the certified state never becomes the zero state, in which the
  generator would be stuck, and that the numbers drawn lie in the interval asked for.
\<close>

section \<open>Registers\<close>

type_synonym m128 = "128 word"

definition lane :: "nat \<Rightarrow> m128 \<Rightarrow> u32" where
  "lane k x = ucast (drop_bit (32 * k) x)"

definition of_lanes :: "u32 \<Rightarrow> u32 \<Rightarrow> u32 \<Rightarrow> u32 \<Rightarrow> m128" where
  "of_lanes a b c d =
     ucast a OR push_bit 32 (ucast b) OR push_bit 64 (ucast c) OR push_bit 96 (ucast d)"

definition map_lanes :: "(u32 \<Rightarrow> u32) \<Rightarrow> m128 \<Rightarrow> m128" where
  "map_lanes f x = of_lanes (f (lane 0 x)) (f (lane 1 x)) (f (lane 2 x)) (f (lane 3 x))"

definition mm_srli_epi32 :: "m128 \<Rightarrow> nat \<Rightarrow> m128" where
  "mm_srli_epi32 x n = map_lanes (drop_bit n) x"

definition mm_slli_epi32 :: "m128 \<Rightarrow> nat \<Rightarrow> m128" where
  "mm_slli_epi32 x n = map_lanes (push_bit n) x"

text \<open>The shifts of the whole register count bytes.\<close>

definition mm_slli_si128 :: "m128 \<Rightarrow> nat \<Rightarrow> m128" where
  "mm_slli_si128 x n = push_bit (8 * n) x"

definition mm_srli_si128 :: "m128 \<Rightarrow> nat \<Rightarrow> m128" where
  "mm_srli_si128 x n = drop_bit (8 * n) x"

section \<open>The parameters\<close>

abbreviation (input) SFMT_N :: nat where "SFMT_N \<equiv> 88"
abbreviation (input) SFMT_M :: nat where "SFMT_M \<equiv> 68"
abbreviation (input) SFMT_SL1 :: nat where "SFMT_SL1 \<equiv> 14"
abbreviation (input) SFMT_SL2 :: nat where "SFMT_SL2 \<equiv> 3"
abbreviation (input) SFMT_SR1 :: nat where "SFMT_SR1 \<equiv> 7"
abbreviation (input) SFMT_SR2 :: nat where "SFMT_SR2 \<equiv> 3"

definition SFMT_MASK :: "u32 list" where
  "SFMT_MASK = [0xeffff7fb, 0xffffffef, 0xdfdfbfff, 0x7fffdbfd]"

definition SFMT_PARITY :: "u32 list" where
  "SFMT_PARITY = [1, 0, 0xe8148000, 0xd0c7afa3]"

section \<open>The recursion\<close>

definition sfmt_recursion :: "m128 \<Rightarrow> m128 \<Rightarrow> m128 \<Rightarrow> m128 \<Rightarrow> m128 \<Rightarrow> m128" where
  "sfmt_recursion a b c d msk =
     (let b1 = mm_srli_epi32 b SFMT_SR1;
          a1 = mm_slli_si128 a SFMT_SL2;
          c1 = mm_srli_si128 c SFMT_SR2;
          d1 = mm_slli_epi32 d SFMT_SL1;
          b1 = b1 AND msk;
          z1 = a XOR a1;
          z2 = b1 XOR d1;
          z1 = z1 XOR c1;
          z2 = z1 XOR z2
      in z2)"

record sfmt =
  sf_mask :: m128
  sf_state :: "m128 list"
  sf_ix :: nat

text \<open>\<^verbatim>\<open>((uint32_t*)state)[k]\<close>: the register array read as 32-bit words.\<close>

definition state_word :: "m128 list \<Rightarrow> nat \<Rightarrow> u32" where
  "state_word st k = lane (k mod 4) (st ! (k div 4))"

text \<open>
  One turn of either loop of \<^verbatim>\<open>Generate\<close>; \<open>off\<close> is the distance of the second operand, and
  the pair carries \<^verbatim>\<open>r1\<close> and \<^verbatim>\<open>r2\<close>.
\<close>

fun generate_turn ::
  "m128 \<Rightarrow> (nat \<Rightarrow> nat) \<Rightarrow> nat \<Rightarrow> m128 list \<times> m128 \<times> m128 \<Rightarrow> m128 list \<times> m128 \<times> m128" where
  "generate_turn msk off i (st, r1, r2) =
     (let r = sfmt_recursion (st ! i) (st ! off i) r1 r2 msk in (st[i := r], r2, r))"

definition generate_state :: "m128 \<Rightarrow> m128 list \<Rightarrow> m128 list" where
  "generate_state msk st =
     (let r1 = st ! (SFMT_N - 2);
          r2 = st ! (SFMT_N - 1);
          s = fold (generate_turn msk (\<lambda>i. i + SFMT_M)) [0..<SFMT_N - SFMT_M] (st, r1, r2);
          s = fold (generate_turn msk (\<lambda>i. i + SFMT_M - SFMT_N)) [SFMT_N - SFMT_M..<SFMT_N] s
      in fst s)"

definition Generate :: "sfmt \<Rightarrow> sfmt" where
  "Generate s = s\<lparr>sf_state := generate_state (sf_mask s) (sf_state s), sf_ix := 0\<rparr>"

section \<open>Seeding\<close>

text \<open>The words of the state after the first, the loop of \<^verbatim>\<open>RandomInit\<close> from \<open>i\<close> on.\<close>

fun init_words :: "nat \<Rightarrow> u32 \<Rightarrow> nat \<Rightarrow> u32 list" where
  "init_words 0 y i = []"
| "init_words (Suc n) y i =
     (let y = 1812433253 * (y XOR drop_bit 30 y) + word_of_nat i in y # init_words n y (Suc i))"

text \<open>Four consecutive words in memory are one register.\<close>

fun pack_lanes :: "u32 list \<Rightarrow> m128 list" where
  "pack_lanes (a # b # c # d # ws) = of_lanes a b c d # pack_lanes ws"
| "pack_lanes ws = []"

text \<open>\<^verbatim>\<open>for (i = 16; i > 0; i >>= 1) temp ^= temp >> i\<close>.\<close>

definition fold_parity :: "u32 \<Rightarrow> u32" where
  "fold_parity temp = fold (\<lambda>i temp. temp XOR drop_bit i temp) [16, 8, 4, 2, 1] temp"

text \<open>\<^verbatim>\<open>parityvec & state[0]\<close>, the four products combined.\<close>

definition parity_temp :: "m128 \<Rightarrow> u32" where
  "parity_temp x = fold (\<lambda>i temp. temp XOR (SFMT_PARITY ! i AND lane i x)) [0..<4] 0"

text \<open>The lowest set bit of a word, the loop over \<^verbatim>\<open>j\<close>; \<open>0\<close> when \<^verbatim>\<open>j\<close> is shifted out.\<close>

fun lowest_bit :: "nat \<Rightarrow> u32 \<Rightarrow> u32 \<Rightarrow> u32" where
  "lowest_bit 0 w j = 0"
| "lowest_bit (Suc n) w j = (if w AND j \<noteq> 0 then j else lowest_bit n w (push_bit 1 j))"

text \<open>The register with which the bit of the first nonzero parity word is flipped.\<close>

fun flip_mask :: "nat \<Rightarrow> u32 list \<Rightarrow> m128" where
  "flip_mask i [] = 0"
| "flip_mask i (p # ps) =
     (if p \<noteq> 0 then push_bit (32 * i) (ucast (lowest_bit 32 p 1)) else flip_mask (Suc i) ps)"

definition certify :: "m128 list \<Rightarrow> m128 list" where
  "certify st =
     (if fold_parity (parity_temp (st ! 0)) AND 1 = 0
      then st[0 := st ! 0 XOR flip_mask 0 SFMT_PARITY] else st)"

definition Init2 :: "m128 list \<Rightarrow> sfmt" where
  "Init2 st =
     Generate \<lparr>sf_mask = of_lanes (SFMT_MASK ! 0) (SFMT_MASK ! 1) (SFMT_MASK ! 2) (SFMT_MASK ! 3),
               sf_state = certify st, sf_ix = 0\<rparr>"

definition RandomInit :: "i32 \<Rightarrow> sfmt" where
  "RandomInit seed = Init2 (pack_lanes (seed # init_words (SFMT_N * 4 - 1) seed 1))"

section \<open>Drawing\<close>

definition BRandom :: "sfmt \<Rightarrow> u32 \<times> sfmt" where
  "BRandom s =
     (let s = (if sf_ix s \<ge> SFMT_N * 4 then Generate s else s)
      in (state_word (sf_state s) (sf_ix s), s\<lparr>sf_ix := sf_ix s + 1\<rparr>))"

text \<open>Multiply and shift: \<^verbatim>\<open>(uint32_t)((uint64_t)b * interval >> 32)\<close>.\<close>

definition scale_bits :: "u32 \<Rightarrow> u32 \<Rightarrow> u32" where
  "scale_bits b interval = ucast (drop_bit 32 ((ucast b :: u64) * ucast interval))"

definition IRandom :: "i32 \<Rightarrow> i32 \<Rightarrow> sfmt \<Rightarrow> i32 \<times> sfmt" where
  "IRandom mn mx s =
     (if sint mx \<le> sint mn then (if mx = mn then mn else 0x80000000, s)
      else let (b, s) = BRandom s in (scale_bits b (mx - mn + 1) + mn, s))"

definition URandom :: "u32 \<Rightarrow> u32 \<Rightarrow> sfmt \<Rightarrow> u32 \<times> sfmt" where
  "URandom mn mx s =
     (if mx \<le> mn then (if mx = mn then mn else 0, s)
      else let (b, s) = BRandom s in (scale_bits b (mx - mn + 1) + mn, s))"

text \<open>
  \<^verbatim>\<open>Random\<close> has 52 random bits; the double it returns is exactly their number divided by
  \<^verbatim>\<open>2^52\<close>, which is a dyadic fraction that needs no rounding.
\<close>

definition Random_bits :: "sfmt \<Rightarrow> u64 \<times> sfmt" where
  "Random_bits s =
     (let s = (if sf_ix s \<ge> SFMT_N * 4 - 1 then Generate s else s);
          r = ucast (state_word (sf_state s) (sf_ix s))
              OR push_bit 32 (ucast (state_word (sf_state s) (sf_ix s + 1)))
      in (drop_bit 12 r, s\<lparr>sf_ix := sf_ix s + 2\<rparr>))"

definition Random :: "sfmt \<Rightarrow> rat \<times> sfmt" where
  "Random s = (let (r, s) = Random_bits s in (of_nat (unat r) / 2 ^ 52, s))"

section \<open>The functions of the server\<close>

text \<open>
  The generator of the thread is made on first use, seeded with the time; \<open>seed\<close> is
  \<^verbatim>\<open>(int) time(0)\<close>. A failed assertion has no result.
\<close>

definition GetRng :: "i32 \<Rightarrow> sfmt option \<Rightarrow> sfmt" where
  "GetRng seed rng = (case rng of None \<Rightarrow> RandomInit seed | Some s \<Rightarrow> s)"

definition irand :: "i32 \<Rightarrow> i32 \<Rightarrow> i32 \<Rightarrow> sfmt option \<Rightarrow> (i32 \<times> sfmt option) option" where
  "irand seed mn mx rng =
     (if sint mx \<ge> sint mn then let (x, s) = IRandom mn mx (GetRng seed rng) in Some (x, Some s) else None)"

definition urand :: "i32 \<Rightarrow> u32 \<Rightarrow> u32 \<Rightarrow> sfmt option \<Rightarrow> (u32 \<times> sfmt option) option" where
  "urand seed mn mx rng =
     (if mx \<ge> mn then let (x, s) = URandom mn mx (GetRng seed rng) in Some (x, Some s) else None)"

definition rand32 :: "i32 \<Rightarrow> sfmt option \<Rightarrow> u32 \<times> sfmt option" where
  "rand32 seed rng = (let (x, s) = BRandom (GetRng seed rng) in (x, Some s))"

definition rand_norm :: "i32 \<Rightarrow> sfmt option \<Rightarrow> rat \<times> sfmt option" where
  "rand_norm seed rng = (let (x, s) = Random (GetRng seed rng) in (x, Some s))"

definition roll_chance_i :: "i32 \<Rightarrow> i32 \<Rightarrow> sfmt option \<Rightarrow> (bool \<times> sfmt option) option" where
  "roll_chance_i seed chance rng =
     map_option (\<lambda>(x, rng). (sint chance > sint x, rng)) (irand seed 0 99 rng)"

section \<open>The recurrence of the generator\<close>

text \<open>
  The reference: an endless sequence of registers that starts with the \<open>88\<close> of a state, each later
  one made from those \<open>88\<close>, \<open>20\<close>, \<open>2\<close> and \<open>1\<close> places before it.
\<close>

function sfmt_seq :: "m128 \<Rightarrow> m128 list \<Rightarrow> nat \<Rightarrow> m128" where
  "sfmt_seq msk st k =
     (if k < SFMT_N then st ! k
      else sfmt_recursion (sfmt_seq msk st (k - SFMT_N)) (sfmt_seq msk st (k - SFMT_N + SFMT_M))
             (sfmt_seq msk st (k - 2)) (sfmt_seq msk st (k - 1)) msk)"
  by pat_completeness auto
termination
  by (relation "measure (\<lambda>(msk, st, k). k)") auto

declare sfmt_seq.simps [simp del]

lemma sfmt_seq_start: "k < SFMT_N \<Longrightarrow> sfmt_seq msk st k = st ! k"
  by (subst sfmt_seq.simps) simp

lemma sfmt_seq_next:
  "sfmt_seq msk st (k + SFMT_N) =
     sfmt_recursion (sfmt_seq msk st k) (sfmt_seq msk st (k + SFMT_M))
       (sfmt_seq msk st (k + 86)) (sfmt_seq msk st (k + 87)) msk"
  by (subst sfmt_seq.simps) (simp add: add.commute)

text \<open>The state while a new block is written over an old one: the first \<open>j\<close> registers are new.\<close>

definition window :: "m128 \<Rightarrow> m128 list \<Rightarrow> nat \<Rightarrow> m128 list" where
  "window msk st j =
     map (\<lambda>p. sfmt_seq msk st (if p < j then p + SFMT_N else p)) [0..<SFMT_N]"

lemma length_window [simp]: "length (window msk st j) = SFMT_N"
  by (simp add: window_def)

lemma window_nth:
  "p < SFMT_N \<Longrightarrow> window msk st j ! p = sfmt_seq msk st (if p < j then p + SFMT_N else p)"
  by (simp add: window_def)

lemma window_0: "length st = SFMT_N \<Longrightarrow> window msk st 0 = st"
  by (rule nth_equalityI) (simp_all add: window_nth sfmt_seq_start)

lemma window_Suc:
  "j < SFMT_N \<Longrightarrow> (window msk st j)[j := sfmt_seq msk st (j + SFMT_N)] = window msk st (Suc j)"
  by (rule nth_equalityI) (auto simp: window_nth nth_list_update less_Suc_eq)

lemma turn_of_window:
  assumes "j < SFMT_N" "off j = (if j < 20 then j + SFMT_M else j - 20)"
  shows "generate_turn msk off j (window msk st j, sfmt_seq msk st (j + 86), sfmt_seq msk st (j + 87)) =
    (window msk st (Suc j), sfmt_seq msk st (Suc j + 86), sfmt_seq msk st (Suc j + 87))"
proof -
  have "window msk st j ! off j = sfmt_seq msk st (j + SFMT_M)"
    using assms by (auto simp: window_nth add.commute)
  moreover have "window msk st j ! j = sfmt_seq msk st j"
    using assms by (simp add: window_nth)
  moreover have "Suc j + 86 = j + 87" "Suc j + 87 = j + SFMT_N"
    by simp_all
  ultimately show ?thesis
    using assms(1) window_Suc [of j msk st] sfmt_seq_next [of msk st j] by (simp only: generate_turn.simps Let_def)
qed

lemma turns_of_window:
  assumes "\<And>j. a \<le> j \<Longrightarrow> j < b \<Longrightarrow> off j = (if j < 20 then j + SFMT_M else j - 20)"
    and "a \<le> b" "b \<le> SFMT_N"
  shows "fold (generate_turn msk off) [a..<b]
      (window msk st a, sfmt_seq msk st (a + 86), sfmt_seq msk st (a + 87)) =
    (window msk st b, sfmt_seq msk st (b + 86), sfmt_seq msk st (b + 87))"
  using assms
proof (induction "b - a" arbitrary: a)
  case 0
  then show ?case by simp
next
  case (Suc n)
  then have "a < b" by simp
  moreover have "off a = (if a < 20 then a + SFMT_M else a - 20)"
    using Suc.prems \<open>a < b\<close> by simp
  ultimately show ?case
    using Suc.prems Suc.hyps(1) [of "Suc a"] Suc.hyps(2) turn_of_window [of a off msk st]
    by (simp add: upt_rec [of a b] del: generate_turn.simps)
qed

lemma generate_state_window:
  assumes "length st = SFMT_N"
  shows "generate_state msk st = window msk st SFMT_N"
proof -
  let ?t = "\<lambda>j. (window msk st j, sfmt_seq msk st (j + 86), sfmt_seq msk st (j + 87))"
  have start: "(st, st ! (SFMT_N - 2), st ! (SFMT_N - 1)) = ?t 0"
    using assms by (simp add: window_0 sfmt_seq_start)
  have "fold (generate_turn msk (\<lambda>i. i + SFMT_M)) [0..<SFMT_N - SFMT_M] (?t 0) = ?t (SFMT_N - SFMT_M)"
    by (rule turns_of_window) auto
  moreover have "fold (generate_turn msk (\<lambda>i. i + SFMT_M - SFMT_N)) [SFMT_N - SFMT_M..<SFMT_N]
      (?t (SFMT_N - SFMT_M)) = ?t SFMT_N"
    by (rule turns_of_window) auto
  ultimately show ?thesis
    unfolding generate_state_def Let_def start by (simp only: fst_conv)
qed

lemma length_generate_state [simp]: "length st = SFMT_N \<Longrightarrow> length (generate_state msk st) = SFMT_N"
  by (simp add: generate_state_window)

lemma sfmt_seq_shift:
  assumes "length st = SFMT_N"
  shows "sfmt_seq msk (generate_state msk st) k = sfmt_seq msk st (k + SFMT_N)"
proof (induction k rule: less_induct)
  case (less k)
  show ?case
  proof (cases "k < SFMT_N")
    case True
    then show ?thesis
      using assms by (simp add: sfmt_seq_start generate_state_window window_nth)
  next
    case False
    then obtain m where k: "k = m + SFMT_N"
      by (metis add.commute le_Suc_ex not_less)
    have "m < k" "m + SFMT_M < k" "m + 86 < k" "m + 87 < k"
      by (simp_all add: k)
    note earlier = this [THEN less]
    have "sfmt_seq msk (generate_state msk st) k =
        sfmt_recursion (sfmt_seq msk st (m + SFMT_N)) (sfmt_seq msk st (m + SFMT_M + SFMT_N))
          (sfmt_seq msk st (m + 86 + SFMT_N)) (sfmt_seq msk st (m + 87 + SFMT_N)) msk"
      unfolding k sfmt_seq_next [of msk "generate_state msk st" m] by (simp only: earlier)
    also have "\<dots> = sfmt_seq msk st (m + SFMT_N + SFMT_N)"
      by (subst sfmt_seq_next [of msk st "m + SFMT_N"]) (simp only: add.assoc add.commute [of SFMT_N])
    finally show ?thesis by (simp only: k)
  qed
qed

lemma generate_state_block:
  assumes "length st = SFMT_N"
  shows "(generate_state msk ^^ j) st = map (\<lambda>p. sfmt_seq msk st (SFMT_N * j + p)) [0..<SFMT_N]"
proof (induction j)
  case 0
  then show ?case
    using assms by (auto intro!: nth_equalityI simp: sfmt_seq_start)
next
  case (Suc j)
  let ?st = "(generate_state msk ^^ j) st"
  have len: "length ?st = SFMT_N" by (simp add: Suc)
  have shift: "sfmt_seq msk ?st k = sfmt_seq msk st (SFMT_N * j + k)" for k
  proof (induction j arbitrary: k)
    case (Suc j)
    have "length ((generate_state msk ^^ j) st) = SFMT_N"
      using assms by (induction j) simp_all
    from sfmt_seq_shift [OF this, of msk k] Suc [of "k + SFMT_N"] show ?case
      by (simp add: ac_simps)
  qed simp
  show ?case
    using len by (auto intro!: nth_equalityI simp: generate_state_window window_nth shift ac_simps)
qed

text \<open>The 32-bit words of the sequence, and the position in it that a state stands at.\<close>

definition sfmt_word :: "m128 \<Rightarrow> m128 list \<Rightarrow> nat \<Rightarrow> u32" where
  "sfmt_word msk st k = lane (k mod 4) (sfmt_seq msk st (k div 4))"

definition stands_at :: "m128 \<Rightarrow> m128 list \<Rightarrow> nat \<Rightarrow> sfmt \<Rightarrow> bool" where
  "stands_at msk st k s \<longleftrightarrow>
     sf_mask s = msk \<and> sf_ix s \<le> SFMT_N * 4 \<and>
     (\<exists>j. sf_state s = (generate_state msk ^^ j) st \<and> k = SFMT_N * 4 * j + sf_ix s)"

lemma state_word_block:
  assumes "length st = SFMT_N" "i < SFMT_N * 4"
  shows "state_word ((generate_state msk ^^ j) st) i = sfmt_word msk st (SFMT_N * 4 * j + i)"
proof -
  have "(SFMT_N * 4 * j + i) div 4 = SFMT_N * j + i div 4" "(SFMT_N * 4 * j + i) mod 4 = i mod 4"
    using div_mult_self2 [of 4 i "SFMT_N * j"] mod_mult_self2 [of i 4 "SFMT_N * j"]
    by (simp_all add: algebra_simps)
  moreover have "i div 4 < SFMT_N" using assms(2) by simp
  ultimately show ?thesis
    using assms(1) by (simp add: state_word_def sfmt_word_def generate_state_block)
qed

lemma stands_at_Generate:
  "stands_at msk st k s \<Longrightarrow> sf_ix s = SFMT_N * 4 \<Longrightarrow> stands_at msk st k (Generate s)"
  by (auto simp: stands_at_def Generate_def intro: exI [of _ "Suc _"])

lemma stands_at_next:
  assumes "length st = SFMT_N" "stands_at msk st k s" "sf_ix s < SFMT_N * 4"
  shows "state_word (sf_state s) (sf_ix s) = sfmt_word msk st k"
    and "stands_at msk st (k + 1) (s\<lparr>sf_ix := sf_ix s + 1\<rparr>)"
  using assms by (auto simp: stands_at_def state_word_block)

lemma BRandom_stands_at:
  assumes "length st = SFMT_N" "stands_at msk st k s"
  shows "fst (BRandom s) = sfmt_word msk st k" "stands_at msk st (k + 1) (snd (BRandom s))"
proof -
  define s' where "s' = (if sf_ix s \<ge> SFMT_N * 4 then Generate s else s)"
  have "stands_at msk st k s'"
    using assms(2) stands_at_Generate [of msk st k s] by (auto simp: s'_def stands_at_def)
  moreover have "sf_ix s' < SFMT_N * 4"
    by (auto simp: s'_def Generate_def)
  ultimately show "fst (BRandom s) = sfmt_word msk st k" "stands_at msk st (k + 1) (snd (BRandom s))"
    using stands_at_next [OF assms(1), of msk k s'] unfolding BRandom_def s'_def [symmetric] Let_def
    by simp_all
qed

text \<open>The results of \<open>n\<close> calls of \<^verbatim>\<open>BRandom\<close>.\<close>

fun draws :: "nat \<Rightarrow> sfmt \<Rightarrow> u32 list" where
  "draws 0 s = []"
| "draws (Suc n) s = fst (BRandom s) # draws n (snd (BRandom s))"

lemma draws_stands_at:
  assumes "length st = SFMT_N" "stands_at msk st k s"
  shows "draws n s = map (sfmt_word msk st) [k..<k + n]"
  using assms(2)
proof (induction n arbitrary: k s)
  case (Suc n)
  have "draws (Suc n) s = sfmt_word msk st k # map (sfmt_word msk st) [Suc k..<Suc k + n]"
    using BRandom_stands_at [OF assms(1) Suc.prems] Suc.IH by simp
  also have "\<dots> = map (sfmt_word msk st) [k..<k + Suc n]"
    by (simp add: upt_conv_Cons del: upt_Suc)
  finally show ?case .
qed simp

section \<open>The seeded state\<close>

lemma length_init_words [simp]: "length (init_words n y i) = n"
  by (induction n y i rule: init_words.induct) (simp_all add: Let_def)

lemma length_pack_lanes: "length (pack_lanes ws) = length ws div 4"
  by (induction ws rule: pack_lanes.induct) simp_all

definition seed_state :: "i32 \<Rightarrow> m128 list" where
  "seed_state seed = certify (pack_lanes (seed # init_words (SFMT_N * 4 - 1) seed 1))"

definition mask_of_generator :: m128 where
  "mask_of_generator = of_lanes (SFMT_MASK ! 0) (SFMT_MASK ! 1) (SFMT_MASK ! 2) (SFMT_MASK ! 3)"

lemma length_certify [simp]: "length (certify st) = length st"
  by (simp add: certify_def)

lemma length_seed_state [simp]: "length (seed_state seed) = SFMT_N"
  by (simp add: seed_state_def length_pack_lanes)

lemma RandomInit_stands_at:
  "stands_at mask_of_generator (seed_state seed) (SFMT_N * 4) (RandomInit seed)"
proof -
  have "RandomInit seed = \<lparr>sf_mask = mask_of_generator,
      sf_state = generate_state mask_of_generator (seed_state seed), sf_ix = 0\<rparr>"
    by (simp only: RandomInit_def Init2_def Generate_def seed_state_def mask_of_generator_def
        sfmt.simps sfmt.update_convs)
  moreover have "generate_state mask_of_generator (seed_state seed) =
      (generate_state mask_of_generator ^^ 1) (seed_state seed)"
    by simp
  ultimately show ?thesis
    unfolding stands_at_def by (auto simp del: funpow.simps intro!: exI [of _ 1])
qed

section \<open>Period certification\<close>

text \<open>Whether an odd number of the first \<open>n\<close> values of \<open>f\<close> hold.\<close>

definition odd_many :: "(nat \<Rightarrow> bool) \<Rightarrow> nat \<Rightarrow> bool" where
  "odd_many f n \<longleftrightarrow> odd (card {k. k < n \<and> f k})"

lemma odd_many_0 [simp]: "odd_many f 0 = False"
  by (simp add: odd_many_def)

lemma odd_many_Suc: "odd_many f (Suc n) \<longleftrightarrow> odd_many f n \<noteq> f n"
proof -
  have "{k. k < Suc n \<and> f k} = (if f n then insert n {k. k < n \<and> f k} else {k. k < n \<and> f k})"
    by (auto simp: less_Suc_eq)
  then show ?thesis by (simp add: odd_many_def)
qed

lemma odd_many_add: "odd_many f (m + n) \<longleftrightarrow> odd_many f m \<noteq> odd_many (\<lambda>k. f (m + k)) n"
  by (induction n) (auto simp: odd_many_Suc)

lemma odd_many_xor: "odd_many (\<lambda>k. f k \<noteq> g k) n \<longleftrightarrow> odd_many f n \<noteq> odd_many g n"
  by (induction n) (auto simp: odd_many_Suc)

lemma odd_many_cong: "(\<And>k. k < n \<Longrightarrow> f k = g k) \<Longrightarrow> odd_many f n = odd_many g n"
  by (induction n) (auto simp: odd_many_Suc)

text \<open>Folding a word onto its lower half keeps the parity of its bits in that half.\<close>

lemma odd_many_half:
  "odd_many (bit (w XOR drop_bit n w)) n = odd_many (bit w) (n + n)" for w :: u32
proof -
  have "odd_many (bit (w XOR drop_bit n w)) n = odd_many (\<lambda>k. bit w k \<noteq> bit w (n + k)) n"
    by (rule odd_many_cong) (simp add: bit_xor_iff bit_drop_bit_eq)
  then show ?thesis by (simp only: odd_many_add odd_many_xor)
qed

lemma fold_parity_bit: "bit (fold_parity w) 0 \<longleftrightarrow> odd_many (bit w) 32"
proof -
  define a where "a = w XOR drop_bit 16 w"
  define b where "b = a XOR drop_bit 8 a"
  define c where "c = b XOR drop_bit 4 b"
  define d where "d = c XOR drop_bit 2 c"
  have "fold_parity w = d XOR drop_bit 1 d"
    by (simp add: fold_parity_def a_def b_def c_def d_def)
  then have "bit (fold_parity w) 0 \<longleftrightarrow> odd_many (bit (d XOR drop_bit 1 d)) 1"
    using odd_many_Suc [of _ 0] by simp
  also have "\<dots> \<longleftrightarrow> odd_many (bit d) 2" using odd_many_half [of d 1] by (simp add: numeral_2_eq_2)
  also have "\<dots> \<longleftrightarrow> odd_many (bit c) 4" using odd_many_half [of c 2] by (simp add: d_def)
  also have "\<dots> \<longleftrightarrow> odd_many (bit b) 8" using odd_many_half [of b 4] by (simp add: c_def)
  also have "\<dots> \<longleftrightarrow> odd_many (bit a) 16" using odd_many_half [of a 8] by (simp add: b_def)
  also have "\<dots> \<longleftrightarrow> odd_many (bit w) 32" using odd_many_half [of w 16] by (simp add: a_def)
  finally show ?thesis .
qed

lemma low_bit_iff: "w AND 1 \<noteq> 0 \<longleftrightarrow> bit w 0" for w :: u32
  by (auto simp: bit_eq_iff [of "w AND 1"] bit_and_iff bit_1_iff)

text \<open>The bits that count for a register: those of the parity vector, over all four lanes.\<close>

definition parity_register :: m128 where
  "parity_register = of_lanes (SFMT_PARITY ! 0) (SFMT_PARITY ! 1) (SFMT_PARITY ! 2) (SFMT_PARITY ! 3)"

definition certified :: "m128 \<Rightarrow> bool" where
  "certified x \<longleftrightarrow> odd (card {k. k < 128 \<and> bit parity_register k \<and> bit x k})"

lemma bit_lane: "bit (lane k x) n \<longleftrightarrow> n < 32 \<and> bit x (32 * k + n)"
  by (auto simp: lane_def bit_ucast_iff bit_drop_bit_eq)

lemma bit_of_lanes:
  "bit (of_lanes a b c d) n \<longleftrightarrow>
     (if n < 32 then bit a n else if n < 64 then bit b (n - 32)
      else if n < 96 then bit c (n - 64) else n < 128 \<and> bit d (n - 96))"
  by (auto simp: of_lanes_def bit_or_iff bit_push_bit_iff bit_ucast_iff dest: bit_imp_le_length)

lemma lane_parity_register: "i < 4 \<Longrightarrow> lane i parity_register = SFMT_PARITY ! i"
proof -
  assume "i < 4"
  then consider "i = 0" | "i = 1" | "i = 2" | "i = 3" by linarith
  then show ?thesis
    by cases (auto intro!: bit_word_eqI simp: bit_lane parity_register_def bit_of_lanes)
qed

lemma bit_parity_temp:
  "bit (parity_temp x) n \<longleftrightarrow>
     (((bit (lane 0 (parity_register AND x)) n \<noteq> bit (lane 1 (parity_register AND x)) n)
        \<noteq> bit (lane 2 (parity_register AND x)) n) \<noteq> bit (lane 3 (parity_register AND x)) n)"
proof -
  have "SFMT_PARITY ! i AND lane i x = lane i (parity_register AND x)" if "i < 4" for i
    unfolding lane_parity_register [OF that, symmetric]
    by (rule bit_word_eqI) (auto simp: bit_lane bit_and_iff)
  then show ?thesis
    by (simp add: parity_temp_def numeral_eq_Suc upt_rec bit_xor_iff)
qed

lemma certified_iff: "fold_parity (parity_temp x) AND 1 \<noteq> 0 \<longleftrightarrow> certified x"
proof -
  let ?p = "parity_register AND x"
  have quarter: "odd_many (bit (lane i ?p)) 32 = odd_many (\<lambda>n. bit ?p (32 * i + n)) 32" for i
    by (rule odd_many_cong) (simp add: bit_lane)
  have "fold_parity (parity_temp x) AND 1 \<noteq> 0 \<longleftrightarrow> odd_many (bit (parity_temp x)) 32"
    by (simp only: low_bit_iff fold_parity_bit)
  also have "\<dots> \<longleftrightarrow> odd_many (bit ?p) (32 + (32 + (32 + 32)))"
    unfolding bit_parity_temp odd_many_xor quarter odd_many_add by (auto simp: add.assoc)
  also have "\<dots> \<longleftrightarrow> certified x"
    by (simp add: odd_many_def certified_def bit_and_iff)
  finally show ?thesis .
qed

lemma certify_certified:
  assumes "st \<noteq> []"
  shows "certified (certify st ! 0)"
proof (cases "certified (st ! 0)")
  case True
  then show ?thesis
    using certified_iff [of "st ! 0"] by (simp add: certify_def)
next
  case False
  have flip: "flip_mask 0 SFMT_PARITY = 1"
    by (simp add: SFMT_PARITY_def numeral_eq_Suc)
  have one: "bit parity_register 0"
    by (simp add: parity_register_def bit_of_lanes SFMT_PARITY_def)
  have "odd_many (bit (parity_register AND (x XOR 1))) (1 + 127) \<longleftrightarrow>
      \<not> odd_many (bit (parity_register AND x)) (1 + 127)" for x
    unfolding odd_many_add using one
    by (simp add: odd_many_Suc bit_and_iff bit_xor_iff bit_1_iff)
  then have "certified (x XOR 1) \<longleftrightarrow> \<not> certified x" for x
    by (simp add: odd_many_def certified_def bit_and_iff)
  with False show ?thesis
    using certified_iff [of "st ! 0"] assms by (simp add: certify_def flip)
qed

lemma certified_nonzero: "certified x \<Longrightarrow> x \<noteq> 0"
  by (auto simp: certified_def)

section \<open>No state is lost\<close>

lemma xor_push_inj:
  fixes x y :: "'a::len word"
  assumes "x XOR push_bit n x = y XOR push_bit n y" "0 < n"
  shows "x = y"
proof (rule bit_word_eqI)
  fix k
  assume "k < LENGTH('a)"
  then show "bit x k \<longleftrightarrow> bit y k"
  proof (induction k rule: less_induct)
    case (less k)
    have "bit x (k - n) \<longleftrightarrow> bit y (k - n)" if "n \<le> k"
      using less that assms(2) by simp
    moreover have "bit (x XOR push_bit n x) k \<longleftrightarrow> bit (y XOR push_bit n y) k"
      using assms(1) by simp
    ultimately show ?case
      using less.prems by (auto simp: bit_xor_iff bit_push_bit_iff)
  qed
qed

lemma sfmt_recursion_split:
  "sfmt_recursion a b c d msk = (a XOR push_bit 24 a) XOR sfmt_recursion 0 b c d msk"
  by (simp add: sfmt_recursion_def Let_def mm_slli_si128_def xor.assoc)

lemma xor_right_cancel:
  fixes x y :: "'a::len word"
  assumes "x XOR w = y XOR w"
  shows "x = y"
proof -
  have "(x XOR w) XOR w = (y XOR w) XOR w"
    using assms by simp
  then show ?thesis by (simp only: xor.assoc xor_self_eq xor.right_neutral)
qed

lemma sfmt_recursion_inj:
  assumes "sfmt_recursion a b c d msk = sfmt_recursion a' b c d msk"
  shows "a = a'"
proof -
  have "a XOR push_bit 24 a = a' XOR push_bit 24 a'"
    using assms unfolding sfmt_recursion_split [of a] sfmt_recursion_split [of a']
    by (rule xor_right_cancel)
  then show ?thesis by (rule xor_push_inj) simp
qed

text \<open>A block can be computed back from the next one.\<close>

lemma generate_state_inj:
  assumes len: "length st = SFMT_N" "length st' = SFMT_N"
    and eq: "generate_state msk st = generate_state msk st'"
  shows "st = st'"
proof -
  have earlier: "sfmt_seq msk st p = sfmt_seq msk st' p" if "SFMT_N - n \<le> p" "p < 2 * SFMT_N" for n p
    using that
  proof (induction n arbitrary: p)
    case 0
    define q where "q = p - SFMT_N"
    have q: "p = q + SFMT_N" "q < SFMT_N"
      using 0 by (simp_all add: q_def)
    then show ?case
      using arg_cong [OF eq, of "\<lambda>st. st ! q"] len by (simp add: generate_state_window window_nth)
  next
    case (Suc n)
    show ?case
    proof (cases "SFMT_N - n \<le> p")
      case True
      then show ?thesis by (rule Suc.IH) (rule Suc.prems)
    next
      case False
      then have p: "p < SFMT_N" "SFMT_N - n = Suc p"
        using Suc.prems by simp_all
      note later = Suc.IH [unfolded p(2)]
      have "sfmt_seq msk st (p + SFMT_N) = sfmt_seq msk st' (p + SFMT_N)"
        "sfmt_seq msk st (p + SFMT_M) = sfmt_seq msk st' (p + SFMT_M)"
        "sfmt_seq msk st (p + 86) = sfmt_seq msk st' (p + 86)"
        "sfmt_seq msk st (p + 87) = sfmt_seq msk st' (p + 87)"
        using p(1) by (auto intro!: later)
      then show ?thesis
        unfolding sfmt_seq_next by (auto dest: sfmt_recursion_inj)
    qed
  qed
  show ?thesis
  proof (rule nth_equalityI)
    show "length st = length st'" by (simp add: len)
    fix i
    assume "i < length st"
    then show "st ! i = st' ! i"
      using earlier [of SFMT_N i] by (simp add: len sfmt_seq_start)
  qed
qed

lemma sfmt_recursion_0 [simp]: "sfmt_recursion 0 0 0 0 msk = 0"
  by (simp add: sfmt_recursion_def mm_srli_epi32_def mm_slli_epi32_def mm_slli_si128_def
      mm_srli_si128_def map_lanes_def of_lanes_def lane_def)

lemma sfmt_seq_zero: "sfmt_seq msk (replicate SFMT_N 0) k = 0"
proof (induction k rule: less_induct)
  case (less k)
  show ?case
    using less by (subst sfmt_seq.simps) simp
qed

lemma generate_state_zero: "generate_state msk (replicate SFMT_N 0) = replicate SFMT_N 0"
  by (rule nth_equalityI) (simp_all add: generate_state_window window_nth sfmt_seq_zero)

text \<open>The zero state, from which the generator would only draw zeros, has only itself before it.\<close>

lemma blocks_nonzero:
  assumes "length st = SFMT_N" "st \<noteq> replicate SFMT_N 0"
  shows "length ((generate_state msk ^^ j) st) = SFMT_N \<and> (generate_state msk ^^ j) st \<noteq> replicate SFMT_N 0"
proof (induction j)
  case (Suc j)
  then show ?case
    using generate_state_inj [of "(generate_state msk ^^ j) st" "replicate SFMT_N 0" msk]
    by (auto simp: generate_state_zero)
qed (use assms in simp)

lemma seed_state_nonzero: "seed_state seed \<noteq> replicate SFMT_N 0"
proof
  assume zero: "seed_state seed = replicate SFMT_N 0"
  have "certified (seed_state seed ! 0)"
    unfolding seed_state_def by (rule certify_certified) (simp add: length_pack_lanes flip: length_0_conv)
  from certified_nonzero [OF this] show False by (simp add: zero)
qed

section \<open>The states a generator reaches\<close>

inductive generator_state :: "i32 \<Rightarrow> sfmt \<Rightarrow> bool" for seed where
  seeded: "generator_state seed (RandomInit seed)"
| bits: "generator_state seed s \<Longrightarrow> generator_state seed (snd (BRandom s))"
| signed: "generator_state seed s \<Longrightarrow> generator_state seed (snd (IRandom mn mx s))"
| unsigned: "generator_state seed s \<Longrightarrow> generator_state seed (snd (URandom mn mx s))"
| fraction: "generator_state seed s \<Longrightarrow> generator_state seed (snd (Random s))"

lemma snd_IRandom: "snd (IRandom mn mx s) = s \<or> snd (IRandom mn mx s) = snd (BRandom s)"
  by (simp add: IRandom_def split: prod.split)

lemma snd_URandom: "snd (URandom mn mx s) = s \<or> snd (URandom mn mx s) = snd (BRandom s)"
  by (simp add: URandom_def split: prod.split)

lemma snd_Random: "snd (Random s) = snd (Random_bits s)"
  by (simp add: Random_def split: prod.split)

text \<open>
  \<^verbatim>\<open>Random\<close> needs two words and throws the last word of a block away when it is the only one
  left.
\<close>

lemma Random_stands_at:
  assumes "length st = SFMT_N" "stands_at msk st k s"
  shows "\<exists>k'. k \<le> k' \<and> k' \<le> k + 1 \<and> stands_at msk st (k' + 2) (snd (Random_bits s)) \<and>
    fst (Random_bits s) = drop_bit 12 (ucast (sfmt_word msk st k') OR push_bit 32 (ucast (sfmt_word msk st (k' + 1))))"
proof -
  define s' where "s' = (if sf_ix s \<ge> SFMT_N * 4 - 1 then Generate s else s)"
  have "\<exists>k'. k \<le> k' \<and> k' \<le> k + 1 \<and> stands_at msk st k' s'"
  proof (cases "sf_ix s = SFMT_N * 4 - 1")
    case True
    have "stands_at msk st (k + 1) (s\<lparr>sf_ix := sf_ix s + 1\<rparr>)"
      using stands_at_next(2) [OF assms] by (simp add: True)
    from stands_at_Generate [OF this] have "stands_at msk st (k + 1) s'"
      by (simp add: s'_def True Generate_def)
    then show ?thesis by (intro exI [of _ "k + 1"]) simp
  next
    case False
    then have "stands_at msk st k s'"
      using assms(2) stands_at_Generate [of msk st k s] by (auto simp: s'_def stands_at_def)
    then show ?thesis by (intro exI [of _ k]) simp
  qed
  then obtain k' where k': "k \<le> k'" "k' \<le> k + 1" "stands_at msk st k' s'" by blast
  have ix: "sf_ix s' + 1 < SFMT_N * 4"
    using assms(2) by (auto simp: s'_def Generate_def stands_at_def)
  have "stands_at msk st (k' + 1) (s'\<lparr>sf_ix := sf_ix s' + 1\<rparr>)"
    and "state_word (sf_state s') (sf_ix s') = sfmt_word msk st k'"
    using stands_at_next [OF assms(1) k'(3)] ix by simp_all
  moreover note stands_at_next [OF assms(1) this(1)]
  ultimately show ?thesis
    using k' ix unfolding Random_bits_def s'_def [symmetric] Let_def
    by (intro exI [of _ k']) (simp add: add.assoc)
qed

lemma generator_state_stands_at:
  "generator_state seed s \<Longrightarrow> \<exists>k. stands_at mask_of_generator (seed_state seed) k s"
proof (induction rule: generator_state.induct)
  case seeded
  then show ?case using RandomInit_stands_at by blast
next
  case (bits s)
  then show ?case using BRandom_stands_at(2) [OF length_seed_state] by blast
next
  case (signed s mn mx)
  then show ?case using snd_IRandom [of mn mx s] BRandom_stands_at(2) [OF length_seed_state] by metis
next
  case (unsigned s mn mx)
  then show ?case using snd_URandom [of mn mx s] BRandom_stands_at(2) [OF length_seed_state] by metis
next
  case (fraction s)
  then show ?case unfolding snd_Random using Random_stands_at [OF length_seed_state] by blast
qed

section \<open>Numbers in an interval\<close>

lemma unat_scale_bits: "unat (scale_bits b interval) = unat b * unat interval div 2 ^ 32"
proof -
  have small: "unat b * unat interval div 2 ^ 32 < 2 ^ 32" "unat b * unat interval < 2 ^ 64"
  proof -
    have "unat b * unat interval < 2 ^ 32 * 2 ^ 32"
      by (rule mult_strict_mono) simp_all
    then show "unat b * unat interval div 2 ^ 32 < 2 ^ 32" "unat b * unat interval < 2 ^ 64"
      by (simp_all add: less_mult_imp_div_less)
  qed
  have wide: "unat (ucast x :: u64) = unat x" for x :: u32
    unfolding unsigned_ucast_eq
    by (rule take_bit_nat_eq_self) (rule less_trans [OF unat_u32_less], simp)
  from small have "unat ((ucast b :: u64) * ucast interval) = unat b * unat interval"
    by (simp add: unat_word_ariths wide)
  then have "unat (drop_bit 32 ((ucast b :: u64) * ucast interval)) = unat b * unat interval div 2 ^ 32"
    by (subst unat_drop_bit_eq) (simp only: drop_bit_eq_div)
  then show ?thesis
    using small(1) unfolding scale_bits_def unsigned_ucast_eq by (simp add: take_bit_nat_eq_self)
qed

lemma scale_bits_less: "interval \<noteq> 0 \<Longrightarrow> scale_bits b interval < interval"
proof -
  assume "interval \<noteq> 0"
  then have "unat b * unat interval < 2 ^ 32 * unat interval"
    by (simp add: unat_gt_0)
  then show ?thesis
    by (simp add: word_less_nat_alt unat_scale_bits less_mult_imp_div_less mult.commute)
qed

text \<open>Every number of the interval comes out for some bits.\<close>

lemma scale_bits_onto:
  assumes "k < interval"
  shows "\<exists>b. scale_bits b interval = k"
proof -
  define n where "n = unat interval"
  define m where "m = unat k"
  define c where "c = (m * 2 ^ 32 + n - 1) div n"
  have mn: "m < n" "n \<le> 2 ^ 32" "0 < n"
    using assms by (auto simp: n_def m_def word_less_nat_alt less_imp_le)
  have lower: "m * 2 ^ 32 \<le> c * n" and upper: "c * n < m * 2 ^ 32 + n"
  proof -
    have "c * n + (m * 2 ^ 32 + n - 1) mod n = m * 2 ^ 32 + n - 1"
      unfolding c_def by (rule div_mult_mod_eq)
    moreover have "(m * 2 ^ 32 + n - 1) mod n < n" using mn by simp
    ultimately show "m * 2 ^ 32 \<le> c * n" "c * n < m * 2 ^ 32 + n" using mn by linarith+
  qed
  have "c * n < (m + 1) * 2 ^ 32" using upper mn by simp
  moreover have "(m + 1) * 2 ^ 32 \<le> n * 2 ^ 32" using mn by simp
  ultimately have "c * n < 2 ^ 32 * n" by (simp only: mult.commute [of "2 ^ 32" n])
  then have "c < 2 ^ 32" by simp
  moreover have "c * n div 2 ^ 32 = m"
    using lower \<open>c * n < (m + 1) * 2 ^ 32\<close> by (intro div_nat_eqI) (simp_all add: mult.commute)
  ultimately have "unat (scale_bits (word_of_nat c) interval) = unat k"
    by (simp add: unat_scale_bits n_def m_def unat_of_nat)
  then show ?thesis by (metis word_unat_eq_iff)
qed

lemma interval_offset:
  fixes mn mx x :: u32
  assumes "mn \<le> mx" "x < mx - mn + 1 \<or> x = 0"
  shows "mn \<le> x + mn \<and> x + mn \<le> mx"
proof -
  have d: "unat (mx - mn) = unat mx - unat mn" and le: "unat mn \<le> unat mx"
    using assms(1) by (simp_all add: unat_sub word_le_nat_alt)
  have "x \<le> mx - mn"
    using assms(2) by (auto simp: word_le_nat_alt word_less_nat_alt unat_word_ariths take_bit_nat_def
        split: if_splits)
  then have "unat x + unat mn \<le> unat mx"
    using d le by (simp add: word_le_nat_alt)
  moreover from this have "unat x + unat mn < 4294967296"
    using unat_u32_less [of mx] by (rule le_less_trans)
  then have "unat (x + mn) = unat x + unat mn"
    by (simp add: unat_word_ariths)
  ultimately show ?thesis by (simp add: word_le_nat_alt)
qed

lemma scale_bits_interval: "scale_bits b n < n \<or> scale_bits b n = 0"
proof (cases "n = 0")
  case True
  then have "unat (scale_bits b n) = 0" by (simp add: unat_scale_bits)
  then show ?thesis by (simp add: unat_eq_0)
next
  case False
  then show ?thesis by (simp add: scale_bits_less)
qed

lemma URandom_within:
  assumes "mn \<le> mx"
  shows "mn \<le> fst (URandom mn mx s)" "fst (URandom mn mx s) \<le> mx"
  using interval_offset [OF assms scale_bits_interval] assms
  by (auto simp: URandom_def split: prod.split)

text \<open>
  The whole range of 32 bits has an interval whose length is not a 32-bit number; then every draw
  is the minimum.
\<close>

lemma URandom_whole_range: "fst (URandom 0 (- 1) s) = 0"
proof -
  have "scale_bits b 0 = 0" for b
    using scale_bits_interval [of b 0] by simp
  then show ?thesis by (simp add: URandom_def split: prod.split)
qed

text \<open>Shifted by \<open>2\<^sup>3\<^sup>1\<close>, the signed order is the unsigned one.\<close>

lemma sint_shift: "sint w = uint (w + 0x80000000) - 2 ^ 31" for w :: i32
proof -
  have "sint w = take_bit 32 (uint w + 2 ^ 31) - 2 ^ 31"
    by (simp add: sint_uint signed_take_bit_eq_take_bit_shift take_bit_Suc_from_most)
  then show ?thesis
    by (simp add: uint_word_ariths take_bit_int_def mod_add_left_eq)
qed

lemma sint_le_shift: "sint v \<le> sint w \<longleftrightarrow> v + 0x80000000 \<le> w + 0x80000000" for v w :: i32
  by (simp add: sint_shift word_le_def)

lemma IRandom_within:
  assumes "sint mn \<le> sint mx"
  shows "sint mn \<le> sint (fst (IRandom mn mx s))" "sint (fst (IRandom mn mx s)) \<le> sint mx"
proof -
  have less: "sint mx \<le> sint mn \<Longrightarrow> mx = mn"
    using assms by (metis dual_order.antisym signed_word_eqI)
  have "mx + 0x80000000 - (mn + 0x80000000) = mx - mn"
    by simp
  then have "sint mn \<le> sint (scale_bits b (mx - mn + 1) + mn)"
    "sint (scale_bits b (mx - mn + 1) + mn) \<le> sint mx" for b
    using interval_offset [of "mn + 0x80000000" "mx + 0x80000000" "scale_bits b (mx - mn + 1)"]
      scale_bits_interval [of b "mx - mn + 1"] assms
    by (simp_all add: sint_le_shift add.assoc)
  with less assms show "sint mn \<le> sint (fst (IRandom mn mx s))" "sint (fst (IRandom mn mx s)) \<le> sint mx"
    by (auto simp: IRandom_def split: prod.split)
qed

lemma urand_draws:
  assumes "mn \<le> mx"
  shows "\<exists>x rng'. urand seed mn mx rng = Some (x, Some rng') \<and> mn \<le> x \<and> x \<le> mx"
  using assms URandom_within [OF assms, of "GetRng seed rng"] by (auto simp: urand_def split: prod.split)

lemma irand_draws:
  assumes "sint mn \<le> sint mx"
  shows "\<exists>x rng'. irand seed mn mx rng = Some (x, Some rng') \<and> sint mn \<le> sint x \<and> sint x \<le> sint mx"
  using assms IRandom_within [OF assms, of "GetRng seed rng"] by (auto simp: irand_def split: prod.split)

lemma Random_below_1: "0 \<le> fst (Random s) \<and> fst (Random s) < 1"
proof -
  have "unat (drop_bit 12 r) < 2 ^ 52" for r :: u64
  proof -
    have "unat r < 2 ^ 64" using unsigned_less [of r] by simp
    then have "unat r div 2 ^ 12 < 2 ^ 52" by (simp add: less_mult_imp_div_less)
    then show ?thesis by (subst unat_drop_bit_eq) (simp only: drop_bit_eq_div)
  qed
  moreover have "\<exists>r. fst (Random_bits s) = drop_bit 12 r"
    unfolding Random_bits_def Let_def fst_conv by (rule exI, rule refl)
  ultimately have "unat (fst (Random_bits s)) < 2 ^ 52"
    by auto
  moreover have "0 \<le> (of_nat n :: rat) / 2 ^ 52 \<and> (of_nat n :: rat) / 2 ^ 52 < 1" if "n < 2 ^ 52" for n
    using of_nat_less_iff [of n "2 ^ 52", where ?'a = rat] that by simp
  moreover have "fst (Random s) = of_nat (unat (fst (Random_bits s))) / 2 ^ 52"
    unfolding Random_def by (cases "Random_bits s") simp
  ultimately show ?thesis by (simp only:)
qed

section \<open>What the generator promises\<close>

text \<open>
  C25. After seeding, the bits drawn one after the other are the words of the reference recurrence from its
  second block on, whatever the number of draws: writing the blocks in place and reading them by an
  index loses, repeats and reorders nothing.\<close>

theorem draws_follow_recurrence:
  "draws n (RandomInit seed) =
     map (sfmt_word mask_of_generator (seed_state seed)) [SFMT_N * 4..<SFMT_N * 4 + n]"
  using draws_stands_at [OF length_seed_state RandomInit_stands_at] .

text \<open>
  C26. No seed and no sequence of draws brings the generator into a state it cannot leave: the first register
  of a seeded state has odd parity against the period vector, so it is not zero, and no later state
  is all zeros. The state keeps its length and the index stays within it.\<close>

theorem generator_never_stuck:
  assumes "generator_state seed s"
  shows "length (sf_state s) = SFMT_N \<and> sf_ix s \<le> SFMT_N * 4 \<and> (\<exists>x \<in> set (sf_state s). x \<noteq> 0) \<and>
    certified (seed_state seed ! 0)"
proof -
  obtain k where "stands_at mask_of_generator (seed_state seed) k s"
    using generator_state_stands_at [OF assms] ..
  then obtain j where j: "sf_state s = (generate_state mask_of_generator ^^ j) (seed_state seed)"
    and ix: "sf_ix s \<le> SFMT_N * 4"
    by (auto simp: stands_at_def)
  have nonzero: "length (sf_state s) = SFMT_N" "sf_state s \<noteq> replicate SFMT_N 0"
    using blocks_nonzero [OF length_seed_state seed_state_nonzero] by (simp_all add: j)
  then have "\<exists>x \<in> set (sf_state s). x \<noteq> 0"
    using replicate_eqI [of "sf_state s" SFMT_N 0] by blast
  moreover have "certified (seed_state seed ! 0)"
    unfolding seed_state_def by (rule certify_certified) (simp add: length_pack_lanes flip: length_0_conv)
  ultimately show ?thesis using nonzero(1) ix by blast
qed

theorem generator_never_stuck_witness:
  "\<exists>x \<in> set (sf_state (snd (BRandom (RandomInit 1)))). x \<noteq> 0"
  using generator_never_stuck [OF generator_state.bits [OF generator_state.seeded [of 1]]] by blast

text \<open>
  A number drawn from an interval lies in it, both ends included, for signed and unsigned numbers and
  for every interval that is not empty.\<close>

theorem random_number_in_interval:
  assumes "mn \<le> mx" and "sint lo \<le> sint hi"
  shows "\<exists>x y rng' rng''. urand seed mn mx rng = Some (x, rng') \<and> mn \<le> x \<and> x \<le> mx \<and>
      irand seed lo hi rng = Some (y, rng'') \<and> sint lo \<le> sint y \<and> sint y \<le> sint hi"
  using urand_draws [OF assms(1), of seed rng] irand_draws [OF assms(2), of seed rng] by blast

theorem random_number_in_interval_witness:
  "\<exists>x y rng' rng''. urand 7 1 6 None = Some (x, rng') \<and> 1 \<le> x \<and> x \<le> 6 \<and>
     irand 7 (- 3) 3 None = Some (y, rng'') \<and> sint (- 3 :: i32) \<le> sint y \<and> sint y \<le> sint (3 :: i32)"
  by (rule random_number_in_interval [of 1 6 "- 3" 3 7 None]) (simp_all add: sint_shift)

text \<open>Every number of the interval is drawn for some bits, when its length is a 32-bit number.\<close>

lemma every_number_drawn:
  fixes mn mx x :: u32
  assumes "mx - mn + 1 \<noteq> 0" "mn \<le> x" "x \<le> mx"
  shows "\<exists>b. scale_bits b (mx - mn + 1) + mn = x"
proof -
  have "unat (mx - mn + 1) = Suc (unat (mx - mn))"
    using unatSuc [of "mx - mn"] assms(1) by (simp add: add.commute)
  then have "x - mn < mx - mn + 1"
    using assms by (simp add: word_less_nat_alt word_le_nat_alt unat_sub)
  then show ?thesis
    using scale_bits_onto [of "x - mn" "mx - mn + 1"] by (metis diff_add_cancel)
qed

end
