(* ===== verification/Containers.thy ===== *)
theory Containers
  imports Rng "HOL-Library.Sublist"
begin

text \<open>
  The templates of \<^verbatim>\<open>shared/Containers.h\<close>: thinning a list to a size at random, picking a
  random element, and looking for a common element of two sorted ranges. The header declares
  \<^verbatim>\<open>urand\<close> as external; here it is the parameter \<open>draw\<close>, threaded through with its state \<open>'s\<close>. The
  locale \<open>draw_source\<close> states what the templates rely on, and the generator of \<open>Rng\<close> interprets it.
  Dereferencing or erasing at the end of a container is undefined in the language and has no result.
\<close>

section \<open>The templates\<close>

definition erase_at :: "nat \<Rightarrow> 'a list \<Rightarrow> 'a list option" where
  "erase_at i xs = (if i < length xs then Some (take i xs @ drop (Suc i) xs) else None)"

lemma length_erase_at: "erase_at i xs = Some ys \<Longrightarrow> length xs = Suc (length ys)"
  by (auto simp: erase_at_def split: if_splits)

lemma subseq_erase:
  assumes "i < length xs"
  shows "subseq (take i xs @ drop (Suc i) xs) xs"
proof -
  have "subseq (take i xs @ drop (Suc i) xs) (take i xs @ xs ! i # drop (Suc i) xs)"
    by (rule list_emb_append_mono) auto
  then show ?thesis
    by (simp only: id_take_nth_drop [OF assms, symmetric])
qed

text \<open>
  \<^verbatim>\<open>RandomResizeList(list, size)\<close>. The size of the list is 64 bits wide and is cut to the 32
  bits of the argument of \<^verbatim>\<open>urand\<close>.
\<close>

function RandomResizeList ::
  "(u32 \<Rightarrow> u32 \<Rightarrow> 's \<Rightarrow> (u32 \<times> 's) option) \<Rightarrow> u32 \<Rightarrow> 'a list \<Rightarrow> 's \<Rightarrow> ('a list \<times> 's) option" where
  "RandomResizeList draw sz list s =
     (if length list > unat sz then
        case draw 0 (word_of_nat (length list - 1)) s of
          None \<Rightarrow> None
        | Some (i, s) \<Rightarrow>
            (case erase_at (unat i) list of None \<Rightarrow> None | Some list \<Rightarrow> RandomResizeList draw sz list s)
      else Some (list, s))"
  by pat_completeness auto
termination
  by (relation "measure (\<lambda>(draw, sz, list, s). length list)") (auto dest: length_erase_at)

declare RandomResizeList.simps [simp del]

text \<open>The second template filters first; here a size of \<open>0\<close> keeps all that is left.\<close>

definition RandomResizeList_if ::
  "(u32 \<Rightarrow> u32 \<Rightarrow> 's \<Rightarrow> (u32 \<times> 's) option) \<Rightarrow> ('a \<Rightarrow> bool) \<Rightarrow> u32 \<Rightarrow> 'a list \<Rightarrow> 's \<Rightarrow> ('a list \<times> 's) option" where
  "RandomResizeList_if draw predicate sz list s =
     (let listCopy = filter predicate list
      in if sz \<noteq> 0 then RandomResizeList draw sz listCopy s else Some (listCopy, s))"

definition SelectRandomContainerElement ::
  "(u32 \<Rightarrow> u32 \<Rightarrow> 's \<Rightarrow> (u32 \<times> 's) option) \<Rightarrow> 'a list \<Rightarrow> 's \<Rightarrow> ('a \<times> 's) option" where
  "SelectRandomContainerElement draw container s =
     (case draw 0 (word_of_nat (length container) - 1) s of
        None \<Rightarrow> None
      | Some (i, s) \<Rightarrow> if unat i < length container then Some (container ! unat i, s) else None)"

fun Intersects :: "'a::linorder list \<Rightarrow> 'a list \<Rightarrow> bool" where
  "Intersects [] ys = False"
| "Intersects (x # xs) [] = False"
| "Intersects (x # xs) (y # ys) =
     (if x < y then Intersects xs (y # ys)
      else if y < x then Intersects (x # xs) ys
      else True)"

section \<open>What they rely on\<close>

locale draw_source =
  fixes draw :: "u32 \<Rightarrow> u32 \<Rightarrow> 's \<Rightarrow> (u32 \<times> 's) option"
  assumes draws: "mn \<le> mx \<Longrightarrow> \<exists>x s'. draw mn mx s = Some (x, s') \<and> mn \<le> x \<and> x \<le> mx"
begin

text \<open>An index drawn for a list that is not empty lies inside it, however long the list is.\<close>

lemma draw_index:
  assumes "xs \<noteq> []"
  obtains i s' where "draw 0 (word_of_nat (length xs - 1)) s = Some (i, s')" "unat i < length xs"
proof -
  obtain i s' where i: "draw 0 (word_of_nat (length xs - 1)) s = Some (i, s')"
    "i \<le> word_of_nat (length xs - 1)"
    using draws [of 0 "word_of_nat (length xs - 1)" s] by auto
  from i(2) have "unat i \<le> length xs - 1"
    unfolding word_le_nat_alt unat_of_nat by (rule order_trans) (rule mod_less_eq_dividend)
  moreover have "0 < length xs" using assms by simp
  ultimately have "unat i < length xs" by linarith
  with i(1) show thesis by (rule that)
qed

lemma resize:
  "\<exists>ys s'. RandomResizeList draw sz xs s = Some (ys, s') \<and> subseq ys xs \<and>
     length ys = min (length xs) (unat sz)"
proof (induction "length xs" arbitrary: xs s)
  case 0
  then show ?case by (simp add: RandomResizeList.simps)
next
  case (Suc n)
  show ?case
  proof (cases "length xs > unat sz")
    case False
    then show ?thesis by (simp add: RandomResizeList.simps)
  next
    case True
    then have "xs \<noteq> []" by auto
    then obtain i s' where i: "draw 0 (word_of_nat (length xs - 1)) s = Some (i, s')" "unat i < length xs"
      by (rule draw_index)
    let ?zs = "take (unat i) xs @ drop (Suc (unat i)) xs"
    have zs: "n = length ?zs" using Suc.hyps(2) i(2) by simp
    obtain ys s'' where ys: "RandomResizeList draw sz ?zs s' = Some (ys, s'')" "subseq ys ?zs"
      "length ys = min (length ?zs) (unat sz)"
      using Suc.hyps(1) [OF zs, of s'] by blast
    have "subseq ?zs xs" using i(2) by (rule subseq_erase)
    moreover have "RandomResizeList draw sz xs s = Some (ys, s'')"
      using True i ys(1) by (subst RandomResizeList.simps) (simp add: erase_at_def)
    moreover have "length ys = min (length xs) (unat sz)"
      using ys(3) True Suc.hyps(2) zs by simp
    ultimately show ?thesis using ys(2) subseq_order.order_trans by blast
  qed
qed

lemma select:
  assumes "xs \<noteq> []" "length xs < 2 ^ 32"
  shows "\<exists>x s'. SelectRandomContainerElement draw xs s = Some (x, s') \<and> x \<in> set xs"
proof -
  have "word_of_nat (length xs) - 1 = (word_of_nat (length xs - 1) :: u32)"
    using assms(1) by (simp add: of_nat_diff Suc_le_eq)
  moreover obtain i s' where "draw 0 (word_of_nat (length xs - 1)) s = Some (i, s')" "unat i < length xs"
    using assms(1) by (rule draw_index)
  ultimately show ?thesis by (simp add: SelectRandomContainerElement_def)
qed

text \<open>On an empty container the pick has no result: it would read the end of the container.\<close>

lemma select_empty: "SelectRandomContainerElement draw [] s = None"
  by (simp add: SelectRandomContainerElement_def split: option.split)

end

interpretation urand_source: draw_source "urand seed" for seed
  by unfold_locales (use urand_draws in blast)
section \<open>The search for a common element\<close>

lemma Intersects_sound: "Intersects xs ys \<Longrightarrow> set xs \<inter> set ys \<noteq> {}"
  by (induction xs ys rule: Intersects.induct) (auto split: if_splits)

lemma Intersects_complete:
  "sorted xs \<Longrightarrow> sorted ys \<Longrightarrow> set xs \<inter> set ys \<noteq> {} \<Longrightarrow> Intersects xs ys"
proof (induction xs ys rule: Intersects.induct)
  case (3 x xs y ys)
  consider "x < y" | "y < x" | "x = y" by fastforce
  then show ?case
  proof cases
    case 1
    then have "set xs \<inter> set (y # ys) \<noteq> {}" using 3 by auto
    then show ?thesis using 1 3 by simp
  next
    case 2
    then have "set (x # xs) \<inter> set ys \<noteq> {}" using 3 by auto
    then show ?thesis using 2 3 by simp
  qed simp
qed simp_all

section \<open>The templates with the generator\<close>

text \<open>
  Thinning a list with the server's generator ends, fails for no list, size and seed, removes elements
  only, keeps their order, and leaves the smaller of the list's and the asked length; with a
  filter it does the same to the elements that pass, except that a size of zero leaves all of
  them.\<close>

theorem resize_keeps_size:
  "\<exists>ys rng'. RandomResizeList (urand seed) sz xs rng = Some (ys, rng') \<and> subseq ys xs \<and>
      length ys = min (length xs) (unat sz) \<and>
    (\<exists>zs rng''. RandomResizeList_if (urand seed) P sz xs rng = Some (zs, rng'') \<and>
      subseq zs (filter P xs) \<and>
      length zs = (if sz = 0 then length (filter P xs) else min (length (filter P xs)) (unat sz)))"
proof -
  obtain ys rng' where ys: "RandomResizeList (urand seed) sz xs rng = Some (ys, rng')" "subseq ys xs"
    "length ys = min (length xs) (unat sz)"
    using urand_source.resize [of seed sz xs rng] by blast
  obtain zs rng'' where zs: "RandomResizeList (urand seed) sz (filter P xs) rng = Some (zs, rng'')"
    "subseq zs (filter P xs)" "length zs = min (length (filter P xs)) (unat sz)"
    using urand_source.resize [of seed sz "filter P xs" rng] by blast
  have "\<exists>zs rng''. RandomResizeList_if (urand seed) P sz xs rng = Some (zs, rng'') \<and>
      subseq zs (filter P xs) \<and>
      length zs = (if sz = 0 then length (filter P xs) else min (length (filter P xs)) (unat sz))"
    using zs by (simp add: RandomResizeList_if_def)
  with ys show ?thesis by blast
qed

text \<open>
  On sorted ranges the merge walk finds a common element exactly when there is one, as if every pair
  had been compared.\<close>

theorem intersects_iff_common:
  assumes "sorted xs" "sorted ys"
  shows "Intersects xs ys \<longleftrightarrow> (\<exists>x \<in> set xs. \<exists>y \<in> set ys. x = y)"
  using Intersects_sound [of xs ys] Intersects_complete [OF assms] by blast

theorem intersects_iff_common_witness:
  "Intersects [1, 3, 5, 8 :: nat] [2, 4, 5] \<longleftrightarrow> (\<exists>x \<in> set [1, 3, 5, 8 :: nat]. \<exists>y \<in> set [2, 4, 5]. x = y)"
  by (rule intersects_iff_common) simp_all

text \<open>The walk relies on the order: on ranges that are not sorted it can miss a common element.\<close>

lemma intersects_needs_order: "\<not> Intersects [3, 1 :: nat] [1, 2]" "set [3, 1 :: nat] \<inter> set [1, 2] \<noteq> {}"
  by simp_all

end
