(* ===== verification/PacketLog.thy ===== *)
theory PacketLog
  imports Config
begin

text \<open>
  The packet log, \<^verbatim>\<open>Server/Protocol/PacketLog.cpp\<close>: a binary file of one header and a record for
  each packet, in the PKT 3.1 layout. The structures are packed, so a structure is the list of its
  bytes. The file system is the parameter \<open>openable\<close>, which tells whether \<^verbatim>\<open>fopen\<close> succeeds on a
  name; an open file is the list of bytes written to it. Writing to a null \<^verbatim>\<open>FILE*\<close> is undefined and has no
  result. The mutex is held for the whole of \<^verbatim>\<open>LogPacket\<close>, so calls follow each other. The reference is a
  reader of the format; the lemmas show that it gets every logged packet back, in order.
\<close>

section \<open>The structures\<close>

datatype Direction = CLIENT_TO_SERVER | SERVER_TO_CLIENT

record LogHeader =
  lh_Signature :: "u8 list"
  lh_FormatVersion :: u16
  lh_SnifferId :: u8
  lh_Build :: u32
  lh_Locale :: "u8 list"
  lh_SessionKey :: "u8 list"
  lh_SniffStartUnixtime :: u32
  lh_SniffStartTicks :: u32
  lh_OptionalDataSize :: u32

record OptionalData =
  od_SocketIPBytes :: "u8 list"
  od_SocketPort :: u32

record PacketHeader =
  ph_Direction :: "u8 list"
  ph_ConnectionId :: u32
  ph_ArrivalTicks :: u32
  ph_OptionalDataSize :: u32
  ph_Length :: u32
  ph_OptionalData :: OptionalData
  ph_Opcode :: u32

definition LogHeader_bytes :: "LogHeader \<Rightarrow> u8 list" where
  "LogHeader_bytes h =
     lh_Signature h @ le_enc 2 (unat (lh_FormatVersion h)) @ [lh_SnifferId h] @ le_enc 4 (unat (lh_Build h)) @
     lh_Locale h @ lh_SessionKey h @ le_enc 4 (unat (lh_SniffStartUnixtime h)) @
     le_enc 4 (unat (lh_SniffStartTicks h)) @ le_enc 4 (unat (lh_OptionalDataSize h))"

definition OptionalData_bytes :: "OptionalData \<Rightarrow> u8 list" where
  "OptionalData_bytes d = od_SocketIPBytes d @ le_enc 4 (unat (od_SocketPort d))"

definition PacketHeader_bytes :: "PacketHeader \<Rightarrow> u8 list" where
  "PacketHeader_bytes h =
     ph_Direction h @ le_enc 4 (unat (ph_ConnectionId h)) @ le_enc 4 (unat (ph_ArrivalTicks h)) @
     le_enc 4 (unat (ph_OptionalDataSize h)) @ le_enc 4 (unat (ph_Length h)) @
     OptionalData_bytes (ph_OptionalData h) @ le_enc 4 (unat (ph_Opcode h))"

section \<open>The log\<close>

text \<open>An address is four or sixteen bytes in network order, or one of neither family.\<close>

datatype address = IPv4 "u8 list" | IPv6 "u8 list" | NoAddress

record packet_log =
  pl_file :: "u8 list option"

definition PacketLog_CanLogPacket :: "packet_log \<Rightarrow> bool" where
  "PacketLog_CanLogPacket l \<longleftrightarrow> pl_file l \<noteq> None"

definition PacketLog_fwrite :: "u8 list \<Rightarrow> packet_log \<Rightarrow> packet_log option" where
  "PacketLog_fwrite bytes l =
     (case pl_file l of None \<Rightarrow> None | Some written \<Rightarrow> Some (l\<lparr>pl_file := Some (written @ bytes)\<rparr>))"

definition with_separator :: "string \<Rightarrow> string" where
  "with_separator logsDir =
     (if logsDir \<noteq> [] then
        if last logsDir \<noteq> CHR ''/'' \<and> last logsDir \<noteq> CHR 0x5C then logsDir @ ''/'' else logsDir
      else logsDir)"

definition log_header :: "u32 \<Rightarrow> u32 \<Rightarrow> LogHeader" where
  "log_header now tick =
     \<lparr>lh_Signature = [0x50, 0x4B, 0x54], lh_FormatVersion = 0x0301, lh_SnifferId = 0x54, lh_Build = 12340,
      lh_Locale = [0x65, 0x6E, 0x55, 0x53], lh_SessionKey = replicate 40 0,
      lh_SniffStartUnixtime = now, lh_SniffStartTicks = tick, lh_OptionalDataSize = 0\<rparr>"

text \<open>
  \<open>now\<close> is the time cut to 32 bits, \<open>tick\<close> what \<^verbatim>\<open>getMSTime\<close> returns. The constructor leaves
  the file null and calls this once.
\<close>

definition PacketLog_Initialize ::
  "(string \<Rightarrow> bool) \<Rightarrow> config_mgr \<Rightarrow> u32 \<Rightarrow> u32 \<Rightarrow> packet_log \<Rightarrow> packet_log option" where
  "PacketLog_Initialize openable config now tick l =
     (let logsDir = with_separator (ConfigMgr_GetStringDefault ''LogsDir'' '''' config);
          logname = ConfigMgr_GetStringDefault ''PacketLogFile'' '''' config
      in if logname \<noteq> [] then
           let l = l\<lparr>pl_file := (if openable (logsDir @ logname) then Some [] else None)\<rparr>
           in PacketLog_fwrite (LogHeader_bytes (log_header now tick)) l
         else Some l)"

definition PacketLog_new :: "(string \<Rightarrow> bool) \<Rightarrow> config_mgr \<Rightarrow> u32 \<Rightarrow> u32 \<Rightarrow> packet_log option" where
  "PacketLog_new openable config now tick =
     PacketLog_Initialize openable config now tick \<lparr>pl_file = None\<rparr>"

text \<open>\<^verbatim>\<open>memset\<close> and \<^verbatim>\<open>memcpy\<close> into the sixteen bytes of the address.\<close>

fun ip_bytes :: "address \<Rightarrow> u8 list" where
  "ip_bytes (IPv4 bytes) = overwrite 0 bytes (replicate 16 0)"
| "ip_bytes (IPv6 bytes) = overwrite 0 bytes (replicate 16 0)"
| "ip_bytes NoAddress = replicate 16 0"

definition packet_header :: "Direction \<Rightarrow> address \<Rightarrow> u16 \<Rightarrow> u32 \<Rightarrow> world_packet \<Rightarrow> PacketHeader" where
  "packet_header direction addr port tick packet =
     \<lparr>ph_Direction = le_enc 4 (if direction = CLIENT_TO_SERVER then 0x47534d43 else 0x47534d53),
      ph_ConnectionId = 0, ph_ArrivalTicks = tick, ph_OptionalDataSize = 20,
      ph_Length = word_of_nat (bb_size packet) + 4,
      ph_OptionalData = \<lparr>od_SocketIPBytes = ip_bytes addr, od_SocketPort = ucast port\<rparr>,
      ph_Opcode = m_opcode packet\<rparr>"

definition PacketLog_LogPacket ::
  "world_packet \<Rightarrow> Direction \<Rightarrow> address \<Rightarrow> u16 \<Rightarrow> u32 \<Rightarrow> packet_log \<Rightarrow> packet_log option" where
  "PacketLog_LogPacket packet direction addr port tick l =
     (case PacketLog_fwrite (PacketHeader_bytes (packet_header direction addr port tick packet)) l of
        None \<Rightarrow> None
      | Some l \<Rightarrow>
          if \<not> bb_empty packet then PacketLog_fwrite (storage packet) l else Some l)"

section \<open>A reader of the format\<close>

record log_entry =
  le_direction :: Direction
  le_tick :: u32
  le_ip :: "u8 list"
  le_port :: u32
  le_opcode :: u32
  le_contents :: "u8 list"

text \<open>The letters CMSG and SMSG.\<close>

definition direction_of :: "u8 list \<Rightarrow> Direction option" where
  "direction_of bytes =
     (if bytes = [0x43, 0x4D, 0x53, 0x47] then Some CLIENT_TO_SERVER
      else if bytes = [0x53, 0x4D, 0x53, 0x47] then Some SERVER_TO_CLIENT else None)"

definition parse_entry :: "u8 list \<Rightarrow> (log_entry \<times> u8 list) option" where
  "parse_entry bs =
     (let len = le_dec (take 4 (drop 16 bs)); rest = drop 44 bs in
      if length bs < 44 \<or> len < 4 \<or> length rest < len - 4 then None
      else case direction_of (take 4 bs) of
          None \<Rightarrow> None
        | Some d \<Rightarrow>
            Some (\<lparr>le_direction = d, le_tick = word_of_nat (le_dec (take 4 (drop 8 bs))),
                   le_ip = take 16 (drop 20 bs), le_port = word_of_nat (le_dec (take 4 (drop 36 bs))),
                   le_opcode = word_of_nat (le_dec (take 4 (drop 40 bs))),
                   le_contents = take (len - 4) rest\<rparr>, drop (len - 4) rest))"

lemma parse_entry_shorter: "parse_entry bs = Some (e, rest) \<Longrightarrow> length rest < length bs"
  by (auto simp: parse_entry_def Let_def split: if_splits option.splits)

function parse_entries :: "u8 list \<Rightarrow> log_entry list option" where
  "parse_entries bs =
     (if bs = [] then Some []
      else case parse_entry bs of
          None \<Rightarrow> None
        | Some (e, rest) \<Rightarrow> map_option (Cons e) (parse_entries rest))"
  by pat_completeness auto
termination
  by (relation "measure length") (auto dest: parse_entry_shorter)

declare parse_entries.simps [simp del]

text \<open>A log is the 66 bytes of its header, with the signature, and the entries.\<close>

definition parse_log :: "u8 list \<Rightarrow> log_entry list option" where
  "parse_log bs =
     (if length bs < 66 \<or> take 5 bs \<noteq> [0x50, 0x4B, 0x54, 0x01, 0x03] then None else parse_entries (drop 66 bs))"

section \<open>What the server writes is read back\<close>

record log_call =
  lc_packet :: world_packet
  lc_direction :: Direction
  lc_addr :: address
  lc_port :: u16
  lc_tick :: u32

fun log_calls :: "log_call list \<Rightarrow> packet_log \<Rightarrow> packet_log option" where
  "log_calls [] l = Some l"
| "log_calls (c # cs) l =
     (case PacketLog_LogPacket (lc_packet c) (lc_direction c) (lc_addr c) (lc_port c) (lc_tick c) l of
        None \<Rightarrow> None
      | Some l \<Rightarrow> log_calls cs l)"

fun address_ok :: "address \<Rightarrow> bool" where
  "address_ok (IPv4 bytes) = (length bytes = 4)"
| "address_ok (IPv6 bytes) = (length bytes = 16)"
| "address_ok NoAddress = True"

definition call_ok :: "log_call \<Rightarrow> bool" where
  "call_ok c \<longleftrightarrow> address_ok (lc_addr c) \<and> bb_size (lc_packet c) + 4 < 2 ^ 32"

definition entry_of :: "log_call \<Rightarrow> log_entry" where
  "entry_of c =
     \<lparr>le_direction = lc_direction c, le_tick = lc_tick c, le_ip = ip_bytes (lc_addr c),
      le_port = ucast (lc_port c), le_opcode = m_opcode (lc_packet c),
      le_contents = storage (lc_packet c)\<rparr>"

definition call_bytes :: "log_call \<Rightarrow> u8 list" where
  "call_bytes c =
     PacketHeader_bytes (packet_header (lc_direction c) (lc_addr c) (lc_port c) (lc_tick c) (lc_packet c)) @
     storage (lc_packet c)"

lemma length_ip_bytes: "address_ok a \<Longrightarrow> length (ip_bytes a) = 16"
  by (cases a) simp_all

lemma u32_field: "word_of_nat (le_dec (le_enc 4 (unat w))) = w" for w :: u32
  by (simp add: le_dec_enc)

lemma direction_field:
  "direction_of (le_enc 4 (if d = CLIENT_TO_SERVER then 0x47534d43 else 0x47534d53)) = Some d"
  by (cases d) (simp_all add: le_enc_4 direction_of_def)

lemma header_fields:
  assumes "call_ok c"
  shows "length (PacketHeader_bytes (packet_header (lc_direction c) (lc_addr c) (lc_port c) (lc_tick c) (lc_packet c))) = 44"
    and "unat (ph_Length (packet_header (lc_direction c) (lc_addr c) (lc_port c) (lc_tick c) (lc_packet c))) =
      length (storage (lc_packet c)) + 4"
proof -
  have "bb_size (lc_packet c) + 4 < 2 ^ 32" using assms by (simp add: call_ok_def)
  then show "unat (ph_Length (packet_header (lc_direction c) (lc_addr c) (lc_port c) (lc_tick c) (lc_packet c))) =
      length (storage (lc_packet c)) + 4"
    by (simp add: packet_header_def bb_size_def unat_word_ariths unat_of_nat)
  show "length (PacketHeader_bytes (packet_header (lc_direction c) (lc_addr c) (lc_port c) (lc_tick c) (lc_packet c))) = 44"
    using assms by (simp add: call_ok_def PacketHeader_bytes_def packet_header_def OptionalData_bytes_def length_ip_bytes)
qed

lemma parse_call:
  assumes "call_ok c"
  shows "parse_entry (call_bytes c @ rest) = Some (entry_of c, rest)"
proof -
  let ?h = "packet_header (lc_direction c) (lc_addr c) (lc_port c) (lc_tick c) (lc_packet c)"
  have ip: "length (ip_bytes (lc_addr c)) = 16"
    using assms by (simp add: call_ok_def length_ip_bytes)
  have bytes: "call_bytes c @ rest =
      ph_Direction ?h @ le_enc 4 (unat (ph_ConnectionId ?h)) @ le_enc 4 (unat (ph_ArrivalTicks ?h)) @
      le_enc 4 (unat (ph_OptionalDataSize ?h)) @ le_enc 4 (unat (ph_Length ?h)) @
      ip_bytes (lc_addr c) @ le_enc 4 (unat (ucast (lc_port c) :: u32)) @
      le_enc 4 (unat (ph_Opcode ?h)) @ storage (lc_packet c) @ rest"
    by (simp add: call_bytes_def PacketHeader_bytes_def OptionalData_bytes_def packet_header_def)
  have "bb_size (lc_packet c) + 4 < 2 ^ 32" using assms by (simp add: call_ok_def)
  then have len: "le_dec (le_enc 4 (length (storage (lc_packet c)) + 4)) = length (storage (lc_packet c)) + 4"
    by (simp add: le_dec_enc bb_size_def)
  have dir: "length (ph_Direction ?h) = 4" "direction_of (ph_Direction ?h) = Some (lc_direction c)"
    by (simp_all add: packet_header_def direction_field)
  have plain: "ph_ArrivalTicks ?h = lc_tick c" "ph_Opcode ?h = m_opcode (lc_packet c)"
    by (simp_all add: packet_header_def)
  show ?thesis
    unfolding bytes parse_entry_def Let_def
    by (simp add: ip len header_fields(2) [OF assms] dir u32_field entry_of_def plain)
qed

lemma parse_calls:
  assumes "\<forall>c \<in> set cs. call_ok c"
  shows "parse_entries (concat (map call_bytes cs)) = Some (map entry_of cs)"
  using assms
proof (induction cs)
  case Nil
  then show ?case by (simp add: parse_entries.simps)
next
  case (Cons c cs)
  have "call_bytes c \<noteq> []"
    using header_fields(1) [of c] Cons.prems by (auto simp: call_bytes_def)
  with Cons show ?case
    by (subst parse_entries.simps) (simp add: parse_call)
qed

lemma LogPacket_writes:
  "pl_file l = Some written \<Longrightarrow>
   PacketLog_LogPacket (lc_packet c) (lc_direction c) (lc_addr c) (lc_port c) (lc_tick c) l =
     Some (l\<lparr>pl_file := Some (written @ call_bytes c)\<rparr>)"
  by (auto simp: PacketLog_LogPacket_def PacketLog_fwrite_def call_bytes_def bb_empty_def)

lemma log_calls_write:
  "pl_file l = Some written \<Longrightarrow>
   log_calls cs l = Some (l\<lparr>pl_file := Some (written @ concat (map call_bytes cs))\<rparr>)"
  by (induction cs arbitrary: l written) (simp_all add: LogPacket_writes)

lemma Initialize_writes:
  assumes "ConfigMgr_GetStringDefault ''PacketLogFile'' '''' config \<noteq> []"
    and "openable (with_separator (ConfigMgr_GetStringDefault ''LogsDir'' '''' config) @
      ConfigMgr_GetStringDefault ''PacketLogFile'' '''' config)"
  shows "PacketLog_new openable config now tick =
    Some \<lparr>pl_file = Some (LogHeader_bytes (log_header now tick))\<rparr>"
  using assms by (simp add: PacketLog_new_def PacketLog_Initialize_def PacketLog_fwrite_def)

lemma log_header_prefix:
  "length (LogHeader_bytes (log_header now tick)) = 66"
  "take 5 (LogHeader_bytes (log_header now tick)) = [0x50, 0x4B, 0x54, 0x01, 0x03]"
proof -
  have "le_enc 2 0x301 = [0x01, 0x03]" by (simp add: numeral_2_eq_2)
  then show "length (LogHeader_bytes (log_header now tick)) = 66"
    "take 5 (LogHeader_bytes (log_header now tick)) = [0x50, 0x4B, 0x54, 0x01, 0x03]"
    by (simp_all add: LogHeader_bytes_def log_header_def)
qed

text \<open>
  C27. Once the packet log is open, any sequence of packets it logs, in either direction and from addresses
  of either family, makes a file that a reader of the format takes apart into the same packets in
  the same order: direction, time, address, port, opcode and contents, with nothing left over.\<close>

theorem packet_log_roundtrip:
  assumes "ConfigMgr_GetStringDefault ''PacketLogFile'' '''' config \<noteq> []"
    and "openable (with_separator (ConfigMgr_GetStringDefault ''LogsDir'' '''' config) @
      ConfigMgr_GetStringDefault ''PacketLogFile'' '''' config)"
    and "\<forall>c \<in> set cs. call_ok c"
  shows "\<exists>l l' file. PacketLog_new openable config now tick = Some l \<and> log_calls cs l = Some l' \<and>
    pl_file l' = Some file \<and> parse_log file = Some (map entry_of cs)"
proof -
  let ?l = "\<lparr>pl_file = Some (LogHeader_bytes (log_header now tick))\<rparr>"
  have "log_calls cs ?l =
      Some (?l\<lparr>pl_file := Some (LogHeader_bytes (log_header now tick) @ concat (map call_bytes cs))\<rparr>)"
    by (rule log_calls_write) simp
  moreover have "parse_log (LogHeader_bytes (log_header now tick) @ concat (map call_bytes cs)) =
      Some (map entry_of cs)"
    using parse_calls [OF assms(3)] by (simp add: parse_log_def log_header_prefix)
  ultimately show ?thesis
    using Initialize_writes [of config openable now tick] assms(1,2) by simp
qed

definition example_config :: config_mgr where
  "example_config =
     \<lparr>cm_filename = ''worldserver.conf'',
      cm_config = \<lparr>st_keys = [''PacketLogFile''],
        st_get = (\<lambda>k. if k = ''PacketLogFile'' then Some ''packets.pkt'' else None),
        st_get_int = (\<lambda>k. None), st_get_float = (\<lambda>k. None)\<rparr>\<rparr>"

definition example_calls :: "log_call list" where
  "example_calls =
     [\<lparr>lc_packet = WorldPacket_of_message 0x0F [1, 2, 3], lc_direction = CLIENT_TO_SERVER,
       lc_addr = IPv4 [127, 0, 0, 1], lc_port = 8085, lc_tick = 12\<rparr>,
      \<lparr>lc_packet = WorldPacket_of_message 0x10 [], lc_direction = SERVER_TO_CLIENT,
       lc_addr = NoAddress, lc_port = 8085, lc_tick = 13\<rparr>]"

theorem packet_log_roundtrip_witness:
  "\<exists>l l' file. PacketLog_new (\<lambda>name. name = ''packets.pkt'') example_config 99 7 = Some l \<and>
    log_calls example_calls l = Some l' \<and> pl_file l' = Some file \<and>
    parse_log file = Some (map entry_of example_calls)"
  by (rule packet_log_roundtrip)
    (simp_all add: example_config_def example_calls_def call_ok_def with_separator_def without_quotes_def
      ConfigMgr_GetStringDefault_def WorldPacket_of_message_def bb_size_def)

text \<open>
  When the file cannot be opened, the constructor itself writes the header to the null file: no
  result, although \<^verbatim>\<open>CanLogPacket\<close> is there to keep the callers from that.
\<close>

lemma unopenable_log_crashes:
  assumes "ConfigMgr_GetStringDefault ''PacketLogFile'' '''' config \<noteq> []"
    and "\<not> openable (with_separator (ConfigMgr_GetStringDefault ''LogsDir'' '''' config) @
      ConfigMgr_GetStringDefault ''PacketLogFile'' '''' config)"
  shows "PacketLog_new openable config now tick = None"
  using assms by (simp add: PacketLog_new_def PacketLog_Initialize_def PacketLog_fwrite_def)

lemma no_log_without_name:
  "ConfigMgr_GetStringDefault ''PacketLogFile'' '''' config = [] \<Longrightarrow>
   \<exists>l. PacketLog_new openable config now tick = Some l \<and> \<not> PacketLog_CanLogPacket l"
  by (simp add: PacketLog_new_def PacketLog_Initialize_def PacketLog_CanLogPacket_def)

end
