(* ===== verification/Unchecked.thy ===== *)
theory Unchecked
  imports Utf8
begin

text \<open>
  The part of the UTF-8 library that trusts its input, \<^verbatim>\<open>dep/utf8cpp/utf8/unchecked.h\<close>, and the
  iterators over code points of both parts, the checked one being in \<^verbatim>\<open>checked.h\<close>. The functions read
  on as long as the leading octets tell them to; a read outside of the text is undefined and has no
  result, \<open>None\<close>. The lemmas show that on every text the checked functions accept, the unchecked
  ones return the same, and that an iterator visits the code points of such a text in order, forwards
  and backwards.
\<close>

unbundle bit_operations_syntax

section \<open>Single code points\<close>

definition deref :: "'a list \<Rightarrow> 'a option" where
  "deref it = (case it of [] \<Rightarrow> None | oc # _ \<Rightarrow> Some oc)"

definition unchecked_append :: "u32 \<Rightarrow> u8 list" where
  "unchecked_append cp =
     (if cp < 0x80 then [ucast cp]
      else if cp < 0x800 then
        [ucast (drop_bit 6 cp OR 0xc0), ucast ((cp AND 0x3f) OR 0x80)]
      else if cp < 0x10000 then
        [ucast (drop_bit 12 cp OR 0xe0), ucast ((drop_bit 6 cp AND 0x3f) OR 0x80),
         ucast ((cp AND 0x3f) OR 0x80)]
      else
        [ucast (drop_bit 18 cp OR 0xf0), ucast ((drop_bit 12 cp AND 0x3f) OR 0x80),
         ucast ((drop_bit 6 cp AND 0x3f) OR 0x80), ucast ((cp AND 0x3f) OR 0x80)])"

text \<open>
  \<^verbatim>\<open>next\<close>: the code point and the octets behind it. A lead that starts no sequence falls through
  the switch like a single octet.
\<close>

definition unchecked_next :: "u8 list \<Rightarrow> (u32 \<times> u8 list) option" where
  "unchecked_next it = do {
     lead \<leftarrow> deref it;
     let cp = ucast (mask8 lead);
     let len = sequence_length lead;
     (cp, it) \<leftarrow>
       (if len = 2 then do {
          let it = tl it;
          oc \<leftarrow> deref it;
          Some ((push_bit 6 cp AND 0x7ff) + (ucast oc AND 0x3f), it)
        } else if len = 3 then do {
          let it = tl it;
          oc \<leftarrow> deref it;
          let cp = (push_bit 12 cp AND 0xffff) + (push_bit 6 (ucast (mask8 oc)) AND 0xfff);
          let it = tl it;
          oc \<leftarrow> deref it;
          Some (cp + (ucast oc AND 0x3f), it)
        } else if len = 4 then do {
          let it = tl it;
          oc \<leftarrow> deref it;
          let cp = (push_bit 18 cp AND 0x1fffff) + (push_bit 12 (ucast (mask8 oc)) AND 0x3ffff);
          let it = tl it;
          oc \<leftarrow> deref it;
          let cp = cp + (push_bit 6 (ucast (mask8 oc)) AND 0xfff);
          let it = tl it;
          oc \<leftarrow> deref it;
          Some (cp + (ucast oc AND 0x3f), it)
        } else Some (cp, it));
     Some (cp, tl it)
   }"

definition unchecked_peek_next :: "u8 list \<Rightarrow> u32 option" where
  "unchecked_peek_next it = map_option fst (unchecked_next it)"

text \<open>
  \<^verbatim>\<open>prior\<close> walks back over the octets before the position, the argument \<open>before\<close>; \<open>after\<close> are those from
  there on. There is no start to stop at.
\<close>

fun unchecked_prior_loop :: "u8 list \<Rightarrow> u8 list \<Rightarrow> (u8 list \<times> u8 list) option" where
  "unchecked_prior_loop [] after = None"
| "unchecked_prior_loop (oc # rev_before) after =
     (if is_trail oc then unchecked_prior_loop rev_before (oc # after) else Some (rev_before, oc # after))"

definition unchecked_prior :: "u8 list \<Rightarrow> u8 list \<Rightarrow> (u32 \<times> u8 list) option" where
  "unchecked_prior before after = do {
     (rev_before, temp) \<leftarrow> unchecked_prior_loop (rev before) after;
     cp \<leftarrow> unchecked_peek_next temp;
     Some (cp, rev rev_before)
   }"

definition unchecked_previous :: "u8 list \<Rightarrow> u8 list \<Rightarrow> (u32 \<times> u8 list) option" where
  "unchecked_previous before after = unchecked_prior before after"

section \<open>Loops\<close>

lemma deref_Some: "deref it = Some oc \<longleftrightarrow> (\<exists>rest. it = oc # rest)"
  by (cases it) (auto simp: deref_def)

lemma unchecked_next_shorter: "unchecked_next it = Some (cp, rest) \<Longrightarrow> length rest < length it"
  by (cases it) (auto simp: unchecked_next_def deref_def Let_def split: if_splits list.splits Option.bind_splits)

fun unchecked_advance :: "nat \<Rightarrow> u8 list \<Rightarrow> u8 list option" where
  "unchecked_advance 0 it = Some it"
| "unchecked_advance (Suc n) it = do { (cp, it) \<leftarrow> unchecked_next it; unchecked_advance n it }"

function unchecked_distance :: "u8 list \<Rightarrow> nat option" where
  "unchecked_distance it =
     (if it = [] then Some 0
      else do { (cp, it) \<leftarrow> unchecked_next it; dist \<leftarrow> unchecked_distance it; Some (dist + 1) })"
  by pat_completeness auto
termination by (relation "measure length") (auto simp: unchecked_next_shorter)

function unchecked_utf8to32 :: "u8 list \<Rightarrow> u32 list option" where
  "unchecked_utf8to32 it =
     (if it = [] then Some []
      else do { (cp, it) \<leftarrow> unchecked_next it; result \<leftarrow> unchecked_utf8to32 it; Some (cp # result) })"
  by pat_completeness auto
termination by (relation "measure length") (auto simp: unchecked_next_shorter)

function unchecked_utf8to16 :: "u8 list \<Rightarrow> u16 list option" where
  "unchecked_utf8to16 it =
     (if it = [] then Some []
      else do { (cp, it) \<leftarrow> unchecked_next it; result \<leftarrow> unchecked_utf8to16 it; Some (utf16_put cp @ result) })"
  by pat_completeness auto
termination by (relation "measure length") (auto simp: unchecked_next_shorter)

fun unchecked_utf32to8 :: "u32 list \<Rightarrow> u8 list" where
  "unchecked_utf32to8 [] = []"
| "unchecked_utf32to8 (cp # it) = unchecked_append cp @ unchecked_utf32to8 it"

text \<open>A lead surrogate takes whatever follows it as its trail.\<close>

function unchecked_utf16to8 :: "'a::len word list \<Rightarrow> u8 list option" where
  "unchecked_utf16to8 start =
     (if start = [] then Some []
      else
        let cp = ucast (mask16 (hd start)); start = tl start
        in if is_lead_surrogate cp then do {
             w \<leftarrow> deref start;
             let trail_surrogate = ucast (mask16 w);
             let cp = push_bit 10 cp + trail_surrogate + SURROGATE_OFFSET;
             result \<leftarrow> unchecked_utf16to8 (tl start);
             Some (unchecked_append cp @ result)
           } else do {
             result \<leftarrow> unchecked_utf16to8 start;
             Some (unchecked_append cp @ result)
           })"
  by pat_completeness auto
termination by (relation "measure length") auto

declare unchecked_distance.simps [simp del] unchecked_utf8to32.simps [simp del]
  unchecked_utf8to16.simps [simp del] unchecked_utf16to8.simps [simp del]

section \<open>Agreement with the checked functions\<close>

lemma unchecked_append_valid: "utf8_append cp = Inr ocs \<Longrightarrow> unchecked_append cp = ocs"
  by (auto simp: utf8_append_def unchecked_append_def split: if_splits)

lemma increase_safely_cases:
  "increase_safely it = Inr r \<longleftrightarrow> (\<exists>a b s. it = a # b # s \<and> r = b # s \<and> is_trail b) \<or>
     (\<exists>b s. it = [] \<and> tl it = b # s)"
  by (cases it; cases "tl it") (auto simp: increase_safely_def)

lemma unchecked_next_valid:
  assumes "it \<noteq> []" "utf8_next it = Inr (cp, rest)"
  shows "unchecked_next it = Some (cp, rest)"
proof -
  obtain a r where it: "it = a # r" using assms(1) by (cases it) auto
  have "validate_next (a # r) = Inr (cp, rest)" using assms(2) by (simp add: utf8_next_Inr it)
  then show ?thesis
    using sequence_length_cases(5) [of a]
    unfolding it by (auto simp: validate_next_def unchecked_next_def deref_def Let_def bind_sum_Inr_iff
        get_sequence_1_def get_sequence_2_def get_sequence_3_def get_sequence_4_def increase_safely_cases
        split: if_splits)
qed

text \<open>
  What the loops have in common: a loop that decodes one code point with \<^verbatim>\<open>next\<close> and goes on, on the
  texts the checked decoder takes.
\<close>

lemma unchecked_utf8to32_valid: "utf8to32 it = Inr cps \<Longrightarrow> unchecked_utf8to32 it = Some cps"
proof (induction it arbitrary: cps rule: utf8to32.induct)
  case (1 it)
  show ?case
  proof (cases "it = []")
    case True
    then show ?thesis using 1 by (simp add: utf8to32.simps unchecked_utf8to32.simps)
  next
    case False
    then obtain c rest ds where c: "utf8_next it = Inr (c, rest)" "utf8to32 rest = Inr ds" "cps = c # ds"
      using "1.prems" by (auto simp: utf8to32.simps [of it] bind_sum_Inr_iff)
    then show ?thesis
      using "1.IH" [OF False c(1) refl c(2)] unchecked_next_valid [OF False c(1)] False
      by (simp add: unchecked_utf8to32.simps [of it])
  qed
qed

lemma unchecked_distance_decoded: "unchecked_distance it = map_option length (unchecked_utf8to32 it)"
proof (induction it rule: unchecked_distance.induct)
  case (1 it)
  show ?case
  proof (cases "it = []")
    case False
    show ?thesis
    proof (cases "unchecked_next it")
      case None
      then show ?thesis using False by (simp add: unchecked_distance.simps [of it] unchecked_utf8to32.simps [of it])
    next
      case (Some p)
      then obtain c rest where c: "unchecked_next it = Some (c, rest)" by (cases p) auto
      then show ?thesis
        using 1 [OF False c refl] False
        by (cases "unchecked_utf8to32 rest")
          (simp_all add: unchecked_distance.simps [of it] unchecked_utf8to32.simps [of it])
    qed
  qed (simp add: unchecked_distance.simps unchecked_utf8to32.simps)
qed

lemma unchecked_utf8to16_decoded:
  "unchecked_utf8to16 it = map_option (\<lambda>cps. concat (map utf16_put cps)) (unchecked_utf8to32 it)"
proof (induction it rule: unchecked_utf8to16.induct)
  case (1 it)
  show ?case
  proof (cases "it = []")
    case False
    show ?thesis
    proof (cases "unchecked_next it")
      case None
      then show ?thesis using False by (simp add: unchecked_utf8to16.simps [of it] unchecked_utf8to32.simps [of it])
    next
      case (Some p)
      then obtain c rest where c: "unchecked_next it = Some (c, rest)" by (cases p) auto
      then show ?thesis
        using 1 [OF False c refl] False
        by (cases "unchecked_utf8to32 rest")
          (simp_all add: unchecked_utf8to16.simps [of it] unchecked_utf8to32.simps [of it])
    qed
  qed (simp add: unchecked_utf8to16.simps unchecked_utf8to32.simps)
qed

lemma unchecked_utf32to8_valid: "utf32to8 cps = Inr it \<Longrightarrow> unchecked_utf32to8 cps = it"
  by (induction cps arbitrary: it) (auto simp: bind_sum_Inr_iff unchecked_append_valid)

lemma unchecked_utf16to8_valid: "utf16to8 ws = Inr it \<Longrightarrow> unchecked_utf16to8 ws = Some it"
proof (induction ws arbitrary: it rule: unchecked_utf16to8.induct)
  case (1 ws)
  show ?case
  proof (cases "ws = []")
    case True
    then show ?thesis using 1 by (simp add: utf16to8.simps unchecked_utf16to8.simps)
  next
    case False
    then obtain c rest ocs os where c: "utf16_next ws = Inr (c, rest)" "utf8_append c = Inr ocs"
      "utf16to8 rest = Inr os" "it = ocs @ os"
      using "1.prems" by (auto simp: utf16to8.simps [of ws] bind_sum_Inr_iff)
    show ?thesis
    proof (cases "is_lead_surrogate (ucast (mask16 (hd ws)))")
      case True
      then obtain w vs where w: "tl ws = w # vs" "rest = vs"
        "c = push_bit 10 (ucast (mask16 (hd ws))) + ucast (mask16 w) + SURROGATE_OFFSET"
        using c(1) by (cases "tl ws") (auto simp: utf16_next_def Let_def split: if_splits)
      then have "unchecked_utf16to8 vs = Some os"
        using "1.IH"(1) [OF False refl refl True] c(3) by (simp add: deref_def)
      then show ?thesis
        using False True w c(2,4) by (simp add: unchecked_utf16to8.simps [of ws] deref_def unchecked_append_valid)
    next
      case single: False
      then have "c = ucast (mask16 (hd ws))" "rest = tl ws"
        using c(1) by (auto simp: utf16_next_def Let_def split: if_splits)
      moreover from this have "unchecked_utf16to8 (tl ws) = Some os"
        using "1.IH"(2) [OF False refl refl single] c(3) by simp
      ultimately show ?thesis
        using False single c(2,4) by (simp add: unchecked_utf16to8.simps [of ws] unchecked_append_valid)
    qed
  qed
qed

section \<open>Iterators\<close>

text \<open>
  The iterators are over the array \<open>mem\<close>; an \<^verbatim>\<open>octet_iterator\<close> is a position in it. The checked one
  carries its range. It reads the octet under it before it compares with the end of the range, so
  at the end of the range there is no result.
\<close>

record utf8_iterator =
  ui_it :: nat
  ui_start :: nat
  ui_end :: nat

datatype iterator_error = out_of_range | logic_error | utf8_failure utf8_exception

definition iterator_new :: "nat \<Rightarrow> nat \<Rightarrow> nat \<Rightarrow> iterator_error + utf8_iterator" where
  "iterator_new octet_it range_start range_end =
     (if octet_it < range_start \<or> octet_it > range_end then Inl out_of_range
      else Inr \<lparr>ui_it = octet_it, ui_start = range_start, ui_end = range_end\<rparr>)"

definition iterator_base :: "utf8_iterator \<Rightarrow> nat" where
  "iterator_base i = ui_it i"

text \<open>The octets from the position to the end of the range, and from the start to the position.\<close>

definition ahead :: "u8 list \<Rightarrow> utf8_iterator \<Rightarrow> u8 list" where
  "ahead mem i = drop (ui_it i) (take (ui_end i) mem)"

definition behind :: "u8 list \<Rightarrow> utf8_iterator \<Rightarrow> u8 list" where
  "behind mem i = drop (ui_start i) (take (ui_it i) mem)"

fun failing :: "utf8_exception + 'a \<Rightarrow> iterator_error + 'a" where
  "failing (Inl e) = Inl (utf8_failure e)"
| "failing (Inr x) = Inr x"

definition iterator_deref :: "u8 list \<Rightarrow> utf8_iterator \<Rightarrow> (iterator_error + u32) option" where
  "iterator_deref mem i =
     (if ahead mem i = [] then None
      else Some (failing (bind_sum (utf8_next (ahead mem i)) (\<lambda>(cp, temp). Inr cp))))"

definition iterator_eq :: "utf8_iterator \<Rightarrow> utf8_iterator \<Rightarrow> iterator_error + bool" where
  "iterator_eq i rhs =
     (if ui_start i \<noteq> ui_start rhs \<or> ui_end i \<noteq> ui_end rhs then Inl logic_error else Inr (ui_it i = ui_it rhs))"

definition iterator_neq :: "utf8_iterator \<Rightarrow> utf8_iterator \<Rightarrow> iterator_error + bool" where
  "iterator_neq i rhs = bind_sum (iterator_eq i rhs) (\<lambda>b. Inr (\<not> b))"

definition iterator_inc :: "u8 list \<Rightarrow> utf8_iterator \<Rightarrow> (iterator_error + utf8_iterator) option" where
  "iterator_inc mem i =
     (if ahead mem i = [] then None
      else Some (failing (bind_sum (utf8_next (ahead mem i)) (\<lambda>(cp, rest). Inr (i\<lparr>ui_it := ui_end i - length rest\<rparr>)))))"

definition iterator_dec :: "u8 list \<Rightarrow> utf8_iterator \<Rightarrow> iterator_error + utf8_iterator" where
  "iterator_dec mem i =
     failing (bind_sum (prior (behind mem i)) (\<lambda>(cp, before). Inr (i\<lparr>ui_it := ui_start i + length before\<rparr>)))"

text \<open>The postfix operators return the iterator as it was.\<close>

definition iterator_post_inc :: "u8 list \<Rightarrow> utf8_iterator \<Rightarrow> (iterator_error + utf8_iterator \<times> utf8_iterator) option" where
  "iterator_post_inc mem i = map_option (\<lambda>r. bind_sum r (\<lambda>j. Inr (i, j))) (iterator_inc mem i)"

definition iterator_post_dec :: "u8 list \<Rightarrow> utf8_iterator \<Rightarrow> iterator_error + utf8_iterator \<times> utf8_iterator" where
  "iterator_post_dec mem i = bind_sum (iterator_dec mem i) (\<lambda>j. Inr (i, j))"

text \<open>\<^verbatim>\<open>advance\<close> and \<^verbatim>\<open>previous\<close> of the checked part, on lists of octets like \<open>Utf8\<close>.\<close>

fun utf8_advance :: "nat \<Rightarrow> u8 list \<Rightarrow> (utf8_exception + u8 list) option" where
  "utf8_advance 0 it = Some (Inr it)"
| "utf8_advance (Suc n) it =
     (if it = [] then None
      else case utf8_next it of Inl e \<Rightarrow> Some (Inl e) | Inr (cp, it) \<Rightarrow> utf8_advance n it)"

definition utf8_previous :: "u8 list \<Rightarrow> (utf8_exception + u32 \<times> u8 list) option" where
  "utf8_previous before = (if before = [] then None else Some (prior before))"

text \<open>The unchecked iterator is the position alone; \<^verbatim>\<open>++\<close> does not decode.\<close>

definition unchecked_iterator_deref :: "u8 list \<Rightarrow> nat \<Rightarrow> u32 option" where
  "unchecked_iterator_deref mem it = unchecked_peek_next (drop it mem)"

definition unchecked_iterator_inc :: "u8 list \<Rightarrow> nat \<Rightarrow> nat option" where
  "unchecked_iterator_inc mem it = do { lead \<leftarrow> deref (drop it mem); Some (it + sequence_length lead) }"

definition unchecked_iterator_dec :: "u8 list \<Rightarrow> nat \<Rightarrow> nat option" where
  "unchecked_iterator_dec mem it = do {
     (cp, before) \<leftarrow> unchecked_prior (take it mem) (drop it mem);
     Some (length before)
   }"

section \<open>One step of an iterator\<close>

lemma sequence_length_append:
  assumes "utf8_append cp = Inr ocs"
  shows "sequence_length (hd ocs) = length ocs"
proof -
  let ?n = "unat cp"
  have ocs: "map unat ocs = octets ?n" and n: "?n < 0x110000"
    using assms by (simp_all add: utf8_append_octets scalar_bound)
  consider "?n < 128" | "128 \<le> ?n" "?n < 2048" | "2048 \<le> ?n" "?n < 65536" | "65536 \<le> ?n" by linarith
  then show ?thesis
  proof cases
    case 1
    then have "sequence_length (hd ocs) = 1" "length ocs = 1"
      using ocs by (auto simp: octets_def sequence_length_cases(1) simp del: One_nat_def)
    then show ?thesis by simp
  next
    case 2
    then have "?n div 64 < 32" by simp
    with 2 have "sequence_length (hd ocs) = 2" "length ocs = 2"
      using ocs by (auto simp: octets_def sequence_length_cases(2) map_eq_Cons_conv)
    then show ?thesis by simp
  next
    case 3
    then have "?n div 4096 < 16" by simp
    with 3 have "sequence_length (hd ocs) = 3" "length ocs = 3"
      using ocs by (auto simp: octets_def sequence_length_cases(3) map_eq_Cons_conv)
    then show ?thesis by simp
  next
    case 4
    then have "?n div 262144 < 8" using n by simp
    with 4 have "sequence_length (hd ocs) = 4" "length ocs = 4"
      using ocs by (auto simp: octets_def sequence_length_cases(4) map_eq_Cons_conv)
    then show ?thesis by simp
  qed
qed

lemma unchecked_prior_loop_trails:
  "list_all is_trail trails \<Longrightarrow> \<not> is_trail lead \<Longrightarrow>
   unchecked_prior_loop (trails @ lead # before) after = Some (before, lead # rev trails @ after)"
  by (induction trails arbitrary: after) auto

abbreviation whole :: "u8 list \<Rightarrow> nat \<Rightarrow> utf8_iterator" where
  "whole mem it \<equiv> \<lparr>ui_it = it, ui_start = 0, ui_end = length mem\<rparr>"

lemma iterator_step:
  assumes "utf8_append cp = Inr ocs" and mem: "mem = before @ ocs @ rest"
  shows "iterator_deref mem (whole mem (length before)) = Some (Inr cp)"
    and "iterator_inc mem (whole mem (length before)) = Some (Inr (whole mem (length before + length ocs)))"
    and "iterator_dec mem (whole mem (length before + length ocs)) = Inr (whole mem (length before))"
proof -
  have next_ocs: "utf8_next (ocs @ rest) = Inr (cp, rest)"
    using assms(1) by (rule utf8.dec_enc)
  have ne: "ocs \<noteq> []" using assms(1) by (rule utf8_append_nonempty)
  show "iterator_deref mem (whole mem (length before)) = Some (Inr cp)"
    "iterator_inc mem (whole mem (length before)) = Some (Inr (whole mem (length before + length ocs)))"
    using ne next_ocs by (simp_all add: iterator_deref_def iterator_inc_def ahead_def mem)
  show "iterator_dec mem (whole mem (length before + length ocs)) = Inr (whole mem (length before))"
    using prior_undoes_append [OF assms(1), of before] by (simp add: iterator_dec_def behind_def mem)
qed

lemma unchecked_iterator_step:
  assumes "utf8_append cp = Inr ocs" and mem: "mem = before @ ocs @ rest"
  shows "unchecked_iterator_deref mem (length before) = Some cp"
    and "unchecked_iterator_inc mem (length before) = Some (length before + length ocs)"
    and "unchecked_iterator_dec mem (length before + length ocs) = Some (length before)"
proof -
  have ne: "ocs \<noteq> []" using assms(1) by (rule utf8_append_nonempty)
  then have next_ocs: "unchecked_next (ocs @ rest) = Some (cp, rest)"
    using utf8.dec_enc [OF assms(1), of rest] by (simp add: unchecked_next_valid)
  then show "unchecked_iterator_deref mem (length before) = Some cp"
    by (simp add: unchecked_iterator_deref_def unchecked_peek_next_def mem)
  show "unchecked_iterator_inc mem (length before) = Some (length before + length ocs)"
    using ne sequence_length_append [OF assms(1)]
    by (cases ocs) (simp_all add: unchecked_iterator_inc_def deref_def mem)
  obtain lead trails where o: "ocs = lead # trails" "\<not> is_trail lead" "list_all is_trail trails"
    using assms(1) octets_lead_trail utf8_append_octets by blast
  have "unchecked_prior_loop (rev (before @ ocs)) rest = Some (rev before, ocs @ rest)"
    using unchecked_prior_loop_trails [of "rev trails" lead "rev before" rest] o by simp
  then show "unchecked_iterator_dec mem (length before + length ocs) = Some (length before)"
    using next_ocs by (simp add: unchecked_iterator_dec_def unchecked_prior_def unchecked_peek_next_def mem)
qed

text \<open>\<open>n\<close> times \<^verbatim>\<open>++\<close>.\<close>

fun walk :: "u8 list \<Rightarrow> nat \<Rightarrow> utf8_iterator \<Rightarrow> (iterator_error + utf8_iterator) option" where
  "walk mem 0 i = Some (Inr i)"
| "walk mem (Suc n) i =
     (case walk mem n i of Some (Inr i) \<Rightarrow> iterator_inc mem i | r \<Rightarrow> r)"

lemma split_at_code_point:
  assumes "map utf8_append cps = map Inr ws" "n < length cps"
  shows "utf8_append (cps ! n) = Inr (ws ! n)"
    and "concat ws = concat (take n ws) @ ws ! n @ concat (drop (Suc n) ws)"
    and "length (concat (take (Suc n) ws)) = length (concat (take n ws)) + length (ws ! n)"
proof -
  have n: "n < length ws" using assms by (metis length_map)
  show "utf8_append (cps ! n) = Inr (ws ! n)"
    using arg_cong [OF assms(1), of "\<lambda>l. l ! n"] assms(2) n by simp
  show "concat ws = concat (take n ws) @ ws ! n @ concat (drop (Suc n) ws)"
    using arg_cong [OF id_take_nth_drop [OF n], of concat] by simp
  show "length (concat (take (Suc n) ws)) = length (concat (take n ws)) + length (ws ! n)"
    using n by (simp add: take_Suc_conv_app_nth)
qed

lemma walk_position:
  assumes "map utf8_append cps = map Inr ws" "mem = concat ws" "n \<le> length cps"
  shows "walk mem n (whole mem 0) = Some (Inr (whole mem (length (concat (take n ws)))))"
  using assms(3)
proof (induction n)
  case (Suc n)
  then have n: "n < length cps" by simp
  note s = split_at_code_point [OF assms(1) n]
  show ?case
    using Suc iterator_step(2) [OF s(1) s(2) [folded assms(2)]] s(3) by simp
qed simp

section \<open>Properties\<close>

text \<open>
  C35. On every text that the checked decoder accepts, and on every text of code units or code points that
  the checked encoders accept, the unchecked functions return exactly what the checked ones
  return, and read nothing outside of the text.\<close>

theorem unchecked_agrees:
  assumes "utf8to32 it = Inr cps" and "utf16to8 ws = Inr octs"
  shows "unchecked_utf8to32 it = Some cps \<and> unchecked_distance it = Some (length cps) \<and>
    unchecked_utf8to16 it = Some (concat (map utf16_put cps)) \<and> unchecked_utf32to8 cps = it \<and>
    unchecked_utf16to8 ws = Some octs"
  using assms utf8.inverse [of it cps] unchecked_utf16to8_valid [OF assms(2)]
  by (simp add: unchecked_utf8to32_valid unchecked_distance_decoded unchecked_utf8to16_decoded
      unchecked_utf32to8_valid)

theorem unchecked_agrees_witness:
  "unchecked_utf8to32 [0xE2, 0x82, 0xAC, 0x41] = Some [0x20AC, 0x41] \<and>
   unchecked_utf16to8 [0x20AC :: u16, 0x41] = Some [0xE2, 0x82, 0xAC, 0x41]"
proof -
  have "(case utf8to32 [0xE2, 0x82, 0xAC, 0x41] of Inr cps \<Rightarrow> cps = [0x20AC, 0x41] | Inl e \<Rightarrow> False) = True" by code_simp
  moreover have "(case utf16to8 [0x20AC :: u16, 0x41] of Inr octs \<Rightarrow> octs = [0xE2, 0x82, 0xAC, 0x41] | Inl e \<Rightarrow> False) = True"
    by code_simp
  ultimately show ?thesis
    using unchecked_agrees [of "[0xE2, 0x82, 0xAC, 0x41]" "[0x20AC, 0x41]" "[0x20AC :: u16, 0x41]" "[0xE2, 0x82, 0xAC, 0x41]"]
    by (auto split: sum.splits)
qed

text \<open>
  An iterator over a valid text visits its code points in order: after \<open>n\<close> steps forward it refers to code
  point \<open>n\<close>, one more step followed by one back returns to it, the last step arrives at the end,
  and the unchecked iterator goes through the same positions.\<close>

theorem iterator_visits_code_points:
  assumes "utf8to32 mem = Inr cps" and "n < length cps"
  shows "\<exists>i j. walk mem n (whole mem 0) = Some (Inr i) \<and> iterator_deref mem i = Some (Inr (cps ! n)) \<and>
    iterator_inc mem i = Some (Inr j) \<and> iterator_dec mem j = Inr i \<and>
    unchecked_iterator_deref mem (ui_it i) = Some (cps ! n) \<and>
    unchecked_iterator_inc mem (ui_it i) = Some (ui_it j) \<and>
    unchecked_iterator_dec mem (ui_it j) = Some (ui_it i) \<and>
    (ui_it j = length mem \<longleftrightarrow> Suc n = length cps)"
proof -
  obtain ws where ws: "map utf8_append cps = map Inr ws" "mem = concat ws"
    using assms(1) utf8.inverse utf8.enc_all_map by blast
  note s = split_at_code_point [OF ws(1) assms(2)]
  let ?b = "concat (take n ws)"
  have mem: "mem = ?b @ ws ! n @ concat (drop (Suc n) ws)" using s(2) ws(2) by simp
  have "concat (drop (Suc n) ws) = [] \<longleftrightarrow> Suc n = length cps"
  proof -
    have len: "length ws = length cps" using ws(1) by (metis length_map)
    have "w \<noteq> []" if "w \<in> set ws" for w
      using that split_at_code_point(1) [OF ws(1)] utf8_append_nonempty len by (metis in_set_conv_nth)
    note nonempty = this
    have "concat (drop (Suc n) ws) = [] \<longleftrightarrow> drop (Suc n) ws = []"
    proof (cases "drop (Suc n) ws")
      case (Cons w vs)
      then have "w \<in> set ws" by (metis in_set_dropD list.set_intros(1))
      then show ?thesis using nonempty Cons by simp
    qed simp
    then show ?thesis using assms(2) len by auto
  qed
  then have "length ?b + length (ws ! n) = length mem \<longleftrightarrow> Suc n = length cps"
    using arg_cong [OF mem, of length] by auto
  then show ?thesis
    using iterator_step [OF s(1) mem] unchecked_iterator_step [OF s(1) mem]
      walk_position [OF ws] assms(2) by (simp add: less_imp_le)
qed

theorem iterator_visits_code_points_witness:
  "\<exists>i j. walk [0x61, 0xC3, 0xA9] 1 (whole [0x61, 0xC3, 0xA9] 0) = Some (Inr i) \<and>
    iterator_deref [0x61, 0xC3, 0xA9] i = Some (Inr 0xE9) \<and>
    iterator_inc [0x61, 0xC3, 0xA9] i = Some (Inr j) \<and> ui_it j = 3"
proof -
  have "utf32to8 [0x61, 0xE9] = Inr [0x61, 0xC3, 0xA9]"
    by (simp add: utf8_append_def is_code_point_valid_def is_surrogate_def CODE_POINT_MAX_def
        LEAD_SURROGATE_MIN_def TRAIL_SURROGATE_MAX_def)
  then have "utf8to32 [0x61, 0xC3, 0xA9] = Inr [0x61, 0xE9]" by (simp only: utf8.inverse)
  from iterator_visits_code_points [OF this, of 1] show ?thesis by auto
qed

text \<open>Without the checks an overlong text is a code point, and a lone lead octet is read past.\<close>

lemma unchecked_takes_overlong:
  "unchecked_utf8to32 [0xC0, 0x80] = Some [0]" "\<not> is_valid [0xC0, 0x80]"
  "unchecked_utf8to32 [0xC3] = None"
  by (simp_all add: unchecked_utf8to32.simps unchecked_next_def deref_def sequence_length_def Let_def
      is_valid_def find_invalid.simps validate_next_def get_sequence_2_def increase_safely_def is_trail_def
      is_code_point_valid_def is_surrogate_def CODE_POINT_MAX_def LEAD_SURROGATE_MIN_def
      TRAIL_SURROGATE_MAX_def is_overlong_sequence_def)

end
