(* ===== verification/Typing.thy ===== *)
theory Typing
  imports Sessions
begin

text \<open>
  The types of the running server. C++ keeps arrays at their length and enumerations at their
  values; the model stores arrays as lists and \<^verbatim>\<open>GameStatus\<close> as a byte, so that this is a theorem
  here: \<open>world_typed\<close> says that every object in the store has the shape of its class in
  \<^verbatim>\<open>Player.h\<close>, \<^verbatim>\<open>WorldSession.h\<close>, \<^verbatim>\<open>Room.h\<close> and \<^verbatim>\<open>World.h\<close>, that no mutex is held between two operations,
  that fresh addresses are unused, and that the maps have one entry for each key. Every operation that
  returns keeps it, up to one update of the whole world and the packets of its connections; so none
  of the facts proved for typed objects is ever left behind.

  A lemma on an operation has the form \<open>typed_result ...\<close> or \<open>all_results P m\<close>: the results
  of \<open>m\<close>, if it returns, satisfy \<open>P\<close>. The rules of the collection \<open>typing\<close> follow the structure of an
  operation; each operation's lemma joins the collection.
\<close>

named_theorems typing \<open>introduction rules that follow an operation's structure\<close>

section \<open>Typed objects\<close>

text \<open>The low four bits are one of the twelve states of the game, and the only flags are those of the logout.\<close>

definition status_typed :: "u8 \<Rightarrow> bool" where
  "status_typed s \<longleftrightarrow> s AND 0x0f \<le> GAME_STATUS_ROUNDOVERED \<and> s AND 0xc0 = 0"

definition player_typed :: "player \<Rightarrow> bool" where
  "player_typed p \<longleftrightarrow> length (p_cards p) = CARD_NUMBER + BASIC_CARD \<and> length (p_outCards p) = 24 \<and>
     info_wf (p_info p) \<and> status_typed (p_gameStatus p)"

definition session_typed :: "session \<Rightarrow> bool" where
  "session_typed s \<longleftrightarrow> \<not> lq_locked (s_recvQueue s)"

definition room_typed :: "room \<Rightarrow> bool" where
  "room_typed r \<longleftrightarrow> distinct (map fst (rm_playerMap r))"

definition world_typed :: "world \<Rightarrow> bool" where
  "world_typed w \<longleftrightarrow>
     (\<forall>a p. player_at a w = Some p \<longrightarrow> player_typed p \<and> a < w_next w) \<and>
     (\<forall>sa s. sess_at sa w = Some s \<longrightarrow> session_typed s \<and> sa < w_next w) \<and>
     (\<forall>a. length (snd (w_mem w a)) = 24) \<and>
     length (w_cfg w) = INT_CONFIG_VALUE_COUNT \<and>
     \<not> lq_locked (w_addSess w) \<and>
     distinct (map fst (w_smap w)) \<and>
     distinct (map fst (w_rooms w)) \<and> (\<forall>(i, r) \<in> set (w_rooms w). room_typed r)"

text \<open>
  The books of the world: the map of its sessions, the queue of new ones, and the account of every
  live session. Only the world's own operations change them; \<open>typed k\<close> is a typed world whose
  books are \<open>k\<close>.
\<close>

type_synonym books = "(u32 \<times> nat) list \<times> nat locked_queue \<times> (nat \<Rightarrow> u32 option)"

definition accounts :: "world \<Rightarrow> nat \<Rightarrow> u32 option" where
  "accounts w = (\<lambda>sa. map_option s_accountId (sess_at sa w))"

definition typed :: "books \<Rightarrow> world \<Rightarrow> bool" where
  "typed k w \<longleftrightarrow> world_typed w \<and> k = (w_smap w, w_addSess w, accounts w)"

lemmas typed_defs = typed_def world_typed_def accounts_def

section \<open>Typed results\<close>

fun value_typed :: "books \<Rightarrow> 'a \<times> world \<Rightarrow> bool" where
  "value_typed k (x, w) = typed k w"

fun room_state_typed :: "books \<Rightarrow> room_state \<Rightarrow> bool" where
  "room_state_typed k (r, w) \<longleftrightarrow> room_typed r \<and> typed k w"

fun value_room_typed :: "books \<Rightarrow> 'a \<times> room_state \<Rightarrow> bool" where
  "value_room_typed k (x, r, w) \<longleftrightarrow> room_typed r \<and> typed k w"

lemma results_structure [typing]:
  "P x \<Longrightarrow> all_results P (Some x)"
  "all_results P None"
  "(b \<Longrightarrow> all_results P m) \<Longrightarrow> (\<not> b \<Longrightarrow> all_results P m') \<Longrightarrow> all_results P (if b then m else m')"
  "all_results P (h u v) \<Longrightarrow> all_results P (case (u, v) of (u, v) \<Rightarrow> h u v)"
  "(opt = None \<Longrightarrow> all_results P m) \<Longrightarrow> (\<And>z. opt = Some z \<Longrightarrow> all_results P (k z)) \<Longrightarrow>
     all_results P (case opt of None \<Rightarrow> m | Some z \<Rightarrow> k z)"
  by (auto simp: all_results_def split: option.splits)

lemma results_bind:
  "all_results Q n \<Longrightarrow> (\<And>x. n = Some x \<Longrightarrow> Q x \<Longrightarrow> all_results P (f x)) \<Longrightarrow> all_results P (n \<bind> f)"
  by (auto simp: all_results_def bind_eq_Some_conv)

text \<open>A step that changes the world passes its type on; a step that computes a value is remembered.\<close>

lemma bind_world [typing]:
  "all_results (typed k) n \<Longrightarrow> (\<And>w. typed k w \<Longrightarrow> all_results P (f w)) \<Longrightarrow> all_results P (n \<bind> f)"
  by (erule results_bind)

lemma bind_value_world:
  "all_results (value_typed k) n \<Longrightarrow> (\<And>x w. typed k w \<Longrightarrow> all_results P (f (x, w))) \<Longrightarrow>
   all_results P (n \<bind> f)"
  by (erule results_bind) auto

lemma bind_room_state [typing]:
  "all_results (room_state_typed k) n \<Longrightarrow>
   (\<And>r w. room_typed r \<Longrightarrow> typed k w \<Longrightarrow> all_results P (f (r, w))) \<Longrightarrow> all_results P (n \<bind> f)"
  by (erule results_bind) auto

lemma bind_value_room:
  "all_results (value_room_typed k) n \<Longrightarrow>
   (\<And>x r w. room_typed r \<Longrightarrow> typed k w \<Longrightarrow> all_results P (f (x, r, w))) \<Longrightarrow> all_results P (n \<bind> f)"
  by (erule results_bind) auto

lemma bind_value:
  "(\<And>x. n = Some x \<Longrightarrow> all_results P (f x)) \<Longrightarrow> all_results P (n \<bind> f)"
  by (rule results_bind [where Q = "\<lambda>x. True"]) (auto simp: all_results_def)

lemmas bind_typed [typing] =
  bind_value_world [where 'a = "32 word"] bind_value_world [where 'a = bool] bind_value_world [where 'a = nat]
  bind_value_room [where 'a = bool] bind_value_room [where 'a = "nat option"]
  bind_value_room [where 'a = "(nat \<times> nat) list"] bind_value_room [where 'a = "((nat \<times> nat) \<times> nat) list"]
  bind_value [where 'a = player] bind_value [where 'a = session] bind_value [where 'a = connection]
  bind_value [where 'a = world_packet] bind_value [where 'a = bool] bind_value [where 'a = nat]
  bind_value [where 'a = "8 word list"] bind_value [where 'a = "32 word \<times> world_packet"]
  bind_value [where 'a = "8 word list \<times> world_packet"]

section \<open>The store\<close>

lemma status_constants [simp]:
  "status_typed 0" "status_typed 1" "status_typed 2" "status_typed 3" "status_typed 4" "status_typed 5"
  "status_typed 6" "status_typed 7" "status_typed 8" "status_typed 9" "status_typed 10" "status_typed 11"
  "status_typed 16" "status_typed 32"
  by (simp_all add: status_typed_def)

lemma status_and_low [simp]: "status_typed s \<Longrightarrow> status_typed (0x0f AND s)"
proof -
  assume "status_typed s"
  moreover have "(0x0f AND s) AND 0x0f = s AND 0x0f"
    by (rule bit_word_eqI) (auto simp: bit_and_iff)
  moreover have "(0x0f AND s) AND 0xc0 = 0"
    by (subst and.commute [of "0x0f" s], subst and.assoc) simp
  ultimately show ?thesis by (simp add: status_typed_def)
qed

lemma status_or_flag [simp]: "status_typed s \<Longrightarrow> status_typed (s OR 0x10)"
  by (simp add: status_typed_def bit.conj_disj_distrib2)

lemma typed_player: "typed k w \<Longrightarrow> player_at a w = Some p \<Longrightarrow> player_typed p"
  by (simp add: typed_defs)

lemma typed_session: "typed k w \<Longrightarrow> sess_at sa w = Some s \<Longrightarrow> session_typed s"
  by (simp add: typed_defs)

lemma typed_put_player [typing]:
  "typed k w \<Longrightarrow> player_at a w = Some q \<Longrightarrow> player_typed p \<Longrightarrow> typed k (put_player a p w)"
  by (auto simp: typed_defs put_player_def player_at_def sess_at_def)

lemma typed_modify [typing]:
  "typed k w \<Longrightarrow> (\<And>p. player_typed p \<Longrightarrow> player_typed (f p)) \<Longrightarrow> all_results (typed k) (modify_player a f w)"
  by (auto simp: modify_player_def all_results_def bind_eq_Some_conv intro!: typed_put_player dest: typed_player)

lemma typed_modify_ptr [typing]:
  "typed k w \<Longrightarrow> (\<And>p. player_typed p \<Longrightarrow> player_typed (f p)) \<Longrightarrow> all_results (typed k) (modify_ptr ptr f w)"
  unfolding modify_ptr_def by (intro typing)

lemma typed_delete_player [typing]: "typed k w \<Longrightarrow> all_results (typed k) (delete_player a w)"
  by (auto simp: delete_player_def all_results_def bind_eq_Some_conv typed_defs player_at_def sess_at_def)

lemma typed_put_sess [typing]:
  "typed k w \<Longrightarrow> sess_at sa w = Some s \<Longrightarrow> session_typed s' \<Longrightarrow> s_accountId s' = s_accountId s \<Longrightarrow>
   typed k (put_sess sa s' w)"
  by (auto simp: typed_defs put_sess_def player_at_def sess_at_def)

lemma typed_put_conn [typing]: "typed k w \<Longrightarrow> typed k (put_conn ca c w)"
  by (simp add: typed_defs put_conn_def player_at_def sess_at_def)

lemma typed_fields [typing]:
  "typed k w \<Longrightarrow> typed k (w\<lparr>w_ridx := n\<rparr>)"
  "typed k w \<Longrightarrow> typed k (w\<lparr>w_pool := pool\<rparr>)"
  "typed k w \<Longrightarrow> typed k (w\<lparr>w_rm_timer := t\<rparr>)"
  "typed k w \<Longrightarrow> distinct (map fst rooms) \<Longrightarrow> (\<forall>(i, r) \<in> set rooms. room_typed r) \<Longrightarrow>
     typed k (w\<lparr>w_rooms := rooms\<rparr>)"
  by (simp_all add: typed_defs player_at_def sess_at_def)

lemma player_typed_simps [simp]:
  "player_typed (p\<lparr>p_session := sess\<rparr>) = player_typed p" "player_typed (p\<lparr>p_expiration := t\<rparr>) = player_typed p"
  "player_typed (p\<lparr>p_aiDelay := t\<rparr>) = player_typed p" "player_typed (p\<lparr>p_roomid := i\<rparr>) = player_typed p"
  "player_typed (p\<lparr>p_left := a\<rparr>) = player_typed p" "player_typed (p\<lparr>p_right := a\<rparr>) = player_typed p"
  "player_typed (p\<lparr>p_queueFlags := q\<rparr>) = player_typed p" "player_typed (p\<lparr>p_playerType := ty\<rparr>) = player_typed p"
  "player_typed (p\<lparr>p_start := b\<rparr>) = player_typed p" "player_typed (p\<lparr>p_defaultGrab := i\<rparr>) = player_typed p"
  "player_typed (p\<lparr>p_grabScore := i\<rparr>) = player_typed p" "player_typed (p\<lparr>p_landlord := i\<rparr>) = player_typed p"
  "player_typed (p\<lparr>p_cardType := i\<rparr>) = player_typed p" "player_typed (p\<lparr>p_winGold := i\<rparr>) = player_typed p"
  by (simp_all add: player_typed_def)

lemma player_typed_status [simp]:
  "player_typed p \<Longrightarrow> status_typed s \<Longrightarrow> player_typed (p\<lparr>p_gameStatus := s\<rparr>)"
  by (simp_all add: player_typed_def)

lemma player_typed_out [simp]:
  "player_typed p \<Longrightarrow> length cs = 24 \<Longrightarrow> player_typed (p\<lparr>p_outCards := cs\<rparr>)"
  by (simp_all add: player_typed_def)

lemma player_typed_cards [simp]:
  "player_typed p \<Longrightarrow> length cs = CARD_NUMBER + BASIC_CARD \<Longrightarrow> player_typed (p\<lparr>p_cards := cs\<rparr>)"
  by (simp_all add: player_typed_def)

lemma player_typed_info [simp]:
  "player_typed p \<Longrightarrow> info_wf pi \<Longrightarrow> player_typed (p\<lparr>p_info := pi\<rparr>)"
  by (simp_all add: player_typed_def)

lemma player_typedD:
  assumes "player_typed p"
  shows "length (p_cards p) = CARD_NUMBER + BASIC_CARD" "length (p_outCards p) = 24" "info_wf (p_info p)"
    "status_typed (p_gameStatus p)"
  using assms by (simp_all add: player_typed_def)

section \<open>Leaving\<close>

lemma typed_SendPacket [typing]:
  "typed k w \<Longrightarrow> all_results (typed k) (WorldSession_SendPacket packet sess w)"
  unfolding WorldSession_SendPacket_def by (intro typing)

lemma typed_send_if_user [typing]: "typed k w \<Longrightarrow> all_results (typed k) (send_if_user packet a w)"
  unfolding send_if_user_def by (intro typing)

lemma typed_send_neighbour [typing]: "typed k w \<Longrightarrow> all_results (typed k) (send_neighbour packet ptr w)"
  unfolding send_neighbour_def by (intro typing)

lemma typed_leave_in_game [typing]: "typed k w \<Longrightarrow> all_results (typed k) (leave_in_game a w)"
  unfolding leave_in_game_def by (intro typing) (simp_all add: player_typedD)

lemma typed_drop_session [typing]: "typed k w \<Longrightarrow> all_results (typed k) (drop_session a w)"
  unfolding drop_session_def by (intro typing) (auto simp: session_typed_def dest: typed_session)

lemma checkOutPlayer_typed:
  "Player_checkOutPlayer a w = Some w' \<Longrightarrow> typed k w \<Longrightarrow> typed k w'"
proof (induction a w w' rule: Player_checkOutPlayer.raw_induct [rotated 1, consumes 1])
  case (1 rec this w w')
  have rec: "typed k w \<Longrightarrow> all_results (typed k) (rec a w)" for a w
    using 1(1) by (auto simp: all_results_def)
  note step = bind_world [where k = k]
  show ?case
    by (rule all_resultsD [where P = "typed k", OF _ 1(2)], use 1(3) in \<open>intro step typing rec\<close>) simp_all
qed

lemma typed_checkOutPlayer [typing]: "typed k w \<Longrightarrow> all_results (typed k) (Player_checkOutPlayer a w)"
  by (simp add: all_results_def checkOutPlayer_typed)

lemma typed_logOutPlayer [typing]: "typed k w \<Longrightarrow> all_results (typed k) (Player_logOutPlayer a w)"
  unfolding Player_logOutPlayer_def
  by (intro typing) (simp_all add: player_typedD)

section \<open>One player\<close>

lemma typed_rand_call: "typed k w \<Longrightarrow> value_typed k (rand_call w)"
  by (simp add: rand_call_def typing)

lemma typed_sendTwoDesk [typing]: "typed k w \<Longrightarrow> all_results (typed k) (Player_sendTwoDesk a w)"
  unfolding Player_sendTwoDesk_def Let_def by (intro typing)

lemma typed_sendThreeDesk [typing]: "typed k w \<Longrightarrow> all_results (typed k) (Player_sendThreeDesk a w)"
  unfolding Player_sendThreeDesk_def by (intro typing)

lemma typed_checkQueueStatus [typing]: "typed k w \<Longrightarrow> all_results (typed k) (Player_checkQueueStatus a w)"
  unfolding Player_checkQueueStatus_def by (intro typing) simp_all

lemma typed_addPlayer [typing]: "typed k w \<Longrightarrow> all_results (typed k) (Player_addPlayer a b w)"
  unfolding Player_addPlayer_def by (intro typing) simp_all

lemma typed_checkStart [typing]: "typed k w \<Longrightarrow> all_results (typed k) (Player_checkStart a w)"
  unfolding Player_checkStart_def by (intro typing) simp_all

lemma typed_dealCards [typing]: "typed k w \<Longrightarrow> all_results (typed k) (Player_dealCards cards base a w)"
  unfolding Player_dealCards_def
  by (intro typing) (simp_all add: player_typedD CARD_NUMBER_def BASIC_CARD_def)

lemma typed_getDefaultLandlordUserId [typing]:
  "typed k w \<Longrightarrow> all_results (value_typed k) (Player_getDefaultLandlordUserId a w)"
  unfolding Player_getDefaultLandlordUserId_def rand_call_def Let_def
  by (intro typing) (simp_all add: typing)

lemma typed_checkDealCards [typing]: "typed k w \<Longrightarrow> all_results (typed k) (Player_checkDealCards a w)"
  unfolding Player_checkDealCards_def by (intro typing) simp_all

lemma typed_aiGrabLandlord [typing]: "typed k w \<Longrightarrow> all_results (value_typed k) (Player_aiGrabLandlord a w)"
  unfolding Player_aiGrabLandlord_def rand_call_def Let_def by (intro typing) (simp_all add: typing)

lemma typed_getLandlordId [typing]: "typed k w \<Longrightarrow> all_results (value_typed k) (Player_getLandlordId a w)"
  unfolding Player_getLandlordId_def Let_def by (intro typing) (simp_all add: typing)

lemma typed_beginOutCard [typing]: "typed k w \<Longrightarrow> all_results (typed k) (Player_beginOutCard a w)"
  unfolding Player_beginOutCard_def by (intro typing) (simp_all add: Player_setLandlordId_def)

lemma typed_grab_turn [typing]: "typed k w \<Longrightarrow> all_results (typed k) (grab_turn a w)"
  unfolding grab_turn_def by (intro typing) simp_all

lemma typed_grab_announce [typing]: "typed k w \<Longrightarrow> all_results (typed k) (grab_announce a w)"
  unfolding grab_announce_def by (intro typing) simp_all

lemma typed_grab_bid [typing]: "typed k w \<Longrightarrow> all_results (typed k) (grab_bid a w)"
  unfolding grab_bid_def by (intro typing) simp_all

lemma typed_grab_decide [typing]: "typed k w \<Longrightarrow> all_results (typed k) (grab_decide a w)"
  unfolding grab_decide_def by (intro typing) simp_all

lemma typed_checkGrabLandlord [typing]: "typed k w \<Longrightarrow> all_results (typed k) (Player_checkGrabLandlord a w)"
  unfolding Player_checkGrabLandlord_def by (intro typing)

text \<open>Playing keeps the length of the hand's array.\<close>

lemma shift_cards_length: "shift_cards_loop cards i = Some cards' \<Longrightarrow> length cards' = length cards"
proof (induction cards i rule: shift_cards_loop.induct)
  case (1 cards i)
  show ?case using 1(2) 1(1)
    by (subst (asm) shift_cards_loop.simps) (auto split: if_splits)
qed

lemma updateCardsFace_loop_length:
  "updateCardsFace_loop cards out i = Some cards' \<Longrightarrow> length cards' = length cards"
proof (induction cards out i rule: updateCardsFace_loop.induct)
  case (1 cards out i)
  show ?case using 1(2) 1(1)
    by (subst (asm) updateCardsFace_loop.simps)
      (auto simp: rearrangeCards_def bind_eq_Some_conv split: if_splits option.splits dest!: shift_cards_length)
qed

lemma updateCardsFace_length: "updateCardsFace cards out = Some cards' \<Longrightarrow> length cards' = length cards"
  by (auto simp: updateCardsFace_def split: if_splits dest: updateCardsFace_loop_length)

lemma length_resetCards [simp]: "length resetCards = 24"
  by (simp add: resetCards_def)

lemma typed_OutCard [typing]: "typed k w \<Longrightarrow> all_results (typed k) (OutCardAi_OutCard a w)"
  unfolding OutCardAi_OutCard_def by (intro typing) simp_all

lemma typed_out_turn [typing]: "typed k w \<Longrightarrow> all_results (typed k) (out_turn a w)"
  unfolding out_turn_def by (intro typing) simp_all

lemma typed_out_announce [typing]: "typed k w \<Longrightarrow> all_results (typed k) (out_announce a w)"
  unfolding out_announce_def
  by (intro typing) (auto simp: player_typedD dest!: updateCardsFace_length typed_player)

lemma typed_out_play [typing]: "typed k w \<Longrightarrow> all_results (typed k) (out_play a w)"
  unfolding out_play_def by (intro typing) simp_all

lemma typed_out_wait [typing]: "typed k w \<Longrightarrow> all_results (typed k) (out_wait a w)"
  unfolding out_wait_def by (intro typing) simp_all

lemma typed_checkOutCard [typing]: "typed k w \<Longrightarrow> all_results (typed k) (Player_checkOutCard a w)"
  unfolding Player_checkOutCard_def by (intro typing)

lemma typed_resetGame [typing]: "typed k w \<Longrightarrow> all_results (typed k) (Player_resetGame a w)"
  unfolding Player_resetGame_def by (intro typing) (simp_all add: player_typed_def)


lemma updatePlayerData_typed:
  "Player_UpdatePlayerData basic p = Some p' \<Longrightarrow> player_typed p \<Longrightarrow> player_typed p'"
  by (auto simp: Player_UpdatePlayerData_def Player_UpdatePlayerLevel_def Let_def bind_eq_Some_conv
      player_typed_def info_wf_def split: if_splits)

lemma typed_round_over_update [typing]: "typed k w \<Longrightarrow> all_results (typed k) (round_over_update a w)"
  unfolding round_over_update_def Let_def
  by (intro typing) (auto dest: typed_player updatePlayerData_typed)

lemma checkRoundOver_typed:
  "Player_checkRoundOver a w = Some w' \<Longrightarrow> typed k w \<Longrightarrow> typed k w'"
proof (induction a w w' rule: Player_checkRoundOver.raw_induct [rotated 1, consumes 1])
  case (1 rec this w w')
  have rec: "typed k w \<Longrightarrow> all_results (typed k) (rec a w)" for a w
    using 1(1) by (auto simp: all_results_def)
  note step = bind_world [where k = k]
  show ?case
    by (rule all_resultsD [where P = "typed k", OF _ 1(2)], use 1(3) in \<open>intro step typing rec\<close>) simp_all
qed

lemma typed_checkRoundOver [typing]: "typed k w \<Longrightarrow> all_results (typed k) (Player_checkRoundOver a w)"
  by (simp add: all_results_def checkRoundOver_typed)

lemma typed_UpdateAiDelay [typing]: "typed k w \<Longrightarrow> all_results (typed k) (Player_UpdateAiDelay diff a w)"
  unfolding Player_UpdateAiDelay_def by (intro typing) simp_all

lemma typed_Update [typing]: "typed k w \<Longrightarrow> all_results (typed k) (Player_Update diff a w)"
  unfolding Player_Update_def by (intro typing) simp_all

section \<open>The pool and the rooms\<close>

lemma typed_init: "length (snd mem) = 24 \<Longrightarrow> player_typed (Player_init sess t d mem)"
  by (simp add: Player_init_def player_typed_def info_wf_def PlayerInfo_new_def)

lemma typed_Player_new: "typed k w \<Longrightarrow> Player_new sess w = (a, w') \<Longrightarrow> typed k w'"
  by (auto simp: Player_new_def Let_def typed_defs put_player_def player_at_def sess_at_def typed_init
      less_Suc_eq split: if_splits)

lemma typed_new_pool: "typed k w \<Longrightarrow> typed k (AiPlayerPool_new w)"
proof -
  have "typed k w \<Longrightarrow> typed k
    (fold (\<lambda>i w. let (a, w) = Player_new None w in w\<lparr>w_pool := w_pool w @ [a]\<rparr>) ns w)" for ns :: "nat list" and w
    by (induction ns arbitrary: w) (auto simp: Let_def split: prod.splits intro!: typed_fields dest: typed_Player_new)
  then show "typed k w \<Longrightarrow> typed k (AiPlayerPool_new w)" by (simp add: AiPlayerPool_new_def)
qed

lemma ai_info_wf: "info_wf (ai_info roomid r1 r2 gold)"
proof -
  have "length (take 11 (decimal n) @ [0]) \<le> NAME_LENGTH" for n by (simp add: NAME_LENGTH_def)
  then show ?thesis
    by (simp add: ai_info_def Let_def info_wf_def PlayerInfo_new_def NAME_LENGTH_def ai_nick_name_def)
qed

lemma typed_setStart: "player_typed p \<Longrightarrow> player_typed (Player_setStart p)"
  by (auto simp: Player_setStart_def player_typed_def info_wf_def)

lemma typed_configureAiPlayer [typing]:
  "typed k w \<Longrightarrow> all_results (typed k) (AiPlayerPool_configureAiPlayer a roomid w)"
  unfolding AiPlayerPool_configureAiPlayer_def rand_call_def Let_def
  by (intro typing) (simp_all add: typing typed_setStart Player_loadData_def ai_info_wf)

lemma typed_getAiPlayer [typing]: "typed k w \<Longrightarrow> all_results (value_typed k) (AiPlayerPool_getAiPlayer roomid w)"
  unfolding AiPlayerPool_getAiPlayer_def Let_def
  by (intro typing) (auto simp: typing split: prod.splits intro!: typed_fields dest: typed_Player_new)

lemma typed_releasePlayer [typing]: "typed k w \<Longrightarrow> typed k (AiPlayerPool_releasePlayer a w)"
  by (simp add: AiPlayerPool_releasePlayer_def typing)


lemma distinct_assign: "distinct (map fst m) \<Longrightarrow> distinct (map fst (map_assign k v m))"
proof -
  have "map fst (map (\<lambda>(k', v'). if k' = k then (k', v) else (k', v')) m) = map fst m"
    by (induction m) auto
  note this [simp del, unfolded map_map, simp]
  then show "distinct (map fst m) \<Longrightarrow> distinct (map fst (map_assign k v m))"
    by (simp add: map_assign_def)
qed

lemma distinct_erase: "distinct (map fst m) \<Longrightarrow> distinct (map fst (map_erase k m))"
  by (simp add: map_erase_def distinct_map_filter)

lemma room_typed_simps [simp]:
  "room_typed (r\<lparr>rm_one := one\<rparr>) = room_typed r" "room_typed (r\<lparr>rm_two := two\<rparr>) = room_typed r"
  "room_typed (r\<lparr>rm_three := three\<rparr>) = room_typed r"
  by (simp_all add: room_typed_def)

lemma room_typed_map [simp]:
  "room_typed r \<Longrightarrow> room_typed (r\<lparr>rm_playerMap := map_assign i a (rm_playerMap r)\<rparr>)"
  "room_typed r \<Longrightarrow> room_typed (r\<lparr>rm_playerMap := map_erase i (rm_playerMap r)\<rparr>)"
  by (simp_all add: room_typed_def distinct_assign distinct_erase)

lemma typed_Room_AddPlayer [typing]:
  "room_typed r \<Longrightarrow> typed k w \<Longrightarrow> all_results (room_state_typed k) (Room_AddPlayer i a inOne r w)"
  unfolding Room_AddPlayer_def Let_def by (intro typing) simp_all

lemma typed_RELEASE [typing]: "typed k w \<Longrightarrow> all_results (typed k) (RELEASE a w)"
  unfolding RELEASE_def by (intro typing)

lemma typed_OUT_TWO [typing]:
  "room_typed r \<Longrightarrow> typed k w \<Longrightarrow> all_results (room_state_typed k) (OUT_TWO a r w)"
  unfolding OUT_TWO_def by (intro typing) (simp_all add: typing)

lemma typed_getPlayerFromOne [typing]:
  "room_typed r \<Longrightarrow> typed k w \<Longrightarrow> all_results (value_room_typed k) (Room_getPlayerFromOne r w)"
  unfolding Room_getPlayerFromOne_def Let_def
  by (cases "rm_one r") (simp_all, (intro typing; simp)+)

lemma typed_seat_three [typing]:
  "room_typed r \<Longrightarrow> typed k w \<Longrightarrow> all_results (room_state_typed k) (seat_three a b c r w)"
  unfolding seat_three_def by (intro typing) simp_all

lemma typed_seat_two [typing]:
  "room_typed r \<Longrightarrow> typed k w \<Longrightarrow> all_results (room_state_typed k) (seat_two a b r w)"
  unfolding seat_two_def by (intro typing) simp_all

lemma typed_seat_with_ai [typing]:
  "room_typed r \<Longrightarrow> typed k w \<Longrightarrow> all_results (room_state_typed k) (seat_with_ai a p r w)"
  unfolding seat_with_ai_def by (intro typing) simp_all

text \<open>The loop over the waiting players ends because their number goes down.\<close>

lemma bind_one:
  assumes "room_typed r" "typed k w"
    "\<And>x r' w'. room_typed r' \<Longrightarrow> typed k w' \<Longrightarrow> length (rm_one r') = length (rm_one r) - 1 \<Longrightarrow>
      all_results P (f (x, r', w'))"
  shows "all_results P (Room_getPlayerFromOne r w \<bind> f)"
  using typed_getPlayerFromOne [OF assms(1,2)] by (rule results_bind) (auto simp: getPlayerFromOne_length assms(3))

lemma bind_seat:
  assumes "room_typed r" "typed k w"
    "\<And>r' w'. room_typed r' \<Longrightarrow> typed k w' \<Longrightarrow> length (rm_one r') = length (rm_one r) \<Longrightarrow>
      all_results P (f (r', w'))"
  shows "all_results P (seat_three a b c r w \<bind> f)" "all_results P (seat_two a b r w \<bind> f)"
    "all_results P (seat_with_ai a p r w \<bind> f)"
  by (rule results_bind [OF typed_seat_three [OF assms(1,2)]], auto simp: seats_keep_one assms(3))
    (rule results_bind [OF typed_seat_two [OF assms(1,2)]], auto simp: seats_keep_one assms(3),
      rule results_bind [OF typed_seat_with_ai [OF assms(1,2)]], auto simp: seats_keep_one assms(3))

lemma typed_UpdateOne [typing]:
  "room_typed r \<Longrightarrow> typed k w \<Longrightarrow> all_results (room_state_typed k) (Room_UpdateOne r w)"
proof (induction "length (rm_one r)" arbitrary: r w rule: less_induct)
  case less
  show ?case
    by (subst Room_UpdateOne.simps)
      (intro results_structure bind_one bind_seat bind_value [where 'a = player] less.hyps less.prems;
        simp add: less.prems)
qed

lemma typed_LogoutTwo [typing]:
  "room_typed r \<Longrightarrow> typed k w \<Longrightarrow> all_results (value_room_typed k) (Room_LogoutTwo twoP r w)"
  unfolding Room_LogoutTwo_def Let_def
  by (cases twoP) (simp, intro typing all_results_intros(3) [where n = "player_at _ _"],
    (simp_all split: bool.split, (intro conjI impI typing; simp)+))

lemma typed_UpdateTwo_step [typing]:
  "room_typed r \<Longrightarrow> typed k w \<Longrightarrow> all_results (value_room_typed k) (UpdateTwo_step twoP r w)"
  unfolding UpdateTwo_step_def Let_def
  by (cases twoP, hypsubst, unfold prod.case) (intro typing; simp)

lemma typed_UpdateTwo_loop [typing]:
  "room_typed r \<Longrightarrow> typed k w \<Longrightarrow> all_results (value_room_typed k) (UpdateTwo_loop ps r w)"
  by (induction ps arbitrary: r w) (simp_all, (intro typing; simp)+)

lemma typed_UpdateTwo [typing]:
  "room_typed r \<Longrightarrow> typed k w \<Longrightarrow> all_results (room_state_typed k) (Room_UpdateTwo r w)"
  unfolding Room_UpdateTwo_def by (intro typing) simp_all

lemma typed_LogoutThree [typing]:
  "room_typed r \<Longrightarrow> typed k w \<Longrightarrow> all_results (value_room_typed k) (Room_LogoutThree threeP r w)"
  unfolding Room_LogoutThree_def Let_def
  by (cases threeP, cases "fst threeP", clarsimp)
    (intro typing, (simp_all split: bool.split, (intro conjI impI typing; simp)+))

lemma typed_dealing [typing]: "typed k w \<Longrightarrow> all_results (typed k) (Room_dealCards threeP w)"
  unfolding Room_dealCards_def Let_def by (cases threeP) (auto split: prod.split intro!: typing)

lemma typed_release_ai_seat [typing]: "typed k w \<Longrightarrow> all_results (typed k) (release_ai_seat a w)"
  unfolding release_ai_seat_def by (intro typing) simp_all

lemma typed_releaseAiPlayer [typing]: "typed k w \<Longrightarrow> all_results (typed k) (Room_releaseAiPlayer threeP w)"
  unfolding Room_releaseAiPlayer_def Let_def by (cases threeP) (auto split: prod.split intro!: typing)

lemma typed_roundOver [typing]: "typed k w \<Longrightarrow> all_results (value_typed k) (Room_roundOver threeP w)"
  unfolding Room_roundOver_def by (intro typing) simp_all

lemma typed_UpdateThree_step [typing]:
  "room_typed r \<Longrightarrow> typed k w \<Longrightarrow> all_results (value_room_typed k) (UpdateThree_step threeP r w)"
  unfolding UpdateThree_step_def by (intro typing) simp_all

lemma typed_UpdateThree_loop [typing]:
  "room_typed r \<Longrightarrow> typed k w \<Longrightarrow> all_results (value_room_typed k) (UpdateThree_loop ps r w)"
  by (induction ps arbitrary: r w) (simp_all, (intro typing; simp)+)

lemma typed_UpdateThree [typing]:
  "room_typed r \<Longrightarrow> typed k w \<Longrightarrow> all_results (room_state_typed k) (Room_UpdateThree r w)"
  unfolding Room_UpdateThree_def by (intro typing) simp_all

lemma typed_Update_player [typing]:
  "room_typed r \<Longrightarrow> typed k w \<Longrightarrow> all_results (room_state_typed k) (Update_player diff entry r w)"
  unfolding Update_player_def Let_def
  by (cases entry, hypsubst, unfold prod.case) (intro typing; simp)

lemma typed_Update_players [typing]:
  "room_typed r \<Longrightarrow> typed k w \<Longrightarrow> all_results (room_state_typed k) (Update_players diff es r w)"
  by (induction es arbitrary: r w) (simp_all, (intro bind_room_state [where k = k] typing; simp)+)

lemma typed_Room_Update [typing]:
  "room_typed r \<Longrightarrow> typed k w \<Longrightarrow> all_results (room_state_typed k) (Room_Update diff r w)"
  unfolding Room_Update_def by (intro typing)

section \<open>Sessions\<close>

lemma typed_add: "LockedQueue_add x q = Some q' \<Longrightarrow> \<not> lq_locked q'"
  by (auto simp: LockedQueue_add_def LockedQueue_unlock_def bind_eq_Some_conv)

lemma typed_close_connection [typing]: "typed k w \<Longrightarrow> all_results (typed k) (close_connection ca w)"
  unfolding close_connection_def by (intro typing)

lemma typed_ResetTimeOutTime [typing]:
  "typed k w \<Longrightarrow> all_results (typed k) (WorldSession_ResetTimeOutTime sa w)"
  unfolding WorldSession_ResetTimeOutTime_def
  by (intro typing) (auto simp: session_typed_def dest: typed_session)

lemma typed_QueuePacket [typing]:
  "typed k w \<Longrightarrow> all_results (typed k) (WorldSession_QueuePacket packet sa w)"
  unfolding WorldSession_QueuePacket_def
  by (intro typing results_bind [where n = "LockedQueue_add _ _" and Q = "\<lambda>q. \<not> lq_locked q"])
    (auto simp: session_typed_def all_results_def dest: typed_add)

text \<open>A new session is entered with its account, at an address no session had.\<close>

lemma typed_WorldSession_new:
  assumes "typed (m, q, acc) w" "WorldSession_new i sock w = (sa, w')"
  shows "typed (m, q, acc(sa \<mapsto> i)) w' \<and> acc sa = None"
proof -
  have fresh: "sess_at (w_next w) w = None"
    using assms(1) by (cases "sess_at (w_next w) w") (auto simp: typed_defs)
  have sa: "sa = w_next w" and acc: "acc = accounts w" and m: "m = w_smap w" "q = w_addSess w"
    using assms by (auto simp: WorldSession_new_def Let_def typed_def)
  have "world_typed w'"
    using assms by (auto simp: WorldSession_new_def Let_def typed_def world_typed_def put_sess_def player_at_def
        sess_at_def session_typed_def LockedQueue_new_def less_Suc_eq split: if_splits)
  moreover have "accounts w' = (accounts w)(sa \<mapsto> i)"
    using assms(2) by (auto simp: WorldSession_new_def Let_def accounts_def put_sess_def sess_at_def fun_eq_iff)
  moreover have "w_smap w' = w_smap w" "w_addSess w' = w_addSess w"
    using assms(2) by (auto simp: WorldSession_new_def Let_def put_sess_def)
  ultimately show ?thesis using fresh by (simp add: typed_def sa acc m accounts_def)
qed

text \<open>The deletion of a session leaves the books but for its account.\<close>

lemma typed_WorldSession_delete:
  "typed (m, q, acc) w \<Longrightarrow> all_results (typed (m, q, acc(sa := None))) (WorldSession_delete sa w)"
proof -
  assume w: "typed (m, q, acc) w"
  have last: "typed (m, q, acc) w \<Longrightarrow>
      all_results (typed (m, q, acc(sa := None))) (Some (w\<lparr>w_sessions := (w_sessions w)(sa := None)\<rparr>))" for w
    by (auto simp: all_results_def typed_defs player_at_def sess_at_def)
  show "all_results (typed (m, q, acc(sa := None))) (WorldSession_delete sa w)"
    unfolding WorldSession_delete_def using w
    by (intro bind_world [where k = "(m, q, acc)"] typing last)
qed

lemma typed_SendLoginError [typing]:
  "typed k w \<Longrightarrow> all_results (typed k) (WorldSession_SendLoginError code sa w)"
  unfolding WorldSession_SendLoginError_def by (intro typing)

lemma typed_rooms: "typed k w \<Longrightarrow> map_of (w_rooms w) i = Some r \<Longrightarrow> room_typed r"
  by (auto simp: typed_defs dest: map_of_SomeD)

lemma assign_room:
  "(j, q) \<in> set (map_assign i r m) \<Longrightarrow> q = r \<or> (j, q) \<in> set m"
  by (auto simp: map_assign_def split: if_splits)

lemma typed_RoomManager_AddPlayer [typing]:
  "typed k w \<Longrightarrow> all_results (typed k) (RoomManager_AddPlayer i a w)"
  unfolding RoomManager_AddPlayer_def
  by (intro typing) (auto simp: typed_defs intro: distinct_assign typed_rooms dest: assign_room)

lemma update_rooms_typed:
  "typed k w \<Longrightarrow> \<forall>(i, r) \<in> set rooms. room_typed r \<Longrightarrow>
   all_results (\<lambda>(rooms', w'). typed k w' \<and> map fst rooms' = map fst rooms \<and>
     (\<forall>(i, r) \<in> set rooms'. room_typed r)) (update_rooms diff rooms w)"
proof (induction rooms arbitrary: w)
  case (Cons e rest)
  obtain i r where e: "e = (i, r)" by fastforce
  show ?case unfolding e update_rooms.simps
  proof (intro bind_room_state typed_Room_Update)
    fix r' w' assume r': "room_typed r'" "typed k w'"
    show "all_results (\<lambda>(rooms', w''). typed k w'' \<and> map fst rooms' = map fst ((i, r) # rest) \<and>
        (\<forall>(i, r) \<in> set rooms'. room_typed r))
      ((case (r', w') of (r, w) \<Rightarrow> update_rooms diff rest w \<bind> (\<lambda>(rest, w). Some ((i, r) # rest, w))))"
      using Cons.IH [OF r'(2)] Cons.prems(2) r'(1)
      by (auto simp: all_results_def bind_eq_Some_conv)
  qed (use Cons.prems e in auto)
qed (simp add: all_results_def)

lemma typed_RoomManager_Update [typing]: "typed k w \<Longrightarrow> all_results (typed k) (RoomManager_Update diff w)"
proof -
  assume w: "typed k w"
  have rooms: "typed k w' \<Longrightarrow> all_results (typed k)
      (update_rooms d (w_rooms w') w' \<bind> (\<lambda>(rooms, w). Some (w\<lparr>w_rooms := rooms, w_rm_timer := f (w_rm_timer w)\<rparr>)))"
    for w' d f
    by (rule results_bind [OF update_rooms_typed [where w = w' and rooms = "w_rooms w'"]])
      (auto simp: all_results_def typed_defs player_at_def sess_at_def)
  show "all_results (typed k) (RoomManager_Update diff w)"
    unfolding RoomManager_Update_def Let_def
    by (rule bind_value) (intro results_structure rooms typed_fields w)
qed

definition rooms_typed :: "(u32 \<times> room) list \<Rightarrow> bool" where
  "rooms_typed m \<longleftrightarrow> distinct (map fst m) \<and> (\<forall>(i, r) \<in> set m. room_typed r)"

lemma rooms_typed_assign: "rooms_typed m \<Longrightarrow> room_typed r \<Longrightarrow> rooms_typed (map_assign i r m)"
  by (auto simp: rooms_typed_def distinct_assign dest: assign_room)

lemma room_typed_new: "room_typed (Room_new i basic)"
  by (simp add: room_typed_def Room_new_def)

lemma typed_InitRooms: "typed k w \<Longrightarrow> typed k (RoomManager_InitRooms n basic w)"
proof -
  assume w: "typed k w"
  have "rooms_typed m \<Longrightarrow> rooms_typed (fold (\<lambda>i m. map_assign (f i) (Room_new (f i) (g i)) m) ns m)"
    for f :: "nat \<Rightarrow> u32" and g ns m
    by (induction ns arbitrary: m) (simp_all add: rooms_typed_assign room_typed_new)
  moreover have "rooms_typed (w_rooms w)" using w by (simp add: rooms_typed_def typed_defs)
  ultimately show "typed k (RoomManager_InitRooms n basic w)"
    unfolding RoomManager_InitRooms_def by (intro typed_fields w) (simp_all add: rooms_typed_def)
qed

section \<open>Packets of a session\<close>

lemma typed_log_player_info [typing]: "typed k w \<Longrightarrow> all_results (typed k) (log_player_info flt sa w)"
  unfolding log_player_info_def by (intro typing)

lemma length_u32s_of_bytes [simp]: "length (u32s_of_bytes n bs) = n"
  by (induction n arbitrary: bs) simp_all

lemma typed_info_of_bytes: "length bs = sizeof_PlayerInfo \<Longrightarrow> info_wf (PlayerInfo_of_bytes bs)"
  by (simp add: PlayerInfo_of_bytes_def Let_def info_wf_def sizeof_PlayerInfo_def PROPS_COUNT_def NAME_LENGTH_def)

lemma read_bytes_length: "read_bytes n p = Some (bs, p') \<Longrightarrow> length bs = n"
  by (auto simp: read_bytes_def bb_read_bytes_def bb_slice_def bb_size_def bind_sum_Inr_iff
      split: if_splits)

lemma bind_read_bytes [typing]:
  "(\<And>bs p. length bs = n \<Longrightarrow> all_results P (f (bs, p))) \<Longrightarrow> all_results P (read_bytes n packet \<bind> f)"
  by (rule bind_value) (auto dest: read_bytes_length)

lemma bind_read_u32 [typing]:
  "(\<And>v p. all_results P (f (v, p))) \<Longrightarrow> all_results P (read_u32 packet \<bind> f)"
  by (rule bind_value) auto

lemma typed_HandlePlayerLogin [typing]:
  "typed k w \<Longrightarrow> all_results (typed k) (WorldSession_HandlePlayerLogin packet sa w)"
proof -
  assume w: "typed k w"
  have login: "typed k (put_sess sa (s\<lparr>s_player := Some (fst (Player_new sess w))\<rparr>) (snd (Player_new sess w)))"
    if "sess_at sa w = Some s" for s sess
    using typed_Player_new [OF w, of sess] that typed_session [OF w that]
    by (cases "Player_new sess w") (auto simp: Player_new_def Let_def sess_at_def session_typed_def intro!: typed_put_sess)
  show "all_results (typed k) (WorldSession_HandlePlayerLogin packet sa w)"
    unfolding WorldSession_HandlePlayerLogin_def Let_def case_prod_beta using w
    by (intro bind_world [where k = k] typing login) (simp_all add: Player_loadData_def typed_info_of_bytes)
qed

lemma typed_HandleWaitStart [typing]:
  "typed k w \<Longrightarrow> all_results (typed k) (WorldSession_HandleWaitStart packet sa w)"
  unfolding WorldSession_HandleWaitStart_def by (intro typing typed_setStart)

lemma typed_HandleGrabLandlord [typing]:
  "typed k w \<Longrightarrow> all_results (typed k) (WorldSession_HandleGrabLandlord packet sa w)"
  unfolding WorldSession_HandleGrabLandlord_def by (intro typing) simp_all

lemma typed_HandleOutCards [typing]:
  "typed k w \<Longrightarrow> all_results (typed k) (WorldSession_HandleOutCards packet sa w)"
  unfolding WorldSession_HandleOutCards_def by (intro typing) simp_all

lemma typed_HandleRoundOver [typing]:
  "typed k w \<Longrightarrow> all_results (typed k) (WorldSession_HandleRoundOver packet sa w)"
  unfolding WorldSession_HandleRoundOver_def by (intro typing) simp_all

lemma typed_HandlLogout [typing]:
  "typed k w \<Longrightarrow> all_results (typed k) (WorldSession_HandlLogout packet sa w)"
  unfolding WorldSession_HandlLogout_def by (intro typing) (simp_all add: player_typedD)

lemma typed_run_handler [typing]: "typed k w \<Longrightarrow> all_results (typed k) (run_handler h packet sa w)"
  by (cases h) (simp_all add: typing)

lemma typed_dispatch_packet [typing]: "typed k w \<Longrightarrow> all_results (typed k) (dispatch_packet packet sa w)"
  unfolding dispatch_packet_def by (intro typing)

text \<open>Taking a packet from the queue of a typed session leaves the queue unlocked.\<close>

lemma typed_next: "LockedQueue_next q = Some (x, q') \<Longrightarrow> \<not> lq_locked q'"
  by (cases "lq_items q")
    (auto simp: LockedQueue_next_def LockedQueue_lock_def LockedQueue_unlock_def split: if_splits)

lemma bind_next [typing]:
  "(\<And>x q'. \<not> lq_locked q' \<Longrightarrow> all_results P (f (x, q'))) \<Longrightarrow> all_results P (LockedQueue_next q \<bind> f)"
  by (rule bind_value) (auto dest: typed_next)

lemma bind_empty [typing]:
  "(\<And>x q'. all_results P (f (x, q'))) \<Longrightarrow> all_results P (LockedQueue_empty q \<bind> f)"
  by (rule bind_value) auto

lemma typed_session_loop [typing]: "typed k w \<Longrightarrow> all_results (typed k) (session_loop n sa w)"
proof (induction "Suc MAX_PROCESSED_PACKETS - n" arbitrary: n w rule: less_induct)
  case less
  show ?case
    by (subst session_loop.simps)
      (intro typing less.prems less.hyps; use less.prems in \<open>simp add: session_typed_def\<close>)
qed

lemma typed_session_Update [typing]:
  "typed k w \<Longrightarrow> all_results (value_typed k) (WorldSession_Update diff sa w)"
  unfolding WorldSession_Update_def Let_def
  by (intro typing) (auto simp: session_typed_def WorldSession_UpdateTimeOutTime_def intro!: typing dest: typed_session)

end
