(* ===== verification/Server.thy ===== *)
theory Server
  imports Typing WorldConfig "HOL-Library.Code_Target_Numeral"
begin

text \<open>
  Server: the running server as a whole. It is set up by \<^verbatim>\<open>main\<close>
  (\<^verbatim>\<open>src/server/worldserver/Main.cpp\<close>) and \<^verbatim>\<open>World::SetInitialWorldSettings\<close>
  (\<^verbatim>\<open>game/World/World.cpp\<close>); from then on its state changes by the events of the
  transport (a connection is accepted by \<^verbatim>\<open>shared/Networking/AsyncAcceptor.h\<close>, a read or a
  write completes) and by the updates of the world. A run is a list of events; the properties hold for
  every list. The events are atomic, as they are under the locks of the code and with one room thread.
\<close>

section \<open>Start\<close>

definition RoomManager_new :: "world \<Rightarrow> world" where
  "RoomManager_new w =
     w\<lparr>w_rooms := [],
       w_rm_timer := IntervalTimer_SetInterval (uint (getIntConfig CONFIG_INTERVAL_ROOMUPDATE w)) IntervalTimer_new\<rparr>"

text \<open>\<open>startupBegin\<close> and \<open>startupEnd\<close> are the two readings of the clock.\<close>

definition World_SetInitialWorldSettings ::
    "ini_parser \<Rightarrow> log_env \<Rightarrow> u32 \<Rightarrow> u32 \<Rightarrow> config_mgr \<Rightarrow> log \<Rightarrow> world \<Rightarrow> (config_mgr \<times> log \<times> world) option" where
  "World_SetInitialWorldSettings read_ini env startupBegin startupEnd m l w = do {
     (m, l, cfg) \<leftarrow> World_LoadConfigSettings read_ini env False m l (w_cfg w);
     let w = w\<lparr>w_cfg := cfg\<rparr>;
     l \<leftarrow> tc_log env ''server.loading'' LOG_LEVEL_INFO ''Starting Room System'' l;
     let w = RoomManager_Initialize (RoomManager_new w);
     let startupDuration = getMSTimeDiff startupBegin startupEnd;
     l \<leftarrow> tc_log env ''server.worldserver'' LOG_LEVEL_INFO
           (''World initialized in '' @ digits (unat (startupDuration div 60000)) @ '' minutes '' @
            digits (unat (startupDuration mod 60000 div 1000)) @ '' seconds'') l;
     Some (m, l, w)
   }"

text \<open>The server's world before anything has happened: no object is live.\<close>

definition empty_world :: "(nat \<Rightarrow> u32 \<times> u8 list) \<Rightarrow> (nat \<Rightarrow> nat) \<Rightarrow> (string \<Rightarrow> bool) \<Rightarrow> world" where
  "empty_world mem rnd logs =
     \<lparr>w_players = Map.empty, w_sessions = Map.empty, w_conns = Map.empty, w_next = 0, w_mem = mem,
      w_rand = rnd, w_ridx = 0, w_cfg = replicate INT_CONFIG_VALUE_COUNT 0, w_pool = [], w_rooms = [],
      w_rm_timer = IntervalTimer_new, w_addSess = LockedQueue_new, w_smap = [], w_logs = logs\<rparr>"

text \<open>What \<^verbatim>\<open>main\<close> reads for the threads of the transport and for the listening socket.\<close>

record listener =
  ls_bindIp :: string
  ls_port :: u16
  ls_tcpNoDelay :: bool

definition main_numThreads :: "config_mgr \<Rightarrow> i32" where
  "main_numThreads m =
     (let numThreads = ConfigMgr_GetIntDefault ''ThreadPool'' 1 m in if sint numThreads < 1 then 1 else numThreads)"

definition main_listener :: "config_mgr \<Rightarrow> world \<Rightarrow> listener" where
  "main_listener m w =
     \<lparr>ls_bindIp = ConfigMgr_GetStringDefault ''BindIP'' ''0.0.0.0'' m,
      ls_port = ucast (getIntConfig CONFIG_PORT_WORLD w),
      ls_tcpNoDelay = ConfigMgr_GetBoolDefault ''Network.TcpNodelay'' True m\<rparr>"

record server =
  sv_mgr :: config_mgr
  sv_log :: log
  sv_threads :: i32
  sv_listener :: listener
  sv_world :: world
  sv_loop :: world_loop
  sv_stopEvent :: bool
  sv_ExitCode :: u8

definition SHUTDOWN_EXIT_CODE :: u8 where "SHUTDOWN_EXIT_CODE = 0"

text \<open>
  \<^verbatim>\<open>main\<close> up to the loop: \<open>Inl\<close> is the message it prints before it returns 1.
  \<open>now\<close> is the clock when the loop starts. The pool of computer players is a singleton that its
  first user makes; nothing observes when, so it is made here, from the same settings.
\<close>

definition main_start ::
    "ini_parser \<Rightarrow> log_env \<Rightarrow> u32 \<Rightarrow> u32 \<Rightarrow> u32 \<Rightarrow> config_mgr \<Rightarrow> log \<Rightarrow> world \<Rightarrow> (string + server) option" where
  "main_start read_ini env startupBegin startupEnd now m l w =
     (case ConfigMgr_LoadInitial read_ini ''worldserver.conf'' m of
        (False, m, configError) \<Rightarrow>
          Some (Inl (''Error in config file: '' @ (case configError of Some e \<Rightarrow> e | None \<Rightarrow> []) @ [CHR 0x0A]))
      | (True, m, _) \<Rightarrow> do {
          let numThreads = main_numThreads m;
          (m, l, w) \<leftarrow> World_SetInitialWorldSettings read_ini env startupBegin startupEnd m l w;
          Some (Inr \<lparr>sv_mgr = m, sv_log = l, sv_threads = numThreads, sv_listener = main_listener m w,
                     sv_world = AiPlayerPool_new w,
                     sv_loop = \<lparr>wl_realPrevTime = now, wl_prevSleepTime = 0, wl_counter = 0\<rparr>,
                     sv_stopEvent = False, sv_ExitCode = SHUTDOWN_EXIT_CODE\<rparr>)
        })"

section \<open>Events\<close>

text \<open>
  \<^verbatim>\<open>AsyncAccept\<close>: a connection is made at a fresh address and starts to read; after an error
  the acceptor only waits for the next one.
\<close>

definition AsyncAcceptor_accepted :: "bool \<Rightarrow> world \<Rightarrow> world" where
  "AsyncAcceptor_accepted error w =
     (if error then w
      else put_conn (w_next w) (WorldSocket_Start WorldSocket_new) (w\<lparr>w_next := Suc (w_next w)\<rparr>))"

definition connection_written :: "bool \<Rightarrow> nat \<Rightarrow> world \<Rightarrow> world option" where
  "connection_written error ca w = do {
     c \<leftarrow> conn_at ca w;
     s \<leftarrow> Socket_WriteHandler error (cn_socket c);
     Some (put_conn ca (c\<lparr>cn_socket := s\<rparr>) w)
   }"

definition World_StopNow :: "u8 \<Rightarrow> server \<Rightarrow> server" where
  "World_StopNow exitcode s = s\<lparr>sv_stopEvent := True, sv_ExitCode := exitcode\<rparr>"

definition SignalHandler :: "bool \<Rightarrow> server \<Rightarrow> server" where
  "SignalHandler error s = (if \<not> error then World_StopNow SHUTDOWN_EXIT_CODE s else s)"

text \<open>One turn of \<^verbatim>\<open>WorldUpdateLoop\<close> with the clock at \<open>now\<close>; a stopped loop has ended.\<close>

definition WorldUpdateLoop_turn :: "u32 \<Rightarrow> server \<Rightarrow> server option" where
  "WorldUpdateLoop_turn now s =
     (if sv_stopEvent s then Some s
      else do {
        let (diff, loop) = WorldUpdateLoop_step now (sv_loop s);
        w \<leftarrow> World_Update diff (sv_world s);
        Some (s\<lparr>sv_world := w, sv_loop := loop\<rparr>)
      })"

datatype server_event =
    Accepted bool
  | HeaderRead nat "u8 list option"
  | DataRead nat "u8 list option"
  | Written nat bool
  | Signalled bool
  | Turn u32

definition in_world :: "(world \<Rightarrow> world option) \<Rightarrow> server \<Rightarrow> server option" where
  "in_world f s = do { w \<leftarrow> f (sv_world s); Some (s\<lparr>sv_world := w\<rparr>) }"

fun server_step :: "server_event \<Rightarrow> server \<Rightarrow> server option" where
  "server_step (Accepted error) = in_world (\<lambda>w. Some (AsyncAcceptor_accepted error w))"
| "server_step (HeaderRead ca transferred) = in_world (connection_header_read transferred ca)"
| "server_step (DataRead ca transferred) = in_world (connection_data_read transferred ca)"
| "server_step (Written ca error) = in_world (connection_written error ca)"
| "server_step (Signalled error) = (\<lambda>s. Some (SignalHandler error s))"
| "server_step (Turn now) = WorldUpdateLoop_turn now"

fun server_run :: "server_event list \<Rightarrow> server \<Rightarrow> server option" where
  "server_run [] s = Some s"
| "server_run (e # es) s = do { s \<leftarrow> server_step e s; server_run es s }"

section \<open>The end\<close>

text \<open>\<^verbatim>\<open>World::~World\<close> deletes the sessions of its map; \<^verbatim>\<open>~AiPlayerPool\<close> its players.\<close>

fun delete_sessions :: "(u32 \<times> nat) list \<Rightarrow> world \<Rightarrow> world option" where
  "delete_sessions [] w = Some w"
| "delete_sessions ((i, sa) # rest) w = do {
     w \<leftarrow> WorldSession_delete sa w;
     delete_sessions rest (w\<lparr>w_smap := rest\<rparr>)
   }"

definition World_delete :: "world \<Rightarrow> world option" where
  "World_delete w = delete_sessions (w_smap w) w"

fun delete_players :: "nat list \<Rightarrow> world \<Rightarrow> world option" where
  "delete_players [] w = Some w"
| "delete_players (a # rest) w = do { w \<leftarrow> delete_player a w; delete_players rest w }"

definition AiPlayerPool_delete :: "world \<Rightarrow> world option" where
  "AiPlayerPool_delete w = delete_players (w_pool w) w"

section \<open>The sessions of the world\<close>

text \<open>
  \<open>session_books m pending acc\<close>: the sessions of the map \<open>m\<close> and those that wait to be added
  are all different, they are exactly the live sessions, and the map has each under its account.
\<close>

definition session_books :: "(u32 \<times> nat) list \<Rightarrow> nat list \<Rightarrow> (nat \<Rightarrow> u32 option) \<Rightarrow> bool" where
  "session_books m pending acc \<longleftrightarrow>
     distinct (map snd m @ pending) \<and> (\<forall>sa. acc sa \<noteq> None \<longleftrightarrow> sa \<in> snd ` set m \<or> sa \<in> set pending) \<and>
     (\<forall>(i, sa) \<in> set m. acc sa = Some i)"

definition world_ok :: "world \<Rightarrow> bool" where
  "world_ok w \<longleftrightarrow> world_typed w \<and> session_books (w_smap w) (lq_items (w_addSess w)) (accounts w)"

lemma books_new:
  assumes "session_books m pending acc" "acc sa = None"
  shows "session_books m (pending @ [sa]) (acc(sa \<mapsto> i))"
proof -
  have "sa \<notin> snd ` set m \<and> sa \<notin> set pending"
    using assms unfolding session_books_def by (metis option.distinct(1))
  then show ?thesis using assms(1) by (auto simp: session_books_def image_iff)
qed

lemma books_enter:
  assumes "session_books m (sa # pending) acc" "acc sa = Some i"
  shows "session_books (m @ [(i, sa)]) pending acc"
  using assms by (auto simp: session_books_def)

lemma books_refuse:
  assumes "session_books m (sa # pending) acc"
  shows "session_books m pending (acc(sa := None))"
proof -
  have "sa \<notin> snd ` set m" "sa \<notin> set pending" using assms by (auto simp: session_books_def)
  then show ?thesis using assms by (auto simp: session_books_def image_iff)
qed

lemma books_erase:
  assumes "session_books m pending acc" "(i, sa) \<in> set m" "distinct (map fst m)"
  shows "session_books (Room.map_erase i m) pending (acc(sa := None))"
proof -
  have acc: "acc sa = Some i" and pend: "sa \<notin> set pending"
    using assms(1,2) by (force simp: session_books_def)+
  have iff: "(j, sb) \<in> set (Room.map_erase i m) \<longleftrightarrow> (j, sb) \<in> set m \<and> sb \<noteq> sa" for j sb
  proof -
    have "sb = sa" if "(i, sb) \<in> set m" using assms(2,3) that by (meson eq_key_imp_eq_value)
    moreover have "j = i" if "(j, sa) \<in> set m" using assms(1) that acc by (auto simp: session_books_def)
    ultimately show ?thesis by (auto simp: Room.map_erase_def)
  qed
  then have "snd ` set (Room.map_erase i m) = snd ` set m - {sa}" by (auto simp: image_iff)
  moreover have "distinct (map snd (Room.map_erase i m))"
    using assms(1) by (simp add: session_books_def Room.map_erase_def distinct_map_filter)
  ultimately show ?thesis
    using assms(1) pend iff by (auto simp: session_books_def)
qed

lemma world_okI: "typed (m, q, acc) w \<Longrightarrow> session_books m (lq_items q) acc \<Longrightarrow> world_ok w"
  by (simp add: world_ok_def typed_def)

lemma world_ok_typed:
  "world_ok w \<Longrightarrow> typed (w_smap w, w_addSess w, accounts w) w"
  by (simp add: world_ok_def typed_def)

text \<open>An operation that leaves the books alone keeps the invariant.\<close>

lemma ok_frame: "world_ok w \<Longrightarrow> (\<And>k. typed k w \<Longrightarrow> all_results (typed k) m) \<Longrightarrow> all_results world_ok m"
  using world_ok_typed [of w] by (fastforce simp: all_results_def world_ok_def typed_def)

lemma bind_ok:
  "all_results world_ok n \<Longrightarrow> (\<And>w. world_ok w \<Longrightarrow> all_results P (f w)) \<Longrightarrow> all_results P (n \<bind> f)"
  by (erule results_bind)

lemma ok_AddSession_new:
  assumes "world_typed w" "session_books (w_smap w) (sa # pending) (accounts w)"
  shows "all_results (\<lambda>w'. world_typed w' \<and> session_books (w_smap w') pending (accounts w') \<and>
    w_addSess w' = w_addSess w) (World_AddSession_new sa w)"
proof -
  have typed: "typed (w_smap w, w_addSess w, accounts w) w" using assms(1) by (simp add: typed_def)
  have acc: "accounts w sa = Some (s_accountId s)" if "sess_at sa w = Some s" for s
    using that by (simp add: accounts_def)
  have dup: "all_results (\<lambda>w'. world_typed w' \<and> session_books (w_smap w') pending (accounts w') \<and>
      w_addSess w' = w_addSess w) (WorldSession_delete sa w)"
    using typed_WorldSession_delete [OF typed, of sa] books_refuse [OF assms(2)]
    by (fastforce simp: all_results_def typed_def)
  have enter: "world_typed (w\<lparr>w_smap := map_assign i sa (w_smap w)\<rparr>) \<and>
      session_books (map_assign i sa (w_smap w)) pending (accounts w)"
    if "\<not> World_RemoveSession i w" "accounts w sa = Some i" for i
  proof -
    have "i \<notin> fst ` set (w_smap w)" using that(1) by (force simp: World_RemoveSession_def map_of_eq_None_iff)
    then have "map_assign i sa (w_smap w) = w_smap w @ [(i, sa)]" by (simp add: map_assign_def)
    moreover have "distinct (map fst (w_smap w @ [(i, sa)]))"
      using assms(1) \<open>i \<notin> fst ` set (w_smap w)\<close> by (simp add: world_typed_def)
    ultimately show ?thesis
      using books_enter [OF assms(2) that(2)] assms(1) by (simp add: world_typed_def player_at_def sess_at_def)
  qed
  show ?thesis unfolding World_AddSession_new_def
    by (intro all_results_intros dup) (use enter acc in \<open>simp add: accounts_def sess_at_def\<close>)
qed

lemma ok_add_sessions:
  "world_typed w \<Longrightarrow> session_books (w_smap w) pending (accounts w) \<Longrightarrow>
   all_results (\<lambda>w'. world_typed w' \<and> session_books (w_smap w') [] (accounts w') \<and> w_addSess w' = w_addSess w)
     (add_sessions pending w)"
proof (induction pending arbitrary: w)
  case (Cons sa pending)
  show ?case unfolding add_sessions.simps
    by (rule results_bind [OF ok_AddSession_new [OF Cons.prems]]) (use Cons.IH in fastforce)
qed (simp add: all_results_def)

lemma ok_update_sessions:
  "world_ok w \<Longrightarrow> distinct (map fst entries) \<Longrightarrow> set entries \<subseteq> set (w_smap w) \<Longrightarrow>
   all_results world_ok (update_sessions diff entries w)"
proof (induction entries arbitrary: w)
  case (Cons e entries)
  obtain i sa where e: "e = (i, sa)" by fastforce
  have typed: "typed (w_smap w, w_addSess w, accounts w) w" using Cons.prems(1) by (rule world_ok_typed)
  have rest: "set entries \<subseteq> set (Room.map_erase i (w_smap w))"
    using Cons.prems(2,3) e by (force simp: Room.map_erase_def)
  show ?case unfolding e update_sessions.simps
  proof (rule bind_value_world [OF typed_session_Update [OF typed]])
    fix alive :: bool and w1 assume w1: "typed (w_smap w, w_addSess w, accounts w) w1"
    then have fields: "w_smap w1 = w_smap w" "w_addSess w1 = w_addSess w" "accounts w1 = accounts w"
      by (simp_all add: typed_def)
    have ok1: "world_ok w1" using w1 Cons.prems(1) by (simp add: world_ok_def typed_def)
    let ?w2 = "w1\<lparr>w_smap := Room.map_erase i (w_smap w1)\<rparr>"
    have w2: "typed (Room.map_erase i (w_smap w), w_addSess w, accounts w) ?w2"
      using w1 by (simp add: typed_defs player_at_def sess_at_def distinct_erase)
    have books: "session_books (Room.map_erase i (w_smap w)) (lq_items (w_addSess w)) ((accounts w)(sa := None))"
      using Cons.prems e by (intro books_erase) (auto simp: world_ok_def world_typed_def)
    have dead: "all_results (\<lambda>w'. world_ok w' \<and> set entries \<subseteq> set (w_smap w')) (WorldSession_delete sa ?w2)"
      using typed_WorldSession_delete [OF w2, of sa] books rest by (fastforce simp: all_results_def typed_def world_ok_def)
    have "all_results (\<lambda>w'. world_ok w' \<and> set entries \<subseteq> set (w_smap w'))
        (if alive then Some w1 else WorldSession_delete sa ?w2)"
      using dead ok1 Cons.prems(3) fields by (auto simp: all_results_def)
    then show "all_results world_ok (case (alive, w1) of (alive, w) \<Rightarrow>
        (if alive then Some w else WorldSession_delete sa (w\<lparr>w_smap := Room.map_erase i (w_smap w)\<rparr>)) \<bind>
          update_sessions diff entries)"
      unfolding prod.case by (rule results_bind) (use Cons.IH Cons.prems(2) in simp)
  qed
qed (simp add: all_results_def)

lemma ok_UpdateSessions: "world_ok w \<Longrightarrow> all_results world_ok (World_UpdateSessions diff w)"
proof -
  assume w: "world_ok w"
  let ?w0 = "w\<lparr>w_addSess := (w_addSess w)\<lparr>lq_items := []\<rparr>\<rparr>"
  have "world_typed ?w0" "session_books (w_smap ?w0) (lq_items (w_addSess w)) (accounts ?w0)"
    using w by (simp_all add: world_ok_def world_typed_def player_at_def sess_at_def accounts_def)
  note added = ok_add_sessions [OF this]
  have "all_results world_ok (add_sessions (lq_items (w_addSess w)) ?w0 \<bind> (\<lambda>w. update_sessions diff (w_smap w) w))"
    by (rule results_bind [OF added], rule ok_update_sessions) (auto simp: world_ok_def world_typed_def)
  then show "all_results world_ok (World_UpdateSessions diff w)"
    by (simp add: World_UpdateSessions_def all_results_intros)
qed

lemma ok_World_Update: "world_ok w \<Longrightarrow> all_results world_ok (World_Update diff w)"
  unfolding World_Update_def
  by (rule bind_ok [OF ok_UpdateSessions]) (auto intro: ok_frame typed_RoomManager_Update)

section \<open>The connections\<close>

lemma typed_read_next_header: "typed k w \<Longrightarrow> all_results (typed k) (read_next_header ca w)"
  unfolding read_next_header_def by (intro typing)

lemma ok_put_conn: "world_ok w \<Longrightarrow> world_ok (put_conn ca c w)"
  using typed_put_conn [OF world_ok_typed, of w] by (auto simp: world_ok_def typed_def)

lemma ok_WorldSocket_AddSession: "world_ok w \<Longrightarrow> all_results world_ok (WorldSocket_AddSession packet ca w)"
proof -
  assume w: "world_ok w"
  have last: "all_results world_ok (World_AddSession sa w1)"
    if "typed (w_smap w, w_addSess w, (accounts w)(sa \<mapsto> i)) w1" "accounts w sa = None" for sa i w1
  proof -
    have "session_books (w_smap w) (lq_items (w_addSess w) @ [sa]) ((accounts w)(sa \<mapsto> i))"
      using w that(2) by (intro books_new) (simp_all add: world_ok_def)
    then show ?thesis
      using that(1) unfolding World_AddSession_def
      by (auto simp: all_results_def bind_eq_Some_conv LockedQueue_add_def LockedQueue_lock_def LockedQueue_unlock_def
          world_ok_def typed_defs player_at_def sess_at_def split: if_splits)
  qed
  show "all_results world_ok (WorldSocket_AddSession packet ca w)"
    unfolding WorldSocket_AddSession_def Let_def
  proof (rule bind_value, rule bind_value, rule all_results_intros(5))
    fix i c sa w1 assume new: "WorldSession_new i (Some ca) w = (sa, w1)"
    let ?k = "(w_smap w, w_addSess w, (accounts w)(sa \<mapsto> i))"
    note w1 = typed_WorldSession_new [OF world_ok_typed [OF w] new]
    show "all_results world_ok (WorldSession_QueuePacket packet sa (put_conn ca (c\<lparr>cn_session := Some sa\<rparr>) w1) \<bind>
        (\<lambda>w. WorldSession_ResetTimeOutTime sa w \<bind> World_AddSession sa))"
      using w1 by (intro bind_world [where k = ?k] typing) (auto intro: last)
  qed
qed

lemma ok_header: "world_ok w \<Longrightarrow> all_results world_ok (read_next_header ca w)"
  by (rule ok_frame) (auto intro: typed_read_next_header)

lemma ok_ReadDataHandler: "world_ok w \<Longrightarrow> all_results world_ok (WorldSocket_ReadDataHandler ca w)"
proof -
  assume w: "world_ok w"
  note ok = ok_put_conn [OF w]
  have reset: "world_ok w \<Longrightarrow> all_results world_ok (WorldSession_ResetTimeOutTime sa w)"
    and queue: "world_ok w \<Longrightarrow> all_results world_ok (WorldSession_QueuePacket packet sa w)"
    and logged: "world_ok w \<Longrightarrow> all_results world_ok (log_player_info flt sa w)"
    and closed: "world_ok w \<Longrightarrow> all_results world_ok (close_connection ca w)" for sa packet flt w
    by (erule ok_frame, intro typing, assumption)+
  show "all_results world_ok (WorldSocket_ReadDataHandler ca w)"
    unfolding WorldSocket_ReadDataHandler_def Let_def case_prod_beta using w
    by (intro bind_ok results_structure bind_value [where 'a = connection] bind_value [where 'a = world_packet]
        bind_value [where 'a = nat] ok_header ok_WorldSocket_AddSession reset queue logged closed ok_put_conn)
qed

lemma ok_ReadHeaderHandler: "world_ok w \<Longrightarrow> all_results world_ok (WorldSocket_ReadHeaderHandler ca w)"
proof -
  assume w: "world_ok w"
  have closed: "world_ok w \<Longrightarrow> all_results world_ok (close_connection ca w)" for w
    by (erule ok_frame, intro typing)
  show "all_results world_ok (WorldSocket_ReadHeaderHandler ca w)"
    unfolding WorldSocket_ReadHeaderHandler_def Let_def case_prod_beta using w
    by (intro results_structure bind_value [where 'a = connection] closed ok_ReadDataHandler ok_put_conn)
qed

lemma ok_connection_read:
  assumes "\<And>w. world_ok w \<Longrightarrow> all_results world_ok (handler ca w)" "world_ok w"
  shows "all_results world_ok (connection_read internal handler transferred ca w)"
  unfolding connection_read_def Let_def case_prod_beta
  by (intro results_structure bind_value [where 'a = connection] assms ok_put_conn)

lemma ok_accepted: "world_ok w \<Longrightarrow> world_ok (AsyncAcceptor_accepted error w)"
proof -
  assume w: "world_ok w"
  then have "world_ok (w\<lparr>w_next := Suc (w_next w)\<rparr>)"
    by (auto simp: world_ok_def world_typed_def player_at_def sess_at_def accounts_def less_Suc_eq)
  then show "world_ok (AsyncAcceptor_accepted error w)"
    using w by (simp add: AsyncAcceptor_accepted_def ok_put_conn)
qed

lemma ok_server_step:
  "world_ok (sv_world s) \<Longrightarrow> all_results (\<lambda>s. world_ok (sv_world s)) (server_step e s)"
proof -
  assume w: "world_ok (sv_world s)"
  have "all_results world_ok (connection_header_read t ca (sv_world s))" for t ca
    unfolding connection_header_read_def by (intro ok_connection_read ok_ReadHeaderHandler w)
  moreover have "all_results world_ok (connection_data_read t ca (sv_world s))" for t ca
    unfolding connection_data_read_def by (intro ok_connection_read ok_ReadDataHandler w)
  moreover have "all_results world_ok (World_Update d (sv_world s))" for d
    by (intro ok_World_Update w)
  ultimately show "all_results (\<lambda>s. world_ok (sv_world s)) (server_step e s)"
    using w ok_put_conn [OF w] ok_accepted [OF w]
    by (cases e) (auto simp: all_results_def in_world_def bind_eq_Some_conv connection_written_def
        WorldUpdateLoop_turn_def SignalHandler_def World_StopNow_def split: if_splits prod.splits)
qed

lemma ok_server_run:
  "world_ok (sv_world s) \<Longrightarrow> all_results (\<lambda>s. world_ok (sv_world s)) (server_run es s)"
proof (induction es arbitrary: s)
  case (Cons e es)
  show ?case unfolding server_run.simps
    by (rule results_bind [OF ok_server_step [OF Cons.prems]]) (rule Cons.IH)
qed (simp add: all_results_def)

lemma ok_start:
  assumes "\<forall>a. length (snd (mem a)) = 24"
    and "main_start read_ini env t0 t1 now m l (empty_world mem rnd logs) = Some (Inr s)"
  shows "world_ok (sv_world s)"
proof -
  obtain ok m1 err where init: "ConfigMgr_LoadInitial read_ini ''worldserver.conf'' m = (ok, m1, err)"
    by (metis prod_cases3)
  with assms(2) obtain m2 l1 w where start:
    "World_SetInitialWorldSettings read_ini env t0 t1 m1 l (empty_world mem rnd logs) = Some (m2, l1, w)"
    "sv_world s = AiPlayerPool_new w"
    by (auto simp: main_start_def Let_def bind_eq_Some_conv split: bool.splits)
  then obtain m3 l2 cfg where cfg: "World_LoadConfigSettings read_ini env False m1 l
      (replicate INT_CONFIG_VALUE_COUNT 0) = Some (m3, l2, cfg)"
    and w: "w = RoomManager_Initialize (RoomManager_new ((empty_world mem rnd logs)\<lparr>w_cfg := cfg\<rparr>))"
    by (auto simp: World_SetInitialWorldSettings_def empty_world_def Let_def bind_eq_Some_conv)
  have "length (load_int c x xs) = length xs" for c x xs by (cases x) (simp add: load_int_def)
  then have "length cfg = INT_CONFIG_VALUE_COUNT" using cfg by (auto simp: World_LoadConfigSettings_def)
  then have "typed ([], LockedQueue_new, Map.empty) (RoomManager_new ((empty_world mem rnd logs)\<lparr>w_cfg := cfg\<rparr>))"
    using assms(1) by (simp add: typed_defs empty_world_def RoomManager_new_def player_at_def sess_at_def
        LockedQueue_new_def fun_eq_iff)
  then have "typed ([], LockedQueue_new, Map.empty) (AiPlayerPool_new w)"
    unfolding w RoomManager_Initialize_def by (intro typed_new_pool typed_InitRooms)
  then show ?thesis
    unfolding start(2) by (rule world_okI) (simp add: session_books_def LockedQueue_new_def)
qed

lemma ok_reached:
  assumes "\<forall>a. length (snd (mem a)) = 24"
    and "main_start read_ini env t0 t1 now m l (empty_world mem rnd logs) = Some (Inr s)"
    and "server_run es s = Some s'"
  shows "world_ok (sv_world s')"
  using all_resultsD [OF ok_server_run [OF ok_start [OF assms(1,2)]] assms(3)] .

text \<open>The end of the world deletes every session of the map once; those still queued stay allocated.\<close>

lemma delete_sessions_books:
  "typed (m, q, acc) w \<Longrightarrow> session_books m pending acc \<Longrightarrow>
   all_results (\<lambda>w'. \<exists>acc'. typed ([], q, acc') w' \<and> session_books [] pending acc') (delete_sessions m w)"
proof (induction m arbitrary: acc w)
  case (Cons e m)
  obtain i sa where e: "e = (i, sa)" by fastforce
  have "distinct (map fst (e # m))" using Cons.prems(1) by (simp add: typed_def world_typed_def)
  then have "Room.map_erase i (e # m) = m"
    by (auto simp: e Room.map_erase_def filter_id_conv image_iff)
  then have books: "session_books m pending (acc(sa := None))"
    using books_erase [OF Cons.prems(2), of i sa] e \<open>distinct _\<close> by simp
  show ?case unfolding e delete_sessions.simps
  proof (rule results_bind [OF typed_WorldSession_delete])
    show "typed ((i, sa) # m, q, acc) w" using Cons.prems(1) e by simp
    fix w1 assume "typed ((i, sa) # m, q, acc(sa := None)) w1"
    then have "typed (m, q, acc(sa := None)) (w1\<lparr>w_smap := m\<rparr>)"
      using \<open>distinct _\<close> by (simp add: typed_defs player_at_def sess_at_def)
    then show "all_results (\<lambda>w'. \<exists>acc'. typed ([], q, acc') w' \<and> session_books [] pending acc')
        (delete_sessions m (w1\<lparr>w_smap := m\<rparr>))"
      by (rule Cons.IH [OF _ books])
  qed
qed (auto simp: all_results_def)

section \<open>Properties\<close>

declare Player_checkOutPlayer.simps [code] Player_checkRoundOver.simps [code]

definition demo_ini :: ini_parser where
  "demo_ini file = Inr [\<lparr>st_keys = [], st_get = (\<lambda>path. None),
     st_get_int = (\<lambda>path. if path = ''aiPlayerCount'' \<or> path = ''RoomNumbers'' then Some 1 else None),
     st_get_float = (\<lambda>path. None)\<rparr>]"

definition demo_start :: "(string + server) option" where
  "demo_start = main_start demo_ini demo_log_env 5 6 1000 empty_mgr empty_log
     (empty_world (\<lambda>a. (0, replicate 24 0)) (\<lambda>i. i) (\<lambda>filter. False))"

definition demo_events :: "server_event list" where
  "demo_events = [Accepted False, HeaderRead 1 (Some [180, 0, 0, 0, 0, 0, 0, 0]),
     DataRead 1 (Some (replicate 20 0 @ [7, 0, 0, 0] @ replicate 148 0)), Turn 1150]"

definition demo_end :: "server option" where
  "demo_end = (case demo_start of Some (Inr s) \<Rightarrow> server_run demo_events s | _ \<Rightarrow> None)"

lemma demo_runs:
  "(case demo_end of None \<Rightarrow> False
    | Some s \<Rightarrow> w_smap (sv_world s) = [(7, 2)] \<and>
        (case World_delete (sv_world s) of None \<Rightarrow> False | Some w \<Rightarrow> True)) = True"
  by code_simp

lemma demo_run:
  obtains s s' w where "\<forall>a. length (snd ((\<lambda>a :: nat. (0 :: u32, replicate 24 (0 :: u8))) a)) = 24"
    "main_start demo_ini demo_log_env 5 6 1000 empty_mgr empty_log
       (empty_world (\<lambda>a. (0, replicate 24 0)) (\<lambda>i. i) (\<lambda>filter. False)) = Some (Inr s)"
    "server_run demo_events s = Some s'" "w_smap (sv_world s') = [(7, 2)]" "World_delete (sv_world s') = Some w"
  using demo_runs that
  by (fastforce simp: demo_end_def demo_start_def split: option.splits sum.splits)

text \<open>
  C3. The world stays typed. Started by \<^verbatim>\<open>main\<close> with any configuration, after any sequence of
  accepted connections, completed reads and writes with any bytes, signals and turns of the world loop,
  every object of the server has the shape of its class: the arrays of a player have their lengths, his
  status is one of the twelve states with at most the two logout flags, no queue is left locked, the
  maps have one room, one player and one session for each key.
\<close>

theorem server_run_typed:
  assumes "\<forall>a. length (snd (mem a)) = 24"
    and "main_start read_ini env t0 t1 now m l (empty_world mem rnd logs) = Some (Inr s)"
    and "server_run es s = Some s'"
  shows "world_typed (sv_world s')"
  using ok_reached [OF assms] by (simp add: world_ok_def)

theorem server_run_typed_witness:
  "\<exists>s'. demo_end = Some s' \<and> world_typed (sv_world s')"
proof -
  obtain s s' where run: "\<forall>a. length (snd ((\<lambda>a :: nat. (0 :: u32, replicate 24 (0 :: u8))) a)) = 24"
    "main_start demo_ini demo_log_env 5 6 1000 empty_mgr empty_log
       (empty_world (\<lambda>a. (0, replicate 24 0)) (\<lambda>i. i) (\<lambda>filter. False)) = Some (Inr s)"
    "server_run demo_events s = Some s'" by (rule demo_run)
  then show ?thesis using server_run_typed [OF run] by (simp add: demo_end_def demo_start_def)
qed



text \<open>
  C20. The end of the server. When the destructor of the world returns after a run, every session of
  the map has been deleted, each once, and the map is empty; the sessions that still wait to be added,
  and only those, are left allocated.
\<close>

theorem world_deleted_once:
  assumes "\<forall>a. length (snd (mem a)) = 24"
    and "main_start read_ini env t0 t1 now m l (empty_world mem rnd logs) = Some (Inr s)"
    and "server_run es s = Some s'" and "World_delete (sv_world s') = Some w"
  shows "w_smap w = [] \<and> w_addSess w = w_addSess (sv_world s') \<and>
    (\<forall>sa. sess_at sa w \<noteq> None \<longleftrightarrow> sa \<in> set (lq_items (w_addSess (sv_world s'))))"
proof -
  have ok: "world_ok (sv_world s')" using assms(1-3) by (rule ok_reached)
  obtain acc where "typed ([], w_addSess (sv_world s'), acc) w"
    "session_books [] (lq_items (w_addSess (sv_world s'))) acc"
    using all_resultsD [OF delete_sessions_books [OF world_ok_typed [OF ok]] assms(4) [unfolded World_delete_def]] ok
    by (auto simp: world_ok_def)
  then show ?thesis by (auto simp: session_books_def typed_def accounts_def)
qed

theorem world_deleted_once_witness:
  "\<exists>s' w. demo_end = Some s' \<and> World_delete (sv_world s') = Some w \<and> w_smap w = []"
proof -
  obtain s s' w where run: "\<forall>a. length (snd ((\<lambda>a :: nat. (0 :: u32, replicate 24 (0 :: u8))) a)) = 24"
    "main_start demo_ini demo_log_env 5 6 1000 empty_mgr empty_log
       (empty_world (\<lambda>a. (0, replicate 24 0)) (\<lambda>i. i) (\<lambda>filter. False)) = Some (Inr s)"
    "server_run demo_events s = Some s'" and del: "World_delete (sv_world s') = Some w" by (rule demo_run)
  then show ?thesis using world_deleted_once [OF run del] by (auto simp: demo_end_def demo_start_def)
qed

end
