(* ===== verification/Dump.thy ===== *)
theory Dump
  imports ByteBuffer Logging
begin

text \<open>
  \<^verbatim>\<open>src/server/shared/Packets/ByteBuffer.cpp\<close>: the messages of a buffer's exceptions and its three
  dumps to the log. The hexadecimal dump is related to the rows of a table, and read back.
\<close>

section \<open>The messages of the exceptions\<close>

definition ByteBufferPositionException_message :: "bool \<Rightarrow> nat \<Rightarrow> nat \<Rightarrow> nat \<Rightarrow> string" where
  "ByteBufferPositionException_message add pos sz valueSize =
     ''Attempted to '' @ (if add then ''put'' else ''get'') @ '' value with size: '' @ digits valueSize @
     '' in ByteBuffer (pos: '' @ digits pos @ '' size: '' @ digits sz @ '')''"

definition ByteBufferSourceException_message :: "nat \<Rightarrow> nat \<Rightarrow> nat \<Rightarrow> string" where
  "ByteBufferSourceException_message pos sz valueSize =
     ''Attempted to put a '' @ (if valueSize > 0 then ''NULL-pointer'' else ''zero-sized value'') @
     '' in ByteBuffer (pos: '' @ digits pos @ '' size: '' @ digits sz @ '')''"

fun exception_message :: "bb_error \<Rightarrow> string" where
  "exception_message (PositionException add pos sz valueSize) =
     ByteBufferPositionException_message add pos sz valueSize"
| "exception_message (SourceException pos sz valueSize) = ByteBufferSourceException_message pos sz valueSize"
| "exception_message e = []"

section \<open>The dumps\<close>

text \<open>
  A byte streamed as \<^verbatim>\<open>uint8\<close> is a character. The text goes to the log through \<^verbatim>\<open>%s\<close>,
  which stops at the first zero. A buffer of \<open>2 ^ 32\<close> bytes or more keeps the 32-bit counter of
  the loops below its size for ever.
\<close>

definition c_str :: "string \<Rightarrow> string" where
  "c_str s = takeWhile (\<lambda>c. c \<noteq> CHR 0x00) s"

definition byte_char :: "u8 \<Rightarrow> char" where
  "byte_char b = char_of (unat b)"

definition print_storage_text :: "u8 list \<Rightarrow> string" where
  "print_storage_text bytes =
     ''STORAGE_SIZE: '' @ digits (length bytes) @ concat (map (\<lambda>b. byte_char b # '' - '') bytes) @ '' ''"

text \<open>\<^verbatim>\<open>snprintf(buf, 2, "%c", byte)\<close>: a zero byte leaves the empty string.\<close>

definition textlike_text :: "u8 list \<Rightarrow> string" where
  "textlike_text bytes =
     ''STORAGE_SIZE: '' @ digits (length bytes) @ concat (map (\<lambda>b. c_str [byte_char b]) bytes) @ '' ''"

text \<open>\<^verbatim>\<open>snprintf(buf, 3, "%2X ", byte)\<close>: two characters fit, a blank in front of a single digit.\<close>

definition hex_pair :: "u8 \<Rightarrow> string" where
  "hex_pair b =
     (let s = (if b < 16 then [CHR '' '', hex_digit (unat b)] else hex_byte b) @ '' '' in take 2 s)"

fun hexlike_loop :: "u8 list \<Rightarrow> u32 \<Rightarrow> u32 \<Rightarrow> u32 \<Rightarrow> string" where
  "hexlike_loop [] i j k = []"
| "hexlike_loop (b # bytes) i j k =
     (if i = j * 8 \<and> i \<noteq> k * 16 then ''| '' @ hex_pair b @ hexlike_loop bytes (i + 1) (j + 1) k
      else if i = k * 16 then [CHR 0x0A] @ hex_pair b @ hexlike_loop bytes (i + 1) (j + 1) (k + 1)
      else hex_pair b @ hexlike_loop bytes (i + 1) j k)"

definition hexlike_text :: "u8 list \<Rightarrow> string" where
  "hexlike_text bytes = ''STORAGE_SIZE: '' @ digits (length bytes) @ hexlike_loop bytes 0 1 1 @ '' ''"

definition trace_dump :: "(u8 list \<Rightarrow> string) \<Rightarrow> log_env \<Rightarrow> 'x bytebuffer_scheme \<Rightarrow> log \<Rightarrow> log option" where
  "trace_dump text env b l =
     (if \<not> Log_ShouldLog ''network'' LOG_LEVEL_TRACE l then Some l
      else if bb_size b \<ge> 2 ^ 32 then None
      else tc_log env ''network'' LOG_LEVEL_TRACE (c_str (text (storage b))) l)"

definition print_storage :: "log_env \<Rightarrow> 'x bytebuffer_scheme \<Rightarrow> log \<Rightarrow> log option" where
  "print_storage = trace_dump print_storage_text"

definition textlike :: "log_env \<Rightarrow> 'x bytebuffer_scheme \<Rightarrow> log \<Rightarrow> log option" where
  "textlike = trace_dump textlike_text"

definition hexlike :: "log_env \<Rightarrow> 'x bytebuffer_scheme \<Rightarrow> log \<Rightarrow> log option" where
  "hexlike = trace_dump hexlike_text"

section \<open>The table of a hexadecimal dump\<close>

text \<open>The reference: what stands before byte \<open>i\<close>, rows of sixteen bytes in two halves.\<close>

definition separator :: "nat \<Rightarrow> string" where
  "separator i =
     (if i = 0 then [] else if i mod 16 = 0 then [CHR 0x0A] else if i mod 8 = 0 then ''| '' else [])"

definition hex_table :: "nat \<Rightarrow> u8 list \<Rightarrow> string" where
  "hex_table i bytes = concat (map (\<lambda>(n, b). separator n @ hex_pair b) (zip [i..<i + length bytes] bytes))"

text \<open>A reader of the table: it skips the separators and takes pairs up to the last blank.\<close>

definition hex_value :: "char \<Rightarrow> nat option" where
  "hex_value c =
     (if c = CHR '' '' then Some 0
      else if of_char c \<in> {48..57 :: nat} then Some (of_char c - 48)
      else if of_char c \<in> {65..70 :: nat} then Some (of_char c - 55) else None)"

fun read_table :: "string \<Rightarrow> u8 list option" where
  "read_table [] = None"
| "read_table [c] = (if c = CHR '' '' then Some [] else None)"
| "read_table (c # d # cs) =
     (if c = CHR 0x0A then read_table (d # cs)
      else if c = CHR ''|'' then read_table cs
      else do {
        h \<leftarrow> hex_value c;
        v \<leftarrow> hex_value d;
        bytes \<leftarrow> read_table cs;
        Some (word_of_nat (16 * h + v) # bytes)
      })"

lemma hex_table_simps [simp]:
  "hex_table i [] = []"
  "hex_table i (b # bytes) = separator i @ hex_pair b @ hex_table (Suc i) bytes"
  by (simp_all add: hex_table_def upt_rec [of i] del: upt_Suc)
lemma c_str_id: "CHR 0x00 \<notin> set s \<Longrightarrow> c_str s = s"
  by (auto simp: c_str_def intro: takeWhile_eq_all_conv [THEN iffD2])

text \<open>The counters stand at the next half row and the next row, the first ones excepted.\<close>

definition next_at :: "nat \<Rightarrow> nat \<Rightarrow> nat" where
  "next_at n i = Suc ((i - 1) div n)"

lemma next_at_hit:
  assumes "n > 0"
  shows "i = next_at n i * n \<longleftrightarrow> i \<noteq> 0 \<and> i mod n = 0"
proof (cases i)
  case (Suc m)
  have "m mod n < n" using assms by simp
  have "m = q * n + r \<Longrightarrow> Suc m = Suc q * n \<longleftrightarrow> r = n - 1" for q r using assms by auto
  from this [of "m div n" "m mod n"] have "Suc m = Suc (m div n) * n \<longleftrightarrow> m mod n = n - 1" by simp
  also have "... \<longleftrightarrow> Suc m mod n = 0" using assms \<open>m mod n < n\<close> by (auto simp: mod_Suc)
  finally show ?thesis using Suc by (simp add: next_at_def)
qed (use assms in \<open>simp add: next_at_def\<close>)

lemma next_at_Suc:
  assumes "n > 0"
  shows "next_at n (Suc i) = (if i = next_at n i * n then Suc (next_at n i) else next_at n i)"
  unfolding next_at_hit [OF assms]
  by (cases i) (use assms in \<open>auto simp: next_at_def div_Suc\<close>)

lemma next_at_le: "n > 0 \<Longrightarrow> next_at n i * n \<le> i + n"
  by (simp add: next_at_def) (meson diff_le_self div_times_less_eq_dividend le_trans)

lemma counter_eq:
  fixes i m n :: nat
  assumes "i < 2 ^ 32" "m * n < 2 ^ 32"
  shows "(word_of_nat i :: u32) = word_of_nat m * word_of_nat n \<longleftrightarrow> i = m * n"
proof -
  have "(word_of_nat m * word_of_nat n :: u32) = word_of_nat (m * n)" by simp
  moreover have "unat (word_of_nat i :: u32) = i" "unat (word_of_nat (m * n) :: u32) = m * n"
    using assms by (simp_all add: unat_of_nat del: of_nat_mult)
  ultimately show ?thesis by metis
qed

lemma mod_16_8: "(i :: nat) mod 16 = 0 \<Longrightarrow> i mod 8 = 0"
  by presburger

lemma hexlike_loop_table:
  "i + length bytes < 2 ^ 31 \<Longrightarrow>
   hexlike_loop bytes (word_of_nat i) (word_of_nat (next_at 8 i)) (word_of_nat (next_at 16 i)) = hex_table i bytes"
proof (induction bytes arbitrary: i)
  case (Cons b bytes)
  have small: "i < 2 ^ 32" "next_at 8 i * 8 < 2 ^ 32" "next_at 16 i * 16 < 2 ^ 32"
    using Cons.prems next_at_le [of 8 i] next_at_le [of 16 i] by auto
  have eqs: "(word_of_nat i :: u32) = word_of_nat (next_at 8 i) * 8 \<longleftrightarrow> i = next_at 8 i * 8"
    "(word_of_nat i :: u32) = word_of_nat (next_at 16 i) * 16 \<longleftrightarrow> i = next_at 16 i * 16"
    using counter_eq [OF small(1,2)] counter_eq [OF small(1,3)] by simp_all
  have IH: "hexlike_loop bytes (word_of_nat i + 1) (word_of_nat (next_at 8 (Suc i))) (word_of_nat (next_at 16 (Suc i)))
      = hex_table (Suc i) bytes"
    using Cons.IH [of "Suc i"] Cons.prems by (simp add: add.commute)
  consider "i = next_at 16 i * 16" "i = next_at 8 i * 8" | "i \<noteq> next_at 16 i * 16" "i = next_at 8 i * 8"
    | "i \<noteq> next_at 16 i * 16" "i \<noteq> next_at 8 i * 8"
    using mod_16_8 next_at_hit [of 8 i] next_at_hit [of 16 i] by fastforce
  then show ?case
  proof cases
    case 1
    then have "separator i = [CHR 0x0A]" using next_at_hit [of 16 i] by (simp add: separator_def)
    then show ?thesis using IH 1 eqs by (simp add: next_at_Suc add.commute)
  next
    case 2
    then have "separator i = ''| ''" using next_at_hit [of 8 i] next_at_hit [of 16 i] by (simp add: separator_def)
    then show ?thesis using IH 2 eqs by (simp add: next_at_Suc add.commute)
  next
    case 3
    then have "separator i = []"
      using next_at_hit [of 8 i] next_at_hit [of 16 i] by (auto simp: separator_def)
    then show ?thesis using IH 3 eqs by (simp add: next_at_Suc add.commute)
  qed
qed simp

section \<open>Reading the table back\<close>

lemma hex_digit_code: "d < 16 \<Longrightarrow> of_char (hex_digit d) = (if d < 10 then 48 + d else 55 + d)"
  by (simp add: hex_digit_def of_char_of)

lemma hex_value_digit: "d < 16 \<Longrightarrow> hex_value (hex_digit d) = Some d"
proof -
  assume d: "d < 16"
  then have "hex_digit d \<noteq> CHR '' ''" using hex_digit_code [OF d] by (auto split: if_splits)
  then show "hex_value (hex_digit d) = Some d" using d hex_digit_code [OF d] by (auto simp: hex_value_def)
qed

lemma hex_digit_plain: "d < 16 \<Longrightarrow> hex_digit d \<notin> {CHR '' '', CHR 0x0A, CHR ''|'', CHR 0x00}"
  using hex_digit_code [of d] by (auto split: if_splits)

lemma hex_pair_eq: "hex_pair b = [if b < 16 then CHR '' '' else hex_digit (unat b div 16), hex_digit (unat b mod 16)]"
proof (cases "b < 16")
  case True
  then have "unat b < 16" by (simp add: word_less_nat_alt)
  then show ?thesis using True by (simp add: hex_pair_def Let_def)
qed (simp add: hex_pair_def Let_def hex_byte_def)

lemma high_digit_less: "unat (b :: u8) div 16 < 16"
proof -
  have "unat b < 256" by simp
  then show ?thesis by presburger
qed

lemma byte_of_digits: "16 * word_of_nat (unat b div 16) + word_of_nat (unat b mod 16) = (b :: u8)"
proof -
  have "16 * word_of_nat (unat b div 16) + word_of_nat (unat b mod 16) =
      (word_of_nat (16 * (unat b div 16) + unat b mod 16) :: u8)"
    by (simp only: of_nat_add of_nat_mult) simp
  then show ?thesis by simp
qed

lemma hex_pair_plain: "CHR 0x00 \<notin> set (hex_pair b)"
  using hex_digit_plain [of "unat b div 16"] hex_digit_plain [of "unat b mod 16"]
  by (auto simp: hex_pair_eq high_digit_less)

lemma hex_pair_read: "read_table (hex_pair b @ rest) = map_option ((#) b) (read_table rest)"
proof (cases "b < 16")
  case True
  then have b: "unat b < 16" by (simp add: word_less_nat_alt)
  have "hex_value (CHR '' '') = Some 0" by (simp add: hex_value_def)
  then show ?thesis
    using True b hex_value_digit [of "unat b"]
    by (cases "read_table rest") (simp_all add: hex_pair_eq)
next
  case False
  let ?h = "hex_digit (unat b div 16)"
  have "?h \<noteq> CHR 0x0A" "?h \<noteq> CHR ''|''" using hex_digit_plain [OF high_digit_less [of b]] by auto
  moreover have "hex_value ?h = Some (unat b div 16)" "hex_value (hex_digit (unat b mod 16)) = Some (unat b mod 16)"
    by (simp_all add: hex_value_digit high_digit_less)
  ultimately show ?thesis
    using False by (cases "read_table rest") (simp_all add: hex_pair_eq byte_of_digits)
qed

lemma separator_read: "read_table (separator i @ hex_pair b @ rest) = read_table (hex_pair b @ rest)"
  by (simp add: separator_def hex_pair_eq)

lemma table_read: "read_table (hex_table i bytes @ '' '') = Some bytes"
  by (induction bytes arbitrary: i) (simp_all add: separator_read hex_pair_read)

lemma digits_plain: "CHR 0x00 \<notin> set (digits n)"
  using digits_isdigit [of "CHR 0x00" n] by (auto simp: isdigit_def)

lemma hexlike_plain: "length bytes < 2 ^ 31 \<Longrightarrow> CHR 0x00 \<notin> set (hexlike_text bytes)"
proof -
  have "CHR 0x00 \<notin> set (hex_table i bytes)" for i
    by (induction bytes arbitrary: i) (auto simp: separator_def hex_pair_plain)
  then show "length bytes < 2 ^ 31 \<Longrightarrow> CHR 0x00 \<notin> set (hexlike_text bytes)"
    using hexlike_loop_table [of 0 bytes] digits_plain by (simp add: hexlike_text_def next_at_def)
qed

section \<open>Properties\<close>



text \<open>
  The sizes in the message of a failed access are exchanged: every caller passes the size of the
  value and then the size of the buffer.
\<close>

lemma sizes_exchanged:
  assumes "rpos b = 3" "bb_size b = 5"
  shows "(case bb_read_bytes 4 b of Inl e \<Rightarrow> exception_message e | Inr r \<Rightarrow> []) =
    ''Attempted to get value with size: 5 in ByteBuffer (pos: 3 size: 4)''"
proof -
  have "digits 5 = ''5''" "digits 3 = ''3''" "digits 4 = ''4''" by code_simp+
  then show ?thesis
    using assms by (simp add: bb_read_bytes_def bb_slice_def ByteBufferPositionException_message_def)
qed

text \<open>A zero byte ends the message of \<^verbatim>\<open>print_storage\<close>.\<close>

lemma print_storage_stops:
  "c_str (print_storage_text [0x41, 0, 0x42]) = ''STORAGE_SIZE: 3A - ''"
  by code_simp

end
