(* ===== verification/Callbacks.thy ===== *)
theory Callbacks
  imports Prelude
begin

text \<open>
  \<^verbatim>\<open>src/server/shared/Threading/Callback.h\<close>: a query callback keeps a future result, one or two
  parameters, and the stage of a chain of queries. The template argument \<open>chain\<close> is an argument
  of the operations. A locale states what the stage promises; it is interpreted for both classes.
\<close>

section \<open>Futures\<close>

text \<open>
  \<^verbatim>\<open>std::future\<close>: whether it has a shared state, and the value once it is there.
  \<^verbatim>\<open>get()\<close> on a future without a state is undefined, on one that is not ready it waits; both
  are \<open>None\<close>.
\<close>

record 'r future =
  fu_valid :: bool
  fu_value :: "'r option"

definition future_new :: "'r future" where
  "future_new = \<lparr>fu_valid = False, fu_value = None\<rparr>"

definition future_get :: "'r future \<Rightarrow> ('r \<times> 'r future) option" where
  "future_get f = (if fu_valid f then do { v \<leftarrow> fu_value f; Some (v, future_new) } else None)"

definition CALLBACK_STAGE_INVALID :: u8 where "CALLBACK_STAGE_INVALID = - 1"

section \<open>One parameter\<close>

record ('r, 'p) query_callback =
  qc_result :: "'r future"
  qc_param :: 'p
  qc_stage :: u8

text \<open>\<open>null\<close> is the value of \<^verbatim>\<open>ParamType()\<close> and of \<^verbatim>\<open>NULL\<close> as a parameter.\<close>

definition QueryCallback_new :: "bool \<Rightarrow> 'p \<Rightarrow> ('r, 'p) query_callback" where
  "QueryCallback_new chain null =
     \<lparr>qc_result = future_new, qc_param = null, qc_stage = (if chain then 0 else CALLBACK_STAGE_INVALID)\<rparr>"

definition QueryCallback_SetFutureResult :: "'r future \<Rightarrow> ('r, 'p) query_callback \<Rightarrow> ('r, 'p) query_callback" where
  "QueryCallback_SetFutureResult value c = c\<lparr>qc_result := value\<rparr>"

definition QueryCallback_IsReady :: "('r, 'p) query_callback \<Rightarrow> bool" where
  "QueryCallback_IsReady c \<longleftrightarrow> fu_valid (qc_result c) \<and> fu_value (qc_result c) \<noteq> None"

definition QueryCallback_GetResult :: "('r, 'p) query_callback \<Rightarrow> ('r \<times> ('r, 'p) query_callback) option" where
  "QueryCallback_GetResult c = do {
     (res, f) \<leftarrow> future_get (qc_result c);
     Some (res, c\<lparr>qc_result := f\<rparr>)
   }"

definition QueryCallback_FreeResult :: "('r, 'p) query_callback \<Rightarrow> ('r, 'p) query_callback" where
  "QueryCallback_FreeResult c = c"

definition QueryCallback_SetParam :: "'p \<Rightarrow> ('r, 'p) query_callback \<Rightarrow> ('r, 'p) query_callback" where
  "QueryCallback_SetParam value c = c\<lparr>qc_param := value\<rparr>"

definition QueryCallback_GetParam :: "('r, 'p) query_callback \<Rightarrow> 'p" where
  "QueryCallback_GetParam c = qc_param c"

definition QueryCallback_ResetStage :: "bool \<Rightarrow> ('r, 'p) query_callback \<Rightarrow> ('r, 'p) query_callback" where
  "QueryCallback_ResetStage chain c = (if \<not> chain then c else c\<lparr>qc_stage := 0\<rparr>)"

definition QueryCallback_NextStage :: "bool \<Rightarrow> ('r, 'p) query_callback \<Rightarrow> ('r, 'p) query_callback" where
  "QueryCallback_NextStage chain c = (if \<not> chain then c else c\<lparr>qc_stage := qc_stage c + 1\<rparr>)"

definition QueryCallback_GetStage :: "('r, 'p) query_callback \<Rightarrow> u8" where
  "QueryCallback_GetStage c = qc_stage c"

definition QueryCallback_Reset :: "bool \<Rightarrow> 'p \<Rightarrow> ('r, 'p) query_callback \<Rightarrow> ('r, 'p) query_callback" where
  "QueryCallback_Reset chain null c =
     QueryCallback_ResetStage chain (QueryCallback_FreeResult (QueryCallback_SetParam null c))"

section \<open>Two parameters\<close>

record ('r, 'p, 'q) query_callback_2 =
  q2_result :: "'r future"
  q2_param_1 :: 'p
  q2_param_2 :: 'q
  q2_stage :: u8

text \<open>The constructor leaves the parameters as the memory was.\<close>

definition QueryCallback_2_new :: "bool \<Rightarrow> 'p \<Rightarrow> 'q \<Rightarrow> ('r, 'p, 'q) query_callback_2" where
  "QueryCallback_2_new chain mem1 mem2 =
     \<lparr>q2_result = future_new, q2_param_1 = mem1, q2_param_2 = mem2,
      q2_stage = (if chain then 0 else CALLBACK_STAGE_INVALID)\<rparr>"

definition QueryCallback_2_SetFutureResult ::
    "'r future \<Rightarrow> ('r, 'p, 'q) query_callback_2 \<Rightarrow> ('r, 'p, 'q) query_callback_2" where
  "QueryCallback_2_SetFutureResult value c = c\<lparr>q2_result := value\<rparr>"

definition QueryCallback_2_IsReady :: "('r, 'p, 'q) query_callback_2 \<Rightarrow> bool" where
  "QueryCallback_2_IsReady c \<longleftrightarrow> fu_valid (q2_result c) \<and> fu_value (q2_result c) \<noteq> None"

definition QueryCallback_2_GetResult ::
    "('r, 'p, 'q) query_callback_2 \<Rightarrow> ('r \<times> ('r, 'p, 'q) query_callback_2) option" where
  "QueryCallback_2_GetResult c = do {
     (res, f) \<leftarrow> future_get (q2_result c);
     Some (res, c\<lparr>q2_result := f\<rparr>)
   }"

definition QueryCallback_2_FreeResult :: "('r, 'p, 'q) query_callback_2 \<Rightarrow> ('r, 'p, 'q) query_callback_2" where
  "QueryCallback_2_FreeResult c = c"

definition QueryCallback_2_SetFirstParam ::
    "'p \<Rightarrow> ('r, 'p, 'q) query_callback_2 \<Rightarrow> ('r, 'p, 'q) query_callback_2" where
  "QueryCallback_2_SetFirstParam value c = c\<lparr>q2_param_1 := value\<rparr>"

definition QueryCallback_2_SetSecondParam ::
    "'q \<Rightarrow> ('r, 'p, 'q) query_callback_2 \<Rightarrow> ('r, 'p, 'q) query_callback_2" where
  "QueryCallback_2_SetSecondParam value c = c\<lparr>q2_param_2 := value\<rparr>"

definition QueryCallback_2_ResetStage :: "bool \<Rightarrow> ('r, 'p, 'q) query_callback_2 \<Rightarrow> ('r, 'p, 'q) query_callback_2" where
  "QueryCallback_2_ResetStage chain c = (if \<not> chain then c else c\<lparr>q2_stage := 0\<rparr>)"

definition QueryCallback_2_NextStage :: "bool \<Rightarrow> ('r, 'p, 'q) query_callback_2 \<Rightarrow> ('r, 'p, 'q) query_callback_2" where
  "QueryCallback_2_NextStage chain c = (if \<not> chain then c else c\<lparr>q2_stage := q2_stage c + 1\<rparr>)"

definition QueryCallback_2_GetStage :: "('r, 'p, 'q) query_callback_2 \<Rightarrow> u8" where
  "QueryCallback_2_GetStage c = q2_stage c"

definition QueryCallback_2_Reset ::
    "bool \<Rightarrow> 'p \<Rightarrow> 'q \<Rightarrow> ('r, 'p, 'q) query_callback_2 \<Rightarrow> ('r, 'p, 'q) query_callback_2" where
  "QueryCallback_2_Reset chain null1 null2 c =
     QueryCallback_2_ResetStage chain (QueryCallback_2_FreeResult
       (QueryCallback_2_SetSecondParam null2 (QueryCallback_2_SetFirstParam null1 c)))"

section \<open>The stage of a chain\<close>

lemma stage_not_invalid: "n < 255 \<Longrightarrow> (word_of_nat n :: u8) \<noteq> CALLBACK_STAGE_INVALID"
proof -
  assume n: "n < 255"
  have "unat (word_of_nat n :: u8) = n" using n by (simp add: unat_of_nat)
  moreover have "unat CALLBACK_STAGE_INVALID = 255" by code_simp
  ultimately show ?thesis using n by (metis less_irrefl)
qed

text \<open>What the stage promises: the next stage is one more, the first is 0, without a chain it is none.\<close>

locale chain_stage =
  fixes chain :: bool and stage :: "'c \<Rightarrow> u8" and next_stage reset :: "'c \<Rightarrow> 'c" and fresh :: 'c
  assumes stage_fresh: "stage fresh = (if chain then 0 else CALLBACK_STAGE_INVALID)"
    and stage_next: "stage (next_stage c) = (if chain then stage c + 1 else stage c)"
    and stage_reset: "stage (reset c) = (if chain then 0 else stage c)"
begin

lemma stage_after: "stage ((next_stage ^^ n) c) = (if chain then stage c + word_of_nat n else stage c)"
  by (induction n) (auto simp: stage_next)

lemma stage_of_new: "stage ((next_stage ^^ n) fresh) = (if chain then word_of_nat n else CALLBACK_STAGE_INVALID)"
  by (simp add: stage_after stage_fresh)

lemma stage_of_reset:
  "stage c = CALLBACK_STAGE_INVALID \<or> chain \<Longrightarrow>
   stage ((next_stage ^^ n) (reset c)) = (if chain then word_of_nat n else CALLBACK_STAGE_INVALID)"
  by (auto simp: stage_after stage_reset)

text \<open>A chain of fewer than 255 stages is told from no chain; the 255th stage is not.\<close>

lemma stage_valid:
  "n < 255 \<Longrightarrow> stage ((next_stage ^^ n) fresh) = CALLBACK_STAGE_INVALID \<longleftrightarrow> \<not> chain"
  by (simp add: stage_of_new stage_not_invalid)

lemma stage_255: "stage ((next_stage ^^ 255) fresh) = CALLBACK_STAGE_INVALID"
  by (simp add: stage_of_new CALLBACK_STAGE_INVALID_def)

end

interpretation callback: chain_stage chain QueryCallback_GetStage "QueryCallback_NextStage chain"
    "QueryCallback_ResetStage chain" "QueryCallback_new chain null" for chain null
  by unfold_locales (simp_all add: QueryCallback_GetStage_def QueryCallback_new_def QueryCallback_NextStage_def
      QueryCallback_ResetStage_def)

interpretation callback_2: chain_stage chain QueryCallback_2_GetStage "QueryCallback_2_NextStage chain"
    "QueryCallback_2_ResetStage chain" "QueryCallback_2_new chain mem1 mem2" for chain mem1 mem2
  by unfold_locales (simp_all add: QueryCallback_2_GetStage_def QueryCallback_2_new_def QueryCallback_2_NextStage_def
      QueryCallback_2_ResetStage_def)

section \<open>Properties\<close>

text \<open>
  The stages of a callback, with one parameter or with two. After \<open>n\<close> calls of
  \<^verbatim>\<open>NextStage\<close>, fewer than 255, the stage is \<open>n\<close> in a chain and the invalid stage outside
  of one, and the two are different; \<^verbatim>\<open>Reset\<close> starts a chain again. At 255 calls a chain has the
  stage that says it is none.
\<close>

theorem callback_stages:
  fixes c :: "('r, 'p) query_callback" and d :: "('r, 'p, 'q) query_callback_2"
  assumes "n < 255"
  shows "QueryCallback_GetStage ((QueryCallback_NextStage True ^^ n) (QueryCallback_Reset True null c)) = word_of_nat n \<and>
    QueryCallback_2_GetStage ((QueryCallback_2_NextStage True ^^ n) (QueryCallback_2_Reset True null1 null2 d)) = word_of_nat n \<and>
    (word_of_nat n :: u8) \<noteq> CALLBACK_STAGE_INVALID \<and>
    QueryCallback_GetStage ((QueryCallback_NextStage chain ^^ n) (QueryCallback_new chain null :: ('r, 'p) query_callback)) =
      (if chain then word_of_nat n else CALLBACK_STAGE_INVALID) \<and>
    QueryCallback_GetStage ((QueryCallback_NextStage True ^^ 255) (QueryCallback_new True null :: ('r, 'p) query_callback)) =
      CALLBACK_STAGE_INVALID"
proof -
  show ?thesis
    using stage_not_invalid [OF assms] callback.stage_of_reset [of "QueryCallback_FreeResult (QueryCallback_SetParam null c)" True n]
      callback_2.stage_of_reset [of "QueryCallback_2_FreeResult (QueryCallback_2_SetSecondParam null2
        (QueryCallback_2_SetFirstParam null1 d))" True n]
      callback.stage_of_new [of n chain null] callback.stage_255 [of True null]
    by (simp add: QueryCallback_Reset_def QueryCallback_2_Reset_def)
qed

theorem callback_stages_witness:
  "QueryCallback_GetStage ((QueryCallback_NextStage True ^^ 3)
     (QueryCallback_Reset True 0 (QueryCallback_new True 7 :: (nat, nat) query_callback))) = 3"
  using conjunct1 [OF callback_stages [where n = 3 and null = 0 and
      c = "QueryCallback_new True 7 :: (nat, nat) query_callback"]]
  by simp

text \<open>A result is handed out once. \<^verbatim>\<open>Reset\<close> says that it resets the result, but leaves it.\<close>

lemma result_once:
  "QueryCallback_GetResult (QueryCallback_SetFutureResult \<lparr>fu_valid = True, fu_value = Some r\<rparr> c) =
     Some (r, QueryCallback_SetFutureResult future_new c)"
  "QueryCallback_GetResult (QueryCallback_SetFutureResult future_new c) = None"
  by (simp_all add: QueryCallback_GetResult_def QueryCallback_SetFutureResult_def future_get_def future_new_def)

lemma reset_keeps_result: "QueryCallback_IsReady (QueryCallback_Reset chain null c) = QueryCallback_IsReady c"
  by (simp add: QueryCallback_Reset_def QueryCallback_ResetStage_def QueryCallback_FreeResult_def
      QueryCallback_SetParam_def QueryCallback_IsReady_def)

end
