(* ===== verification/Service.thy ===== *)
theory Service
  imports Prelude
begin

text \<open>
  \<^verbatim>\<open>src/server/shared/Utilities/ServiceWin32.cpp\<close>: the server as a Windows service. The calls into
  Windows are events of a trace, in their order; what they return is an argument. Handles are
  counted by the trace. \<open>MAX_PATH\<close> is Windows' \<^verbatim>\<open>_MAX_PATH\<close>.
\<close>

section \<open>The status of the service\<close>

datatype service_state =
    SERVICE_STOPPED | SERVICE_START_PENDING | SERVICE_STOP_PENDING | SERVICE_RUNNING | SERVICE_PAUSED

datatype service_control =
    SERVICE_CONTROL_STOP | SERVICE_CONTROL_PAUSE | SERVICE_CONTROL_CONTINUE | SERVICE_CONTROL_INTERROGATE
  | SERVICE_CONTROL_SHUTDOWN | OTHER_CONTROL

datatype service_accept = SERVICE_ACCEPT_STOP | SERVICE_ACCEPT_PAUSE_CONTINUE | SERVICE_ACCEPT_SHUTDOWN

text \<open>\<open>sn_reports\<close> is what \<^verbatim>\<open>SetServiceStatus\<close> was given so far.\<close>

record service =
  sn_state :: service_state
  sn_accepted :: "service_accept list"
  sn_m_ServiceStatus :: int
  sn_directory :: string
  sn_reports :: "(service_state \<times> service_accept list) list"

definition SetServiceStatus :: "service \<Rightarrow> service" where
  "SetServiceStatus s = s\<lparr>sn_reports := sn_reports s @ [(sn_state s, sn_accepted s)]\<rparr>"

fun ServiceControlHandler :: "service_control \<Rightarrow> service \<Rightarrow> service" where
  "ServiceControlHandler SERVICE_CONTROL_INTERROGATE s = SetServiceStatus s"
| "ServiceControlHandler SERVICE_CONTROL_SHUTDOWN s =
     (SetServiceStatus (s\<lparr>sn_state := SERVICE_STOP_PENDING\<rparr>))\<lparr>sn_m_ServiceStatus := 0\<rparr>"
| "ServiceControlHandler SERVICE_CONTROL_STOP s =
     (SetServiceStatus (s\<lparr>sn_state := SERVICE_STOP_PENDING\<rparr>))\<lparr>sn_m_ServiceStatus := 0\<rparr>"
| "ServiceControlHandler SERVICE_CONTROL_PAUSE s =
     SetServiceStatus (SetServiceStatus (s\<lparr>sn_m_ServiceStatus := 2, sn_state := SERVICE_PAUSED\<rparr>))"
| "ServiceControlHandler SERVICE_CONTROL_CONTINUE s =
     SetServiceStatus ((SetServiceStatus (s\<lparr>sn_state := SERVICE_RUNNING\<rparr>))\<lparr>sn_m_ServiceStatus := 1\<rparr>)"
| "ServiceControlHandler OTHER_CONTROL s = SetServiceStatus s"

section \<open>The main function of the service\<close>

text \<open>The path up to its last backslash: without one, or with one at the front, nothing is left.\<close>

fun last_slash_loop :: "string \<Rightarrow> nat \<Rightarrow> nat \<Rightarrow> nat" where
  "last_slash_loop [] i last_slash = last_slash"
| "last_slash_loop (c # path) i last_slash =
     last_slash_loop path (i + 1) (if c = CHR 0x5C then i else last_slash)"

definition service_directory :: "string \<Rightarrow> string" where
  "service_directory path = take (last_slash_loop path 0 0) path"

text \<open>
  \<open>registered\<close> says whether the handler was registered; \<open>controls\<close> are the requests that arrive while
  \<^verbatim>\<open>main\<close> runs. \<^verbatim>\<open>ServiceMain\<close> is in three parts: up to \<^verbatim>\<open>main\<close>, \<^verbatim>\<open>main\<close>,
  and the end.
\<close>

definition service_starting :: "string \<Rightarrow> service \<Rightarrow> service" where
  "service_starting path s =
     (let s = SetServiceStatus (s\<lparr>sn_state := SERVICE_START_PENDING\<rparr>);
          s = s\<lparr>sn_directory := service_directory path\<rparr>;
          s = s\<lparr>sn_accepted := remdups (sn_accepted s @ [SERVICE_ACCEPT_STOP, SERVICE_ACCEPT_SHUTDOWN]),
                sn_state := SERVICE_RUNNING\<rparr>
      in (SetServiceStatus s)\<lparr>sn_m_ServiceStatus := 1\<rparr>)"

definition service_stopped :: "service \<Rightarrow> service" where
  "service_stopped s =
     (let s = SetServiceStatus (s\<lparr>sn_state := SERVICE_STOP_PENDING\<rparr>);
          s = s\<lparr>sn_accepted := filter (\<lambda>a. a \<notin> {SERVICE_ACCEPT_STOP, SERVICE_ACCEPT_SHUTDOWN}) (sn_accepted s),
                sn_state := SERVICE_STOPPED\<rparr>
      in SetServiceStatus s)"

definition ServiceMain :: "bool \<Rightarrow> string \<Rightarrow> service_control list \<Rightarrow> service \<Rightarrow> service" where
  "ServiceMain registered path controls s =
     (let s = s\<lparr>sn_state := SERVICE_START_PENDING,
                sn_accepted := [SERVICE_ACCEPT_STOP, SERVICE_ACCEPT_PAUSE_CONTINUE]\<rparr>
      in if registered
         then service_stopped (fold ServiceControlHandler controls (service_starting path s)) else s)"

section \<open>Installing and removing\<close>

datatype service_call =
    OpenSCManager | CreateService string | OpenService | SetDescription | SetFailureActions | DeleteService
  | CloseService | CloseManager | Printed string

text \<open>
  \<open>path\<close> is what \<^verbatim>\<open>GetModuleFileName\<close> stored, which leaves room for the zero in
  \<open>MAX_PATH + 10\<close> characters; \<^verbatim>\<open>strcat\<close> past the array is \<open>None\<close>. The other arguments
  say whether a call succeeds.
\<close>

definition WinServiceInstall ::
    "nat \<Rightarrow> bool \<Rightarrow> string option \<Rightarrow> bool \<Rightarrow> bool \<Rightarrow> bool \<Rightarrow> (bool \<times> service_call list) option" where
  "WinServiceInstall MAX_PATH manager path created advapi32 changeConfig =
     (let installed = (True, [Printed ''Service installed'']) in
      if \<not> manager then Some installed
      else case path of
        None \<Rightarrow> Some (True, [OpenSCManager, CloseManager] @ snd installed)
      | Some path \<Rightarrow>
          let path = path @ '' --service run'' in
          if length path + 1 > MAX_PATH + 10 then None
          else if \<not> created then Some (True, [OpenSCManager, CloseManager] @ snd installed)
          else if \<not> advapi32 \<or> \<not> changeConfig
            then Some (False, [OpenSCManager, CreateService path, CloseService, CloseManager])
          else Some (True, [OpenSCManager, CreateService path, SetDescription, SetFailureActions, CloseService,
                 CloseManager] @ snd installed))"

text \<open>\<open>status\<close> is what \<^verbatim>\<open>QueryServiceStatus\<close> returns, if it succeeds.\<close>

definition WinServiceUninstall :: "bool \<Rightarrow> bool \<Rightarrow> service_state option \<Rightarrow> bool \<times> service_call list" where
  "WinServiceUninstall manager service status =
     (True,
      (if manager then
         [OpenSCManager] @
         (if service then
            [OpenService] @ (if status = Some SERVICE_STOPPED then [DeleteService] else []) @ [CloseService]
          else []) @ [CloseManager]
       else []) @ [Printed ''Service uninstalled''])"

definition WinServiceRun :: "bool \<Rightarrow> bool" where
  "WinServiceRun dispatched = (if \<not> dispatched then False else True)"

section \<open>The life of a service\<close>

text \<open>The abstract machine: what a request does to the state, and the number the server keeps for it.\<close>

fun service_next :: "service_control \<Rightarrow> service_state \<Rightarrow> service_state" where
  "service_next SERVICE_CONTROL_SHUTDOWN st = SERVICE_STOP_PENDING"
| "service_next SERVICE_CONTROL_STOP st = SERVICE_STOP_PENDING"
| "service_next SERVICE_CONTROL_PAUSE st = SERVICE_PAUSED"
| "service_next SERVICE_CONTROL_CONTINUE st = SERVICE_RUNNING"
| "service_next c st = st"

fun service_number :: "service_state \<Rightarrow> int" where
  "service_number SERVICE_RUNNING = 1"
| "service_number SERVICE_PAUSED = 2"
| "service_number st = 0"

text \<open>A request that changes the service to or from the pause is reported twice.\<close>

fun report_count :: "service_control \<Rightarrow> nat" where
  "report_count SERVICE_CONTROL_PAUSE = 2"
| "report_count SERVICE_CONTROL_CONTINUE = 2"
| "report_count c = 1"

fun state_reports :: "service_control list \<Rightarrow> service_state \<Rightarrow> service_state list" where
  "state_reports [] st = []"
| "state_reports (c # cs) st =
     replicate (report_count c) (service_next c st) @ state_reports cs (service_next c st)"

lemma handler_steps:
  "sn_m_ServiceStatus s = service_number (sn_state s) \<Longrightarrow>
   sn_m_ServiceStatus (ServiceControlHandler c s) = service_number (sn_state (ServiceControlHandler c s)) \<and>
   sn_state (ServiceControlHandler c s) = service_next c (sn_state s) \<and>
   sn_accepted (ServiceControlHandler c s) = sn_accepted s \<and>
   sn_directory (ServiceControlHandler c s) = sn_directory s \<and>
   sn_reports (ServiceControlHandler c s) =
     sn_reports s @ replicate (report_count c) (service_next c (sn_state s), sn_accepted s)"
  by (cases c) (simp_all add: SetServiceStatus_def numeral_2_eq_2)

lemma handlers_run:
  "sn_m_ServiceStatus s = service_number (sn_state s) \<Longrightarrow>
   (let s' = fold ServiceControlHandler cs s in
    sn_m_ServiceStatus s' = service_number (sn_state s') \<and> sn_state s' = fold service_next cs (sn_state s) \<and>
    sn_accepted s' = sn_accepted s \<and> sn_directory s' = sn_directory s \<and>
    sn_reports s' = sn_reports s @ map (\<lambda>st. (st, sn_accepted s)) (state_reports cs (sn_state s)))"
proof (induction cs arbitrary: s)
  case (Cons c cs)
  note step = handler_steps [OF Cons.prems, of c]
  show ?case using Cons.IH [of "ServiceControlHandler c s"] step by (simp add: Let_def)
qed simp

lemma service_starting_state:
  assumes "sn_state s = SERVICE_START_PENDING"
      and "sn_accepted s = [SERVICE_ACCEPT_STOP, SERVICE_ACCEPT_PAUSE_CONTINUE]"
  shows "service_starting path s = s\<lparr>
     sn_state := SERVICE_RUNNING,
     sn_accepted := [SERVICE_ACCEPT_PAUSE_CONTINUE, SERVICE_ACCEPT_STOP, SERVICE_ACCEPT_SHUTDOWN],
     sn_m_ServiceStatus := 1, sn_directory := service_directory path,
     sn_reports := sn_reports s @
       [(SERVICE_START_PENDING, [SERVICE_ACCEPT_STOP, SERVICE_ACCEPT_PAUSE_CONTINUE]),
        (SERVICE_RUNNING, [SERVICE_ACCEPT_PAUSE_CONTINUE, SERVICE_ACCEPT_STOP, SERVICE_ACCEPT_SHUTDOWN])]\<rparr>"
  using assms by (simp add: service_starting_def SetServiceStatus_def Let_def)

lemma service_stopped_reports:
  "sn_reports (service_stopped s) = sn_reports s @
     [(SERVICE_STOP_PENDING, sn_accepted s),
      (SERVICE_STOPPED, filter (\<lambda>a. a \<notin> {SERVICE_ACCEPT_STOP, SERVICE_ACCEPT_SHUTDOWN}) (sn_accepted s))]"
  by (simp add: service_stopped_def SetServiceStatus_def Let_def)

lemma service_stopped_keeps [simp]:
  "sn_m_ServiceStatus (service_stopped s) = sn_m_ServiceStatus s"
  "sn_directory (service_stopped s) = sn_directory s"
  "sn_state (service_stopped s) = SERVICE_STOPPED"
  by (simp_all add: service_stopped_def SetServiceStatus_def Let_def)

abbreviation "running_accepts \<equiv>
  [SERVICE_ACCEPT_PAUSE_CONTINUE, SERVICE_ACCEPT_STOP, SERVICE_ACCEPT_SHUTDOWN]"

text \<open>
  C29. What Windows is told about a service whose handler was registered, whatever the requests that arrive
  while \<^verbatim>\<open>main\<close> runs: that it starts, runs, then the states the abstract machine goes
  through (a pause and its end are told twice), then that it stops and has stopped, and in the end it
  accepts neither to be stopped nor a shutdown. The number the server keeps is that of the machine's last
  state: 0 if, of the requests that change the state, the last one asks to stop. Without a registered
  handler Windows is told nothing.
\<close>

theorem service_lifecycle:
  "sn_reports (ServiceMain registered path controls s) = sn_reports s @ (if registered then
       [(SERVICE_START_PENDING, [SERVICE_ACCEPT_STOP, SERVICE_ACCEPT_PAUSE_CONTINUE]), (SERVICE_RUNNING, running_accepts)] @
       map (\<lambda>st. (st, running_accepts)) (state_reports controls SERVICE_RUNNING) @
       [(SERVICE_STOP_PENDING, running_accepts), (SERVICE_STOPPED, [SERVICE_ACCEPT_PAUSE_CONTINUE])] else []) \<and>
     sn_m_ServiceStatus (ServiceMain registered path controls s) = (if registered
       then service_number (fold service_next controls SERVICE_RUNNING) else sn_m_ServiceStatus s) \<and>
     sn_directory (ServiceMain registered path controls s) = (if registered
       then service_directory path else sn_directory s)"
proof (cases registered)
  case True
  define s0 where "s0 = s\<lparr>sn_state := SERVICE_START_PENDING,
    sn_accepted := [SERVICE_ACCEPT_STOP, SERVICE_ACCEPT_PAUSE_CONTINUE]\<rparr>"
  have main: "ServiceMain True path controls s =
      service_stopped (fold ServiceControlHandler controls (service_starting path s0))"
    by (simp add: ServiceMain_def s0_def)
  note start = service_starting_state [of s0 path]
  show ?thesis using True handlers_run [of "service_starting path s0" controls] start
    by (simp add: main service_stopped_reports s0_def Let_def)
qed (simp add: ServiceMain_def)

section \<open>Handles\<close>

text \<open>The handles a trace leaves open; \<open>None\<close> if it closes one that is not open.\<close>

fun open_handles :: "service_call list \<Rightarrow> nat \<times> nat \<Rightarrow> (nat \<times> nat) option" where
  "open_handles [] h = Some h"
| "open_handles (OpenSCManager # cs) (m, n) = open_handles cs (m + 1, n)"
| "open_handles (CreateService _ # cs) (m, n) = open_handles cs (m, n + 1)"
| "open_handles (OpenService # cs) (m, n) = open_handles cs (m, n + 1)"
| "open_handles (CloseManager # cs) (m, n) = (if m = 0 \<or> n \<noteq> 0 then None else open_handles cs (m - 1, n))"
| "open_handles (CloseService # cs) (m, n) = (if n = 0 then None else open_handles cs (m, n - 1))"
| "open_handles (_ # cs) h = open_handles cs h"

text \<open>Installing leaves no handle open, if the path of the program leaves room for its arguments.\<close>

lemma install_closes_handles:
  assumes "\<And>p. path = Some p \<Longrightarrow> length p + 5 \<le> MAX_PATH"
  obtains ok calls where
    "WinServiceInstall MAX_PATH manager path created advapi32 changeConfig = Some (ok, calls)"
    "open_handles calls (0, 0) = Some (0, 0)"
    "ok = (Printed ''Service installed'' \<in> set calls)"
  using assms unfolding WinServiceInstall_def
  by (cases manager; cases path; cases created; cases advapi32; cases changeConfig) simp_all

lemma uninstall_closes_handles:
  "open_handles (snd (WinServiceUninstall manager service status)) (0, 0) = Some (0, 0)"
  unfolding WinServiceUninstall_def by simp

text \<open>A longer path, which Windows may well return, is appended to beyond the end of the array.\<close>

lemma install_overflows:
  "length p + 5 > MAX_PATH \<Longrightarrow>
   WinServiceInstall MAX_PATH True (Some p) created advapi32 changeConfig = None"
  unfolding WinServiceInstall_def by (simp add: Let_def)

text \<open>A service that could not be created is reported as installed.\<close>

lemma install_claims_success:
  "length p + 5 \<le> MAX_PATH \<Longrightarrow>
   WinServiceInstall MAX_PATH True (Some p) False advapi32 changeConfig =
     Some (True, [OpenSCManager, CloseManager, Printed ''Service installed''])"
  unfolding WinServiceInstall_def by (simp add: Let_def)
end
