(* ===== verification/Startup.thy ===== *)
theory Startup
  imports Logging
begin

text \<open>
  Two helpers for the start of a server: the names of the clients' languages
  (\<^verbatim>\<open>shared/Common.cpp\<close>), and the processors and the priority of the process
  (\<^verbatim>\<open>shared/Threading/ProcessPriority.h\<close>, the branch for Linux).
\<close>

section \<open>Languages\<close>

datatype LocaleConstant =
    LOCALE_enUS | LOCALE_koKR | LOCALE_frFR | LOCALE_deDE | LOCALE_zhCN | LOCALE_zhTW | LOCALE_esES | LOCALE_esMX
  | LOCALE_ruRU

definition TOTAL_LOCALES :: u8 where "TOTAL_LOCALES = 9"

definition localeNames :: "string list" where
  "localeNames = [''enUS'', ''koKR'', ''frFR'', ''deDE'', ''zhCN'', ''zhTW'', ''esES'', ''esMX'', ''ruRU'']"

text \<open>The values of the enumeration, in their order from 0.\<close>

definition locale_constants :: "LocaleConstant list" where
  "locale_constants = [LOCALE_enUS, LOCALE_koKR, LOCALE_frFR, LOCALE_deDE, LOCALE_zhCN, LOCALE_zhTW, LOCALE_esES,
     LOCALE_esMX, LOCALE_ruRU]"

function locale_loop :: "string \<Rightarrow> nat \<Rightarrow> LocaleConstant" where
  "locale_loop name i =
     (if i < unat TOTAL_LOCALES then
        if name = localeNames ! i then locale_constants ! i else locale_loop name (i + 1)
      else LOCALE_enUS)"
  by pat_completeness auto
termination by (relation "measure (\<lambda>(name, i). unat TOTAL_LOCALES - i)") auto

declare locale_loop.simps [simp del]

definition GetLocaleByName :: "string \<Rightarrow> LocaleConstant" where
  "GetLocaleByName name = locale_loop name 0"

text \<open>Every name is found at the number of its language, and any other name means English.\<close>

lemma locale_of_name: "i < 9 \<Longrightarrow> GetLocaleByName (localeNames ! i) = locale_constants ! i"
proof -
  have "list_all (\<lambda>i. GetLocaleByName (localeNames ! i) = locale_constants ! i) [0..<9]" by code_simp
  then show "i < 9 \<Longrightarrow> ?thesis" by (simp add: list_all_iff)
qed

lemma locale_name_in: "i < unat TOTAL_LOCALES \<Longrightarrow> localeNames ! i \<in> set localeNames"
  by (rule nth_mem) (simp add: TOTAL_LOCALES_def localeNames_def)

lemma locale_loop_unknown: "name \<notin> set localeNames \<Longrightarrow> locale_loop name i = LOCALE_enUS"
proof (induction name i rule: locale_loop.induct)
  case (1 name i)
  then show ?case by (subst locale_loop.simps) (use locale_name_in in auto)
qed

lemma locale_unknown: "name \<notin> set localeNames \<Longrightarrow> GetLocaleByName name = LOCALE_enUS"
  by (simp add: GetLocaleByName_def locale_loop_unknown)

section \<open>Processors and priority\<close>

definition PROCESS_HIGH_PRIORITY :: int where "PROCESS_HIGH_PRIORITY = - 15"

text \<open>
  The kernel: \<^verbatim>\<open>sched_setaffinity\<close> and \<^verbatim>\<open>setpriority\<close> return the text of the error
  they fail with; \<^verbatim>\<open>sched_getaffinity\<close> returns the set that is in force,
  \<^verbatim>\<open>getpriority\<close> the priority. A \<^verbatim>\<open>cpu_set_t\<close> is a set of numbers. All of them
  are documented to depend on the process and the machine, so they are arguments.
\<close>

record kernel =
  kn_sched_setaffinity :: "nat set \<Rightarrow> string option"
  kn_sched_getaffinity :: "nat set \<Rightarrow> nat set"
  kn_setpriority :: "int \<Rightarrow> string option"
  kn_getpriority :: int

definition cpu_set_of :: "u32 \<Rightarrow> nat set" where
  "cpu_set_of affinity = fold (\<lambda>i m. if and affinity (push_bit i 1) \<noteq> 0 then insert i m else m) [0..<32] {}"

text \<open>The first 64 bits of a set, as the number that is printed.\<close>

definition first_mask :: "nat set \<Rightarrow> nat" where
  "first_mask m = (\<Sum>i\<leftarrow>[0..<64]. if i \<in> m then 2 ^ i else 0)"

text \<open>\<^verbatim>\<open>%x\<close> and \<^verbatim>\<open>%i\<close>.\<close>

fun hex_text :: "nat \<Rightarrow> string" where
  "hex_text n =
     (let digit = (\<lambda>d. char_of (if d < 10 then 48 + d else 87 + d)) in
      if n < 16 then [digit n] else hex_text (n div 16) @ [digit (n mod 16)])"

declare hex_text.simps [simp del]

definition int_text :: "int \<Rightarrow> string" where
  "int_text i = (if i < 0 then ''-'' @ digits (nat (- i)) else digits (nat i))"

definition set_processors :: "kernel \<Rightarrow> log_env \<Rightarrow> string \<Rightarrow> u32 \<Rightarrow> log \<Rightarrow> log option" where
  "set_processors k env logChannel affinity l =
     (let mask = cpu_set_of affinity in
      case kn_sched_setaffinity k mask of
        Some error \<Rightarrow> tc_log env logChannel LOG_LEVEL_ERROR
          (''Can't set used processors (hex): '' @ hex_text (unat affinity) @ '', error: '' @ error) l
      | None \<Rightarrow> tc_log env logChannel LOG_LEVEL_INFO
          (''Using processors (bitmask, hex): '' @ hex_text (first_mask (kn_sched_getaffinity k mask))) l)"

definition set_priority :: "kernel \<Rightarrow> log_env \<Rightarrow> string \<Rightarrow> log \<Rightarrow> log option" where
  "set_priority k env logChannel l =
     (case kn_setpriority k PROCESS_HIGH_PRIORITY of
        Some error \<Rightarrow> tc_log env logChannel LOG_LEVEL_ERROR (''Can't set process priority class, error: '' @ error) l
      | None \<Rightarrow> tc_log env logChannel LOG_LEVEL_INFO (''Process priority class set to '' @ int_text (kn_getpriority k)) l)"

definition SetProcessPriority :: "kernel \<Rightarrow> log_env \<Rightarrow> config_mgr \<Rightarrow> string \<Rightarrow> log \<Rightarrow> log option" where
  "SetProcessPriority k env m logChannel l =
     (let affinity = ConfigMgr_GetIntDefault ''UseProcessors'' 0 m;
          highPriority = ConfigMgr_GetBoolDefault ''ProcessPriority'' False m
      in do {
        l \<leftarrow> (if affinity > 0 then set_processors k env logChannel affinity l else Some l);
        if highPriority then set_priority k env logChannel l else Some l
      })"

text \<open>The set has the processors of the mask, and the mask can be read back from it.\<close>

lemma cpu_set_bits: "cpu_set_of affinity = {i. i < 32 \<and> Bit_Operations.bit affinity i}"
proof -
  have "fold (\<lambda>i m. if and affinity (push_bit i 1) \<noteq> 0 then insert i m else m) is m =
      m \<union> {i \<in> set is. and affinity (push_bit i 1) \<noteq> 0}" for "is" m
    by (induction "is" arbitrary: m) auto
  then have "cpu_set_of affinity = {i \<in> set [0..<32]. and affinity (push_bit i 1) \<noteq> 0}"
    by (simp add: cpu_set_of_def)
  then show ?thesis by (auto simp: bit_iff_and_push_bit_not_eq_0)
qed

lemma sum_of_bits: "(\<Sum>i\<leftarrow>[0..<n]. if Bit_Operations.bit (a :: nat) i then 2 ^ i else 0) = take_bit n a"
  by (induction n) (simp_all add: take_bit_Suc_from_most)

lemma first_mask_of: "first_mask (cpu_set_of affinity) = unat affinity"
proof -
  have "i \<in> cpu_set_of affinity \<longleftrightarrow> Bit_Operations.bit (unat affinity) i" for i
    using bit_imp_le_length [of affinity i] by (auto simp: cpu_set_bits bit_unsigned_iff)
  then have "first_mask (cpu_set_of affinity) = take_bit 64 (unat affinity)"
    by (simp add: first_mask_def sum_of_bits)
  also have "... = unat affinity"
    by (intro take_bit_nat_eq_self order.strict_trans2 [OF unsigned_less]) simp
  finally show ?thesis .
qed

text \<open>
  What the log says of a kernel that grants the processors it is asked for: exactly the mask of the
  configuration. With nothing configured the process and the log stay as they were.
\<close>

lemma processors_logged:
  assumes "kn_sched_setaffinity k (cpu_set_of affinity) = None"
    and "kn_sched_getaffinity k (cpu_set_of affinity) = cpu_set_of affinity"
  shows "set_processors k env logChannel affinity l =
    tc_log env logChannel LOG_LEVEL_INFO (''Using processors (bitmask, hex): '' @ hex_text (unat affinity)) l"
  using assms by (simp add: set_processors_def first_mask_of)

lemma priority_default:
  "st_get_int (cm_config m) ''UseProcessors'' = None \<Longrightarrow> st_get (cm_config m) ''ProcessPriority'' = None \<Longrightarrow>
   SetProcessPriority k env m logChannel l = Some l"
  by (simp add: SetProcessPriority_def ConfigMgr_GetIntDefault_def ConfigMgr_GetBoolDefault_def)

end
