(* ===== verification/Faults.thy ===== *)
theory Faults
  imports Handlers "HOL-Library.Code_Target_Numeral"
begin

text \<open>
  What a client can do to the server with the game's packets at the wrong time. The handlers set the status
  of the player without looking at the one he has (\<^verbatim>\<open>WorldSession.cpp\<close>), the player's
  update (\<^verbatim>\<open>Player.cpp\<close>) acts on the status, and the room (\<^verbatim>\<open>Room.cpp\<close>) frees
  players it may still refer to.
\<close>

section \<open>A player without a table\<close>

lemma bind_None_right [simp]: "Option.bind x (\<lambda>_. None) = None"
  by (cases x) simp_all

lemma bind_None_pair [simp]: "Option.bind x (\<lambda>(a, b). None) = None"
  by (cases x) auto

lemma alone_announce:
  assumes "player_at a w = Some p" "p_left p = None"
  shows "grab_announce a w = None" "out_announce a w = None"
  using assms by (simp_all add: grab_announce_def out_announce_def)

lemma alone_round_over:
  assumes "player_at a w = Some p" "p_left p = None" "p_gameStatus p = GAME_STATUS_ROUNDOVERING"
  shows "Player_checkRoundOver a w = None"
  using assms by (subst Player_checkRoundOver.simps) (simp add: end_round_neighbour_def ptr_test_def pand_def)

text \<open>The steps of an update that a player of this status passes unchanged.\<close>

lemma alone_early:
  assumes "player_at a w = Some p" "p_left p = None" "p_right p = None" "is_user p"
    and "p_gameStatus p \<in> {GAME_STATUS_GRABING_LANDLORD, GAME_STATUS_OUT_CARDING, GAME_STATUS_ROUNDOVERING}"
  shows "Player_UpdateAiDelay diff a w = Some w" "Player_checkOutPlayer a w = Some w"
    "Player_checkQueueStatus a w = Some w" "Player_checkStart a w = Some w" "Player_checkDealCards a w = Some w"
  using assms
  by (auto simp: is_user_def is_ai_iff Player_checkOutPlayer.simps [of a w] Player_UpdateAiDelay_def Player_checkQueueStatus_def Player_checkStart_def Player_checkDealCards_def)

lemma alone_put:
  assumes "player_at a w = Some p" "p_left p = None" "p_right p = None" "is_user p"
    and "p_gameStatus p \<in> {GAME_STATUS_GRABING_LANDLORD, GAME_STATUS_OUT_CARDING, GAME_STATUS_ROUNDOVERING}"
  shows "(Player_checkGrabLandlord a w \<bind> (\<lambda>w. Player_checkOutCard a w \<bind> (\<lambda>w. Player_checkRoundOver a w))) = None"
  using assms alone_announce [OF assms(1,2)] alone_round_over [OF assms(1,2)]
  by (auto simp: is_user_def is_ai_iff Player_checkGrabLandlord_def Player_checkOutCard_def grab_turn_def grab_bid_def
      out_turn_def out_play_def)

text \<open>
  C30. A bid, a play or the end of a round from a player who sits at no table stops the server. The
  handler accepts the packet whatever the state of the player; at the next update of his room the player
  announces it to his neighbours, and there are none: the update is undefined, whatever the time that
  has passed and whatever the rest of the world. A client that has logged in and waits can send it.
\<close>

theorem move_without_table_crashes:
  assumes "session_player sa w = Some a" and "player_at a w = Some p"
    and "p_left p = None" and "p_right p = None" and "is_user p"
    and "handler \<in> {HandleGrabLandlord, HandleOutCards, HandleRoundOver}"
    and "run_handler handler recvPacket sa w = Some w'"
  shows "Player_Update diff a w' = None"
proof -
  obtain p' where p': "player_at a w' = Some p'" "p_left p' = None" "p_right p' = None" "is_user p'"
    "p_gameStatus p' \<in> {GAME_STATUS_GRABING_LANDLORD, GAME_STATUS_OUT_CARDING, GAME_STATUS_ROUNDOVERING}"
    using assms
    by (auto simp: WorldSession_HandleGrabLandlord_def WorldSession_HandleOutCards_def WorldSession_HandleRoundOver_def
        modify_player_def is_user_def bind_eq_Some_conv split: prod.splits)
  let ?aged = "p'\<lparr>p_expiration := p_expiration p' - diff\<rparr>"
  have "player_at a (put_player a ?aged w') = Some ?aged" by simp
  note aged = alone_early [OF this] alone_put [OF this] and same = alone_early [OF p'] alone_put [OF p']
  show ?thesis using p' aged same
    by (simp add: Player_Update_def modify_player_def is_user_def)
qed

theorem move_without_table_crashes_witness:
  "\<exists>w'. run_handler HandleGrabLandlord ((WorldPacket_new CMSG_GRAD_LANDLORD)\<lparr>storage := [3, 0, 0, 0]\<rparr>) 10
       ((demo_world demo_user demo_user demo_user)\<lparr>w_players := [1 \<mapsto> demo_user]\<rparr>) = Some w' \<and>
     Player_Update 50 1 w' = None"
proof -
  let ?p = "(WorldPacket_new CMSG_GRAD_LANDLORD)\<lparr>storage := [3, 0, 0, 0]\<rparr>"
  let ?w = "(demo_world demo_user demo_user demo_user)\<lparr>w_players := [1 \<mapsto> demo_user]\<rparr>"
  have "(case run_handler HandleGrabLandlord ?p 10 ?w of None \<Rightarrow> False | Some w \<Rightarrow> True) = True" by code_simp
  then obtain w' where run: "run_handler HandleGrabLandlord ?p 10 ?w = Some w'" by (auto split: option.splits)
  have "session_player 10 ?w = Some 1" "player_at 1 ?w = Some demo_user"
    by (simp_all add: session_player_def sess_at_def player_at_def demo_world_def)
  moreover have "p_left demo_user = None" "p_right demo_user = None" by (simp_all add: demo_user_def Player_init_def)
  ultimately have "Player_Update 50 1 w' = None"
    using move_without_table_crashes [OF _ _ _ _ _ _ run] by simp
  with run show ?thesis by blast
qed

section \<open>A computer that is freed in use\<close>

text \<open>
  Two persons and a computer wait for the deal; the map of the room has the computer before the
  person who asks to leave.
\<close>

declare Player_checkOutPlayer.simps [code] Player_checkRoundOver.simps [code]

definition demo_room :: room where
  "demo_room = (Room_new 0 10)\<lparr>rm_playerMap := [(7, 1), (8, 2), (9, 3)], rm_three := [((1, 2), 3)]\<rparr>"

definition at_table :: "u8 \<Rightarrow> player \<Rightarrow> player" where
  "at_table st p = p\<lparr>p_gameStatus := st, p_queueFlags := QUEUE_FLAGS_THREE\<rparr>"

definition demo_leaving :: world where
  "demo_leaving =
     (let w = demo_world (at_table GAME_STATUS_STARTED demo_user) (at_table GAME_STATUS_STARTED (demo_ai 8))
            (at_table (GAME_STATUS_STARTED OR GAME_STATUS_LOG_OUTING)
               (demo_user\<lparr>p_session := Some 11, p_info := PlayerInfo_new\<lparr>pi_id := 9\<rparr>\<rparr>))
      in w\<lparr>w_sessions := (w_sessions w)(11 \<mapsto> \<lparr>s_Socket = None, s_accountId = 9, s_player = Some 3,
             s_recvQueue = LockedQueue_new, s_timeOutTime = 30000, s_forceExit = False\<rparr>)\<rparr>)"

text \<open>
  The leaving person takes the computer along, after the room has updated the computer: it stays in the map.
  The table is taken apart in the same update, and \<^verbatim>\<open>LogoutThree\<close> deletes the computer.
  The next update of the room uses it: it is undefined.
\<close>

lemma computer_freed_in_use:
  "(case Room_Update 50 demo_room demo_leaving of None \<Rightarrow> False
    | Some (r, w) \<Rightarrow> (8, 2) \<in> set (rm_playerMap r) \<and>
        (case player_at 2 w of None \<Rightarrow> True | Some p \<Rightarrow> False) \<and>
        (case Room_Update 50 r w of None \<Rightarrow> True | Some _ \<Rightarrow> False)) = True"
  by code_simp

section \<open>A player in two lists\<close>

text \<open>
  Two persons and a computer have played, and the first person's client has reported the end of the
  round: \<^verbatim>\<open>resetGame\<close> has cleared his neighbours, his flags and the computer's neighbours; the
  second person still plays, and still has both as neighbours.
\<close>

definition demo_ended :: world where
  "demo_ended =
     (let w = demo_world demo_user (demo_ai 8) (demo_user\<lparr>p_session := Some 11, p_info := PlayerInfo_new\<lparr>pi_id := 9\<rparr>\<rparr>)
      in w\<lparr>w_sessions := (w_sessions w)(11 \<mapsto> \<lparr>s_Socket = None, s_accountId = 9, s_player = Some 3,
             s_recvQueue = LockedQueue_new, s_timeOutTime = 30000, s_forceExit = False\<rparr>),
           w_players := [1 \<mapsto> demo_user\<lparr>p_gameStatus := GAME_STATUS_ROUNDOVERED, p_queueFlags := QUEUE_FLAGS_NULL\<rparr>,
             2 \<mapsto> at_table GAME_STATUS_ROUNDOVERED (demo_ai 8),
             3 \<mapsto> (at_table GAME_STATUS_WAIT_OUT_CARD (demo_user\<lparr>p_session := Some 11,
                    p_info := PlayerInfo_new\<lparr>pi_id := 9\<rparr>\<rparr>))\<lparr>p_left := Some 1, p_right := Some 2\<rparr>]\<rparr>)"

definition then_update :: "(world \<Rightarrow> world option) \<Rightarrow> room_state option \<Rightarrow> room_state option" where
  "then_update f s = do { (r, w) \<leftarrow> s; w \<leftarrow> f w; Room_Update 50 r w }"

definition restarted :: "room_state option" where
  "restarted = then_update (WorldSession_HandleWaitStart (WorldPacket_new CMSG_WAIT_START) 10) (Some (demo_room, demo_ended))"

text \<open>
  He starts again before the second person reports: the room queues him for a new table while the old
  table still lists him. When he leaves, the queue deletes him and the old table uses him: the
  update is undefined.
\<close>

lemma player_in_two_lists:
  "(case restarted of None \<Rightarrow> False
    | Some (r, w) \<Rightarrow> 1 \<in> set (rm_one r) \<and> ((1, 2), 3) \<in> set (rm_three r)) = True"
  "(case then_update (WorldSession_HandlLogout (WorldPacket_new CMSG_LOG_OUT) 10) restarted of
      None \<Rightarrow> True | Some _ \<Rightarrow> False) = True"
  by code_simp+

end
