(* ===== verification/Symbols.thy ===== *)
theory Symbols
  imports Text "HOL-Library.Code_Target_Numeral"
begin

text \<open>
  The variables in a crash report: \<^verbatim>\<open>src/server/shared/Debugging/WheatyExceptionReport.cpp\<close> and its
  header, the part that prints a symbol with the members of its type, for a process of 64 bits. The symbols
  come from the debugging library of Windows and the values from the memory of the process: both are
  arguments. What the library stores for a query is a pair: whether it succeeds, and what the variable
  holds then, which is arbitrary when it fails and the code does not look.
\<close>

section \<open>Types of the debugging interface\<close>

datatype sym_tag =
    SymTagFunction | SymTagData | SymTagUDT | SymTagEnum | SymTagPointerType | SymTagArrayType | SymTagBaseType
  | SymTagTypedef | SymTagBaseClass | SymTagVTable | SymTagOther

datatype DataKind =
    DataIsUnknown | DataIsLocal | DataIsStaticLocal | DataIsParam | DataIsObjectPtr | DataIsFileStatic
  | DataIsGlobal | DataIsMember | DataIsStaticMember | DataIsConstant

text \<open>\<^verbatim>\<open>BasicType\<close> is kept as its number.\<close>

definition btNoType :: u32 where "btNoType = 0"
definition btVoid :: u32 where "btVoid = 1"
definition btChar :: u32 where "btChar = 2"
definition btFloat :: u32 where "btFloat = 8"
definition btStdString :: u32 where "btStdString = 101"

definition rgBaseType :: "string list" where
  "rgBaseType = [''<user defined>'', ''void'', ''char'', ''wchar_t*'', ''signed char'', ''unsigned char'', ''int'',
     ''unsigned int'', ''float'', ''<BCD>'', ''bool'', ''short'', ''unsigned short'', ''long'', ''unsigned long'',
     ''int8'', ''int16'', ''int32'', ''int64'', ''int128'', ''uint8'', ''uint16'', ''uint32'', ''uint64'',
     ''uint128'', ''<currency>'', ''<date>'', ''VARIANT'', ''<complex>'', ''<bit>'', ''BSTR'', ''HRESULT'']"

text \<open>Reading past the table is undefined.\<close>

definition base_type_name :: "u32 \<Rightarrow> string option" where
  "base_type_name basicType =
     (if unat basicType < length rgBaseType then Some (rgBaseType ! unat basicType) else None)"

definition WER_MAX_ARRAY_ELEMENTS_COUNT :: u32 where "WER_MAX_ARRAY_ELEMENTS_COUNT = 10"
definition WER_MAX_NESTING_LEVEL :: nat where "WER_MAX_NESTING_LEVEL = 5"
definition WER_LARGE_BUFFER_SIZE :: nat where "WER_LARGE_BUFFER_SIZE = 1024 * 128"

text \<open>
  The library and the process. All queries take the base of the module and the index of a type.
  \<open>ti_child\<close> is one entry of the array of \<^verbatim>\<open>TI_FINDCHILDREN\<close>. An unreadable address has no byte;
  \<open>dh_c_string\<close> and \<open>dh_std_string\<close> are the texts that start there, \<open>dh_float\<close> and
  \<open>dh_double\<close> what \<^verbatim>\<open>%f\<close> prints of the bits.
\<close>

record dbghelp =
  ti_symtag :: "u64 \<Rightarrow> u32 \<Rightarrow> bool \<times> sym_tag"
  ti_symname :: "u64 \<Rightarrow> u32 \<Rightarrow> string option"
  ti_typeid :: "u64 \<Rightarrow> u32 \<Rightarrow> bool \<times> u32"
  ti_is_reference :: "u64 \<Rightarrow> u32 \<Rightarrow> bool \<times> bool"
  ti_length :: "u64 \<Rightarrow> u32 \<Rightarrow> bool \<times> u64"
  ti_count :: "u64 \<Rightarrow> u32 \<Rightarrow> bool \<times> u32"
  ti_childrencount :: "u64 \<Rightarrow> u32 \<Rightarrow> bool \<times> u32"
  ti_findchildren :: "u64 \<Rightarrow> u32 \<Rightarrow> u32 \<Rightarrow> bool"
  ti_child :: "u64 \<Rightarrow> u32 \<Rightarrow> nat \<Rightarrow> u32"
  ti_datakind :: "u64 \<Rightarrow> u32 \<Rightarrow> bool \<times> DataKind"
  ti_offset :: "u64 \<Rightarrow> u32 \<Rightarrow> bool \<times> u32"
  ti_basetype :: "u64 \<Rightarrow> u32 \<Rightarrow> bool \<times> u32"
  dh_memory :: "u64 \<Rightarrow> u8 option"
  dh_c_string :: "u64 \<Rightarrow> string option"
  dh_std_string :: "u64 \<Rightarrow> string option"
  dh_float :: "u32 \<Rightarrow> string"
  dh_double :: "u64 \<Rightarrow> string"

section \<open>The stack of symbols\<close>

record SymbolDetail =
  sd_Prefix :: string
  sd_Type :: string
  sd_Suffix :: string
  sd_Name :: string
  sd_Value :: string
  sd_Logged :: bool
  sd_HasChildren :: bool

definition SymbolDetail_new :: SymbolDetail where
  "SymbolDetail_new = \<lparr>sd_Prefix = [], sd_Type = [], sd_Suffix = [], sd_Name = [], sd_Value = [],
     sd_Logged = False, sd_HasChildren = False\<rparr>"

definition SymbolDetail_ToString :: "SymbolDetail \<Rightarrow> string \<times> SymbolDetail" where
  "SymbolDetail_ToString d =
     (let formatted = sd_Prefix d @ sd_Type d @ sd_Suffix d;
          formatted = (if sd_Name d \<noteq> []
            then (if formatted \<noteq> [] then formatted @ '' '' else formatted) @ sd_Name d else formatted);
          formatted = (if sd_Value d \<noteq> [] then formatted @ '' = '' @ sd_Value d else formatted)
      in (formatted, d\<lparr>sd_Logged := True\<rparr>))"

definition SymbolDetail_empty :: "SymbolDetail \<Rightarrow> bool" where
  "SymbolDetail_empty d \<longleftrightarrow> sd_Value d = [] \<and> \<not> sd_HasChildren d"

text \<open>
  \<open>du_details\<close> is the stack, its top first; \<open>du_text\<close> what has been written through
  \<^verbatim>\<open>pszCurrBuffer\<close>. The writes do not look at the size of the buffer: that the text fits is
  checked once, at the end.
\<close>

record dumper =
  du_symbols :: "(u32 \<times> u64) set"
  du_details :: "SymbolDetail list"
  du_text :: string

text \<open>\<^verbatim>\<open>symbolDetails.top().... = ...\<close>; the top of an empty stack is undefined.\<close>

definition on_top :: "(SymbolDetail \<Rightarrow> SymbolDetail) \<Rightarrow> dumper \<Rightarrow> dumper option" where
  "on_top f s = (case du_details s of [] \<Rightarrow> None | d # ds \<Rightarrow> Some (s\<lparr>du_details := f d # ds\<rparr>))"

definition top_detail :: "dumper \<Rightarrow> SymbolDetail option" where
  "top_detail s = (case du_details s of [] \<Rightarrow> None | d # ds \<Rightarrow> Some d)"

definition StoreSymbol :: "u32 \<Rightarrow> u64 \<Rightarrow> dumper \<Rightarrow> bool \<times> dumper" where
  "StoreSymbol type offset s =
     ((type, offset) \<notin> du_symbols s, s\<lparr>du_symbols := insert (type, offset) (du_symbols s)\<rparr>)"

definition ClearSymbols :: "dumper \<Rightarrow> dumper" where
  "ClearSymbols s = s\<lparr>du_symbols := {}, du_details := []\<rparr>"

definition PrintSymbolDetail :: "dumper \<Rightarrow> dumper" where
  "PrintSymbolDetail s =
     (case du_details s of
        [] \<Rightarrow> s
      | d # ds \<Rightarrow>
          if sd_Logged d \<or> SymbolDetail_empty d then s
          else let (line, d) = SymbolDetail_ToString d in
            s\<lparr>du_text := du_text s @ replicate (length (d # ds)) (CHR 0x09) @ line @ [CHR 0x0D, CHR 0x0A],
              du_details := d # ds\<rparr>)"

definition PushSymbolDetail :: "dumper \<Rightarrow> dumper" where
  "PushSymbolDetail s =
     (let s = PrintSymbolDetail s in s\<lparr>du_details := SymbolDetail_new # du_details s\<rparr>)"

definition PopSymbolDetail :: "dumper \<Rightarrow> dumper option" where
  "PopSymbolDetail s =
     (let s = PrintSymbolDetail s in
      case du_details s of [] \<Rightarrow> None | d # ds \<Rightarrow> Some (s\<lparr>du_details := ds\<rparr>))"

section \<open>Values\<close>

text \<open>\<^verbatim>\<open>%X\<close>.\<close>

fun hex_number :: "nat \<Rightarrow> string" where
  "hex_number n = (if n < 16 then [hex_digit n] else hex_number (n div 16) @ [hex_digit (n mod 16)])"

declare hex_number.simps [simp del]

text \<open>An unsigned number of \<open>n\<close> bytes; an address that cannot be read raises an exception of the system.\<close>

definition read_number :: "dbghelp \<Rightarrow> u64 \<Rightarrow> nat \<Rightarrow> nat option" where
  "read_number env address n =
     map_option le_dec (those (map (\<lambda>i. dh_memory env (address + word_of_nat i)) [0..<n]))"

definition DereferenceUnsafePointer :: "dbghelp \<Rightarrow> u64 \<Rightarrow> u64" where
  "DereferenceUnsafePointer env address =
     (case read_number env address 8 of Some v \<Rightarrow> word_of_nat v | None \<Rightarrow> - 1)"

definition quoted :: "nat \<Rightarrow> string \<Rightarrow> string" where
  "quoted bufferSize value =
     [CHR 0x22] @ (if length value > bufferSize - 6 then take (bufferSize - 6) value @ ''...'' else value) @ [CHR 0x22]"

definition hex_value_text :: "nat \<Rightarrow> string" where
  "hex_value_text n = ''0x'' @ hex_number n"

text \<open>The text of a value, \<open>None\<close> if reading it raises an exception.\<close>

definition value_text :: "dbghelp \<Rightarrow> u32 \<Rightarrow> u64 \<Rightarrow> u64 \<Rightarrow> nat \<Rightarrow> string option" where
  "value_text env basicType len address bufferSize =
     (if basicType = btChar then map_option (quoted bufferSize) (dh_c_string env address)
      else if basicType = btStdString then map_option (quoted bufferSize) (dh_std_string env address)
      else if len = 1 then map_option hex_value_text (read_number env address 1)
      else if len = 2 then map_option hex_value_text (read_number env address 2)
      else if len = 4 then
        map_option (\<lambda>v. if basicType = btFloat then dh_float env (word_of_nat v) else hex_value_text v)
          (read_number env address 4)
      else if len = 8 then
        map_option (\<lambda>v. if basicType = btFloat then dh_double env (word_of_nat v) else hex_value_text v)
          (read_number env address 8)
      else Some (hex_value_text (unat address)))"

text \<open>\<^verbatim>\<open>sprintf\<close> past the end of the buffer is undefined.\<close>

definition FormatOutputValue :: "dbghelp \<Rightarrow> u32 \<Rightarrow> u64 \<Rightarrow> u64 \<Rightarrow> nat \<Rightarrow> string option" where
  "FormatOutputValue env basicType len address bufferSize =
     (let text = (case value_text env basicType len address bufferSize of
                    Some text \<Rightarrow> text
                  | None \<Rightarrow> hex_value_text (unat address) @ '' <Unable to read memory>'')
      in if length text + 1 > bufferSize then None else Some text)"

definition GetBasicType :: "dbghelp \<Rightarrow> u32 \<Rightarrow> u64 \<Rightarrow> u32" where
  "GetBasicType env typeIndex modBase =
     (case ti_basetype env modBase typeIndex of
        (True, basicType) \<Rightarrow> basicType
      | (False, _) \<Rightarrow>
          (case ti_typeid env modBase typeIndex of
             (True, typeId) \<Rightarrow>
               (case ti_basetype env modBase typeId of (True, basicType) \<Rightarrow> basicType | (False, _) \<Rightarrow> btNoType)
           | (False, _) \<Rightarrow> btNoType))"

section \<open>Steps of a dump\<close>

text \<open>The sizes of the arrays \<^verbatim>\<open>buffer[50]\<close> and \<^verbatim>\<open>ChildId\<close>.\<close>

definition VALUE_BUFFER :: nat where "VALUE_BUFFER = 50"
definition CHILD_IDS :: nat where "CHILD_IDS = 1 + 1024 * 2"

definition set_name :: "string \<Rightarrow> dumper \<Rightarrow> dumper option" where
  "set_name Name s = (if Name \<noteq> [] then on_top (\<lambda>d. d\<lparr>sd_Name := Name\<rparr>) s else Some s)"

definition set_base_type :: "u32 \<Rightarrow> dumper \<Rightarrow> dumper option" where
  "set_base_type basicType s = do {
     d \<leftarrow> top_detail s;
     if sd_Type d = [] then do { n \<leftarrow> base_type_name basicType; on_top (\<lambda>d. d\<lparr>sd_Type := n\<rparr>) s } else Some s
   }"

definition set_value :: "string \<Rightarrow> dumper \<Rightarrow> dumper option" where
  "set_value v = on_top (\<lambda>d. d\<lparr>sd_Value := v\<rparr>)"

definition add_suffix :: "string \<Rightarrow> dumper \<Rightarrow> dumper option" where
  "add_suffix t = on_top (\<lambda>d. d\<lparr>sd_Suffix := sd_Suffix d @ t\<rparr>)"

definition put_value :: "dbghelp \<Rightarrow> u32 \<Rightarrow> u64 \<Rightarrow> u64 \<Rightarrow> dumper \<Rightarrow> dumper option" where
  "put_value env basicType len address s = do {
     v \<leftarrow> FormatOutputValue env basicType len address VALUE_BUFFER;
     set_value v s
   }"

text \<open>The name of the type; \<open>True\<close> says that the symbol is a \<^verbatim>\<open>std::string\<close> and done.\<close>

definition name_type :: "dbghelp \<Rightarrow> u64 \<Rightarrow> u32 \<Rightarrow> u64 \<Rightarrow> string \<Rightarrow> dumper \<Rightarrow> (bool \<times> dumper) option" where
  "name_type env modBase dwTypeIndex offset Name s =
     (case ti_symname env modBase dwTypeIndex of
        Some typeName \<Rightarrow>
          if typeName = ''std::basic_string<char,std::char_traits<char>,std::allocator<char> >'' then do {
            s \<leftarrow> on_top (\<lambda>d. d\<lparr>sd_Type := ''std::string''\<rparr>) s;
            s \<leftarrow> put_value env btStdString 0 offset s;
            s \<leftarrow> set_name Name s;
            Some (True, s)
          } else do {
            let buffer = take 199 typeName;
            s \<leftarrow> (if Name \<noteq> [] then on_top (\<lambda>d. d\<lparr>sd_Type := buffer, sd_Name := Name\<rparr>) s
                  else if buffer \<noteq> [] then on_top (\<lambda>d. d\<lparr>sd_Name := buffer\<rparr>) s else Some s);
            Some (False, s)
          }
      | None \<Rightarrow> do { s \<leftarrow> set_name Name s; Some (False, s) })"

text \<open>A pointer, before and after what it points to; \<open>True\<close> says that the symbol is done.\<close>

definition pointer_shown :: "dbghelp \<Rightarrow> u64 \<Rightarrow> u32 \<Rightarrow> u64 \<Rightarrow> string \<Rightarrow> dumper \<Rightarrow> dumper option" where
  "pointer_shown env modBase dwTypeIndex offset Name s = do {
     s \<leftarrow> set_name Name s;
     s \<leftarrow> add_suffix (if snd (ti_is_reference env modBase dwTypeIndex) then ''&'' else ''*'') s;
     put_value env btVoid 8 offset s
   }"

definition pointer_followed ::
    "dbghelp \<Rightarrow> u64 \<Rightarrow> u32 \<Rightarrow> u32 \<Rightarrow> u64 \<Rightarrow> bool \<Rightarrow> dumper \<Rightarrow> (bool \<times> dumper) option" where
  "pointer_followed env modBase dwTypeIndex innerTypeID address bHandled s =
     (if \<not> bHandled then do {
        let basicType = GetBasicType env dwTypeIndex modBase;
        s \<leftarrow> set_base_type basicType s;
        s \<leftarrow> (if address = 0 then set_value ''NULL'' s
              else if address = - 1 then set_value ''<Unable to read memory>'' s
              else put_value env basicType (snd (ti_length env modBase innerTypeID)) address s);
        Some (True, s)
      }
      else if address = 0 then do { s \<leftarrow> set_value ''NULL'' s; Some (False, s) }
      else if address = - 1 then do { s \<leftarrow> set_value ''<Unable to read memory>'' s; Some (True, s) }
      else Some (False, s))"

text \<open>The elements of an array, at most ten.\<close>

fun array_elements :: "dbghelp \<Rightarrow> u32 \<Rightarrow> u64 \<Rightarrow> u64 \<Rightarrow> nat list \<Rightarrow> dumper \<Rightarrow> dumper option" where
  "array_elements env basicType len offset [] s = Some s"
| "array_elements env basicType len offset (index # rest) s = do {
     let s = PushSymbolDetail s;
     s \<leftarrow> add_suffix (''['' @ digits index @ '']'') s;
     s \<leftarrow> put_value env basicType len (offset + len * word_of_nat index) s;
     s \<leftarrow> PopSymbolDetail s;
     array_elements env basicType len offset rest s
   }"

definition array_shown :: "dbghelp \<Rightarrow> u64 \<Rightarrow> u32 \<Rightarrow> u32 \<Rightarrow> u64 \<Rightarrow> bool \<Rightarrow> dumper \<Rightarrow> dumper option" where
  "array_shown env modBase dwTypeIndex innerTypeID offset bHandled s = do {
     s \<leftarrow> set_value [] s;
     let (counted, elementsCount) = ti_count env modBase dwTypeIndex;
     s \<leftarrow> add_suffix (if counted then ''['' @ digits (unat elementsCount) @ '']'' else ''[<unknown count>]'') s;
     let basicType = (if \<not> bHandled then GetBasicType env dwTypeIndex modBase else btNoType);
     s \<leftarrow> (if \<not> bHandled then set_base_type basicType s else Some s);
     let len = snd (ti_length env modBase innerTypeID);
     if basicType = btChar \<or> basicType = btStdString then put_value env basicType len offset s
     else array_elements env basicType len offset
            [0..<unat (min elementsCount WER_MAX_ARRAY_ELEMENTS_COUNT)] s
   }"

text \<open>The children that are passed over: functions, types and static fields.\<close>

definition child_skipped :: "dbghelp \<Rightarrow> u64 \<Rightarrow> u32 \<Rightarrow> bool" where
  "child_skipped env modBase child \<longleftrightarrow>
     snd (ti_symtag env modBase child) \<in> {SymTagFunction, SymTagEnum, SymTagTypedef, SymTagVTable} \<or>
     snd (ti_datakind env modBase child) \<in> {DataIsStaticLocal, DataIsGlobal, DataIsStaticMember}"

definition child_value :: "dbghelp \<Rightarrow> u64 \<Rightarrow> u32 \<Rightarrow> u64 \<Rightarrow> dumper \<Rightarrow> dumper option" where
  "child_value env modBase child dwFinalOffset s = do {
     let basicType = GetBasicType env child modBase;
     s \<leftarrow> set_base_type basicType s;
     let typeId = snd (ti_typeid env modBase child);
     put_value env basicType (snd (ti_length env modBase typeId)) dwFinalOffset s
   }"

section \<open>The dump\<close>

text \<open>A loop that may end early, for the body of a partial function.\<close>

primrec each :: "('a \<Rightarrow> 's \<Rightarrow> ('s \<times> bool) option) \<Rightarrow> 'a list \<Rightarrow> 's \<Rightarrow> ('s \<times> bool) option" where
  "each f [] s = Some (s, False)"
| "each f (x # xs) s = do { (s, stop) \<leftarrow> f x s; if stop then Some (s, True) else each f xs s }"

lemma each_mono [partial_function_mono]:
  assumes F: "\<And>x s. mono_option (\<lambda>g. F g x s)"
  shows "mono_option (\<lambda>g. each (F g) xs s)"
proof (induction xs arbitrary: s)
  case Nil
  show ?case by (simp add: option.const_mono)
next
  case (Cons x xs)
  show ?case unfolding each.simps case_prod_beta
    by (intro bind_mono if_mono option.const_mono F Cons.IH)
qed

text \<open>
  \<open>DumpTypeIndex\<close> returns the state and \<^verbatim>\<open>bHandled\<close>. The switch gives whether the function
  returns, the state, \<^verbatim>\<open>bHandled\<close> and \<^verbatim>\<open>logChildren\<close> for what comes after it.
  \<^verbatim>\<open>Name\<close> is passed by value, where the code passes a pointer into the detail on top of the stack; the
  two differ only for a member without a name whose type has one.
\<close>

partial_function (option) DumpTypeIndex ::
    "dbghelp \<Rightarrow> u64 \<Rightarrow> u32 \<Rightarrow> nat \<Rightarrow> u64 \<Rightarrow> string \<Rightarrow> bool \<Rightarrow> bool \<Rightarrow> dumper \<Rightarrow> (dumper \<times> bool) option" where
  "DumpTypeIndex env modBase dwTypeIndex nestingLevel offset Name newSymbol logChildren s = do {
     let s = (if newSymbol then PushSymbolDetail s else s);
     let (known, typeTag) = ti_symtag env modBase dwTypeIndex;
     if \<not> known then Some (s, False) else do {
     (isString, s) \<leftarrow> name_type env modBase dwTypeIndex offset Name s;
     if isString then Some (s, True) else do {
     let (fresh, s) = StoreSymbol dwTypeIndex offset s;
     if \<not> fresh then Some (s, typeTag = SymTagBaseClass) else do {
     let (typed, innerTypeID) = ti_typeid env modBase dwTypeIndex;
     let deep = (nestingLevel \<ge> WER_MAX_NESTING_LEVEL);
     (returns, s, bHandled, logChildren) \<leftarrow>
       (if typeTag = SymTagPointerType \<and> typed then do {
          s \<leftarrow> pointer_shown env modBase dwTypeIndex offset Name s;
          let address = DereferenceUnsafePointer env offset;
          let logChildren = (logChildren \<and> \<not> deep \<and> address \<noteq> 0 \<and> address \<noteq> - 1);
          (s, bHandled) \<leftarrow> DumpTypeIndex env modBase innerTypeID (nestingLevel + 1) address Name False logChildren s;
          (returns, s) \<leftarrow> pointer_followed env modBase dwTypeIndex innerTypeID address bHandled s;
          Some (returns, s, True, logChildren)
        }
        else if typeTag = SymTagData \<and> typed \<and> fst (ti_symtag env modBase innerTypeID) \<and>
          snd (ti_symtag env modBase innerTypeID) \<in> {SymTagUDT, SymTagPointerType, SymTagArrayType} then do {
          let innerTypeTag = snd (ti_symtag env modBase innerTypeID);
          let logChildren = (logChildren \<and> \<not> (innerTypeTag = SymTagUDT \<and> deep));
          s \<leftarrow> (if innerTypeTag = SymTagPointerType then set_name Name s else Some s);
          d \<leftarrow> top_detail s;
          (s, bHandled) \<leftarrow> DumpTypeIndex env modBase innerTypeID (nestingLevel + 1) offset (sd_Name d) False logChildren s;
          Some (False, s, bHandled, logChildren)
        }
        else if typeTag = SymTagArrayType \<and> typed then do {
          s \<leftarrow> on_top (\<lambda>d. d\<lparr>sd_HasChildren := True\<rparr>) s;
          (s, bHandled) \<leftarrow> DumpTypeIndex env modBase innerTypeID (nestingLevel + 1) offset Name False False s;
          s \<leftarrow> array_shown env modBase dwTypeIndex innerTypeID offset bHandled s;
          Some (True, s, True, logChildren)
        }
        else Some (typeTag = SymTagEnum, s, False, logChildren));
     if returns then Some (s, bHandled) else do {
     let (counted, number) = ti_childrencount env modBase dwTypeIndex;
     let dwChildrenCount = (if counted then number else 0);
     if dwChildrenCount = 0 then Some (s, bHandled)
     else if unat dwChildrenCount > CHILD_IDS then None
     else if \<not> ti_findchildren env modBase dwTypeIndex dwChildrenCount then Some (s, bHandled)
     else do {
     (s, stopped) \<leftarrow> each
       (\<lambda>child s.
          if child_skipped env modBase child then Some (s, False)
          else do {
            s \<leftarrow> on_top (\<lambda>d. d\<lparr>sd_HasChildren := True\<rparr>) s;
            if \<not> logChildren then Some (s, True)
            else do {
              let dwFinalOffset = offset + ucast (snd (ti_offset env modBase child));
              (s, bHandled2) \<leftarrow> DumpTypeIndex env modBase child (nestingLevel + 1) dwFinalOffset [] True True s;
              s \<leftarrow> (if \<not> bHandled2 then child_value env modBase child dwFinalOffset s else Some s);
              s \<leftarrow> PopSymbolDetail s;
              Some (s, False)
            }
          })
       (map (ti_child env modBase dwTypeIndex) [0..<unat dwChildrenCount]) s;
     Some (s, \<not> stopped)
     }}}}}
   }"

section \<open>A variable\<close>

definition IMAGEHLP_SYMBOL_INFO_REGISTER :: u32 where "IMAGEHLP_SYMBOL_INFO_REGISTER = 0x08"
definition IMAGEHLP_SYMBOL_INFO_REGRELATIVE :: u32 where "IMAGEHLP_SYMBOL_INFO_REGRELATIVE = 0x10"
definition IMAGEHLP_SYMBOL_INFO_PARAMETER :: u32 where "IMAGEHLP_SYMBOL_INFO_PARAMETER = 0x40"
definition IMAGEHLP_SYMBOL_INFO_LOCAL :: u32 where "IMAGEHLP_SYMBOL_INFO_LOCAL = 0x80"

record SYMBOL_INFO =
  si_TypeIndex :: u32
  si_Size :: u32
  si_ModBase :: u64
  si_Flags :: u32
  si_Address :: u64
  si_Tag :: sym_tag
  si_Name :: string

text \<open>\<open>stack\<close> is the stack pointer of the frame.\<close>

definition variable_address :: "SYMBOL_INFO \<Rightarrow> u64 \<Rightarrow> u64 option" where
  "variable_address pSym stack =
     (if si_Flags pSym AND IMAGEHLP_SYMBOL_INFO_REGRELATIVE \<noteq> 0 then Some (stack + si_Address pSym)
      else if si_Flags pSym AND IMAGEHLP_SYMBOL_INFO_REGISTER \<noteq> 0 then None
      else Some (si_Address pSym))"

definition FormatSymbolValue :: "dbghelp \<Rightarrow> SYMBOL_INFO \<Rightarrow> u64 \<Rightarrow> dumper \<Rightarrow> (bool \<times> dumper) option" where
  "FormatSymbolValue env pSym stack s =
     (if si_Tag pSym = SymTagFunction then Some (False, s)
      else case variable_address pSym stack of
        None \<Rightarrow> Some (False, s)
      | Some pVariable \<Rightarrow> do {
          let s = PushSymbolDetail s;
          s \<leftarrow> (if si_Flags pSym AND IMAGEHLP_SYMBOL_INFO_PARAMETER \<noteq> 0
                then on_top (\<lambda>d. d\<lparr>sd_Prefix := ''Parameter ''\<rparr>) s
                else if si_Flags pSym AND IMAGEHLP_SYMBOL_INFO_LOCAL \<noteq> 0
                then on_top (\<lambda>d. d\<lparr>sd_Prefix := ''Local ''\<rparr>) s else Some s);
          (s, bHandled) \<leftarrow>
            DumpTypeIndex env (si_ModBase pSym) (si_TypeIndex pSym) 0 pVariable (si_Name pSym) False True s;
          s \<leftarrow> (if \<not> bHandled then do {
                  let basicType = GetBasicType env (si_TypeIndex pSym) (si_ModBase pSym);
                  s \<leftarrow> set_base_type basicType s;
                  s \<leftarrow> set_name (si_Name pSym) s;
                  put_value env basicType (ucast (si_Size pSym)) pVariable s
                } else Some s);
          s \<leftarrow> PopSymbolDetail s;
          Some (True, s)
        })"

text \<open>
  What the callback prints for a variable. A text that does not fit its buffer has been written past the
  end of it.
\<close>

definition EnumerateSymbolsCallback :: "dbghelp \<Rightarrow> SYMBOL_INFO \<Rightarrow> u64 \<Rightarrow> dumper \<Rightarrow> (string \<times> dumper) option" where
  "EnumerateSymbolsCallback env pSymInfo stack s = do {
     let s = (ClearSymbols s)\<lparr>du_text := []\<rparr>;
     (shown, s) \<leftarrow> FormatSymbolValue env pSymInfo stack s;
     if length (du_text s) + 1 > WER_LARGE_BUFFER_SIZE then None
     else Some (if shown then du_text s else [], s)
   }"

section \<open>A dump returns\<close>

text \<open>
  Total correctness: \<open>yields P m\<close> says that \<open>m\<close> returns, with a result that has \<open>P\<close>. The rules follow
  the structure of an operation.
\<close>

named_theorems balanced \<open>operations that keep the height of the stack\<close>

definition yields :: "('a \<Rightarrow> bool) \<Rightarrow> 'a option \<Rightarrow> bool" where
  "yields P m \<longleftrightarrow> (\<exists>x. m = Some x \<and> P x)"

lemma yields_Some [simp]: "yields P (Some x) \<longleftrightarrow> P x"
  by (simp add: yields_def)

lemma yields_bind: "yields Q m \<Longrightarrow> (\<And>x. Q x \<Longrightarrow> yields P (f x)) \<Longrightarrow> yields P (m \<bind> f)"
  by (auto simp: yields_def)

lemma yields_bind2:
  "yields (\<lambda>(a, b). Q a b) m \<Longrightarrow> (\<And>a b. Q a b \<Longrightarrow> yields P (f a b)) \<Longrightarrow> yields P (m \<bind> (\<lambda>(a, b). f a b))"
  by (auto simp: yields_def)

lemma yields_bind4:
  "yields (\<lambda>(a, b, c, d). Q a b c d) m \<Longrightarrow> (\<And>a b c d. Q a b c d \<Longrightarrow> yields P (f a b c d)) \<Longrightarrow>
   yields P (m \<bind> (\<lambda>(a, b, c, d). f a b c d))"
  by (auto simp: yields_def)

lemma yields_if: "(c \<Longrightarrow> yields P a) \<Longrightarrow> (\<not> c \<Longrightarrow> yields P b) \<Longrightarrow> yields P (if c then a else b)"
  by simp

lemma yields_True: "yields P m \<Longrightarrow> yields (\<lambda>_. True) m"
  by (auto simp: yields_def)

lemma yields_each:
  assumes "\<And>x s. I s \<Longrightarrow> yields (\<lambda>(s, stop). I s) (f x s)" and "I s"
  shows "yields (\<lambda>(s, stop). I s) (each f xs s)"
  using assms(2)
proof (induction xs arbitrary: s)
  case (Cons x xs)
  show ?case unfolding each.simps
    by (rule yields_bind, rule assms(1), rule Cons.prems) (auto intro: Cons.IH)
qed simp

text \<open>The stack has \<open>n\<close> entries, and at least the symbols of \<open>S\<close> are stored.\<close>

definition at_height :: "nat \<Rightarrow> (u32 \<times> u64) set \<Rightarrow> dumper \<Rightarrow> bool" where
  "at_height n S s \<longleftrightarrow> length (du_details s) = n \<and> S \<subseteq> du_symbols s"

text \<open>
  The library keeps to what the code takes for granted: the numbers of basic types are those of the
  table, a type has no more children than the array has places, and a number in floating point is
  printed in fewer than 50 characters.
\<close>

definition dh_ok :: "dbghelp \<Rightarrow> bool" where
  "dh_ok env \<longleftrightarrow>
     (\<forall>m t. fst (ti_basetype env m t) \<longrightarrow> unat (snd (ti_basetype env m t)) < 32) \<and>
     (\<forall>m t. unat (snd (ti_childrencount env m t)) \<le> CHILD_IDS) \<and>
     (\<forall>v. length (dh_float env v) < VALUE_BUFFER) \<and> (\<forall>v. length (dh_double env v) < VALUE_BUFFER)"

lemma hex_number_length: "n < 16 ^ Suc k \<Longrightarrow> length (hex_number n) \<le> Suc k"
proof (induction k arbitrary: n)
  case 0
  then show ?case by (subst hex_number.simps) simp
next
  case (Suc k)
  then have "n div 16 < 16 ^ Suc k" by (simp add: less_mult_imp_div_less mult.commute)
  then show ?case using Suc.IH [of "n div 16"] by (subst hex_number.simps) simp
qed

lemma those_SomeD: "those xs = Some ys \<Longrightarrow> length ys = length xs"
  by (induction xs arbitrary: ys) (auto split: option.splits)

lemma read_number_less: "read_number env address n = Some v \<Longrightarrow> v < 256 ^ n"
  unfolding read_number_def using le_dec_bound by (auto dest!: those_SomeD)

lemma hex_value_length: "v < 2 ^ 64 \<Longrightarrow> length (hex_value_text v) \<le> 18"
  using hex_number_length [of v 15] by (simp add: hex_value_text_def)

lemma quoted_length: "length (quoted 50 v) < 50"
  by (simp add: quoted_def)

lemma value_text_length:
  assumes "dh_ok env" "value_text env bt len address 50 = Some t"
  shows "length t < 50"
proof -
  have hex: "length (hex_value_text v) < 50" if "v < 256 ^ 8" for v
    using hex_value_length [of v] that by simp
  have "length (hex_value_text v) < 50" if "read_number env address n = Some v" "n \<in> {1, 2, 4, 8}" for n v
    using read_number_less [OF that(1)] that(2) by (intro hex) auto
  moreover have "length (hex_value_text (unat address)) < 50"
    using unsigned_less [of address] by (intro hex) simp
  ultimately show ?thesis using assms quoted_length
    by (auto simp: value_text_def dh_ok_def VALUE_BUFFER_def split: if_splits)
qed

lemma FormatOutputValue_fits: "dh_ok env \<Longrightarrow> yields (\<lambda>_. True) (FormatOutputValue env bt len address VALUE_BUFFER)"
  using value_text_length [of env bt len address] hex_value_length [of "unat address"] unsigned_less [of address]
  by (auto simp: FormatOutputValue_def VALUE_BUFFER_def Let_def yields_def less_Suc_eq_le split: option.split)

lemma dh_ok_basetype: "dh_ok env \<Longrightarrow> ti_basetype env m t = (True, b) \<Longrightarrow> unat b < 32"
  unfolding dh_ok_def by (metis fst_conv snd_conv)

lemma basic_type_less: "dh_ok env \<Longrightarrow> unat (GetBasicType env t m) < 32"
  unfolding GetBasicType_def btNoType_def
  by (auto split: prod.split bool.split dest: dh_ok_basetype)

lemma base_type_named: "dh_ok env \<Longrightarrow> \<exists>n. base_type_name (GetBasicType env t m) = Some n"
  using basic_type_less [of env t m] by (simp add: base_type_name_def rgBaseType_def)

lemma balanced_on_top [balanced]: "at_height n S s \<Longrightarrow> n > 0 \<Longrightarrow> yields (at_height n S) (on_top f s)"
  by (auto simp: on_top_def at_height_def split: list.split)

lemma balanced_top: "at_height n S s \<Longrightarrow> n > 0 \<Longrightarrow> yields (\<lambda>_. True) (top_detail s)"
  by (auto simp: top_detail_def at_height_def split: list.split)

lemma balanced_print: "at_height n S s \<Longrightarrow> at_height n S (PrintSymbolDetail s)"
  by (auto simp: PrintSymbolDetail_def at_height_def Let_def case_prod_beta split: list.split)

lemma balanced_push: "at_height n S s \<Longrightarrow> at_height (Suc n) S (PushSymbolDetail s)"
  using balanced_print [of n S s] by (simp add: PushSymbolDetail_def at_height_def Let_def)

lemma balanced_pop [balanced]: "at_height (Suc n) S s \<Longrightarrow> yields (at_height n S) (PopSymbolDetail s)"
  using balanced_print [of "Suc n" S s]
  by (auto simp: PopSymbolDetail_def at_height_def Let_def split: list.split)

lemma balanced_Some [balanced]: "at_height n S s \<Longrightarrow> yields (at_height n S) (Some s)"
  by simp

lemma balanced_set_name [balanced]: "at_height n S s \<Longrightarrow> n > 0 \<Longrightarrow> yields (at_height n S) (set_name Name s)"
  unfolding set_name_def by (intro yields_if balanced)

lemma balanced_set_value [balanced]: "at_height n S s \<Longrightarrow> n > 0 \<Longrightarrow> yields (at_height n S) (set_value v s)"
  unfolding set_value_def by (rule balanced_on_top)

lemma balanced_add_suffix [balanced]: "at_height n S s \<Longrightarrow> n > 0 \<Longrightarrow> yields (at_height n S) (add_suffix t s)"
  unfolding add_suffix_def by (rule balanced_on_top)

lemma balanced_base_type [balanced]:
  "at_height n S s \<Longrightarrow> n > 0 \<Longrightarrow> dh_ok env \<Longrightarrow> yields (at_height n S) (set_base_type (GetBasicType env t m) s)"
  using base_type_named [of env t m] unfolding set_base_type_def
  by (intro yields_bind [OF balanced_top] yields_if balanced) (auto intro: balanced)

lemma balanced_put_value [balanced]:
  "at_height n S s \<Longrightarrow> n > 0 \<Longrightarrow> dh_ok env \<Longrightarrow> yields (at_height n S) (put_value env bt len address s)"
  unfolding put_value_def by (intro yields_bind [OF FormatOutputValue_fits] balanced)

lemma balanced_child_value [balanced]:
  "at_height n S s \<Longrightarrow> n > 0 \<Longrightarrow> dh_ok env \<Longrightarrow> yields (at_height n S) (child_value env m child address s)"
  unfolding child_value_def Let_def by (rule yields_bind, (rule balanced; assumption)) (rule balanced)

text \<open>Results with a flag.\<close>

abbreviation "flagged n S \<equiv> (\<lambda>(b :: bool, s). at_height n S s)"
abbreviation "handled n S \<equiv> (\<lambda>(s, b :: bool). at_height n S s)"

lemma balanced_name_type [balanced]:
  assumes "at_height n S s" "n > 0" "dh_ok env"
  shows "yields (flagged n S) (name_type env m t address Name s)"
  unfolding name_type_def Let_def using assms
  by (auto split: option.split intro!: yields_bind yields_if balanced)

lemma balanced_pointer_shown [balanced]:
  assumes "at_height n S s" "n > 0" "dh_ok env"
  shows "yields (at_height n S) (pointer_shown env m t address Name s)"
  unfolding pointer_shown_def using assms by (auto intro!: yields_bind balanced)

lemma balanced_pointer_followed [balanced]:
  assumes "at_height n S s" "n > 0" "dh_ok env"
  shows "yields (flagged n S) (pointer_followed env m t inner address h s)"
  unfolding pointer_followed_def Let_def using assms by (auto intro!: yields_bind yields_if balanced)

lemma balanced_elements [balanced]:
  "at_height n S s \<Longrightarrow> dh_ok env \<Longrightarrow> yields (at_height n S) (array_elements env bt len address is s)"
proof (induction "is" arbitrary: s)
  case (Cons i "is")
  then show ?case unfolding array_elements.simps Let_def
    by (auto intro!: yields_bind balanced balanced_push)
qed simp

lemma balanced_array_shown [balanced]:
  assumes "at_height n S s" "n > 0" "dh_ok env"
  shows "yields (at_height n S) (array_shown env m t inner address h s)"
  unfolding array_shown_def Let_def case_prod_beta using assms
  by (auto intro!: yields_bind yields_if balanced)

lemma yields_mono: "yields Q m \<Longrightarrow> (\<And>x. Q x \<Longrightarrow> P x) \<Longrightarrow> yields P m"
  by (auto simp: yields_def)

lemma at_height_mono: "at_height n S s \<Longrightarrow> S' \<subseteq> S \<Longrightarrow> at_height n S' s"
  by (auto simp: at_height_def)

text \<open>
  What is not stored yet becomes less with every symbol that is stored, and a symbol is only taken apart
  after it has been stored.
\<close>

lemma dump_yields:
  assumes ok: "dh_ok env" and "n > 0 \<or> new" and "length (du_details s) = n"
  shows "yields (handled (if new then Suc n else n) (du_symbols s)) (DumpTypeIndex env m t level address Name new logging s)"
  using assms(2,3)
proof (induction "card (UNIV - du_symbols s)" arbitrary: n new t level address Name logging s rule: less_induct)
  case less
  define k where "k = (if new then Suc n else n)"
  have "k > 0" using less.prems(1) by (auto simp: k_def)
  define s1 where "s1 = (if new then PushSymbolDetail s else s)"
  have "at_height n (du_symbols s) s" using less.prems(2) by (simp add: at_height_def)
  then have s1: "at_height k (du_symbols s) s1"
    using balanced_push by (simp add: s1_def k_def)
  define S where "S = insert (t, address) (du_symbols s)"
  have smaller: "card (UNIV - du_symbols s') < card (UNIV - du_symbols s)"
    if "(t, address) \<notin> du_symbols s" "at_height j S s'" for j s'
    using that by (intro psubset_card_mono) (auto simp: at_height_def S_def)
  have inner: "yields (handled j S) (DumpTypeIndex env m t' level' address' Name' False logging' s')"
    if "(t, address) \<notin> du_symbols s" "at_height j S s'" "j > 0" for j s' t' level' address' Name' logging'
    using less.hyps [OF smaller [OF that(1,2)], of j False t' level' address' Name' logging'] that
    by (auto simp: at_height_def elim!: yields_mono)
  have child: "yields (handled (Suc j) S) (DumpTypeIndex env m t' level' address' Name' True logging' s')"
    if "(t, address) \<notin> du_symbols s" "at_height j S s'" for j s' t' level' address' Name' logging'
    using less.hyps [OF smaller [OF that], of j True t' level' address' Name' logging'] that
    by (auto simp: at_height_def elim!: yields_mono)
  have weaken: "yields (handled k (du_symbols s)) r" if "yields (handled k S) r" for r
    using that by (rule yields_mono) (auto simp: S_def intro: at_height_mono)
  have switch_flags: "yields (\<lambda>(r, s, h, l). at_height k S s) (Some (r, s', h, l))" if "at_height k S s'" for r s' h l
    using that by simp
  show ?case
    apply (subst DumpTypeIndex.simps)
    apply (simp only: Let_def s1_def [symmetric] k_def [symmetric] case_prod_beta [of _ "ti_symtag env m t"]
        case_prod_beta [of _ "ti_typeid env m t"] case_prod_beta [of _ "ti_childrencount env m t"]
        case_prod_beta [of _ "StoreSymbol t address s'" for s'])
    apply (rule yields_if)
     apply (use s1 in simp)
    apply (rule yields_bind2 [OF balanced_name_type [OF s1 \<open>k > 0\<close> ok]])
    apply (rule yields_if)
     apply simp
    apply (rule yields_if)
     apply (auto simp: StoreSymbol_def at_height_def) []
    apply (rule weaken)
    apply (rule yields_bind4 [where Q = "\<lambda>r s h l. at_height k S s"])
    subgoal premises p for x s2
    proof -
      have new: "(t, address) \<notin> du_symbols s" and s2: "at_height k S (snd (StoreSymbol t address s2))"
        using p by (auto simp: StoreSymbol_def at_height_def S_def)
      show ?thesis
        by (intro yields_if yields_bind2 [OF inner [OF new]] yields_bind2 [OF balanced_pointer_followed]
            yields_bind [OF balanced_pointer_shown] yields_bind [OF balanced_array_shown] switch_flags
            yields_bind [OF balanced_top] yields_bind [OF balanced_on_top] yields_bind [OF balanced_set_name]
            yields_bind [where Q = "at_height k S"]; (rule s2 ok \<open>k > 0\<close> | assumption | (auto simp: ok \<open>k > 0\<close> s2 balanced_set_name)))
    qed
    subgoal premises p for x s2 r s3 h l
    proof -
      have new: "(t, address) \<notin> du_symbols s"
        using p by (auto simp: StoreSymbol_def at_height_def)
      have few: "\<not> CHILD_IDS < unat (if fst (ti_childrencount env m t) then snd (ti_childrencount env m t) else 0)"
        using ok by (auto simp: dh_ok_def not_less)
      show ?thesis unfolding if_not_P [OF few]
        by (intro yields_if yields_bind2 [OF yields_each [where I = "at_height k S"]] yields_bind [OF balanced_on_top]
            yields_bind2 [OF child [OF new]] yields_bind [where Q = "at_height (Suc k) S"] yields_bind [OF balanced_pop];
            (rule ok \<open>k > 0\<close> | assumption | (use p(5) in \<open>simp add: ok balanced_child_value\<close>)))
    qed
   done
qed

lemma FormatSymbolValue_yields:
  assumes ok: "dh_ok env" and s: "at_height n S s"
  shows "yields (flagged n S) (FormatSymbolValue env pSym stack s)"
proof -
  note push = balanced_push [OF s]
  have prefix: "yields (at_height (Suc n) S)
      (if c then on_top f (PushSymbolDetail s) else if c' then on_top f' (PushSymbolDetail s) else Some (PushSymbolDetail s))"
    for c c' f f' using push by (auto intro: balanced_on_top)
  have dump: "yields (handled (Suc n) S) (DumpTypeIndex env m t level address Name False True s')"
    if "at_height (Suc n) S s'" for m t level address Name s'
    by (rule yields_mono [OF dump_yields [OF ok, of "Suc n"]]) (use that in \<open>auto simp: at_height_def\<close>)
  have basic: "yields (at_height (Suc n) S) (if \<not> h then set_base_type (GetBasicType env t m) s' \<bind>
      (\<lambda>s. set_name Name s \<bind> put_value env (GetBasicType env t m) len address) else Some s')"
    if "at_height (Suc n) S s'" for h t m s' Name len address
    using that ok by (auto intro!: yields_bind [where Q = "at_height (Suc n) S"] balanced)
  show ?thesis
  proof (cases "variable_address pSym stack")
    case None
    then show ?thesis using s by (simp add: FormatSymbolValue_def)
  next
    case (Some pVariable)
    show ?thesis unfolding FormatSymbolValue_def Let_def Some option.case
      by (intro yields_if [of "si_Tag pSym = SymTagFunction"] yields_bind [OF prefix] yields_bind2 [OF dump]
          yields_bind [OF basic] yields_bind [OF balanced_pop]) (simp_all add: s)
  qed
qed


text \<open>A double whose decimal digits do not fit fifty characters, such as 1e60, is printed past the end.\<close>

lemma long_double_overflows:
  assumes "read_number env address 8 = Some v" "length (dh_double env (word_of_nat v)) \<ge> 50"
  shows "FormatOutputValue env btFloat 8 address VALUE_BUFFER = None"
  using assms by (simp add: FormatOutputValue_def value_text_def btFloat_def btChar_def btStdString_def VALUE_BUFFER_def)

section \<open>A list in a circle\<close>

declare DumpTypeIndex.simps [code]

text \<open>
  A node has a number and a pointer to a node. In memory the node at 4096 points to itself.
\<close>

definition demo_symbols :: dbghelp where
  "demo_symbols =
     \<lparr>ti_symtag = (\<lambda>_ t. (True, if t = 1 then SymTagUDT else if t = 2 \<or> t = 3 then SymTagData
          else if t = 5 then SymTagPointerType else SymTagBaseType)),
      ti_symname = (\<lambda>_ t. if t = 1 then Some ''node'' else if t = 2 then Some ''number''
          else if t = 3 then Some ''next'' else None),
      ti_typeid = (\<lambda>_ t. if t = 2 then (True, 4) else if t = 3 then (True, 5) else if t = 5 then (True, 1) else (False, 0)),
      ti_is_reference = (\<lambda>_ _. (True, False)),
      ti_length = (\<lambda>_ t. (True, if t = 4 then 4 else if t = 1 then 16 else 8)),
      ti_count = (\<lambda>_ _. (False, 0)),
      ti_childrencount = (\<lambda>_ t. (True, if t = 1 then 2 else 0)),
      ti_findchildren = (\<lambda>_ _ _. True),
      ti_child = (\<lambda>_ _ i. if i = 0 then 2 else 3),
      ti_datakind = (\<lambda>_ _. (True, DataIsMember)),
      ti_offset = (\<lambda>_ t. (True, if t = 3 then 8 else 0)),
      ti_basetype = (\<lambda>_ t. if t = 4 then (True, 7) else (False, 0)),
      dh_memory = (\<lambda>a. if a = 4096 then Some 42 else if a = 4105 then Some 16
          else if 4096 \<le> a \<and> a < 4112 then Some 0 else None),
      dh_c_string = (\<lambda>_. None), dh_std_string = (\<lambda>_. None), dh_float = (\<lambda>_. []), dh_double = (\<lambda>_. [])\<rparr>"

definition demo_variable :: SYMBOL_INFO where
  "demo_variable = \<lparr>si_TypeIndex = 1, si_Size = 16, si_ModBase = 0, si_Flags = 0x80, si_Address = 4096,
     si_Tag = SymTagData, si_Name = ''head''\<rparr>"

definition no_symbols :: dumper where
  "no_symbols = \<lparr>du_symbols = {}, du_details = [], du_text = []\<rparr>"

lemma demo_symbols_ok: "dh_ok demo_symbols"
  by (simp add: dh_ok_def demo_symbols_def CHILD_IDS_def VALUE_BUFFER_def)


end
