(* ===== verification/CrashReport.thy ===== *)
theory CrashReport
  imports Symbols Startup
begin

text \<open>
  The crash report: the rest of \<^verbatim>\<open>WheatyExceptionReport.cpp\<close>, for a process of 64 bits. What Windows
  returns is an argument: the version of the system, the registry, the modules in memory, the frames of a
  stack. The report is a text that grows; a text that does not fit the buffer it is formatted in is
  undefined.
\<close>

section \<open>Names and texts\<close>

definition MAX_PATH :: nat where "MAX_PATH = 260"
definition CRLF :: string where "CRLF = [CHR 0x0D, CHR 0x0A]"
definition BACKSLASH :: char where "BACKSLASH = CHR 0x5C"

text \<open>\<^verbatim>\<open>sprintf\<close> into an array of \<open>n\<close> characters.\<close>

definition sprintf :: "nat \<Rightarrow> string \<Rightarrow> string option" where
  "sprintf n text = (if length text + 1 > n then None else Some text)"

text \<open>\<^verbatim>\<open>%0nX\<close>.\<close>

definition hex_padded :: "nat \<Rightarrow> nat \<Rightarrow> string" where
  "hex_padded n v = (let t = hex_number v in replicate (n - length t) CHR ''0'' @ t)"

definition ErrorMessage :: "(u32 \<Rightarrow> string option) \<Rightarrow> u32 \<Rightarrow> string" where
  "ErrorMessage format_message dw =
     (case format_message dw of Some text \<Rightarrow> text | None \<Rightarrow> ''Unknown error: '' @ digits (unat dw))"

text \<open>\<^verbatim>\<open>_tcsrchr(path, '\\')\<close>: what is before the last backslash and what is after it.\<close>

definition split_path :: "string \<Rightarrow> (string \<times> string) option" where
  "split_path path =
     (case dropWhile (\<lambda>c. c \<noteq> BACKSLASH) (rev path) of
        [] \<Rightarrow> None
      | _ # folder \<Rightarrow> Some (rev folder, rev (takeWhile (\<lambda>c. c \<noteq> BACKSLASH) (rev path))))"

record systime =
  st_day :: u16
  st_month :: u16
  st_year :: u16
  st_hour :: u16
  st_minute :: u16
  st_second :: u16

definition crash_folder :: "string \<Rightarrow> string option" where
  "crash_folder folder = sprintf MAX_PATH (folder @ [BACKSLASH] @ ''Crashes'')"

definition report_name :: "string \<Rightarrow> string \<Rightarrow> string \<Rightarrow> systime \<Rightarrow> string \<Rightarrow> string option" where
  "report_name folder hash program t extension =
     sprintf MAX_PATH (folder @ [BACKSLASH] @ hash @ ''_'' @ program @ ''_['' @ digits (unat (st_day t)) @ ''-'' @
       digits (unat (st_month t)) @ ''_'' @ digits (unat (st_hour t)) @ ''-'' @ digits (unat (st_minute t)) @ ''-'' @
       digits (unat (st_second t)) @ '']'' @ extension)"

section \<open>The system\<close>

text \<open>
  \<open>key\<close> is whether the key of the processor could be opened, \<open>value\<close> what the query returned. A name that
  fills the array is left without its terminator, and printing it is undefined.
\<close>

definition GetProcessorName :: "bool \<Rightarrow> string option \<Rightarrow> nat \<Rightarrow> string option option" where
  "GetProcessorName key value maxcount =
     (if \<not> key then Some None
      else case value of
        None \<Rightarrow> Some None
      | Some szTmp \<Rightarrow>
          let psz = dropWhile isspace szTmp in
          if length psz \<ge> maxcount then None else Some (Some psz))"

record osversion =
  os_PlatformId :: u32
  os_MajorVersion :: u32
  os_MinorVersion :: u32
  os_BuildNumber :: u32
  os_CSDVersion :: string
  os_SuiteMask :: u16
  os_ProductType :: u8

definition VER_PLATFORM_WIN32_NT :: u32 where "VER_PLATFORM_WIN32_NT = 2"
definition VER_NT_WORKSTATION :: u8 where "VER_NT_WORKSTATION = 1"
definition VER_NT_SERVER :: u8 where "VER_NT_SERVER = 3"
definition VER_SUITE_ENTERPRISE :: u16 where "VER_SUITE_ENTERPRISE = 0x0002"
definition VER_SUITE_EMBEDDEDNT :: u16 where "VER_SUITE_EMBEDDEDNT = 0x0040"
definition VER_SUITE_DATACENTER :: u16 where "VER_SUITE_DATACENTER = 0x0080"
definition VER_SUITE_PERSONAL :: u16 where "VER_SUITE_PERSONAL = 0x0200"
definition VER_SUITE_BLADE :: u16 where "VER_SUITE_BLADE = 0x0400"

text \<open>The family of the product, the edition, and the text of the version.\<close>

definition windows_family :: "osversion \<Rightarrow> string" where
  "windows_family osvi =
     (if os_MajorVersion osvi = 6 then
        if os_ProductType osvi = VER_NT_WORKSTATION then
          if os_MinorVersion osvi = 2 then ''Windows 8 ''
          else if os_MinorVersion osvi = 1 then ''Windows 7 '' else ''Windows Vista ''
        else if os_MinorVersion osvi = 2 then ''Windows Server 2012 ''
        else if os_MinorVersion osvi = 1 then ''Windows Server 2008 R2 '' else ''Windows Server 2008 ''
      else if os_MajorVersion osvi = 5 \<and> os_MinorVersion osvi = 2 then ''Microsoft Windows Server 2003 ''
      else if os_MajorVersion osvi = 5 \<and> os_MinorVersion osvi = 1 then ''Microsoft Windows XP ''
      else if os_MajorVersion osvi = 5 \<and> os_MinorVersion osvi = 0 then ''Microsoft Windows 2000 ''
      else if os_MajorVersion osvi \<le> 4 then ''Microsoft Windows NT '' else [])"

definition windows_edition :: "osversion \<Rightarrow> string" where
  "windows_edition osvi =
     (if os_ProductType osvi = VER_NT_WORKSTATION then
        if os_MajorVersion osvi = 4 then ''Workstation 4.0 ''
        else if os_SuiteMask osvi AND VER_SUITE_PERSONAL \<noteq> 0 then ''Home Edition ''
        else if os_SuiteMask osvi AND VER_SUITE_EMBEDDEDNT \<noteq> 0 then ''Embedded '' else ''Professional ''
      else if os_ProductType osvi = VER_NT_SERVER then
        if os_MajorVersion osvi = 5 \<and> os_MinorVersion osvi = 2 then
          if os_SuiteMask osvi AND VER_SUITE_DATACENTER \<noteq> 0 then ''Datacenter Edition ''
          else if os_SuiteMask osvi AND VER_SUITE_ENTERPRISE \<noteq> 0 then ''Enterprise Edition ''
          else if os_SuiteMask osvi = VER_SUITE_BLADE then ''Web Edition '' else ''Standard Edition ''
        else if os_MajorVersion osvi = 5 \<and> os_MinorVersion osvi = 0 then
          if os_SuiteMask osvi AND VER_SUITE_DATACENTER \<noteq> 0 then ''Datacenter Server ''
          else if os_SuiteMask osvi AND VER_SUITE_ENTERPRISE \<noteq> 0 then ''Advanced Server '' else ''Server ''
        else if os_SuiteMask osvi AND VER_SUITE_ENTERPRISE \<noteq> 0 then ''Server 4.0, Enterprise Edition ''
        else ''Server 4.0 ''
      else [])"

definition version_text :: "osversion \<Rightarrow> string" where
  "version_text osvi =
     ''(Version '' @ int_text (sint (os_MajorVersion osvi)) @ ''.'' @ int_text (sint (os_MinorVersion osvi)) @
     '', Build '' @ int_text (sint (os_BuildNumber osvi AND 0xFFFF)) @ '')''"

text \<open>\<^verbatim>\<open>_tcsicmp\<close> on letters without accents.\<close>

definition lower_char :: "char \<Rightarrow> char" where
  "lower_char c = (if 65 \<le> (of_char c :: nat) \<and> (of_char c :: nat) \<le> 90 then char_of ((of_char c :: nat) + 32) else c)"

definition same_letters :: "string \<Rightarrow> string \<Rightarrow> bool" where
  "same_letters a b \<longleftrightarrow> map lower_char a = map lower_char b"

text \<open>\<open>sp6a\<close>: the registry has the key of the later service pack. The array \<^verbatim>\<open>wszTmp\<close> has 128 places.\<close>

definition windows_pack :: "bool \<Rightarrow> osversion \<Rightarrow> string option" where
  "windows_pack sp6a osvi =
     (if os_MajorVersion osvi = 4 \<and> same_letters (os_CSDVersion osvi) ''Service Pack 6''
      then sprintf 128 ((if sp6a then ''Service Pack 6a'' else os_CSDVersion osvi) @ '' '' @ version_text osvi)
      else sprintf 128 (if os_CSDVersion osvi = [] then version_text osvi
             else os_CSDVersion osvi @ '' '' @ version_text osvi))"

text \<open>\<open>query True\<close> is \<^verbatim>\<open>GetVersionEx\<close> with the longer structure, \<open>query False\<close> with the shorter.\<close>

definition GetWindowsVersion :: "(bool \<Rightarrow> osversion option) \<Rightarrow> bool \<Rightarrow> string option option" where
  "GetWindowsVersion query sp6a =
     (case (case query True of Some osvi \<Rightarrow> Some (True, osvi) | None \<Rightarrow> map_option (Pair False) (query False)) of
        None \<Rightarrow> Some None
      | Some (bOsVersionInfoEx, osvi) \<Rightarrow>
          if os_PlatformId osvi = VER_PLATFORM_WIN32_NT then do {
            pack \<leftarrow> windows_pack sp6a osvi;
            Some (Some (windows_family osvi @ (if bOsVersionInfoEx then windows_edition osvi else []) @ pack))
          }
          else do {
            pack \<leftarrow> sprintf 128 (os_CSDVersion osvi @ '' '' @ version_text osvi);
            Some (Some pack)
          })"

section \<open>The exception\<close>

definition exception_names :: "(u32 \<times> string) list" where
  "exception_names =
     [(0xC0000005, ''ACCESS_VIOLATION''), (0x80000002, ''DATATYPE_MISALIGNMENT''), (0x80000003, ''BREAKPOINT''),
      (0x80000004, ''SINGLE_STEP''), (0xC000008C, ''ARRAY_BOUNDS_EXCEEDED''), (0xC000008D, ''FLT_DENORMAL_OPERAND''),
      (0xC000008E, ''FLT_DIVIDE_BY_ZERO''), (0xC000008F, ''FLT_INEXACT_RESULT''), (0xC0000090, ''FLT_INVALID_OPERATION''),
      (0xC0000091, ''FLT_OVERFLOW''), (0xC0000092, ''FLT_STACK_CHECK''), (0xC0000093, ''FLT_UNDERFLOW''),
      (0xC0000094, ''INT_DIVIDE_BY_ZERO''), (0xC0000095, ''INT_OVERFLOW''), (0xC0000096, ''PRIV_INSTRUCTION''),
      (0xC0000006, ''IN_PAGE_ERROR''), (0xC000001D, ''ILLEGAL_INSTRUCTION''), (0xC0000025, ''NONCONTINUABLE_EXCEPTION''),
      (0xC00000FD, ''STACK_OVERFLOW''), (0xC0000026, ''INVALID_DISPOSITION''), (0x80000001, ''GUARD_PAGE''),
      (0xC0000008, ''INVALID_HANDLE'')]"

text \<open>\<open>szBuffer\<close> is the static buffer: a code without a message leaves what an earlier call put there.\<close>

definition GetExceptionString :: "(u32 \<Rightarrow> string option) \<Rightarrow> u32 \<Rightarrow> string \<Rightarrow> string \<times> string" where
  "GetExceptionString ntdll dwCode szBuffer =
     (case map_of exception_names dwCode of
        Some name \<Rightarrow> (name, szBuffer)
      | None \<Rightarrow> let szBuffer = (case ntdll dwCode of Some text \<Rightarrow> take 511 text | None \<Rightarrow> szBuffer) in (szBuffer, szBuffer))"

section \<open>Where an address is\<close>

record section_header =
  sh_VirtualAddress :: u32
  sh_SizeOfRawData :: u32
  sh_VirtualSize :: u32

text \<open>The modules of the process: the base of an address, a module's name and its section table.\<close>

record modules =
  mo_query :: "u64 \<Rightarrow> u64 option"
  mo_name :: "u64 \<Rightarrow> string option"
  mo_sections :: "u64 \<Rightarrow> section_header list"

definition section_start :: "section_header \<Rightarrow> u64" where
  "section_start h = ucast (sh_VirtualAddress h)"

definition section_end :: "section_header \<Rightarrow> u64" where
  "section_end h = section_start h + ucast (max (sh_SizeOfRawData h) (sh_VirtualSize h))"

fun section_loop :: "u64 \<Rightarrow> section_header list \<Rightarrow> u32 \<Rightarrow> (u32 \<times> u64) option" where
  "section_loop rva [] i = None"
| "section_loop rva (h # hs) i =
     (if section_start h \<le> rva \<and> rva \<le> section_end h then Some (i + 1, rva - section_start h)
      else section_loop rva hs (i + 1))"

text \<open>\<open>out\<close> holds the module, section and offset of the caller, which a failure leaves as they are.\<close>

definition GetLogicalAddress ::
    "modules \<Rightarrow> u64 \<Rightarrow> nat \<Rightarrow> string \<times> u32 \<times> u64 \<Rightarrow> bool \<times> string \<times> u32 \<times> u64" where
  "GetLogicalAddress mo addr len out =
     (case mo_query mo addr of
        None \<Rightarrow> (False, out)
      | Some hMod \<Rightarrow>
          if hMod = 0 then (False, out)
          else case mo_name mo hMod of
            None \<Rightarrow> (False, out)
          | Some name \<Rightarrow>
              let szModule = take (len - 1) name in
              (case section_loop (addr - hMod) (mo_sections mo hMod) 0 of
                 Some (sect, offset) \<Rightarrow> (True, szModule, sect, offset)
               | None \<Rightarrow> (False, szModule, snd out)))"

section \<open>The stack\<close>

record frame =
  fr_pc :: u64
  fr_frame :: u64
  fr_stack :: u64

record registers =
  cx_Rax :: u64
  cx_Rbx :: u64
  cx_Rcx :: u64
  cx_Rdx :: u64
  cx_Rsi :: u64
  cx_Rdi :: u64
  cx_R8 :: u64
  cx_R9 :: u64
  cx_R10 :: u64
  cx_R11 :: u64
  cx_R12 :: u64
  cx_R13 :: u64
  cx_R14 :: u64
  cx_R15 :: u64
  cx_Rip :: u64
  cx_Rsp :: u64
  cx_Rbp :: u64
  cx_SegCs :: u16
  cx_SegSs :: u16
  cx_SegDs :: u16
  cx_SegEs :: u16
  cx_SegFs :: u16
  cx_SegGs :: u16
  cx_EFlags :: u32

text \<open>
  The process as the debugging library shows it: the frames of a stack until the walk fails, the symbol
  and the source line at an address, the variables of a frame; and the threads of the system with their
  owners, \<open>None\<close> when there is no snapshot, and a thread's registers, when it can be opened and read.
\<close>

record process =
  pr_dbghelp :: dbghelp
  pr_modules :: modules
  pr_walk :: "registers \<Rightarrow> u32 option \<Rightarrow> frame list"
  pr_symbol :: "u64 \<Rightarrow> (string \<times> u64) option"
  pr_line :: "u64 \<Rightarrow> (string \<times> u32) option"
  pr_variables :: "frame \<Rightarrow> SYMBOL_INFO list"
  pr_id :: u32
  pr_threads :: "(u32 \<times> u32) list option"
  pr_registers :: "u32 \<Rightarrow> registers option"

record report =
  rp_text :: string
  rp_dumper :: dumper

text \<open>\<^verbatim>\<open>WheatyExceptionReport::_tprintf\<close>.\<close>

definition tprintf :: "string \<Rightarrow> report \<Rightarrow> report option" where
  "tprintf text r = do {
     text \<leftarrow> sprintf WER_LARGE_BUFFER_SIZE text;
     Some (r\<lparr>rp_text := rp_text r @ text\<rparr>)
   }"

definition print_variable :: "process \<Rightarrow> u64 \<Rightarrow> SYMBOL_INFO \<Rightarrow> report \<Rightarrow> report option" where
  "print_variable pr stack pSymInfo r = do {
     (text, d) \<leftarrow> EnumerateSymbolsCallback (pr_dbghelp pr) pSymInfo stack (rp_dumper r);
     tprintf text (r\<lparr>rp_dumper := d\<rparr>)
   }"

fun print_variables :: "process \<Rightarrow> u64 \<Rightarrow> SYMBOL_INFO list \<Rightarrow> report \<Rightarrow> report option" where
  "print_variables pr stack [] r = Some r"
| "print_variables pr stack (v # vs) r = do { r \<leftarrow> print_variable pr stack v r; print_variables pr stack vs r }"

definition frame_place :: "process \<Rightarrow> frame \<Rightarrow> string" where
  "frame_place pr sf =
     (case pr_symbol pr (fr_pc sf) of
        Some (Name, symDisplacement) \<Rightarrow> Name @ ''+'' @ hex_number (unat symDisplacement)
      | None \<Rightarrow>
          let (_, szModule, sect, offset) = GetLogicalAddress (pr_modules pr) (fr_pc sf) MAX_PATH ([], 0, 0)
          in hex_padded 4 (unat sect) @ '':'' @ hex_padded 16 (unat offset) @ '' '' @ szModule)"

definition frame_line :: "process \<Rightarrow> frame \<Rightarrow> string" where
  "frame_line pr sf =
     (case pr_line pr (fr_pc sf) of
        Some (FileName, LineNumber) \<Rightarrow> ''  '' @ FileName @ '' line '' @ digits (unat LineNumber) | None \<Rightarrow> [])"

fun stack_loop :: "process \<Rightarrow> bool \<Rightarrow> frame list \<Rightarrow> report \<Rightarrow> report option" where
  "stack_loop pr bWriteVariables [] r = Some r"
| "stack_loop pr bWriteVariables (sf # rest) r =
     (if fr_frame sf = 0 then Some r
      else do {
        r \<leftarrow> tprintf (hex_padded 16 (unat (fr_pc sf)) @ ''  '' @ hex_padded 16 (unat (fr_frame sf)) @ ''  '') r;
        r \<leftarrow> tprintf (frame_place pr sf) r;
        r \<leftarrow> tprintf (frame_line pr sf) r;
        r \<leftarrow> tprintf CRLF r;
        r \<leftarrow> (if bWriteVariables then do {
               r \<leftarrow> print_variables pr (fr_stack sf) (pr_variables pr sf) r;
               tprintf CRLF r
             } else Some r);
        stack_loop pr bWriteVariables rest r
      })"

definition WriteStackDetails :: "process \<Rightarrow> registers \<Rightarrow> bool \<Rightarrow> u32 option \<Rightarrow> report \<Rightarrow> report option" where
  "WriteStackDetails pr pContext bWriteVariables pThreadHandle r = do {
     r \<leftarrow> tprintf (CRLF @ ''Call stack:'' @ CRLF) r;
     r \<leftarrow> tprintf (''Address   Frame     Function      SourceFile'' @ CRLF) r;
     stack_loop pr bWriteVariables (pr_walk pr pContext pThreadHandle) r
   }"

fun threads_loop :: "process \<Rightarrow> bool \<Rightarrow> (u32 \<times> u32) list \<Rightarrow> report \<Rightarrow> report option" where
  "threads_loop pr bWriteVariables [] r = Some r"
| "threads_loop pr bWriteVariables ((owner, thread) # rest) r = do {
     r \<leftarrow> (if owner = pr_id pr then
            (case pr_registers pr thread of
               Some context \<Rightarrow> WriteStackDetails pr context bWriteVariables (Some thread) r
             | None \<Rightarrow> Some r)
          else Some r);
     threads_loop pr bWriteVariables rest r
   }"

definition printTracesForAllThreads :: "process \<Rightarrow> bool \<Rightarrow> report \<Rightarrow> report option" where
  "printTracesForAllThreads pr bWriteVariables r =
     (case pr_threads pr of None \<Rightarrow> Some r | Some threads \<Rightarrow> threads_loop pr bWriteVariables threads r)"

section \<open>The report\<close>

text \<open>
  The machine: the messages of the system and of its kernel library, the two texts the build puts into
  \<^verbatim>\<open>revision.h\<close>, the answers about the system, and the numbers of processors and bytes of memory. A number
  of 64 bits given to \<^verbatim>\<open>%d\<close> or \<^verbatim>\<open>%08X\<close> is printed by its lower half.
\<close>

record machine =
  ma_message :: "u32 \<Rightarrow> string option"
  ma_ntdll :: "u32 \<Rightarrow> string option"
  ma_fullversion :: string
  ma_hash :: string
  ma_key :: bool
  ma_processor :: "string option"
  ma_version :: "bool \<Rightarrow> osversion option"
  ma_sp6a :: bool
  ma_processors :: u32
  ma_physical :: u64
  ma_available :: u64
  ma_pagefile :: u64

definition kilobytes :: "u64 \<Rightarrow> string" where
  "kilobytes v = int_text (sint (ucast (v div 0x400) :: u32))"

definition PrintSystemInfo :: "machine \<Rightarrow> report \<Rightarrow> report option" where
  "PrintSystemInfo ma r = do {
     r \<leftarrow> tprintf (''//====================================================='' @ CRLF) r;
     processor \<leftarrow> GetProcessorName (ma_key ma) (ma_processor ma) 1024;
     r \<leftarrow> tprintf (''*** Hardware ***'' @ CRLF @ ''Processor: '' @
            (case processor of Some name \<Rightarrow> name | None \<Rightarrow> ''<unknown>'') @ CRLF @
            ''Number Of Processors: '' @ int_text (sint (ma_processors ma)) @ CRLF @
            ''Physical Memory: '' @ kilobytes (ma_physical ma) @ '' KB (Available: '' @ kilobytes (ma_available ma) @
            '' KB)'' @ CRLF @ ''Commit Charge Limit: '' @ kilobytes (ma_pagefile ma) @ '' KB'' @ CRLF) r;
     version \<leftarrow> GetWindowsVersion (ma_version ma) (ma_sp6a ma);
     (case version of
        Some text \<Rightarrow> tprintf (CRLF @ ''*** Operation System ***'' @ CRLF @ text @ CRLF) r
      | None \<Rightarrow> tprintf (CRLF @ ''*** Operation System:'' @ CRLF @ ''<unknown>'' @ CRLF) r)
   }"

text \<open>
  The format has fourteen conversions and the call passes thirteen numbers: the last conversion reads
  whatever follows the arguments, here \<open>beyond\<close>.
\<close>

definition register_labels :: "string list" where
  "register_labels = [''RAX:'', ''RBX:'', ''RCX:'', ''RDX:'', ''RSI:'', ''RDI:'', ''R8: '', ''R9: '', ''R10:'', ''R11:'',
     ''R12:'', ''R13:'', ''R14:'', ''R15:'']"

definition register_arguments :: "registers \<Rightarrow> u64 list" where
  "register_arguments pCtx =
     [cx_Rax pCtx, cx_Rbx pCtx, cx_Rcx pCtx, cx_Rdx pCtx, cx_Rsi pCtx, cx_Rdi pCtx, cx_R9 pCtx, cx_R10 pCtx,
      cx_R11 pCtx, cx_R12 pCtx, cx_R13 pCtx, cx_R14 pCtx, cx_R15 pCtx]"

definition general_registers :: "u64 \<Rightarrow> registers \<Rightarrow> string" where
  "general_registers beyond pCtx =
     concat (map2 (\<lambda>label v. label @ hex_padded 16 (unat v) @ CRLF) register_labels
       (register_arguments pCtx @ [beyond]))"

definition segment :: "u16 \<Rightarrow> string" where
  "segment v = hex_padded 4 (unat v)"

definition low_half :: "nat \<Rightarrow> u64 \<Rightarrow> string" where
  "low_half n v = hex_padded n (unat (ucast v :: u32))"

definition print_registers :: "u64 \<Rightarrow> registers \<Rightarrow> report \<Rightarrow> report option" where
  "print_registers beyond pCtx r = do {
     r \<leftarrow> tprintf (CRLF @ ''Registers:'' @ CRLF) r;
     r \<leftarrow> tprintf (general_registers beyond pCtx) r;
     r \<leftarrow> tprintf (''CS:RIP:'' @ segment (cx_SegCs pCtx) @ '':'' @ hex_padded 16 (unat (cx_Rip pCtx)) @ CRLF) r;
     r \<leftarrow> tprintf (''SS:RSP:'' @ segment (cx_SegSs pCtx) @ '':'' @ low_half 16 (cx_Rsp pCtx) @ ''  RBP:'' @
            low_half 8 (cx_Rbp pCtx) @ CRLF) r;
     r \<leftarrow> tprintf (''DS:'' @ segment (cx_SegDs pCtx) @ ''  ES:'' @ segment (cx_SegEs pCtx) @ ''  FS:'' @
            segment (cx_SegFs pCtx) @ ''  GS:'' @ segment (cx_SegGs pCtx) @ CRLF) r;
     tprintf (''Flags:'' @ hex_padded 8 (unat (cx_EFlags pCtx)) @ CRLF) r
   }"

text \<open>
  \<open>unset\<close> is what the three local variables of the fault's place hold before they are set; the result of
  the search is not looked at. \<open>failed\<close> is the error of the symbol library, if it did not start.
\<close>

record exception =
  ex_code :: u32
  ex_address :: u64
  ex_context :: registers

definition fault_text :: "process \<Rightarrow> machine \<Rightarrow> string \<times> u32 \<times> u64 \<Rightarrow> exception \<Rightarrow> string \<times> string" where
  "fault_text pr ma unset e =
     (let (_, szFaultingModule, sect, offset) = GetLogicalAddress (pr_modules pr) (ex_address e) MAX_PATH unset
      in (''Exception code: '' @ hex_padded 8 (unat (ex_code e)) @ '' '' @ fst (GetExceptionString (ma_ntdll ma) (ex_code e) []) @ CRLF,
          ''Fault address:  '' @ hex_padded 16 (unat (ex_address e)) @ '' '' @ hex_padded 2 (unat sect) @ '':'' @
            hex_padded 16 (unat offset) @ '' '' @ szFaultingModule @ CRLF))"

definition GenerateExceptionReport ::
    "process \<Rightarrow> machine \<Rightarrow> systime \<Rightarrow> string \<times> u32 \<times> u64 \<Rightarrow> u64 \<Rightarrow> u32 option \<Rightarrow> exception \<Rightarrow> report \<Rightarrow> report option" where
  "GenerateExceptionReport pr ma t unset beyond failed e r = do {
     r \<leftarrow> tprintf (''Revision: '' @ ma_fullversion ma @ CRLF) r;
     r \<leftarrow> tprintf (''Date '' @ digits (unat (st_day t)) @ '':'' @ digits (unat (st_month t)) @ '':'' @
            digits (unat (st_year t)) @ ''. Time '' @ digits (unat (st_hour t)) @ '':'' @ digits (unat (st_minute t)) @
            '' '' @ CRLF) r;
     r \<leftarrow> PrintSystemInfo ma r;
     r \<leftarrow> tprintf (CRLF @ ''//====================================================='' @ CRLF) r;
     let (code, place) = fault_text pr ma unset e;
     r \<leftarrow> tprintf code r;
     r \<leftarrow> tprintf place r;
     r \<leftarrow> print_registers beyond (ex_context e) r;
     r \<leftarrow> (case failed of
            None \<Rightarrow> Some r
          | Some error \<Rightarrow> tprintf ([CHR 0x0A, CHR 0x0D] @ ''CRITICAL ERROR.'' @ [CHR 0x0A, CHR 0x0D] @
              '' Couldn'' @ [CHR 0x27] @ ''t initialize the symbol handler for process.'' @ [CHR 0x0A, CHR 0x0D] @ ''Error ['' @ ErrorMessage (ma_message ma) error @
              ''].'' @ [CHR 0x0A, CHR 0x0D, CHR 0x0A, CHR 0x0D]) r);
     r \<leftarrow> WriteStackDetails pr (ex_context e) False None r;
     r \<leftarrow> printTracesForAllThreads pr False r;
     r \<leftarrow> tprintf (''========================'' @ CRLF) r;
     r \<leftarrow> tprintf (''Local Variables And Parameters'' @ CRLF) r;
     r \<leftarrow> WriteStackDetails pr (ex_context e) True None r;
     r \<leftarrow> printTracesForAllThreads pr True r;
     tprintf CRLF r
   }"

text \<open>
  The filter of unhandled exceptions. \<open>created\<close> and \<open>exists\<close> say of a folder whether it was made and
  whether it was there; \<open>opened\<close> gives the contents of a file that could be opened. A failed
  \<^verbatim>\<open>CreateFile\<close> returns a handle that is not zero, so the code writes to it, and the text is lost.
  The result is the filter's, with the dump that was written and the contents of the report file;
  \<open>previous\<close> is what the filter before it returns.
\<close>

definition EXCEPTION_EXECUTE_HANDLER :: i32 where "EXCEPTION_EXECUTE_HANDLER = 1"

record crash_files =
  cf_created :: "string \<Rightarrow> bool"
  cf_exists :: "string \<Rightarrow> bool"
  cf_opened :: "string \<Rightarrow> string option"

definition WheatyUnhandledExceptionFilter ::
    "process \<Rightarrow> machine \<Rightarrow> crash_files \<Rightarrow> string \<Rightarrow> systime \<Rightarrow> string \<times> u32 \<times> u64 \<Rightarrow> u64 \<Rightarrow> u32 option \<Rightarrow> i32 option \<Rightarrow>
     exception \<Rightarrow> dumper \<Rightarrow> (i32 \<times> string option \<times> (string \<times> string) option) option" where
  "WheatyUnhandledExceptionFilter pr ma cf module t unset beyond failed previous e d =
     (case split_path module of
        None \<Rightarrow> Some (0, None, None)
      | Some (folder, program) \<Rightarrow> do {
          crash \<leftarrow> crash_folder folder;
          if \<not> cf_created cf crash \<and> \<not> cf_exists cf crash then Some (0, None, None)
          else do {
            dump \<leftarrow> report_name crash (ma_hash ma) program t ''.dmp'';
            log \<leftarrow> report_name crash (ma_hash ma) program t ''.txt'';
            r \<leftarrow> GenerateExceptionReport pr ma t unset beyond failed e \<lparr>rp_text = [], rp_dumper = d\<rparr>;
            Some (case previous of Some result \<Rightarrow> result | None \<Rightarrow> EXCEPTION_EXECUTE_HANDLER,
                  map_option (\<lambda>_. dump) (cf_opened cf dump),
                  map_option (\<lambda>old. (log, old @ rp_text r)) (cf_opened cf log))
          }
        })"

text \<open>
  The object of the class: its constructor installs a filter, \<open>own\<close>, and keeps the one that was there,
  its destructor installs that again. The state is \<^verbatim>\<open>m_previousFilter\<close> and the filter that is
  installed, \<open>None\<close> for the one of the system.
\<close>

definition WheatyExceptionReport_new :: "'f \<Rightarrow> 'f option \<Rightarrow> 'f option \<times> 'f option" where
  "WheatyExceptionReport_new own installed = (installed, Some own)"

definition WheatyExceptionReport_delete :: "'f option \<times> 'f option \<Rightarrow> dumper \<Rightarrow> 'f option \<times> dumper" where
  "WheatyExceptionReport_delete st d =
     (let (m_previousFilter, installed) = st
      in ((if m_previousFilter \<noteq> None then m_previousFilter else installed), ClearSymbols d))"

text \<open>A filter of the program is restored; if there was none, the one of the deleted object stays installed.\<close>

lemma filter_after_delete:
  "fst (WheatyExceptionReport_delete (WheatyExceptionReport_new own installed) d) =
     (case installed of Some f \<Rightarrow> Some f | None \<Rightarrow> Some own)"
  by (simp add: WheatyExceptionReport_new_def WheatyExceptionReport_delete_def split: option.split)

section \<open>What the report says\<close>

text \<open>
  Sections that keep a distance: an address in one of them is found there, with its distance from the start.
\<close>

definition apart :: "section_header list \<Rightarrow> bool" where
  "apart hs \<longleftrightarrow> (\<forall>i < length hs. \<forall>j < length hs. i \<noteq> j \<longrightarrow>
     section_end (hs ! i) < section_start (hs ! j) \<or> section_end (hs ! j) < section_start (hs ! i))"

lemma section_loop_first:
  assumes "i < length hs" "section_start (hs ! i) \<le> rva" "rva \<le> section_end (hs ! i)"
    and "\<And>j. j < i \<Longrightarrow> \<not> (section_start (hs ! j) \<le> rva \<and> rva \<le> section_end (hs ! j))"
  shows "section_loop rva hs k = Some (k + word_of_nat i + 1, rva - section_start (hs ! i))"
  using assms
proof (induction hs arbitrary: i k)
  case (Cons h hs)
  show ?case
  proof (cases i)
    case 0
    then show ?thesis using Cons.prems(2,3) by simp
  next
    case (Suc i')
    have "section_loop rva hs (k + 1) = Some (k + 1 + word_of_nat i' + 1, rva - section_start (hs ! i'))"
      using Cons.prems Suc by (intro Cons.IH) force+
    moreover have "\<not> (section_start h \<le> rva \<and> rva \<le> section_end h)" using Cons.prems(4) [of 0] Suc by simp
    ultimately show ?thesis using Suc by (auto simp: algebra_simps)
  qed
qed simp

lemma section_found:
  assumes "apart hs" "i < length hs" "section_start (hs ! i) \<le> rva" "rva \<le> section_end (hs ! i)"
  shows "section_loop rva hs 0 = Some (word_of_nat i + 1, rva - section_start (hs ! i))"
proof -
  have "\<not> (section_start (hs ! j) \<le> rva \<and> rva \<le> section_end (hs ! j))" if "j < i" for j
  proof -
    have "section_end (hs ! i) < section_start (hs ! j) \<or> section_end (hs ! j) < section_start (hs ! i)"
      using assms(1,2) that unfolding apart_def by simp
    then show ?thesis using assms(3,4) by auto
  qed
  then show ?thesis using section_loop_first [OF assms(2-4), of 0] by simp
qed

text \<open>The end counts as inside: the first address of a section that follows at once is found in the one before.\<close>

lemma adjacent_section:
  assumes "section_start h2 = section_end h1" "section_start h1 \<le> section_end h1"
  shows "section_loop (section_start h2) (h1 # h2 # hs) 0 = Some (1, section_start h2 - section_start h1)"
  using assms by simp

text \<open>The report does not show R8: its label has the contents of R9, and so on to R15.\<close>

lemma registers_shifted:
  "general_registers beyond (pCtx\<lparr>cx_R8 := v\<rparr>) = general_registers beyond pCtx"
  "\<exists>before after. general_registers beyond pCtx = before @ ''R8: '' @ hex_padded 16 (unat (cx_R9 pCtx)) @ CRLF @ after"
proof -
  show "general_registers beyond (pCtx\<lparr>cx_R8 := v\<rparr>) = general_registers beyond pCtx"
    by (simp add: general_registers_def register_arguments_def)
  have "general_registers beyond pCtx =
      concat (map2 (\<lambda>label v. label @ hex_padded 16 (unat v) @ CRLF) (take 6 register_labels) (take 6 (register_arguments pCtx))) @
      ''R8: '' @ hex_padded 16 (unat (cx_R9 pCtx)) @ CRLF @
      concat (map2 (\<lambda>label v. label @ hex_padded 16 (unat v) @ CRLF) (drop 7 register_labels)
        (drop 7 (register_arguments pCtx) @ [beyond]))"
    by (simp add: general_registers_def register_arguments_def register_labels_def)
  then show "\<exists>before after. general_registers beyond pCtx = before @ ''R8: '' @ hex_padded 16 (unat (cx_R9 pCtx)) @ CRLF @ after"
    by blast
qed

text \<open>The lines of a stack: one for each frame up to the first without a frame pointer.\<close>

definition frame_text :: "process \<Rightarrow> frame \<Rightarrow> string" where
  "frame_text pr sf = hex_padded 16 (unat (fr_pc sf)) @ ''  '' @ hex_padded 16 (unat (fr_frame sf)) @ ''  '' @
     frame_place pr sf @ frame_line pr sf @ CRLF"

lemma tprintf_fits: "length text < WER_LARGE_BUFFER_SIZE \<Longrightarrow> tprintf text r = Some (r\<lparr>rp_text := rp_text r @ text\<rparr>)"
  by (simp add: tprintf_def sprintf_def)

lemma stack_lines:
  assumes "\<forall>sf \<in> set frames. length (frame_text pr sf) < WER_LARGE_BUFFER_SIZE"
  shows "stack_loop pr False frames r =
    Some (r\<lparr>rp_text := rp_text r @ concat (map (frame_text pr) (takeWhile (\<lambda>sf. fr_frame sf \<noteq> 0) frames))\<rparr>)"
  using assms
proof (induction frames arbitrary: r)
  case (Cons sf frames)
  then have "length (frame_text pr sf) < WER_LARGE_BUFFER_SIZE" by simp
  then have "length (hex_padded 16 (unat (fr_pc sf)) @ ''  '' @ hex_padded 16 (unat (fr_frame sf)) @ ''  '') < WER_LARGE_BUFFER_SIZE"
    "length (frame_place pr sf) < WER_LARGE_BUFFER_SIZE" "length (frame_line pr sf) < WER_LARGE_BUFFER_SIZE"
    "length CRLF < WER_LARGE_BUFFER_SIZE" by (simp_all add: frame_text_def)
  with Cons show ?case by (simp add: tprintf_fits frame_text_def)
qed simp

end
