(* ===== verification/Platform.thy ===== *)
theory Platform
  imports Startup Sessions Symbols
begin

text \<open>
  What depends on the platform, and what ends the process: the console and the priority under Windows
  (\<^verbatim>\<open>AppenderConsole.cpp\<close>, \<^verbatim>\<open>ProcessPriority.h\<close>), the failed checks of
  \<^verbatim>\<open>Errors.cpp\<close>, the file with the number of the process and the test of an address in
  \<^verbatim>\<open>Util.cpp\<close>, and the text for an opcode in the log (\<^verbatim>\<open>Opcodes.h\<close>). What the system
  answers is an argument.
\<close>

unbundle bit_operations_syntax

section \<open>Colors of the console under Windows\<close>

definition FOREGROUND_BLUE :: u16 where "FOREGROUND_BLUE = 0x01"
definition FOREGROUND_GREEN :: u16 where "FOREGROUND_GREEN = 0x02"
definition FOREGROUND_RED :: u16 where "FOREGROUND_RED = 0x04"
definition FOREGROUND_INTENSITY :: u16 where "FOREGROUND_INTENSITY = 0x08"

definition WinColorFG :: "u16 list" where
  "WinColorFG =
     [0,
      FOREGROUND_RED,
      FOREGROUND_GREEN,
      FOREGROUND_RED OR FOREGROUND_GREEN,
      FOREGROUND_BLUE,
      FOREGROUND_RED OR FOREGROUND_BLUE,
      FOREGROUND_GREEN OR FOREGROUND_BLUE,
      FOREGROUND_RED OR FOREGROUND_GREEN OR FOREGROUND_BLUE,
      FOREGROUND_RED OR FOREGROUND_GREEN OR FOREGROUND_INTENSITY,
      FOREGROUND_RED OR FOREGROUND_INTENSITY,
      FOREGROUND_GREEN OR FOREGROUND_INTENSITY,
      FOREGROUND_BLUE OR FOREGROUND_INTENSITY,
      FOREGROUND_RED OR FOREGROUND_BLUE OR FOREGROUND_INTENSITY,
      FOREGROUND_GREEN OR FOREGROUND_BLUE OR FOREGROUND_INTENSITY,
      FOREGROUND_RED OR FOREGROUND_GREEN OR FOREGROUND_BLUE OR FOREGROUND_INTENSITY]"

text \<open>The state is the attribute of each console; a color outside the table is read past its end.\<close>

definition Windows_SetColor :: "bool \<Rightarrow> nat \<Rightarrow> (bool \<Rightarrow> u16) \<Rightarrow> (bool \<Rightarrow> u16) option" where
  "Windows_SetColor stdout_stream color attributes =
     (if color < length WinColorFG then Some (attributes(stdout_stream := WinColorFG ! color)) else None)"

definition Windows_ResetColor :: "bool \<Rightarrow> (bool \<Rightarrow> u16) \<Rightarrow> bool \<Rightarrow> u16" where
  "Windows_ResetColor stdout_stream attributes =
     attributes(stdout_stream := FOREGROUND_BLUE OR FOREGROUND_GREEN OR FOREGROUND_RED)"

text \<open>
  Both platforms show the same colors: the escape sequence of a terminal numbers them with red as its lowest
  bit, Windows with red as its third, and bold is intensity. Yellow alone has another number, 38, which is no
  color of a terminal.
\<close>

definition terminal_color :: "u16 \<Rightarrow> nat" where
  "terminal_color a = 30 + (if a AND FOREGROUND_RED \<noteq> 0 then 1 else 0) + (if a AND FOREGROUND_GREEN \<noteq> 0 then 2 else 0)
     + (if a AND FOREGROUND_BLUE \<noteq> 0 then 4 else 0)"

lemma colors_by_table:
  "list_all (\<lambda>color. (color = YELLOW \<or> UnixColorFG ! color = terminal_color (WinColorFG ! color)) \<and>
     (YELLOW \<le> color) = (WinColorFG ! color AND FOREGROUND_INTENSITY \<noteq> 0)) [0..<MaxColors] = True"
  by code_simp

lemma colors_agree:
  assumes "color < MaxColors"
  shows "color \<noteq> YELLOW \<Longrightarrow> UnixColorFG ! color = terminal_color (WinColorFG ! color)"
    and "(YELLOW \<le> color) = (WinColorFG ! color AND FOREGROUND_INTENSITY \<noteq> 0)"
  using colors_by_table assms by (auto simp: list_all_iff)

lemma yellow_differs: "(UnixColorFG ! YELLOW = 38 \<and> terminal_color (WinColorFG ! YELLOW) = 33) = True"
  by code_simp

lemma windows_color_defined:
  "(Windows_SetColor s color attributes = None) = (AppenderConsole_SetColor s color w = None)"
  by (simp add: Windows_SetColor_def AppenderConsole_SetColor_def WinColorFG_def UnixColorFG_def)

section \<open>Processors and priority under Windows\<close>

text \<open>
  \<^verbatim>\<open>GetProcessAffinityMask\<close> gives the processors of the process and of the system, if it succeeds;
  the two setters say whether they do.
\<close>

record windows =
  wi_affinity :: "(u64 \<times> u64) option"
  wi_set_affinity :: "u64 \<Rightarrow> bool"
  wi_set_class :: bool

text \<open>The result has the mask that is in force, if one was set. \<^verbatim>\<open>%x\<close> prints the lower half of a mask.\<close>

definition mask_text :: "u64 \<Rightarrow> string" where
  "mask_text m = hex_text (unat (ucast m :: u32))"

definition Windows_processors :: "windows \<Rightarrow> log_env \<Rightarrow> string \<Rightarrow> u32 \<Rightarrow> log \<Rightarrow> (u64 option \<times> log) option" where
  "Windows_processors wi env logChannel affinity l =
     (case wi_affinity wi of
        None \<Rightarrow> Some (None, l)
      | Some (appAff, sysAff) \<Rightarrow>
          let currentAffinity = ucast affinity AND appAff in
          if currentAffinity = 0 then do {
            l \<leftarrow> tc_log env logChannel LOG_LEVEL_ERROR
              (''Processors marked in UseProcessors bitmask (hex) '' @ hex_text (unat affinity) @
               '' are not accessible. Accessible processors bitmask (hex): '' @ mask_text appAff) l;
            Some (None, l)
          }
          else if wi_set_affinity wi currentAffinity then do {
            l \<leftarrow> tc_log env logChannel LOG_LEVEL_INFO (''Using processors (bitmask, hex): '' @ mask_text currentAffinity) l;
            Some (Some currentAffinity, l)
          }
          else do {
            l \<leftarrow> tc_log env logChannel LOG_LEVEL_ERROR (''Can't set used processors (hex): '' @ mask_text currentAffinity) l;
            Some (None, l)
          })"

definition Windows_priority :: "windows \<Rightarrow> log_env \<Rightarrow> string \<Rightarrow> log \<Rightarrow> log option" where
  "Windows_priority wi env logChannel l =
     (if wi_set_class wi then tc_log env logChannel LOG_LEVEL_INFO ''Process priority class set to HIGH'' l
      else tc_log env logChannel LOG_LEVEL_ERROR ''Can't set process priority class.'' l)"

definition Windows_SetProcessPriority ::
    "windows \<Rightarrow> log_env \<Rightarrow> config_mgr \<Rightarrow> string \<Rightarrow> log \<Rightarrow> (u64 option \<times> log) option" where
  "Windows_SetProcessPriority wi env m logChannel l =
     (let affinity = ConfigMgr_GetIntDefault ''UseProcessors'' 0 m;
          highPriority = ConfigMgr_GetBoolDefault ''ProcessPriority'' False m
      in do {
        (used, l) \<leftarrow> (if affinity > 0 then Windows_processors wi env logChannel affinity l else Some (None, l));
        l \<leftarrow> (if highPriority then Windows_priority wi env logChannel l else Some l);
        Some (used, l)
      })"

text \<open>The process only ever runs on processors it may use, and that the configuration names.\<close>

lemma windows_mask_accessible:
  assumes "Windows_SetProcessPriority wi env m logChannel l = Some (Some used, l')"
  obtains appAff sysAff where "wi_affinity wi = Some (appAff, sysAff)" "used \<noteq> 0" "used AND appAff = used"
    "used AND ucast (ConfigMgr_GetIntDefault ''UseProcessors'' 0 m :: u32) = used" "wi_set_affinity wi used"
proof -
  let ?a = "ConfigMgr_GetIntDefault ''UseProcessors'' 0 m :: u32"
  from assms obtain l2 where "Windows_processors wi env logChannel ?a l = Some (Some used, l2)"
    by (auto simp: Windows_SetProcessPriority_def Let_def split: Option.bind_splits if_splits)
  then obtain appAff sysAff where "wi_affinity wi = Some (appAff, sysAff)" "used = ucast ?a AND appAff" "used \<noteq> 0"
    "wi_set_affinity wi used"
    by (auto simp: Windows_processors_def Let_def split: Option.bind_splits option.splits if_splits)
  note u = this
  have "used AND appAff = used" unfolding u(2) by (simp only: and.assoc and.idem)
  moreover have "used AND ucast ?a = used" unfolding u(2) by (simp only: and.commute [of _ appAff] and.assoc and.idem)
  ultimately show thesis using u(1,3,4) by (intro that)
qed

section \<open>Failed checks\<close>

text \<open>
  \<^verbatim>\<open>Assert\<close>, \<^verbatim>\<open>Fatal\<close>, \<^verbatim>\<open>Error\<close> and \<^verbatim>\<open>Warning\<close>: the state with
  the message on the standard error, and whether the function returns. The first three write to a null
  pointer after it; the ten seconds \<^verbatim>\<open>Fatal\<close> waits before are left out.
\<close>

definition check_text :: "string \<Rightarrow> string \<Rightarrow> int \<Rightarrow> string \<Rightarrow> string \<Rightarrow> string" where
  "check_text title file line function message =
     [CHR 0x0A] @ file @ '':'' @ int_text line @ '' in '' @ function @ '' '' @ title @ '':'' @ [CHR 0x0A] @
     ''  '' @ message @ [CHR 0x0A]"

definition Trinity_Assert :: "string \<Rightarrow> int \<Rightarrow> string \<Rightarrow> string \<Rightarrow> log_io \<Rightarrow> log_io \<times> bool" where
  "Trinity_Assert file line function message w =
     (print_to False (check_text ''ASSERTION FAILED'' file line function message) w, False)"

definition Trinity_Fatal :: "string \<Rightarrow> int \<Rightarrow> string \<Rightarrow> string \<Rightarrow> log_io \<Rightarrow> log_io \<times> bool" where
  "Trinity_Fatal file line function message w =
     (print_to False (check_text ''FATAL ERROR'' file line function message) w, False)"

definition Trinity_Error :: "string \<Rightarrow> int \<Rightarrow> string \<Rightarrow> string \<Rightarrow> log_io \<Rightarrow> log_io \<times> bool" where
  "Trinity_Error file line function message w =
     (print_to False (check_text ''ERROR'' file line function message) w, False)"

definition Trinity_Warning :: "string \<Rightarrow> int \<Rightarrow> string \<Rightarrow> string \<Rightarrow> log_io \<Rightarrow> log_io \<times> bool" where
  "Trinity_Warning file line function message w =
     (print_to False (check_text ''WARNING'' file line function message) w, True)"

definition WPAssert :: "bool \<Rightarrow> string \<Rightarrow> string \<Rightarrow> int \<Rightarrow> string \<Rightarrow> log_io \<Rightarrow> log_io \<times> bool" where
  "WPAssert cond text file line function w =
     (if \<not> cond then Trinity_Assert file line function text w else (w, True))"

definition WPFatal :: "bool \<Rightarrow> string \<Rightarrow> string \<Rightarrow> int \<Rightarrow> string \<Rightarrow> log_io \<Rightarrow> log_io \<times> bool" where
  "WPFatal cond msg file line function w =
     (if \<not> cond then Trinity_Fatal file line function msg w else (w, True))"

definition WPError :: "bool \<Rightarrow> string \<Rightarrow> string \<Rightarrow> int \<Rightarrow> string \<Rightarrow> log_io \<Rightarrow> log_io \<times> bool" where
  "WPError cond msg file line function w =
     (if \<not> cond then Trinity_Error file line function msg w else (w, True))"

definition WPWarning :: "bool \<Rightarrow> string \<Rightarrow> string \<Rightarrow> int \<Rightarrow> string \<Rightarrow> log_io \<Rightarrow> log_io \<times> bool" where
  "WPWarning cond msg file line function w =
     (if \<not> cond then Trinity_Warning file line function msg w else (w, True))"

lemmas checks = WPAssert_def WPFatal_def WPError_def WPWarning_def Trinity_Assert_def Trinity_Fatal_def
  Trinity_Error_def Trinity_Warning_def

text \<open>A check that passes changes nothing; one that fails says so and, unless it is a warning, does not return.\<close>

lemma passed_checks:
  assumes "check \<in> {WPAssert, WPFatal, WPError, WPWarning}"
  shows "check True msg file line function w = (w, True)"
  using assms by (auto simp: checks)

lemma failed_checks:
  assumes "check \<in> {WPAssert, WPFatal, WPError, WPWarning}" "check False msg file line function w = (w', returns)"
  shows "returns \<longleftrightarrow> check = WPWarning" "io_stdout w' = io_stdout w" "io_files w' = io_files w"
    "\<exists>text. io_stderr w' = io_stderr w @ text \<and> text \<noteq> []"
proof -
  have differ: "WPAssert \<noteq> WPWarning" "WPFatal \<noteq> WPWarning" "WPError \<noteq> WPWarning"
    by (auto simp: fun_eq_iff checks)
  show "returns \<longleftrightarrow> check = WPWarning" using assms differ by (auto simp: checks)
  show "io_stdout w' = io_stdout w" "io_files w' = io_files w" "\<exists>text. io_stderr w' = io_stderr w @ text \<and> text \<noteq> []"
    using assms by (auto simp: checks print_to_def check_text_def)
qed

section \<open>The number of the process\<close>

definition CreatePIDFile :: "log_env \<Rightarrow> u32 \<Rightarrow> string \<Rightarrow> log_io \<Rightarrow> u32 \<times> log_io" where
  "CreatePIDFile env pid filename w =
     (case le_fopen env filename ''w'' (io_files w filename) of
        None \<Rightarrow> (0, w)
      | Some (contents, position) \<Rightarrow>
          (pid, append_to_file filename (digits (unat pid))
                  (w\<lparr>io_files := (io_files w)(filename := Some contents)\<rparr>)))"

text \<open>
  \<^verbatim>\<open>fopen\<close> with the mode \<^verbatim>\<open>w\<close> empties a file that exists: what is read back from the file is
  the number of the process, whatever was in it.
\<close>

lemma pid_file_read_back:
  assumes "le_fopen env filename ''w'' (io_files w filename) = Some ([], position)"
    and "CreatePIDFile env pid filename w = (r, w')"
  shows "r = pid" "map_option number_of (io_files w' filename) = Some (unat pid)"
    "\<forall>f. f \<noteq> filename \<longrightarrow> io_files w' f = io_files w f"
  using assms by (auto simp: CreatePIDFile_def append_to_file_def)

section \<open>Addresses of the internet\<close>

definition INADDR_NONE :: u32 where "INADDR_NONE = 0xFFFFFFFF"

definition IsIPAddress :: "(string \<Rightarrow> u32) \<Rightarrow> string option \<Rightarrow> bool" where
  "IsIPAddress inet_addr ipaddress =
     (case ipaddress of None \<Rightarrow> False | Some text \<Rightarrow> inet_addr text \<noteq> INADDR_NONE)"

text \<open>
  The address of a broadcast has all bits set, the same as the answer of \<^verbatim>\<open>inet_addr\<close> to a text that is
  no address.
\<close>

lemma broadcast_refused:
  assumes "inet_addr ''255.255.255.255'' = - 1"
  shows "\<not> IsIPAddress inet_addr (Some ''255.255.255.255'')"
  using assms by (simp add: IsIPAddress_def INADDR_NONE_def)

section \<open>Opcodes in the log\<close>

definition GetOpcodeNameForLogging :: "u16 \<Rightarrow> string" where
  "GetOpcodeNameForLogging opcode =
     ''['' @ LookupOpcodeName opcode @ '' 0x'' @ hex_number (unat opcode) @ '' ('' @ digits (unat opcode) @ '')]''"

text \<open>Two opcodes never look the same in the log, although all unknown ones have the same name.\<close>

lemma opcode_read_back:
  "number_of (rev (takeWhile isdigit (drop 2 (rev (GetOpcodeNameForLogging opcode))))) = unat opcode"
proof -
  have "takeWhile isdigit (rev (digits n) @ CHR ''('' # xs) = rev (digits n)" for n xs
  proof -
    have "\<not> isdigit (CHR ''('')" by (simp add: isdigit_def)
    then show ?thesis by (subst takeWhile_append2) (auto simp: digits_isdigit)
  qed
  then show ?thesis by (simp add: GetOpcodeNameForLogging_def)
qed

lemma opcodes_differ: "GetOpcodeNameForLogging a = GetOpcodeNameForLogging b \<longleftrightarrow> a = b"
proof
  assume "GetOpcodeNameForLogging a = GetOpcodeNameForLogging b"
  then have "unat a = unat b" using opcode_read_back [of a] opcode_read_back [of b] by simp
  then show "a = b" by (simp add: word_unat_eq_iff)
qed simp

end
