(* ===== verification/Spec2Isabelle.thy ===== *)
theory Spec2Isabelle
  imports ByteCodec Queues Sockets Cards Timers GameState Scores Player Table Leaving Room
    Matchmaking Sessions Handlers RoomUpdater Multimap Events Processor Text WideChars Flags
    Utf8 Unicode Config Appenders Logging WorldConfig Rng Containers PacketLog Unchecked
    Typing Server Dump Callbacks Service Startup Faults
    Symbols CrashReport Platform
begin

text \<open>
  The Landlord server: a card game server for three players to a table (\<^verbatim>\<open>src/server\<close>).

  \<^bold>\<open>The program.\<close> Clients connect over TCP and exchange framed packets with the server.
  \<^verbatim>\<open>shared/Networking\<close> reads and writes the frames, \<^verbatim>\<open>shared/Packets\<close>
  encodes and decodes their bodies. A connection's first packet, the login, creates a
  \<^verbatim>\<open>WorldSession\<close>, which the \<^verbatim>\<open>World\<close> updates in its loop: a session takes
  packets from its queue and calls the handler of their opcode, which changes the session's
  \<^verbatim>\<open>Player\<close>. The \<^verbatim>\<open>RoomManager\<close> updates the rooms at an interval, on worker
  threads of the \<^verbatim>\<open>RoomUpdater\<close>. A \<^verbatim>\<open>Room\<close> seats its waiting players at
  tables of three, with computers from the \<^verbatim>\<open>AiPlayerPool\<close> for those who wait too long,
  deals, and runs the state machine of every player: auction, play, round over, logout.

  \<^bold>\<open>The theories\<close>, in the order of their imports.
  \<^item> \<open>Prelude\<close>: widths of integers, sums of \<^verbatim>\<open>size_t\<close>, errors as values,
    little-endian bytes, overwriting a part of an array.
  \<^item> \<open>ByteBuffer\<close>, \<open>ByteCodec\<close> (\<^verbatim>\<open>ByteBuffer.h\<close>, \<^verbatim>\<open>WorldPacket.h\<close>,
    \<^verbatim>\<open>ByteConverter.h\<close>): the byte array with its two positions, and what is built on it. A
    locale states what a reader and a writer of a value promise each other; it is proved once that
    the promise passes on to counted sequences, and it is interpreted for integers and strings.
  \<^item> \<open>Queues\<close> (\<^verbatim>\<open>LockedQueue.h\<close>, \<^verbatim>\<open>ProducerConsumerQueue.h\<close>): both
    queues interpret one locale of first-in-first-out queues.
  \<^item> \<open>Sockets\<close> (\<^verbatim>\<open>MessageBuffer.h\<close>, \<^verbatim>\<open>Socket.h\<close>,
    \<^verbatim>\<open>WorldSocket\<close>, \<^verbatim>\<open>ServerPktHeader.h\<close>): reading in chunks, the write
    queue as an inductive relation with its invariant.
  \<^item> \<open>Cards\<close> (\<^verbatim>\<open>OutCardAI.cpp\<close>, \<^verbatim>\<open>Room::shuffleCard\<close>): card arrays
    ended by the byte 100. Reading past the end of an array is \<open>None\<close>.
  \<^item> \<open>Timers\<close> (\<^verbatim>\<open>Timer.h\<close>, \<^verbatim>\<open>Main.cpp\<close>): the timers, the sleep of the
    world loop.
  \<^item> \<open>GameState\<close> (\<^verbatim>\<open>Player.h\<close>, \<^verbatim>\<open>World.h\<close>,
    \<^verbatim>\<open>WorldSession.h\<close>): the data. Players, sessions and connections refer to each
    other, so they live in a store of addresses, one map per class; an access through a null or a
    dangling pointer is \<open>None\<close>, as is an exception no caller catches.
  \<^item> \<open>Scores\<close>, \<open>Player\<close> (\<^verbatim>\<open>Player.cpp\<close>): one definition per member
    function of the player, with the parts of the long ones named.
  \<^item> \<open>Table\<close>, \<open>Leaving\<close>: what the player's operations mean for three seats linked in
    a ring: the auction, the play, and the ways to leave.
  \<^item> \<open>Room\<close>, \<open>Matchmaking\<close> (\<^verbatim>\<open>Room.cpp\<close>,
    \<^verbatim>\<open>AiPlayerPool.cpp\<close>): the room, and the refinement of its match-making by the
    function that cuts a list into threes.
  \<^item> \<open>Sessions\<close>, \<open>Handlers\<close> (\<^verbatim>\<open>WorldSession.cpp\<close>, \<^verbatim>\<open>World.cpp\<close>,
    \<^verbatim>\<open>RoomManager.cpp\<close>, \<^verbatim>\<open>WorldSocket.cpp\<close>, \<^verbatim>\<open>Opcodes.cpp\<close>).
  \<^item> \<open>RoomUpdater\<close> (\<^verbatim>\<open>RoomUpdater.cpp\<close>): the scheduling thread and the workers as a
    step relation over all interleavings.
  \<^item> \<open>Multimap\<close>, \<open>Events\<close> (\<^verbatim>\<open>EventMap\<close> of \<^verbatim>\<open>Util.h\<close>),
    \<open>Processor\<close> (\<^verbatim>\<open>EventProcessor.cpp\<close>): the two schedulers. A locale states what a
    store of timed entries promises; \<^verbatim>\<open>std::multimap\<close> as a list sorted by the key, equal
    keys in the order of their insertion, interprets it.
  \<^item> \<open>Text\<close>, \<open>WideChars\<close>, \<open>Flags\<close> (\<^verbatim>\<open>Util.h\<close>, \<^verbatim>\<open>Util.cpp\<close>):
    tokens, times and money as text, hexadecimal dumps; classes and cases of characters; sets of 96
    flags, refined by words of 96 bits.
  \<^item> \<open>Utf8\<close> (\<^verbatim>\<open>dep/utf8cpp\<close>), \<open>Unicode\<close> (\<^verbatim>\<open>Util.cpp\<close>): decoding and encoding of
    UTF-8 and UTF-16, and the functions of the server on them. A locale of prefix codes gives the
    two loops as inverses of each other; it is interpreted for UTF-8 and for UTF-16. The reference
    are the octets of the Unicode standard, by division and remainder.
  \<^item> \<open>Unchecked\<close> (\<^verbatim>\<open>unchecked.h\<close>, the iterators of
    \<^verbatim>\<open>checked.h\<close>): on valid text the unchecked functions agree with the checked ones.
  \<^item> \<open>Config\<close>, \<open>WorldConfig\<close> (\<^verbatim>\<open>Config.cpp\<close>, \<^verbatim>\<open>World.cpp\<close>),
    \<open>Appenders\<close>, \<open>Logging\<close> (\<^verbatim>\<open>shared/Logging\<close>): the options and the settings of the
    world; consoles and files, loggers and the log. Appenders live in a store of addresses, because
    the log and the loggers share them; the invariant is that none of the pointers dangles.
  \<^item> \<open>Rng\<close> (\<^verbatim>\<open>dep/SFMT/SFMT.h\<close>, the random numbers of \<^verbatim>\<open>Util.cpp\<close>): the
    generator on registers of 128 bits, refined against its recurrence; \<open>Containers\<close>
    (\<^verbatim>\<open>Containers.h\<close>): the templates that draw from it. A locale states what they rely on, and
    the generator interprets it.
  \<^item> \<open>PacketLog\<close> (\<^verbatim>\<open>PacketLog.cpp\<close>): the file of packets, byte by byte, and a reader of it.
  \<^item> \<open>Typing\<close>: the shape of every object of the world, and that each operation of the players, rooms
    and sessions keeps it. The predicate carries a ghost function of the live sessions and their accounts.
  \<^item> \<open>Server\<close> (\<^verbatim>\<open>Main.cpp\<close>, \<^verbatim>\<open>World.cpp\<close>,
    \<^verbatim>\<open>AsyncAcceptor.h\<close>): the parts put together. \<open>main_start\<close> is \<^verbatim>\<open>main\<close> up
    to its loop; a run is any sequence of accepted connections, completed reads and writes with any
    bytes, signals, and turns of the world loop. The invariants of a run are the shapes of
    \<open>Typing\<close> and the books of the sessions: no session is lost and none is deleted twice.
  \<^item> \<open>Faults\<close>: packets of the game at the wrong time, and players that are freed while the
    room refers to them.
  \<^item> \<open>Dump\<close> (\<^verbatim>\<open>ByteBuffer.cpp\<close>), \<open>Callbacks\<close> (\<^verbatim>\<open>Callback.h\<close>),
    \<open>Service\<close> (\<^verbatim>\<open>ServiceWin32.cpp\<close>), \<open>Startup\<close> (\<^verbatim>\<open>Common.cpp\<close>,
    \<^verbatim>\<open>ProcessPriority.h\<close>): the text of exceptions and dumps, the stages of query callbacks,
    the server as a Windows service, the names of languages and the processors of the process.
  \<^item> \<open>Symbols\<close>, \<open>CrashReport\<close> (\<^verbatim>\<open>WheatyExceptionReport.cpp\<close>): the report of a crash under
    Windows. The dump of a variable follows its type and its pointers; the set of the symbols that have been
    printed makes it end, although nothing else does. The rest of the report is a text built from the
    answers of Windows.
  \<^item> \<open>Platform\<close> (\<^verbatim>\<open>AppenderConsole.cpp\<close>, \<^verbatim>\<open>ProcessPriority.h\<close>,
    \<^verbatim>\<open>Errors.cpp\<close>, \<^verbatim>\<open>Util.cpp\<close>): colors and processors under Windows, failed checks, the
    file with the number of the process, opcodes in the log.

  \<^bold>\<open>Bounds.\<close> Machine integers are words of their width; a signed overflow of a timer,
  undefined in C++, is \<open>None\<close>. Loops are structural or have a termination proof. The recursion
  of \<^verbatim>\<open>checkOutPlayer\<close> and \<^verbatim>\<open>checkRoundOver\<close> around a table has none in the code,
  so both are \<^theory_text>\<open>partial_function (option)\<close>; that they return is proved for the tables
  that occur. So is \<^verbatim>\<open>DumpTypeIndex\<close>; that it returns is proved for all symbols.

  \<^bold>\<open>Parameters.\<close> \<^verbatim>\<open>rand()\<close> is an arbitrary sequence of numbers, the clock an arbitrary
  sequence of readings, \<^verbatim>\<open>localtime_r\<close> and \<^verbatim>\<open>mktime\<close> are arguments. The contents
  of the two members of a player that no constructor sets are arbitrary. The results of the operating
  system's calls (files, the scheduler, the Windows service manager) are arguments of the operations
  that make them. A step that reaches undefined behaviour or an exception no caller catches is
  \<open>None\<close>; the invariants of a run hold up to there, and that such steps exist is proved where
  the code has them (\<open>packets_before_login\<close>, \<open>packet_after_logout_crashes\<close>,
  \<open>move_without_table_crashes\<close>, \<open>computer_freed_in_use\<close>, \<open>player_in_two_lists\<close>).

  \<^bold>\<open>Not modelled\<close>: Boost.Asio and Boost's property tree (parameters where they are used); the
  branches of the exception report for 32 bits, its minidump and the text after an exception inside the
  dump; the conversion between UTF-8 and the code page of a Windows console; what \<^verbatim>\<open>Util.h\<close> and
  \<^verbatim>\<open>Util.cpp\<close> compute with floating-point numbers (\<^verbatim>\<open>frand\<close>,
  \<^verbatim>\<open>rand_chance\<close>, the percentages): elsewhere a floating-point number is its bits.
\<close>

end
